(* ===== verification/Prelude.thy ===== *)
theory Prelude
  imports Main "HOL-Library.Word" "HOL-Library.AList"
begin

text \<open>
  Shared vocabulary of the development: the types that stand for Rust's primitive types, the
  standard-library string operations the sources call, JSON values, saturating counters, and the
  interface \<open>wire_enum\<close> that every enum with a string form implements.

  Conventions.
  \<^item> A Rust \<open>String\<close> or \<open>&str\<close> is the list of its Unicode scalar values, \<open>ustring\<close>;
    \<open>lit\<close> turns an ASCII literal into one. Equality, prefix and substring tests on scalar
    values agree with Rust's byte-level ones, because UTF-8 is self-synchronising.
  \<^item> A \<open>DateTime<Utc>\<close> is an \<open>instant\<close> (an integer count since the epoch) and a
    \<open>chrono::Duration\<close> a \<open>duration\<close> in the same unit: seconds, or milliseconds in the theories of the
    scheduler and the sweep, which say so. The database columns hold
    the RFC 3339 text of an instant in UTC, whose text order is the order of instants; the
    model stores the instant itself. The representable range of \<open>chrono\<close> is not modelled.
  \<^item> A JSON value (\<open>serde_json::Value\<close>) is a \<open>json\<close>; an object is an association list read
    by its first binding of a key.
  \<^item> A table is the list of its rows in insertion (rowid) order.
\<close>

named_theorems wire_simps \<open>string forms of the enums stored in columns and on the wire\<close>
named_theorems table_simps \<open>effects of the SQL statements\<close>

section \<open>Rust primitives\<close>

type_synonym uchar = nat
type_synonym ustring = "uchar list"
type_synonym instant = int
type_synonym duration = int

definition lit :: "string \<Rightarrow> ustring" where
  "lit s = map of_char s"

lemma lit_eq_iff [simp]: "lit s = lit t \<longleftrightarrow> s = t"
proof -
  have "inj (of_char :: char \<Rightarrow> nat)"
    by (auto simp: inj_def)
  then show ?thesis by (simp add: lit_def inj_map_eq_map)
qed

lemma lit_eq_Nil [simp]: "lit s = [] \<longleftrightarrow> s = []" "[] = lit s \<longleftrightarrow> s = []"
  by (simp_all add: lit_def)

text \<open>\<open>char::is_whitespace\<close>: the Unicode \<open>White_Space\<close> property.\<close>

definition is_whitespace :: "uchar \<Rightarrow> bool" where
  "is_whitespace c \<longleftrightarrow>
     (9 \<le> c \<and> c \<le> 13) \<or> c = 32 \<or> c = 133 \<or> c = 160 \<or> c = 5760 \<or> (8192 \<le> c \<and> c \<le> 8202) \<or>
     c = 8232 \<or> c = 8233 \<or> c = 8239 \<or> c = 8287 \<or> c = 12288"

definition is_ascii_digit :: "uchar \<Rightarrow> bool" where
  "is_ascii_digit c \<longleftrightarrow> 48 \<le> c \<and> c \<le> 57"

definition ascii_lower :: "uchar \<Rightarrow> uchar" where
  "ascii_lower c = (if 65 \<le> c \<and> c \<le> 90 then c + 32 else c)"

definition is_ascii_alphanumeric :: "uchar \<Rightarrow> bool" where
  "is_ascii_alphanumeric c \<longleftrightarrow>
     is_ascii_digit c \<or> (65 \<le> c \<and> c \<le> 90) \<or> (97 \<le> c \<and> c \<le> 122)"

text \<open>The decimal text of an unsigned integer, as \<open>Display\<close> writes it.\<close>

fun show_nat :: "nat \<Rightarrow> ustring" where
  "show_nat n = (if n < 10 then [48 + n] else show_nat (n div 10) @ [48 + n mod 10])"

declare show_nat.simps [simp del]

text \<open>The number a run of digits stands for.\<close>

definition digits_value :: "ustring \<Rightarrow> nat" where
  "digits_value ds = fold (\<lambda>d n. 10 * n + (d - 48)) ds 0"

lemma show_nat_digits: "c \<in> set (show_nat n) \<Longrightarrow> is_ascii_digit c"
proof (induction n rule: show_nat.induct)
  case (1 n)
  then show ?case
    by (subst (asm) show_nat.simps) (auto simp: is_ascii_digit_def split: if_splits)
qed

lemma digits_value_snoc: "digits_value (ds @ [d]) = 10 * digits_value ds + (d - 48)"
  by (simp add: digits_value_def)

lemma digits_value_show_nat: "digits_value (show_nat n) = n"
proof (induction n rule: show_nat.induct)
  case (1 n)
  show ?case
  proof (cases "n < 10")
    case True
    then show ?thesis by (subst show_nat.simps) (simp add: digits_value_def)
  next
    case False
    then show ?thesis
      using 1 by (subst show_nat.simps) (simp add: digits_value_snoc)
  qed
qed

text \<open>\<open>str::trim_start\<close>, \<open>str::trim_end\<close> and \<open>str::trim\<close>.\<close>

definition trim_start :: "ustring \<Rightarrow> ustring" where
  "trim_start s = dropWhile is_whitespace s"

definition trim_end :: "ustring \<Rightarrow> ustring" where
  "trim_end s = rev (dropWhile is_whitespace (rev s))"

definition trim :: "ustring \<Rightarrow> ustring" where
  "trim s = trim_end (trim_start s)"

lemma length_trim_end: "length (trim_end s) \<le> length s"
  by (metis trim_end_def length_dropWhile_le length_rev)

lemma filter_rev_dropWhile:
  "(\<And>c. is_whitespace c \<Longrightarrow> \<not> P c) \<Longrightarrow>
     filter P (rev (dropWhile is_whitespace (rev s))) = filter P s"
proof (induction s rule: rev_induct)
  case Nil
  then show ?case by simp
next
  case (snoc c s)
  then show ?case by auto
qed

lemma filter_trim_end:
  "(\<And>c. is_whitespace c \<Longrightarrow> \<not> P c) \<Longrightarrow> filter P (trim_end s) = filter P s"
  unfolding trim_end_def by (rule filter_rev_dropWhile)

text \<open>\<open>str::starts_with\<close>, \<open>str::find\<close> and \<open>str::contains\<close> on any kind of text.\<close>

fun starts_with :: "'a list \<Rightarrow> 'a list \<Rightarrow> bool" where
  "starts_with s [] = True"
| "starts_with [] (p # ps) = False"
| "starts_with (c # s) (p # ps) = (c = p \<and> starts_with s ps)"

fun find_sub :: "'a list \<Rightarrow> 'a list \<Rightarrow> nat option" where
  "find_sub p [] = (if p = [] then Some 0 else None)"
| "find_sub p (c # s) = (if starts_with (c # s) p then Some 0 else map_option Suc (find_sub p s))"

definition contains :: "'a list \<Rightarrow> 'a list \<Rightarrow> bool" where
  "contains s p \<longleftrightarrow> find_sub p s \<noteq> None"

text \<open>
  \<open>str::parse\<close> for an unsigned and a signed integer type with the given greatest value: an optional sign (\<open>-\<close>
  only for a signed type) and at least one digit.
\<close>

definition parse_digits :: "ustring \<Rightarrow> nat option" where
  "parse_digits ds = (if ds \<noteq> [] \<and> list_all is_ascii_digit ds then Some (digits_value ds) else None)"

definition parse_unsigned :: "nat \<Rightarrow> ustring \<Rightarrow> nat option" where
  "parse_unsigned greatest s =
     (case parse_digits (if starts_with s [43] then tl s else s) of
        Some n \<Rightarrow> if n \<le> greatest then Some n else None
      | None \<Rightarrow> None)"

definition parse_signed :: "nat \<Rightarrow> ustring \<Rightarrow> int option" where
  "parse_signed greatest s =
     (if starts_with s [45] then
        (case parse_digits (tl s) of
           Some n \<Rightarrow> if n \<le> Suc greatest then Some (- int n) else None
         | None \<Rightarrow> None)
      else map_option int (parse_unsigned greatest s))"

lemma starts_with_iff: "starts_with s p \<longleftrightarrow> (\<exists>r. s = p @ r)"
  by (induction s p rule: starts_with.induct) auto

lemma starts_with_append [simp]: "starts_with (p @ r) p"
  by (auto simp: starts_with_iff)

lemma starts_with_lit [simp]: "starts_with (lit s) (lit p) \<longleftrightarrow> starts_with s p"
proof (induction s p rule: starts_with.induct)
  case (3 c s p ps)
  then show ?case by (simp add: lit_def)
qed (simp_all add: lit_def)

lemma find_sub_SomeD: "find_sub p s = Some i \<Longrightarrow> \<exists>r. drop i s = p @ r \<and> i \<le> length s"
proof (induction s arbitrary: i)
  case Nil
  then show ?case by (auto split: if_splits)
next
  case (Cons c s)
  then show ?case by (auto simp: starts_with_iff split: if_splits)
qed

lemma find_sub_NoneD: "find_sub p s = None \<Longrightarrow> s \<noteq> l @ p @ r"
proof (induction s arbitrary: l)
  case Nil
  then show ?case by (auto split: if_splits)
next
  case (Cons c s)
  then have "\<not> starts_with (c # s) p" and "find_sub p s = None"
    by (auto split: if_splits)
  with Cons.IH show ?case
    by (cases l) (auto simp: starts_with_iff)
qed

lemma contains_iff: "contains s p \<longleftrightarrow> (\<exists>l r. s = l @ p @ r)"
proof
  assume "contains s p"
  then obtain i where "find_sub p s = Some i"
    by (auto simp: contains_def)
  then obtain r where r: "drop i s = p @ r"
    by (blast dest: find_sub_SomeD)
  have "s = take i s @ p @ r"
    by (metis append_take_drop_id r)
  then show "\<exists>l r. s = l @ p @ r" by blast
next
  assume "\<exists>l r. s = l @ p @ r"
  then show "contains s p"
    unfolding contains_def using find_sub_NoneD by blast
qed

text \<open>
  \<open>str::split\<close> on a character predicate (one piece more than separators),
  \<open>str::split_whitespace\<close> and \<open>str::split_once\<close> on a character.
\<close>

fun split_on :: "('a \<Rightarrow> bool) \<Rightarrow> 'a list \<Rightarrow> 'a list list" where
  "split_on p [] = [[]]"
| "split_on p (c # s) =
     (if p c then [] # split_on p s
      else (case split_on p s of [] \<Rightarrow> [[c]] | w # ws \<Rightarrow> (c # w) # ws))"

definition split_whitespace :: "ustring \<Rightarrow> ustring list" where
  "split_whitespace s = filter (\<lambda>w. w \<noteq> []) (split_on is_whitespace s)"

fun split_once :: "'a \<Rightarrow> 'a list \<Rightarrow> ('a list \<times> 'a list) option" where
  "split_once x [] = None"
| "split_once x (c # s) =
     (if c = x then Some ([], s) else map_option (\<lambda>(l, r). (c # l, r)) (split_once x s))"

lemma split_on_not_Nil [simp]: "split_on p s \<noteq> []"
  by (cases s) (auto split: list.splits)

lemma split_on_no_sep: "w \<in> set (split_on p s) \<Longrightarrow> c \<in> set w \<Longrightarrow> \<not> p c"
proof (induction s arbitrary: w)
  case Nil
  then show ?case by simp
next
  case (Cons d s)
  then show ?case
    by (cases "split_on p s") (force split: if_splits)+
qed

lemma split_whitespace_wordD:
  "w \<in> set (split_whitespace s) \<Longrightarrow> w \<noteq> [] \<and> (\<forall>c \<in> set w. \<not> is_whitespace c)"
  by (auto simp: split_whitespace_def dest: split_on_no_sep)

lemma split_on_single: "(\<forall>c \<in> set w. \<not> p c) \<Longrightarrow> split_on p w = [w]"
  by (induction w) auto

lemma split_whitespace_single:
  "w \<noteq> [] \<Longrightarrow> (\<forall>c \<in> set w. \<not> is_whitespace c) \<Longrightarrow> split_whitespace w = [w]"
  by (simp add: split_whitespace_def split_on_single)

lemma split_on_append_sep:
  "p x \<Longrightarrow> split_on p (a @ x # b) = split_on p a @ split_on p b"
proof (induction a)
  case (Cons c a)
  then show ?case
    by (cases "split_on p a") simp_all
qed simp

lemma split_whitespace_append:
  "is_whitespace x \<Longrightarrow> split_whitespace (a @ x # b) = split_whitespace a @ split_whitespace b"
  by (simp add: split_whitespace_def split_on_append_sep)

lemma split_whitespace_Nil [simp]: "split_whitespace [] = []"
  by (simp add: split_whitespace_def)

lemma split_whitespace_skip: "is_whitespace c \<Longrightarrow> split_whitespace (c # s) = split_whitespace s"
  by (simp add: split_whitespace_def)

lemma split_whitespace_snoc: "is_whitespace c \<Longrightarrow> split_whitespace (s @ [c]) = split_whitespace s"
  using split_whitespace_append [of c s "[]"] by simp

lemma split_whitespace_trim_start [simp]: "split_whitespace (trim_start s) = split_whitespace s"
  by (induction s) (auto simp: trim_start_def split_whitespace_skip)

lemma split_whitespace_trim_end [simp]: "split_whitespace (trim_end s) = split_whitespace s"
  by (induction s rule: rev_induct) (auto simp: trim_end_def split_whitespace_snoc)

lemma split_whitespace_trim [simp]: "split_whitespace (trim s) = split_whitespace s"
  by (simp add: trim_def)

lemma split_whitespace_word:
  assumes "w \<noteq> []" and "\<forall>c \<in> set w. \<not> is_whitespace c" and "r = [] \<or> is_whitespace (hd r)"
  shows "split_whitespace (w @ r) = w # split_whitespace r"
proof (cases r)
  case Nil
  with assms show ?thesis by (simp add: split_whitespace_single)
next
  case (Cons c r')
  with assms have "split_whitespace (w @ c # r') = split_whitespace w @ split_whitespace r'"
    by (simp add: split_whitespace_append)
  with assms Cons show ?thesis by (simp add: split_whitespace_single split_whitespace_skip)
qed

text \<open>The first word of a trimmed string is its front up to the first white space.\<close>

lemma trim_start_word:
  assumes "trim_start s \<noteq> []"
  shows "split_whitespace s =
    takeWhile (\<lambda>c. \<not> is_whitespace c) (trim_start s) # split_whitespace (dropWhile (\<lambda>c. \<not> is_whitespace c) (trim_start s))"
proof -
  let ?t = "trim_start s"
  have "\<not> is_whitespace (hd ?t)"
    using assms hd_dropWhile [of is_whitespace s] by (simp add: trim_start_def)
  then have "takeWhile (\<lambda>c. \<not> is_whitespace c) ?t \<noteq> []"
    using assms by (cases ?t) auto
  moreover have "dropWhile (\<lambda>c. \<not> is_whitespace c) ?t = [] \<or> is_whitespace (hd (dropWhile (\<lambda>c. \<not> is_whitespace c) ?t))"
    using hd_dropWhile [of "\<lambda>c. \<not> is_whitespace c" ?t] by blast
  ultimately have "split_whitespace (takeWhile (\<lambda>c. \<not> is_whitespace c) ?t @ dropWhile (\<lambda>c. \<not> is_whitespace c) ?t) =
      takeWhile (\<lambda>c. \<not> is_whitespace c) ?t # split_whitespace (dropWhile (\<lambda>c. \<not> is_whitespace c) ?t)"
    by (intro split_whitespace_word) (auto dest: set_takeWhileD)
  then show ?thesis by simp
qed

lemma trim_start_Nil_iff: "trim_start s = [] \<longleftrightarrow> (\<forall>c \<in> set s. is_whitespace c)"
  by (simp add: trim_start_def dropWhile_eq_Nil_conv)

lemma trim_end_eq_Nil_iff: "trim_end s = [] \<longleftrightarrow> (\<forall>c \<in> set s. is_whitespace c)"
  by (simp add: trim_end_def dropWhile_eq_Nil_conv)

lemma hd_trim_end: "trim_end s \<noteq> [] \<Longrightarrow> hd (trim_end s) = hd s"
proof (induction s rule: rev_induct)
  case (snoc c s)
  then show ?case
    by (cases "is_whitespace c"; cases s) (auto simp: trim_end_def hd_append)
qed (simp add: trim_end_def)

lemma trim_Nil_iff: "trim s = [] \<longleftrightarrow> trim_start s = []"
proof
  assume "trim s = []"
  then have "\<forall>c \<in> set (trim_start s). is_whitespace c"
    by (simp add: trim_def trim_end_eq_Nil_iff)
  then show "trim_start s = []"
    using hd_dropWhile [of is_whitespace s] hd_in_set [of "trim_start s"] by (metis trim_start_def)
qed (simp add: trim_def trim_end_def)

lemma hd_trim: "trim s \<noteq> [] \<Longrightarrow> hd (trim s) = hd (trim_start s)"
  by (simp add: trim_def hd_trim_end)

text \<open>A trimmed string starts with a character exactly when its first word does.\<close>

lemma trim_starts_with_char:
  assumes "\<not> is_whitespace c"
  shows "starts_with (trim s) [c] \<longleftrightarrow> (\<exists>w ws. split_whitespace s = w # ws \<and> hd w = c)"
proof (cases "trim s = []")
  case True
  then have "split_whitespace s = []"
    by (metis split_whitespace_Nil split_whitespace_trim)
  with True show ?thesis by simp
next
  case False
  then have ne: "trim_start s \<noteq> []"
    by (simp add: trim_Nil_iff)
  then have nw: "\<not> is_whitespace (hd (trim_start s))"
    using hd_dropWhile [of is_whitespace s] by (simp add: trim_start_def)
  have "starts_with (trim s) [c] \<longleftrightarrow> hd (trim s) = c"
    using False by (cases "trim s") auto
  also have "\<dots> \<longleftrightarrow> hd (takeWhile (\<lambda>c. \<not> is_whitespace c) (trim_start s)) = c"
    using False ne nw by (cases "trim_start s") (auto simp: hd_trim)
  finally show ?thesis
    using trim_start_word [OF ne] by simp
qed

lemma trim_end_blank:
  assumes "\<forall>c \<in> set w. \<not> is_whitespace c" and "\<forall>c \<in> set d. is_whitespace c"
  shows "trim_end (w @ d) = w"
proof -
  have "dropWhile is_whitespace (rev d @ rev w) = dropWhile is_whitespace (rev w)"
    using assms(2) by (intro dropWhile_append2) simp
  also have "\<dots> = rev w"
    using assms(1) by (intro dropWhile_eq_self_iff [THEN iffD2]) (metis hd_in_set set_rev)
  finally show ?thesis by (simp add: trim_end_def)
qed

text \<open>A string that is one word, up to white space around it.\<close>

lemma trim_single_word: "split_whitespace s = [w] \<Longrightarrow> trim s = w"
proof -
  assume one: "split_whitespace s = [w]"
  then have ne: "trim_start s \<noteq> []"
    by (metis list.distinct(1) split_whitespace_Nil split_whitespace_trim_start)
  let ?d = "dropWhile (\<lambda>c. \<not> is_whitespace c) (trim_start s)"
  have w: "w = takeWhile (\<lambda>c. \<not> is_whitespace c) (trim_start s)" "split_whitespace ?d = []"
    using trim_start_word [OF ne] one by simp_all
  have "trim_start ?d = []"
    using w(2) trim_start_word [of ?d] by (metis list.distinct(1))
  then have blank: "\<forall>c \<in> set ?d. is_whitespace c"
    using trim_start_Nil_iff [of ?d] by blast
  have "w \<noteq> []" "\<forall>c \<in> set w. \<not> is_whitespace c"
    using split_whitespace_wordD [of w s] one by simp_all
  then have "trim_end (w @ ?d) = w"
    using trim_end_blank [of w ?d] blank by blast
  then show ?thesis
    unfolding trim_def by (metis takeWhile_dropWhile_id w(1))
qed

lemma trim_no_whitespace: "\<forall>c \<in> set s. \<not> is_whitespace c \<Longrightarrow> trim s = s"
  by (cases "s = []")
    (simp add: trim_def trim_start_def trim_end_def, blast intro: trim_single_word split_whitespace_single)

lemma split_once_SomeD: "split_once x s = Some (l, r) \<Longrightarrow> s = l @ x # r \<and> x \<notin> set l"
  by (induction s arbitrary: l) (auto split: if_splits)

lemma split_once_append: "x \<notin> set l \<Longrightarrow> split_once x (l @ x # r) = Some (l, r)"
  by (induction l) auto

lemma split_once_None_iff: "split_once x s = None \<longleftrightarrow> x \<notin> set s"
  by (induction s) auto

text \<open>
  \<open>str::strip_prefix\<close>, \<open>str::split\<close> up to the first occurrence of a character, \<open>str::trim_matches\<close> with a
  character, and \<open>str::lines\<close> (split at line feeds, a final empty piece dropped, one trailing carriage
  return per line dropped).
\<close>

definition strip_prefix :: "ustring \<Rightarrow> ustring \<Rightarrow> ustring option" where
  "strip_prefix s p = (if starts_with s p then Some (drop (length p) s) else None)"

definition before_char :: "uchar \<Rightarrow> ustring \<Rightarrow> ustring" where
  "before_char c s = takeWhile (\<lambda>x. x \<noteq> c) s"

definition trim_matches :: "uchar \<Rightarrow> ustring \<Rightarrow> ustring" where
  "trim_matches c s = rev (dropWhile (\<lambda>x. x = c) (rev (dropWhile (\<lambda>x. x = c) s)))"

definition strip_cr :: "ustring \<Rightarrow> ustring" where
  "strip_cr l = (if l \<noteq> [] \<and> last l = 13 then butlast l else l)"

definition str_lines :: "ustring \<Rightarrow> ustring list" where
  "str_lines s =
     (let ls = split_on (\<lambda>c. c = 10) s
      in map strip_cr (if last ls = [] then butlast ls else ls))"

text \<open>The UTF-8 bytes of a string (\<open>str::as_bytes\<close>) and its length in bytes (\<open>str::len\<close>).\<close>

definition utf8_bytes :: "uchar \<Rightarrow> 8 word list" where
  "utf8_bytes c = map of_nat
     (if c < 128 then [c]
      else if c < 2048 then [192 + c div 64, 128 + c mod 64]
      else if c < 65536 then [224 + c div 4096, 128 + c div 64 mod 64, 128 + c mod 64]
      else [240 + c div 262144, 128 + c div 4096 mod 64, 128 + c div 64 mod 64, 128 + c mod 64])"

definition as_bytes :: "ustring \<Rightarrow> 8 word list" where
  "as_bytes s = concat (map utf8_bytes s)"

definition byte_len :: "ustring \<Rightarrow> nat" where
  "byte_len s = length (as_bytes s)"

lemma length_le_byte_len: "length s \<le> byte_len s"
proof (induction s)
  case Nil
  then show ?case by simp
next
  case (Cons c s)
  have "1 \<le> length (utf8_bytes c)"
    by (simp add: utf8_bytes_def)
  with Cons show ?case by (simp add: byte_len_def as_bytes_def)
qed

lemma as_bytes_ascii: "list_all (\<lambda>c. c < 128) s \<Longrightarrow> as_bytes s = map of_nat s"
  by (induction s) (simp_all add: as_bytes_def utf8_bytes_def)

text \<open>\<open>slice::chunks\<close>.\<close>

function chunks :: "nat \<Rightarrow> 'a list \<Rightarrow> 'a list list" where
  "chunks n xs = (if n = 0 \<or> xs = [] then [] else take n xs # chunks n (drop n xs))"
  by pat_completeness auto
termination
  by (relation "measure (\<lambda>(n, xs). length xs)") auto

declare chunks.simps [simp del]

lemma chunks_Nil [simp]: "chunks n [] = []"
  by (simp add: chunks.simps)

lemma chunks_append:
  "0 < n \<Longrightarrow> length xs = n \<Longrightarrow> chunks n (xs @ ys) = xs # chunks n ys"
  by (subst chunks.simps) auto

section \<open>JSON\<close>

datatype json =
    JNull
  | JBool bool
  | JNumber int
  | JString ustring
  | JArray "json list"
  | JObject "(ustring \<times> json) list"

text \<open>\<open>Value::get\<close> on a key, and \<open>Value::as_str\<close>.\<close>

definition json_get :: "json \<Rightarrow> ustring \<Rightarrow> json option" where
  "json_get v k = (case v of JObject kvs \<Rightarrow> map_of kvs k | _ \<Rightarrow> None)"

definition json_as_str :: "json \<Rightarrow> ustring option" where
  "json_as_str v = (case v of JString s \<Rightarrow> Some s | _ \<Rightarrow> None)"

text \<open>
  \<open>Map::insert\<close> and \<open>Map::remove\<close> on an object (nothing on another value), and \<open>Map::contains_key\<close>.
\<close>

definition json_insert :: "json \<Rightarrow> ustring \<Rightarrow> json \<Rightarrow> json" where
  "json_insert v k x = (case v of JObject kvs \<Rightarrow> JObject (AList.update k x kvs) | _ \<Rightarrow> v)"

definition json_remove :: "json \<Rightarrow> ustring \<Rightarrow> json" where
  "json_remove v k = (case v of JObject kvs \<Rightarrow> JObject (AList.delete k kvs) | _ \<Rightarrow> v)"

definition json_has_key :: "json \<Rightarrow> ustring \<Rightarrow> bool" where
  "json_has_key v k \<longleftrightarrow> json_get v k \<noteq> None"

definition json_is_object :: "json \<Rightarrow> bool" where
  "json_is_object v \<longleftrightarrow> (case v of JObject _ \<Rightarrow> True | _ \<Rightarrow> False)"

lemma json_get_insert [simp]:
  "json_is_object v \<Longrightarrow> json_get (json_insert v k x) j = (if j = k then Some x else json_get v j)"
  by (cases v) (auto simp: json_is_object_def json_insert_def json_get_def update_conv')

lemma json_get_remove [simp]: "json_get (json_remove v k) j = (if j = k then None else json_get v j)"
  by (cases v) (auto simp: json_remove_def json_get_def delete_conv')

lemma json_is_object_simps [simp]:
  "json_is_object (JObject kvs)" "json_is_object (json_insert v k x) = json_is_object v"
  "json_is_object (json_remove v k) = json_is_object v"
  by (cases v; simp add: json_is_object_def json_insert_def json_remove_def)+

section \<open>Saturating counters\<close>

text \<open>\<open>u32::saturating_add\<close>, with the 32-bit counter kept as a word.\<close>

definition saturating_succ32 :: "32 word \<Rightarrow> 32 word" where
  "saturating_succ32 n = (if n = - 1 then - 1 else n + 1)"

lemma unat_saturating_succ32:
  "unat (saturating_succ32 n) = min (Suc (unat n)) (2 ^ 32 - 1)"
proof (cases "n = - 1")
  case True
  then show ?thesis
    by (simp add: saturating_succ32_def unsigned_minus_1_eq_mask mask_eq_exp_minus_1)
next
  case False
  then have "1 + n \<noteq> 0"
    by (metis add.commute eq_neg_iff_add_eq_0)
  then have u: "unat (1 + n) = Suc (unat n)"
    by (rule unatSuc)
  have "unat (1 + n) < 2 ^ 32"
    using unsigned_less [of "1 + n"] by simp
  with u False show ?thesis by (simp add: saturating_succ32_def add.commute)
qed

lemma saturating_succ32_nonzero: "saturating_succ32 n \<noteq> 0"
proof -
  have "0 < unat (saturating_succ32 n)"
    by (simp add: unat_saturating_succ32)
  then show ?thesis by auto
qed

section \<open>Enums with a string form\<close>

text \<open>
  Most enums of the program are written to a database column or to JSON by \<open>as_str\<close> and read
  back by \<open>parse\<close> (or \<open>parse_str\<close>). The contract: reading back what was written gives the
  value, and nothing else reads as that value.
\<close>

locale wire_enum =
  fixes as_str :: "'e \<Rightarrow> ustring"
    and parse :: "ustring \<Rightarrow> 'e option"
  assumes parse_as_str: "parse (as_str e) = Some e"
    and parse_sound: "parse s = Some e \<Longrightarrow> as_str e = s"
begin

lemma as_str_eq_iff: "as_str a = as_str b \<longleftrightarrow> a = b"
  by (metis parse_as_str option.inject)

lemma parse_eq_Some_iff: "parse s = Some e \<longleftrightarrow> s = as_str e"
  using parse_as_str parse_sound by blast

lemma parse_eq_None_iff: "parse s = None \<longleftrightarrow> s \<notin> range as_str"
  by (metis parse_as_str parse_sound option.distinct(1) option.exhaust rangeE rangeI)

end

section \<open>Fallible operations on a state\<close>

text \<open>
  A function of the program that mutates shared state and returns a \<open>Result\<close> is a function from the state
  to a result and the new state. What was written before an error stays written, as in the program.
\<close>

type_synonym ('s, 'e, 'a) stateful = "'s \<Rightarrow> ('e + 'a) \<times> 's"

definition ret :: "'a \<Rightarrow> ('s, 'e, 'a) stateful" where
  "ret x = (\<lambda>s. (Inr x, s))"

definition throw :: "'e \<Rightarrow> ('s, 'e, 'a) stateful" where
  "throw e = (\<lambda>s. (Inl e, s))"

definition and_then :: "('s, 'e, 'a) stateful \<Rightarrow> ('a \<Rightarrow> ('s, 'e, 'b) stateful) \<Rightarrow> ('s, 'e, 'b) stateful" where
  "and_then m f = (\<lambda>s. case m s of (Inl e, s') \<Rightarrow> (Inl e, s') | (Inr x, s') \<Rightarrow> f x s')"

definition modify :: "('s \<Rightarrow> 's) \<Rightarrow> ('s, 'e, unit) stateful" where
  "modify f = (\<lambda>s. (Inr (), f s))"

definition reading :: "('s \<Rightarrow> ('s, 'e, 'a) stateful) \<Rightarrow> ('s, 'e, 'a) stateful" where
  "reading f = (\<lambda>s. f s s)"

text \<open>\<open>match m { ... }\<close>: the result of an operation, error or not, is inspected.\<close>

definition with_result :: "('s, 'e, 'a) stateful \<Rightarrow> ('e + 'a \<Rightarrow> ('s, 'f, 'b) stateful) \<Rightarrow> ('s, 'f, 'b) stateful" where
  "with_result m k = (\<lambda>s. case m s of (r, s') \<Rightarrow> k r s')"

text \<open>A loop over a list that collects the results and stops at the first error.\<close>

primrec traverse :: "('x \<Rightarrow> ('s, 'e, 'a) stateful) \<Rightarrow> 'x list \<Rightarrow> ('s, 'e, 'a list) stateful" where
  "traverse f [] = ret []"
| "traverse f (x # xs) = and_then (f x) (\<lambda>y. and_then (traverse f xs) (\<lambda>ys. ret (y # ys)))"

lemma and_then_cong [fundef_cong]:
  "m s = m' s \<Longrightarrow> (\<And>x s'. m' s = (Inr x, s') \<Longrightarrow> f x s' = f' x s') \<Longrightarrow> s = t \<Longrightarrow> and_then m f s = and_then m' f' t"
  by (auto simp: and_then_def split: sum.splits prod.splits)

lemma modify_then: "and_then (modify f) g s = g () (f s)"
  by (simp add: and_then_def modify_def)

lemma and_then_Inr:
  "and_then m f s = (Inr y, t) \<longleftrightarrow> (\<exists>x s'. m s = (Inr x, s') \<and> f x s' = (Inr y, t))"
  by (auto simp: and_then_def split: sum.splits prod.splits)

text \<open>
  A property of every run: \<open>always R m\<close> relates the state before, the result and the state after. For a
  reflexive and transitive relation on states it composes, which proves frame conditions and invariants of
  long operations step by step.
\<close>

definition always :: "('s \<Rightarrow> 's \<Rightarrow> bool) \<Rightarrow> ('s, 'e, 'a) stateful \<Rightarrow> bool" where
  "always R m \<longleftrightarrow> (\<forall>s. R s (snd (m s)))"

named_theorems always_intros \<open>composition of run properties\<close>

locale run_relation =
  fixes R :: "'s \<Rightarrow> 's \<Rightarrow> bool"
  assumes run_refl: "R s s"
    and run_trans: "R s t \<Longrightarrow> R t u \<Longrightarrow> R s u"
begin

lemma always_ret [always_intros]: "always R (ret x)"
  by (simp add: always_def ret_def run_refl)

lemma always_throw [always_intros]: "always R (throw e)"
  by (simp add: always_def throw_def run_refl)

lemma always_and_then [always_intros]: "always R m \<Longrightarrow> (\<And>x. always R (f x)) \<Longrightarrow> always R (and_then m f)"
  unfolding always_def and_then_def by (auto split: sum.splits prod.splits) (metis run_trans snd_conv)+

lemma run_and_then:
  "R s (snd (m s)) \<Longrightarrow> (\<And>x t. m s = (Inr x, t) \<Longrightarrow> R t (snd (f x t))) \<Longrightarrow> R s (snd (and_then m f s))"
  unfolding and_then_def by (auto split: sum.splits prod.splits) (metis run_trans)

lemma always_and_then_result:
  "always R m \<Longrightarrow> (\<And>s x t. m s = (Inr x, t) \<Longrightarrow> R t (snd (f x t))) \<Longrightarrow> always R (and_then m f)"
  unfolding always_def by (blast intro: run_and_then)

lemma always_with_result [always_intros]:
  "always R m \<Longrightarrow> (\<And>r. always R (k r)) \<Longrightarrow> always R (with_result m k)"
  unfolding always_def with_result_def by (auto split: prod.splits) (metis run_trans snd_conv)

lemma always_traverse [always_intros]: "(\<And>x. always R (f x)) \<Longrightarrow> always R (traverse f xs)"
  by (induction xs) (auto intro!: always_and_then always_ret)

lemma always_modify: "(\<And>s. R s (f s)) \<Longrightarrow> always R (modify f)"
  by (simp add: always_def modify_def)

lemma always_reading [always_intros]: "(\<And>s. always R (f s)) \<Longrightarrow> always R (reading f)"
  by (simp add: always_def reading_def)

lemma always_if [always_intros]: "always R m \<Longrightarrow> always R n \<Longrightarrow> always R (if b then m else n)"
  by simp

lemma always_option [always_intros]:
  "always R m \<Longrightarrow> (\<And>x. always R (f x)) \<Longrightarrow> always R (case opt of None \<Rightarrow> m | Some x \<Rightarrow> f x)"
  by (cases opt) simp_all

lemma always_sum [always_intros]:
  "(\<And>e. always R (f e)) \<Longrightarrow> (\<And>x. always R (g x)) \<Longrightarrow> always R (case r of Inl e \<Rightarrow> f e | Inr x \<Rightarrow> g x)"
  by (cases r) simp_all

lemma always_let [always_intros]: "always R (f x) \<Longrightarrow> always R (let y = x in f y)"
  by simp

lemma always_prod [always_intros]: "(\<And>x y. always R (f x y)) \<Longrightarrow> always R (case p of (x, y) \<Rightarrow> f x y)"
  by (cases p) simp

end

lemma find_Some_in: "find p xs = Some x \<Longrightarrow> x \<in> set xs \<and> p x"
  by (auto simp: find_Some_iff)

end
