(* ===== verification/Sql.thy ===== *)
theory Sql
  imports Prelude "HOL-Library.Multiset"
begin

text \<open>
  The SQL statements the storage crate issues, on tables that are lists of rows in insertion order:
  \<open>SELECT ... WHERE\<close>, \<open>MAX\<close>, \<open>COUNT\<close>, \<open>ORDER BY\<close>, \<open>LIMIT\<close>, \<open>UPDATE\<close>, \<open>DELETE\<close>; the error type
  of the crate (\<open>copperclaw-db/src/error.rs\<close>); and two contracts the tables implement: a primary key
  and a strictly increasing sequence of one parity.
\<close>

section \<open>Errors\<close>

text \<open>
  \<open>DbError\<close>. Of the SQLite failures only the violated constraint is distinguished, since the code
  branches on no other.
\<close>

datatype DbError = ConstraintViolation | NotFound | Invariant ustring

section \<open>Statements\<close>

definition sql_max :: "int list \<Rightarrow> int option" where
  "sql_max xs = (case xs of [] \<Rightarrow> None | x # ys \<Rightarrow> Some (fold max ys x))"

definition sql_limit :: "int \<Rightarrow> 'r list \<Rightarrow> 'r list" where
  "sql_limit n rs = (if n < 0 then rs else take (nat n) rs)"

definition sql_update :: "('r \<Rightarrow> bool) \<Rightarrow> ('r \<Rightarrow> 'r) \<Rightarrow> 'r list \<Rightarrow> nat \<times> 'r list" where
  "sql_update p f t = (length (filter p t), map (\<lambda>r. if p r then f r else r) t)"

definition sql_delete :: "('r \<Rightarrow> bool) \<Rightarrow> 'r list \<Rightarrow> nat \<times> 'r list" where
  "sql_delete p t = (length (filter p t), filter (\<lambda>r. \<not> p r) t)"

definition order_by :: "('r \<Rightarrow> int) \<Rightarrow> 'r list \<Rightarrow> 'r list" where
  "order_by f t = sort_key f t"

definition order_by_desc :: "('r \<Rightarrow> int) \<Rightarrow> 'r list \<Rightarrow> 'r list" where
  "order_by_desc f t = sort_key (\<lambda>r. - f r) t"

lemma sql_max_None_iff [simp]: "sql_max xs = None \<longleftrightarrow> xs = []"
  by (auto simp: sql_max_def split: list.splits)

lemma sql_max_SomeD: "sql_max xs = Some m \<Longrightarrow> m \<in> set xs \<and> (\<forall>x \<in> set xs. x \<le> m)"
proof (cases xs)
  case (Cons y ys)
  have "fold max ys y = Max (set (y # ys))"
    by (metis Max.set_eq_fold)
  moreover assume "sql_max xs = Some m"
  ultimately have "m = Max (set xs)"
    using Cons by (simp add: sql_max_def)
  with Cons show ?thesis
    by (metis List.finite_set Max_ge Max_in list.distinct(1) set_empty)
qed (simp add: sql_max_def)

lemma fst_sql_update_zero_iff [table_simps]:
  "fst (sql_update p f t) = 0 \<longleftrightarrow> (\<forall>r \<in> set t. \<not> p r)"
  by (auto simp: sql_update_def filter_empty_conv)

lemma map_sql_update [table_simps]:
  "(\<And>r. g (f r) = g r) \<Longrightarrow> map g (snd (sql_update p f t)) = map g t"
  by (simp add: sql_update_def)

lemma set_sql_update [table_simps]:
  "set (snd (sql_update p f t)) = (\<lambda>r. if p r then f r else r) ` set t"
  by (simp add: sql_update_def)

lemma set_order_by [simp]: "set (order_by f t) = set t" "set (order_by_desc f t) = set t"
  by (simp_all add: order_by_def order_by_desc_def)

lemma sort_key_strict:
  "sorted_wrt (<) (map f t) \<Longrightarrow> sort_key f t = t"
  by (simp add: sorted_sort_id sort_key_id_if_sorted strict_sorted_iff)

lemma find_append: "find p (xs @ ys) = (case find p xs of Some x \<Rightarrow> Some x | None \<Rightarrow> find p ys)"
  by (induction xs) auto

lemma find_update:
  "(\<And>r. key (f r) = key r) \<Longrightarrow>
     find (\<lambda>r. key r = j) (map (\<lambda>r. if key r = i then f r else r) t) =
     (if j = i then map_option f (find (\<lambda>r. key r = i) t) else find (\<lambda>r. key r = j) t)"
  by (induction t) auto

section \<open>A table with a primary key\<close>

text \<open>
  What a client relies on when it addresses a row by its key: the key selects at most one row, an
  update by key changes that row only, and an update of other columns keeps the keys.
\<close>

locale primary_key =
  fixes wf :: "'r list \<Rightarrow> bool"
    and key :: "'r \<Rightarrow> 'k"
  assumes wf_distinct: "wf t \<Longrightarrow> distinct (map key t)"
begin

lemma key_inj: "wf t \<Longrightarrow> r \<in> set t \<Longrightarrow> s \<in> set t \<Longrightarrow> key r = key s \<Longrightarrow> r = s"
  using wf_distinct by (metis distinct_map inj_onD)

lemma find_key: "wf t \<Longrightarrow> r \<in> set t \<Longrightarrow> find (\<lambda>s. key s = key r) t = Some r"
proof -
  assume a: "wf t" "r \<in> set t"
  then have "find (\<lambda>s. key s = key r) t \<noteq> None"
    by (auto simp: find_None_iff)
  then obtain s where s: "find (\<lambda>s. key s = key r) t = Some s"
    by auto
  then have "s \<in> set t" and "key s = key r"
    by (auto simp: find_Some_iff)
  with a have "s = r" by (blast intro: key_inj)
  with s show ?thesis by simp
qed

lemma filter_key: "wf t \<Longrightarrow> r \<in> set t \<Longrightarrow> filter (\<lambda>s. key s = key r) t = [r]"
proof -
  assume a: "wf t" "r \<in> set t"
  then have "set (filter (\<lambda>s. key s = key r) t) = {r}"
    using key_inj by auto
  moreover have "distinct (filter (\<lambda>s. key s = key r) t)"
    using wf_distinct [OF a(1)] by (simp add: distinct_map)
  ultimately show ?thesis
    by (cases "filter (\<lambda>s. key s = key r) t"; cases "tl (filter (\<lambda>s. key s = key r) t)") auto
qed

lemma update_one: "wf t \<Longrightarrow> r \<in> set t \<Longrightarrow> fst (sql_update (\<lambda>s. key s = key r) f t) = 1"
  by (simp add: sql_update_def filter_key)

end

section \<open>A sequence of one parity\<close>

text \<open>
  The host numbers inbound rows with even numbers and the container outbound rows with odd ones.
  The contract of one side: the next number is above every number given out and keeps the parity.
\<close>

locale parity_sequence =
  fixes wf :: "'r list \<Rightarrow> bool"
    and seq :: "'r \<Rightarrow> int"
    and next_seq :: "'r list \<Rightarrow> int"
    and odd_side :: bool
  assumes wf_strict: "wf t \<Longrightarrow> sorted_wrt (<) (map seq t)"
    and wf_parity: "wf t \<Longrightarrow> r \<in> set t \<Longrightarrow> odd (seq r) = odd_side"
    and next_above: "wf t \<Longrightarrow> r \<in> set t \<Longrightarrow> seq r < next_seq t"
    and next_parity: "wf t \<Longrightarrow> odd (next_seq t) = odd_side"
begin

lemma seq_inj: "wf t \<Longrightarrow> r \<in> set t \<Longrightarrow> s \<in> set t \<Longrightarrow> seq r = seq s \<Longrightarrow> r = s"
  using wf_strict by (metis distinct_map inj_onD strict_sorted_iff)

lemma order_by_seq: "wf t \<Longrightarrow> order_by seq (filter p t) = filter p t"
proof -
  assume "wf t"
  then have "sorted_wrt (<) (map seq (filter p t))"
    using wf_strict sorted_wrt_filter by (metis sorted_wrt_map)
  then show ?thesis by (simp add: order_by_def sort_key_strict)
qed

lemma order_by_desc_seq: "wf t \<Longrightarrow> order_by_desc seq (filter p t) = rev (filter p t)"
proof -
  assume "wf t"
  then have "sorted_wrt (<) (map seq (filter p t))"
    using wf_strict sorted_wrt_filter by (metis sorted_wrt_map)
  then have "sorted_wrt (\<lambda>x y. seq y < seq x) (rev (filter p t))"
    by (simp add: sorted_wrt_map sorted_wrt_rev)
  then have "sorted_wrt (\<lambda>x y. - seq x \<le> - seq y) (rev (filter p t))"
    by (rule sorted_wrt_mono_rel [rotated]) simp
  then have "sorted (map (\<lambda>r. - seq r) (rev (filter p t)))"
    by (simp add: sorted_wrt_map)
  moreover have "inj_on (\<lambda>r. - seq r) (set (filter p t))"
    using \<open>wf t\<close> by (intro inj_onI) (auto intro: seq_inj)
  ultimately have "sort_key (\<lambda>r. - seq r) (filter p t) = rev (filter p t)"
    by (intro sort_key_inj_key_eq) simp_all
  then show ?thesis by (simp add: order_by_desc_def)
qed

lemma append_strict: "wf t \<Longrightarrow> seq r = next_seq t \<Longrightarrow> sorted_wrt (<) (map seq (t @ [r]))"
  using wf_strict next_above by (auto simp: sorted_wrt_append)

end

section \<open>Upserts by a second key\<close>

text \<open>
  Several tables have a generated id and a second key by which \<open>upsert\<close> finds a row: the row is updated in
  place when there is one and inserted with a fresh id otherwise. The contract fixes the columns an update
  sets and the row an insert makes; from it follow that both keys stay unique and that a lookup by the
  second key returns the row of the last upsert.
\<close>

definition two_key_wf :: "('r \<Rightarrow> 'i) \<Rightarrow> ('r \<Rightarrow> 'k) \<Rightarrow> 'r list \<Rightarrow> bool" where
  "two_key_wf ident key t \<longleftrightarrow> distinct (map ident t) \<and> distinct (map key t)"

locale upsert_by_key =
  fixes ident :: "'r \<Rightarrow> 'i"
    and key :: "'r \<Rightarrow> 'k"
    and req_key :: "'q \<Rightarrow> 'k"
    and set_cols :: "'q \<Rightarrow> 'r \<Rightarrow> 'r"
    and new_row :: "'q \<Rightarrow> 'i \<Rightarrow> instant \<Rightarrow> 'r"
    and upsert :: "'r list \<Rightarrow> 'q \<Rightarrow> 'i \<Rightarrow> instant \<Rightarrow> DbError + ('r \<times> 'r list)"
  assumes upsert_eq:
    "upsert t q i now =
       (case find (\<lambda>r. key r = req_key q) t of
          Some r \<Rightarrow>
            (let t' = snd (sql_update (\<lambda>s. ident s = ident r) (set_cols q) t)
             in case find (\<lambda>s. ident s = ident r) t' of None \<Rightarrow> Inl NotFound | Some r' \<Rightarrow> Inr (r', t'))
        | None \<Rightarrow> if i \<in> ident ` set t then Inl ConstraintViolation else Inr (new_row q i now, t @ [new_row q i now]))"
    and ident_set: "ident (set_cols q r) = ident r"
    and key_set: "key (set_cols q r) = key r"
    and ident_new: "ident (new_row q i now) = i"
    and key_new: "key (new_row q i now) = req_key q"
begin

lemma find_by_key: "two_key_wf ident key t \<Longrightarrow> r \<in> set t \<Longrightarrow> find (\<lambda>s. key s = key r) t = Some r"
proof (induction t)
  case (Cons s t)
  then show ?case
    by (cases "s = r") (auto simp: two_key_wf_def)
qed simp

lemma upsert_existing:
  assumes "two_key_wf ident key t" and "r \<in> set t" and "key r = req_key q"
  shows "upsert t q i now = Inr (set_cols q r, map (\<lambda>s. if key s = key r then set_cols q s else s) t)"
proof -
  have found: "find (\<lambda>s. key s = req_key q) t = Some r"
    using find_by_key assms by metis
  have same: "ident s = ident r \<longleftrightarrow> key s = key r" if "s \<in> set t" for s
    using assms that by (metis two_key_wf_def distinct_map inj_onD)
  have upd: "snd (sql_update (\<lambda>s. ident s = ident r) (set_cols q) t) =
      map (\<lambda>s. if key s = key r then set_cols q s else s) t"
    using same by (auto simp: sql_update_def)
  have "find (\<lambda>s. ident s = ident r) t = Some r"
    using same found assms(3) by (metis (mono_tags, lifting) find_cong)
  then have "find (\<lambda>s. ident s = ident r) (map (\<lambda>s. if ident s = ident r then set_cols q s else s) t) =
      Some (set_cols q r)"
    by (simp add: find_update ident_set)
  moreover have "map (\<lambda>s. if ident s = ident r then set_cols q s else s) t =
      map (\<lambda>s. if key s = key r then set_cols q s else s) t"
    using same by auto
  ultimately show ?thesis
    by (simp add: upsert_eq found upd Let_def)
qed

lemma upsert_new:
  assumes "req_key q \<notin> key ` set t" and "upsert t q i now = Inr (r, t')"
  shows "r = new_row q i now" and "t' = t @ [r]" and "i \<notin> ident ` set t"
proof -
  have "find (\<lambda>s. key s = req_key q) t = None"
    using assms(1) by (force simp: find_None_iff)
  with assms(2) show "r = new_row q i now" "t' = t @ [r]" "i \<notin> ident ` set t"
    by (auto simp: upsert_eq split: if_splits)
qed

lemma upsert_wf: "two_key_wf ident key t \<Longrightarrow> upsert t q i now = Inr (r, t') \<Longrightarrow> two_key_wf ident key t'"
proof -
  assume wf: "two_key_wf ident key t" and up: "upsert t q i now = Inr (r, t')"
  show ?thesis
  proof (cases "req_key q \<in> key ` set t")
    case True
    then obtain s where s: "s \<in> set t" "key s = req_key q" by force
    have "t' = map (\<lambda>x. if key x = key s then set_cols q x else x) t"
      using upsert_existing [OF wf s] up by simp
    moreover have "map ident \<dots> = map ident t" and "map key \<dots> = map key t"
      by (simp_all add: ident_set key_set)
    ultimately show ?thesis
      using wf by (metis two_key_wf_def)
  next
    case False
    then show ?thesis
      using wf upsert_new [OF False up] by (simp add: two_key_wf_def ident_new key_new)
  qed
qed

lemma upsert_row:
  assumes wf: "two_key_wf ident key t" and up: "upsert t q i now = Inr (r, t')"
  shows "r = (case find (\<lambda>s. key s = req_key q) t of Some old \<Rightarrow> set_cols q old | None \<Rightarrow> new_row q i now)"
proof (cases "find (\<lambda>s. key s = req_key q) t")
  case None
  then show ?thesis using up by (auto simp: upsert_eq split: if_splits)
next
  case (Some old)
  then have "old \<in> set t" "key old = req_key q"
    by (auto simp: find_Some_iff)
  then show ?thesis
    using upsert_existing [OF wf] up Some by simp
qed

lemma upsert_set:
  assumes wf: "two_key_wf ident key t" and up: "upsert t q i now = Inr (r, t')"
  shows "set t' = insert r {s \<in> set t. key s \<noteq> req_key q}" and "key r = req_key q"
proof -
  have "set t' = insert r {s \<in> set t. key s \<noteq> req_key q} \<and> key r = req_key q"
  proof (cases "req_key q \<in> key ` set t")
    case True
    then obtain s where s: "s \<in> set t" "key s = req_key q" by force
    have uniq: "key x = req_key q \<longleftrightarrow> x = s" if "x \<in> set t" for x
      using wf that s by (metis two_key_wf_def distinct_map inj_onD)
    have "r = set_cols q s" and "t' = map (\<lambda>x. if key x = key s then set_cols q x else x) t"
      using upsert_existing [OF wf s] up by simp_all
    moreover have "(\<lambda>x. if key x = key s then set_cols q x else x) ` set t =
        (\<lambda>x. if x = s then set_cols q s else x) ` set t"
      using uniq s(2) by (intro image_cong) auto
    moreover have "\<dots> = insert (set_cols q s) {x \<in> set t. x \<noteq> s}"
      using s(1) by auto
    moreover have "{x \<in> set t. x \<noteq> s} = {x \<in> set t. key x \<noteq> req_key q}"
      using uniq by blast
    ultimately show ?thesis by (simp add: key_set s(2))
  next
    case False
    then have "{s \<in> set t. key s \<noteq> req_key q} = set t" by (force simp: image_iff)
    then show ?thesis using upsert_new [OF False up] by (simp add: key_new)
  qed
  then show "set t' = insert r {s \<in> set t. key s \<noteq> req_key q}" and "key r = req_key q" by auto
qed

lemma upsert_lookup:
  assumes wf: "two_key_wf ident key t" and up: "upsert t q i now = Inr (r, t')"
  shows "find (\<lambda>s. key s = k) t' = (if k = req_key q then Some r else find (\<lambda>s. key s = k) t)"
proof (cases "req_key q \<in> key ` set t")
  case True
  then obtain s where s: "s \<in> set t" "key s = req_key q" by force
  note ex = upsert_existing [OF wf s, of i now]
  have "find (\<lambda>x. key x = req_key q) t = Some s"
    using find_by_key [OF wf s(1)] s(2) by simp
  then show ?thesis
    using ex up s(2) by (auto simp: find_update key_set)
next
  case False
  then have "find (\<lambda>s. key s = req_key q) t = None"
    by (force simp: find_None_iff)
  then show ?thesis
    using upsert_new [OF False up] by (auto simp: find_append key_new split: option.splits)
qed

end

end
