(* ===== verification/Task_Grants.thy ===== *)
theory Task_Grants
  imports Sql
begin

text \<open>
  The human-approved, bounded authorisations of scheduled tasks
  (\<open>copperclaw-db/src/tables/task_grants.rs\<close>): the rows, their operations, the capability-scope
  matching and the read contract \<open>effective_grant\<close>. Budgets and counters are \<open>i64\<close> columns and stay
  far from the bounds of that type, so they are integers. The \<open>status\<close> column only ever holds the
  two texts of \<open>GrantStatus\<close>; the model stores the value. Where two grants of a task have the same
  \<open>created_at\<close> the database may return either first; the model returns the one inserted first.
\<close>

section \<open>Rows\<close>

datatype GrantStatus = Approved | Revoked

fun grant_status_as_str :: "GrantStatus \<Rightarrow> ustring" where
  "grant_status_as_str Approved = lit ''approved''"
| "grant_status_as_str Revoked = lit ''revoked''"

definition grant_status_from_str :: "ustring \<Rightarrow> GrantStatus option" where
  "grant_status_from_str s =
     (if s = lit ''approved'' then Some Approved
      else if s = lit ''revoked'' then Some Revoked
      else None)"

interpretation grant_status: wire_enum grant_status_as_str grant_status_from_str
proof
  show "grant_status_from_str (grant_status_as_str e) = Some e" for e
    by (cases e) (simp_all add: grant_status_from_str_def)
  show "grant_status_as_str e = s" if "grant_status_from_str s = Some e" for s e
    using that by (auto simp: grant_status_from_str_def split: if_splits)
qed

record TaskGrant =
  g_id :: ustring
  g_task_id :: ustring
  capability_scope :: ustring
  token_budget :: "int option"
  tokens_consumed :: int
  max_fires :: "int option"
  fires_consumed :: int
  expires_at :: "instant option"
  granted_by :: "ustring option"
  g_status :: GrantStatus
  approved_at :: "instant option"
  revoked_at :: "instant option"
  g_created_at :: instant
  g_updated_at :: instant

definition effective_status :: "TaskGrant \<Rightarrow> instant \<Rightarrow> ustring" where
  "effective_status g now =
     (if g_status g \<noteq> Approved \<or> revoked_at g \<noteq> None then lit ''revoked''
      else if (case expires_at g of Some e \<Rightarrow> now \<ge> e | None \<Rightarrow> False) then lit ''expired''
      else if (case token_budget g of Some b \<Rightarrow> tokens_consumed g \<ge> b | None \<Rightarrow> False)
        then lit ''exhausted''
      else if (case max_fires g of Some m \<Rightarrow> fires_consumed g \<ge> m | None \<Rightarrow> False)
        then lit ''exhausted''
      else lit ''live'')"

record NewTaskGrant =
  ng_id :: ustring
  ng_task_id :: ustring
  ng_capability_scope :: ustring
  ng_token_budget :: "int option"
  ng_max_fires :: "int option"
  ng_expires_at :: "instant option"
  ng_granted_by :: "ustring option"

record EffectiveGrant =
  eg_id :: ustring
  eg_task_id :: ustring
  eg_capability_scope :: ustring
  eg_token_budget :: "int option"
  eg_tokens_consumed :: int
  eg_max_fires :: "int option"
  eg_fires_consumed :: int
  eg_expires_at :: "instant option"
  eg_granted_by :: "ustring option"
  eg_approved_at :: "instant option"

section \<open>Capability scopes\<close>

text \<open>\<open>split_scope\<close>: only the first colon splits.\<close>

definition split_scope :: "ustring \<Rightarrow> ustring \<times> ustring option" where
  "split_scope token =
     (case split_once 58 token of Some (cls, res) \<Rightarrow> (cls, Some res) | None \<Rightarrow> (token, None))"

definition token_permits :: "ustring \<Rightarrow> ustring \<Rightarrow> bool" where
  "token_permits required token \<longleftrightarrow>
     (if token = required then True
      else let (tok_class, tok_res) = split_scope token
           in (tok_res = None \<or> tok_res = Some (lit ''*'')) \<and> tok_class = fst (split_scope required))"

definition scope_permits :: "ustring \<Rightarrow> ustring \<Rightarrow> bool" where
  "scope_permits scope required =
     (let required = trim required
      in if required = [] then False
         else list_ex (token_permits required) (split_whitespace scope))"

definition permits :: "EffectiveGrant \<Rightarrow> ustring \<Rightarrow> bool" where
  "permits g required = scope_permits (eg_capability_scope g) required"

definition tokens_remaining :: "EffectiveGrant \<Rightarrow> int option" where
  "tokens_remaining g = map_option (\<lambda>b. max (b - eg_tokens_consumed g) 0) (eg_token_budget g)"

definition fires_remaining :: "EffectiveGrant \<Rightarrow> int option" where
  "fires_remaining g = map_option (\<lambda>m. max (m - eg_fires_consumed g) 0) (eg_max_fires g)"

section \<open>Operations\<close>

text \<open>
  \<open>insert_approved\<close>: the row references a task, so the insert fails on an unknown task id as on a
  duplicate grant id. \<open>tasks\<close> are the ids of the \<open>tasks\<close> table.
\<close>

definition approved_row :: "NewTaskGrant \<Rightarrow> instant \<Rightarrow> TaskGrant" where
  "approved_row g now =
     \<lparr>g_id = ng_id g, g_task_id = ng_task_id g, capability_scope = ng_capability_scope g,
      token_budget = ng_token_budget g, tokens_consumed = 0, max_fires = ng_max_fires g,
      fires_consumed = 0, expires_at = ng_expires_at g, granted_by = ng_granted_by g,
      g_status = Approved, approved_at = Some now, revoked_at = None, g_created_at = now,
      g_updated_at = now\<rparr>"

definition insert_approved ::
  "ustring list \<Rightarrow> TaskGrant list \<Rightarrow> NewTaskGrant \<Rightarrow> instant \<Rightarrow> DbError + (TaskGrant \<times> TaskGrant list)" where
  "insert_approved tasks t g now =
     (if ng_id g \<in> g_id ` set t \<or> ng_task_id g \<notin> set tasks then Inl ConstraintViolation
      else Inr (approved_row g now, t @ [approved_row g now]))"

definition get_grant :: "TaskGrant list \<Rightarrow> ustring \<Rightarrow> TaskGrant option" where
  "get_grant t i = find (\<lambda>g. g_id g = i) t"

definition list_for_task :: "TaskGrant list \<Rightarrow> ustring \<Rightarrow> TaskGrant list" where
  "list_for_task t task = order_by_desc g_created_at (filter (\<lambda>g. g_task_id g = task) t)"

text \<open>\<open>list_with_tasks\<close>: the join with the owning task, of which three columns are read.\<close>

record TaskIdentity =
  ti_id :: ustring
  ti_name :: "ustring option"
  ti_agent_group_id :: ustring
  ti_session_id :: ustring

record GrantWithTask =
  gt_grant :: TaskGrant
  gt_task_name :: "ustring option"
  gt_agent_group_id :: ustring
  gt_session_id :: ustring

definition list_with_tasks ::
  "TaskGrant list \<Rightarrow> TaskIdentity list \<Rightarrow> ustring option \<Rightarrow> GrantWithTask list" where
  "list_with_tasks t tasks agent_group =
     concat (map (\<lambda>g. map (\<lambda>k. \<lparr>gt_grant = g, gt_task_name = ti_name k,
                            gt_agent_group_id = ti_agent_group_id k, gt_session_id = ti_session_id k\<rparr>)
         (filter (\<lambda>k. ti_id k = g_task_id g \<and>
            (case agent_group of Some ag \<Rightarrow> ti_agent_group_id k = ag | None \<Rightarrow> True)) tasks))
       (order_by_desc g_created_at t))"

definition revoke :: "TaskGrant list \<Rightarrow> ustring \<Rightarrow> instant \<Rightarrow> DbError + TaskGrant list" where
  "revoke t i now =
     (let (n, t') = sql_update (\<lambda>g. g_id g = i)
        (\<lambda>g. g\<lparr>g_status := Revoked, revoked_at := Some now, g_updated_at := now\<rparr>) t
      in if n = 0 then Inl NotFound else Inr t')"

definition consume_fire :: "TaskGrant list \<Rightarrow> ustring \<Rightarrow> instant \<Rightarrow> DbError + TaskGrant list" where
  "consume_fire t i now =
     (let (n, t') = sql_update (\<lambda>g. g_id g = i)
        (\<lambda>g. g\<lparr>fires_consumed := fires_consumed g + 1, g_updated_at := now\<rparr>) t
      in if n = 0 then Inl NotFound else Inr t')"

definition consume_tokens ::
  "TaskGrant list \<Rightarrow> ustring \<Rightarrow> int \<Rightarrow> instant \<Rightarrow> DbError + TaskGrant list" where
  "consume_tokens t i tokens now =
     (if tokens < 0 then Inl (Invariant (lit ''consume_tokens: `tokens` must be non-negative''))
      else let (n, t') = sql_update (\<lambda>g. g_id g = i)
             (\<lambda>g. g\<lparr>tokens_consumed := tokens_consumed g + tokens, g_updated_at := now\<rparr>) t
           in if n = 0 then Inl NotFound else Inr t')"

definition to_effective :: "TaskGrant \<Rightarrow> EffectiveGrant" where
  "to_effective g =
     \<lparr>eg_id = g_id g, eg_task_id = g_task_id g, eg_capability_scope = capability_scope g,
      eg_token_budget = token_budget g, eg_tokens_consumed = tokens_consumed g,
      eg_max_fires = max_fires g, eg_fires_consumed = fires_consumed g,
      eg_expires_at = expires_at g, eg_granted_by = granted_by g, eg_approved_at = approved_at g\<rparr>"

definition effective_grant :: "TaskGrant list \<Rightarrow> ustring \<Rightarrow> instant \<Rightarrow> EffectiveGrant option" where
  "effective_grant t task now =
     (case sql_limit 1 (order_by_desc g_created_at (filter (\<lambda>g. g_task_id g = task) t)) of
        [] \<Rightarrow> None
      | g # _ \<Rightarrow>
          if g_status g \<noteq> Approved \<or> revoked_at g \<noteq> None then None
          else if (case expires_at g of Some e \<Rightarrow> now \<ge> e | None \<Rightarrow> False) then None
          else if (case token_budget g of Some b \<Rightarrow> tokens_consumed g \<ge> b | None \<Rightarrow> False) then None
          else if (case max_fires g of Some m \<Rightarrow> fires_consumed g \<ge> m | None \<Rightarrow> False) then None
          else Some (to_effective g))"

section \<open>Spending a bounded allowance\<close>

text \<open>
  Both bounds of a grant are an allowance that is spent and never given back. The contract of one
  allowance of a row: spending adds to what is used, other updates leave it alone or add to it, and
  the limit is fixed at insert. What a client concludes: an exhausted allowance stays exhausted.
\<close>

definition exhausted :: "int option \<Rightarrow> int \<Rightarrow> bool" where
  "exhausted limit used \<longleftrightarrow> (case limit of Some l \<Rightarrow> used \<ge> l | None \<Rightarrow> False)"

locale allowance =
  fixes limit :: "'g \<Rightarrow> int option"
    and used :: "'g \<Rightarrow> int"
    and spend :: "int \<Rightarrow> instant \<Rightarrow> 'g \<Rightarrow> 'g"
  assumes limit_spend: "limit (spend n now g) = limit g"
    and used_spend: "used (spend n now g) = used g + n"
begin

lemma used_spends: "used (fold (\<lambda>(n, now). spend n now) ns g) = used g + sum_list (map fst ns)"
  by (induction ns arbitrary: g) (auto simp: used_spend)

lemma limit_spends: "limit (fold (\<lambda>(n, now). spend n now) ns g) = limit g"
  by (induction ns arbitrary: g) (auto simp: limit_spend)

lemma exhausted_spends_iff:
  "limit g = Some l \<Longrightarrow>
     exhausted (limit (fold (\<lambda>(n, now). spend n now) ns g)) (used (fold (\<lambda>(n, now). spend n now) ns g)) \<longleftrightarrow>
     used g + sum_list (map fst ns) \<ge> l"
  by (simp add: used_spends limit_spends exhausted_def)

lemma exhausted_stays:
  "0 \<le> n \<Longrightarrow> exhausted (limit g) (used g) \<Longrightarrow> exhausted (limit (spend n now g)) (used (spend n now g))"
  by (auto simp: exhausted_def limit_spend used_spend split: option.splits)

end

definition spend_fires :: "int \<Rightarrow> instant \<Rightarrow> TaskGrant \<Rightarrow> TaskGrant" where
  "spend_fires n now g = g\<lparr>fires_consumed := fires_consumed g + n, g_updated_at := now\<rparr>"

definition spend_tokens :: "int \<Rightarrow> instant \<Rightarrow> TaskGrant \<Rightarrow> TaskGrant" where
  "spend_tokens n now g = g\<lparr>tokens_consumed := tokens_consumed g + n, g_updated_at := now\<rparr>"

definition revoke_row :: "instant \<Rightarrow> TaskGrant \<Rightarrow> TaskGrant" where
  "revoke_row now g = g\<lparr>g_status := Revoked, revoked_at := Some now, g_updated_at := now\<rparr>"

interpretation fires: allowance max_fires fires_consumed spend_fires
  by unfold_locales (simp_all add: spend_fires_def)

interpretation tokens: allowance token_budget tokens_consumed spend_tokens
  by unfold_locales (simp_all add: spend_tokens_def)

section \<open>Liveness\<close>

definition grant_live :: "TaskGrant \<Rightarrow> instant \<Rightarrow> bool" where
  "grant_live g now \<longleftrightarrow>
     g_status g = Approved \<and> revoked_at g = None \<and>
     (case expires_at g of Some e \<Rightarrow> now < e | None \<Rightarrow> True) \<and>
     \<not> exhausted (token_budget g) (tokens_consumed g) \<and> \<not> exhausted (max_fires g) (fires_consumed g)"

lemma effective_status_live_iff: "effective_status g now = lit ''live'' \<longleftrightarrow> grant_live g now"
  by (auto simp: effective_status_def grant_live_def exhausted_def split: option.splits)

lemma effective_grant_eq:
  "effective_grant t task now =
     (case list_for_task t task of
        [] \<Rightarrow> None
      | g # _ \<Rightarrow> if grant_live g now then Some (to_effective g) else None)"
  by (auto simp: effective_grant_def list_for_task_def grant_live_def exhausted_def sql_limit_def
      split: list.splits option.splits)

lemma not_live_later: "\<not> grant_live g now \<Longrightarrow> now \<le> now' \<Longrightarrow> \<not> grant_live g now'"
  by (auto simp: grant_live_def split: option.splits)

lemma not_live_spend:
  "\<not> grant_live g now \<Longrightarrow> 0 \<le> n \<Longrightarrow> \<not> grant_live (spend_fires n at g) now"
  "\<not> grant_live g now \<Longrightarrow> 0 \<le> n \<Longrightarrow> \<not> grant_live (spend_tokens n at g) now"
  using fires.exhausted_stays [of n g at] tokens.exhausted_stays [of n g at]
  by (auto simp: grant_live_def spend_fires_def spend_tokens_def)

lemma not_live_revoke: "\<not> grant_live (revoke_row at g) now"
  by (simp add: grant_live_def revoke_row_def)

section \<open>Steps on the table\<close>

lemma grant_update_eqs:
  "revoke t i now = Inr t' \<Longrightarrow> t' = map (\<lambda>g. if g_id g = i then revoke_row now g else g) t"
  "consume_fire t i now = Inr t' \<Longrightarrow> t' = map (\<lambda>g. if g_id g = i then spend_fires 1 now g else g) t"
  "consume_tokens t i n now = Inr t' \<Longrightarrow>
     0 \<le> n \<and> t' = map (\<lambda>g. if g_id g = i then spend_tokens n now g else g) t"
  by (auto simp: revoke_def consume_fire_def consume_tokens_def sql_update_def revoke_row_def
      spend_fires_def spend_tokens_def split: if_splits)

lemma row_update_simps [simp]:
  "g_id (revoke_row now g) = g_id g" "g_id (spend_fires n now g) = g_id g"
  "g_id (spend_tokens n now g) = g_id g"
  by (simp_all add: revoke_row_def spend_fires_def spend_tokens_def)

inductive grant_step :: "TaskGrant list \<Rightarrow> TaskGrant list \<Rightarrow> bool" where
  insert: "insert_approved tasks t g now = Inr (r, t') \<Longrightarrow> grant_step t t'"
| revoke: "revoke t i now = Inr t' \<Longrightarrow> grant_step t t'"
| fire: "consume_fire t i now = Inr t' \<Longrightarrow> grant_step t t'"
| tokens: "consume_tokens t i n now = Inr t' \<Longrightarrow> grant_step t t'"

lemma find_grant_insert:
  "insert_approved tasks t g now = Inr (r, t') \<Longrightarrow> get_grant t i = Some x \<Longrightarrow> get_grant t' i = Some x"
  by (auto simp: insert_approved_def get_grant_def find_append split: if_splits)

lemma grant_step_not_live:
  "grant_step t t' \<Longrightarrow> get_grant t i = Some g \<Longrightarrow> \<not> grant_live g now \<Longrightarrow>
     \<exists>g'. get_grant t' i = Some g' \<and> \<not> grant_live g' now"
proof (induction rule: grant_step.induct)
  case (insert tasks t g' at r t')
  then show ?case by (blast dest: find_grant_insert)
next
  case (revoke t j at t')
  then show ?case
    by (auto simp: get_grant_def find_update not_live_revoke dest!: grant_update_eqs(1))
next
  case (fire t j at t')
  then show ?case
    by (auto simp: get_grant_def find_update not_live_spend dest!: grant_update_eqs(2))
next
  case (tokens t j n at t')
  then show ?case
    by (auto simp: get_grant_def find_update not_live_spend dest!: grant_update_eqs(3))
qed

lemma grant_steps_not_live:
  "grant_step\<^sup>*\<^sup>* t u \<Longrightarrow> get_grant t i = Some g \<Longrightarrow> \<not> grant_live g now \<Longrightarrow>
     \<exists>g'. get_grant u i = Some g' \<and> \<not> grant_live g' now"
  by (induction rule: rtranclp_induct) (auto dest: grant_step_not_live)

section \<open>Scope matching\<close>

lemma scope_permits_union:
  "is_whitespace x \<Longrightarrow>
     scope_permits (a @ x # b) required \<longleftrightarrow> scope_permits a required \<or> scope_permits b required"
  by (simp add: scope_permits_def split_whitespace_append Let_def)

definition scope_token :: "ustring \<Rightarrow> bool" where
  "scope_token w \<longleftrightarrow> w \<noteq> [] \<and> (\<forall>c \<in> set w. \<not> is_whitespace c)"

lemma scope_permits_token:
  "scope_token w \<Longrightarrow> scope_permits w required \<longleftrightarrow> trim required \<noteq> [] \<and> token_permits (trim required) w"
  by (simp add: scope_permits_def scope_token_def split_whitespace_single Let_def)

lemma split_scope_class: "58 \<notin> set cls \<Longrightarrow> split_scope cls = (cls, None)"
  by (simp add: split_scope_def split_once_None_iff [THEN iffD2])

lemma split_scope_resource: "58 \<notin> set cls \<Longrightarrow> split_scope (cls @ 58 # res) = (cls, Some res)"
  by (simp add: split_scope_def split_once_append)

section \<open>A fresh grant\<close>

lemma sort_key_head:
  assumes "y \<in> set zs" and "\<And>z. z \<in> set zs \<Longrightarrow> z \<noteq> y \<Longrightarrow> (k y :: int) < k z"
  shows "\<exists>rest. sort_key k zs = y # rest"
proof (cases "sort_key k zs")
  case Nil
  then show ?thesis using assms(1) by (metis empty_iff list.set(1) set_sort)
next
  case (Cons z rest)
  have "z \<in> set zs"
    using Cons by (metis list.set_intros(1) set_sort)
  moreover have "\<forall>x \<in> set rest. k z \<le> k x"
    using Cons sorted_sort_key [of k zs] by simp
  moreover have "y \<in> insert z (set rest)"
    using Cons assms(1) by (metis list.simps(15) set_sort)
  ultimately have "z = y"
    using assms(2) by fastforce
  with Cons show ?thesis by simp
qed

lemma newest_grant:
  assumes "\<And>x. x \<in> set t \<Longrightarrow> g_task_id x = g_task_id y \<Longrightarrow> g_created_at x < g_created_at y"
  shows "\<exists>rest. list_for_task (t @ [y]) (g_task_id y) = y # rest"
  unfolding list_for_task_def order_by_desc_def
  by (rule sort_key_head) (use assms in auto)

text \<open>\<open>consume_fire\<close> once per firing, at the given times.\<close>

fun consume_fires :: "TaskGrant list \<Rightarrow> ustring \<Rightarrow> instant list \<Rightarrow> DbError + TaskGrant list" where
  "consume_fires t i [] = Inr t"
| "consume_fires t i (now # nows) =
     (case consume_fire t i now of Inl e \<Rightarrow> Inl e | Inr t' \<Rightarrow> consume_fires t' i nows)"

lemma consume_fire_last:
  "g_id y \<notin> g_id ` set t \<Longrightarrow> consume_fire (t @ [y]) (g_id y) now = Inr (t @ [spend_fires 1 now y])"
  by (auto simp: consume_fire_def sql_update_def spend_fires_def image_iff intro!: map_idI)

lemma consume_fires_last:
  "g_id y \<notin> g_id ` set t \<Longrightarrow>
     consume_fires (t @ [y]) (g_id y) nows =
     Inr (t @ [fold (\<lambda>(n, now). spend_fires n now) (map (\<lambda>now. (1, now)) nows) y])"
proof (induction nows arbitrary: y)
  case (Cons now nows)
  then show ?case
    using Cons.IH [of "spend_fires 1 now y"] by (simp add: consume_fire_last)
qed simp

lemma fold_spend_fires_simps:
  "g_task_id (fold (\<lambda>(n, now). spend_fires n now) ns y) = g_task_id y"
  "g_created_at (fold (\<lambda>(n, now). spend_fires n now) ns y) = g_created_at y"
  "g_status (fold (\<lambda>(n, now). spend_fires n now) ns y) = g_status y"
  "revoked_at (fold (\<lambda>(n, now). spend_fires n now) ns y) = revoked_at y"
  "expires_at (fold (\<lambda>(n, now). spend_fires n now) ns y) = expires_at y"
  "token_budget (fold (\<lambda>(n, now). spend_fires n now) ns y) = token_budget y"
  "tokens_consumed (fold (\<lambda>(n, now). spend_fires n now) ns y) = tokens_consumed y"
  by (induction ns arbitrary: y) (auto simp: spend_fires_def)

lemma sum_list_ones: "sum_list (map fst (map (\<lambda>now. (1 :: int, now)) nows)) = int (length nows)"
  by (induction nows) auto

section \<open>Properties of the grants\<close>

text \<open>
  The read contract: the gate the runner relies on (\<open>effective_grant\<close>) and the status shown to the
  operator (\<open>effective_status\<close>) agree. A task has an effective grant exactly when the newest of its
  grants is reported live; an older grant is never used instead.
\<close>

theorem effective_grant_is_newest_live:
  "effective_grant t task now =
     (case list_for_task t task of
        [] \<Rightarrow> None
      | g # _ \<Rightarrow> if effective_status g now = lit ''live'' then Some (to_effective g) else None)"
  by (simp add: effective_grant_eq effective_status_live_iff split: list.splits)

text \<open>
  C33: Authority never comes back: a grant that is revoked, expired or exhausted at some time is
  inert at every later time, after any sequence of inserts, revocations, fires and token charges on
  the table.
\<close>

theorem inert_grant_stays_inert:
  assumes "get_grant t i = Some g" and "effective_status g now \<noteq> lit ''live''"
    and "grant_step\<^sup>*\<^sup>* t u" and "now \<le> now'"
  shows "\<exists>g'. get_grant u i = Some g' \<and> effective_status g' now' \<noteq> lit ''live''"
proof -
  obtain g' where "get_grant u i = Some g'" and "\<not> grant_live g' now"
    using grant_steps_not_live [OF assms(3,1)] assms(2) by (auto simp: effective_status_live_iff)
  with assms(4) show ?thesis
    by (auto simp: effective_status_live_iff dest: not_live_later)
qed

definition sample_grant :: NewTaskGrant where
  "sample_grant =
     \<lparr>ng_id = lit ''g1'', ng_task_id = lit ''t1'', ng_capability_scope = lit ''send_message:telegram'',
      ng_token_budget = None, ng_max_fires = Some 2, ng_expires_at = Some 100,
      ng_granted_by = None\<rparr>"

theorem inert_grant_stays_inert_witness:
  "\<exists>g'. get_grant [revoke_row 5 (approved_row sample_grant 1)] (lit ''g1'') = Some g' \<and>
     effective_status g' 7 \<noteq> lit ''live''"
  using inert_grant_stays_inert [of "[revoke_row 5 (approved_row sample_grant 1)]" "lit ''g1''"
      "revoke_row 5 (approved_row sample_grant 1)" 5 "[revoke_row 5 (approved_row sample_grant 1)]" 7]
  by (simp add: get_grant_def revoke_row_def approved_row_def sample_grant_def effective_status_def)

text \<open>
  A fresh grant with \<open>max_fires = m\<close> supersedes every earlier grant of its task and authorises
  exactly \<open>m\<close> fires: after \<open>k\<close> recorded fires the task has an effective grant (this one, at any time
  before its expiry) exactly when \<open>k < m\<close>.
\<close>

theorem fresh_grant_authorises_max_fires:
  assumes "insert_approved tasks t g created = Inr (row, t')"
    and "\<forall>x \<in> set t. g_task_id x = ng_task_id g \<longrightarrow> g_created_at x < created"
    and "ng_max_fires g = Some m" and "ng_token_budget g = None \<or> ng_token_budget g = Some b \<and> 0 < b"
    and "ng_expires_at g = None \<or> ng_expires_at g = Some e \<and> now < e"
  shows "\<exists>u. consume_fires t' (ng_id g) nows = Inr u \<and>
    (if int (length nows) < m
     then \<exists>eg. effective_grant u (ng_task_id g) now = Some eg \<and> eg_id eg = ng_id g
     else effective_grant u (ng_task_id g) now = None)"
proof -
  let ?y = "fold (\<lambda>(n, now). spend_fires n now) (map (\<lambda>now. (1, now)) nows) (approved_row g created)"
  let ?u = "t @ [?y]"
  have t': "t' = t @ [approved_row g created]" and fresh: "ng_id g \<notin> g_id ` set t"
    using assms(1) by (auto simp: insert_approved_def split: if_splits)
  have u: "consume_fires t' (ng_id g) nows = Inr ?u"
    using consume_fires_last [of "approved_row g created" t nows] fresh
    by (simp add: t' approved_row_def)
  have id: "g_id ?y = ng_id g" and task: "g_task_id ?y = ng_task_id g"
    by (induction nows rule: rev_induct) (simp_all add: approved_row_def spend_fires_def)
  obtain rest where "list_for_task ?u (ng_task_id g) = ?y # rest"
    using newest_grant [of t ?y] assms(2)
    by (auto simp: task fold_spend_fires_simps approved_row_def)
  moreover have "exhausted (max_fires ?y) (fires_consumed ?y) \<longleftrightarrow> m \<le> int (length nows)"
    using fires.exhausted_spends_iff [of "approved_row g created" m "map (\<lambda>now. (1, now)) nows"]
    unfolding sum_list_ones using assms(3) by (simp add: approved_row_def)
  then have "grant_live ?y now \<longleftrightarrow> int (length nows) < m"
    using assms(4,5) unfolding grant_live_def fold_spend_fires_simps
    by (auto simp: approved_row_def exhausted_def)
  ultimately have "effective_grant ?u (ng_task_id g) now =
      (if int (length nows) < m then Some (to_effective ?y) else None)"
    by (simp add: effective_grant_eq)
  with u id show ?thesis by (simp add: to_effective_def)
qed

theorem fresh_grant_authorises_max_fires_witness:
  "\<exists>u. consume_fires [approved_row sample_grant 1] (lit ''g1'') [3, 4] = Inr u \<and>
     effective_grant u (lit ''t1'') 5 = None"
  using fresh_grant_authorises_max_fires [of "[lit ''t1'']" "[]" sample_grant 1 "approved_row sample_grant 1"
      "[approved_row sample_grant 1]" 2 0 100 5 "[3, 4]"]
  by (simp add: insert_approved_def sample_grant_def)

text \<open>
  Scope matching follows the documented grammar. A token narrowed to a resource permits exactly
  that capability; a bare class and its wildcard form permit exactly the capabilities of the class;
  several tokens permit what any of them permits; no token permits the empty capability.
\<close>

theorem scope_matching_rules:
  assumes "scope_token cls" and "58 \<notin> set cls" and "scope_token (cls @ 58 # res)" and "res \<noteq> lit ''*''"
    and "is_whitespace x"
  shows "(scope_permits (cls @ 58 # res) required \<longleftrightarrow> trim required = cls @ 58 # res) \<and>
    (scope_permits cls required \<longleftrightarrow> trim required \<noteq> [] \<and> fst (split_scope (trim required)) = cls) \<and>
    scope_permits (cls @ lit '':*'') required = scope_permits cls required \<and>
    (scope_permits (s1 @ x # s2) required \<longleftrightarrow> scope_permits s1 required \<or> scope_permits s2 required) \<and>
    \<not> scope_permits [] required"
proof -
  have star: "cls @ lit '':*'' = cls @ 58 # lit ''*''" "scope_token (cls @ 58 # lit ''*'')"
    using assms(1) by (auto simp: lit_def scope_token_def is_whitespace_def)
  have "scope_permits (cls @ 58 # res) required \<longleftrightarrow> trim required = cls @ 58 # res"
    using assms(2-4) by (auto simp: scope_permits_token token_permits_def split_scope_resource)
  moreover have cls: "scope_permits cls required \<longleftrightarrow>
      trim required \<noteq> [] \<and> fst (split_scope (trim required)) = cls"
    using assms(1,2) by (auto simp: scope_permits_token token_permits_def split_scope_class)
  moreover have "scope_permits (cls @ lit '':*'') required = scope_permits cls required"
    unfolding star(1) scope_permits_token [OF star(2)] cls
    using split_scope_resource [OF assms(2), of "lit ''*''"]
    by (auto simp: token_permits_def simp del: split_paired_All)
  moreover have "\<not> scope_permits [] required"
    by (simp add: scope_permits_def split_whitespace_def Let_def)
  ultimately show ?thesis
    using scope_permits_union [OF assms(5)] by blast
qed

theorem scope_matching_rules_witness:
  "scope_permits (lit ''send_message'' @ 58 # lit ''telegram'') (lit ''send_message:telegram'') \<and>
   \<not> scope_permits (lit ''send_message'' @ 58 # lit ''telegram'') (lit ''send_message:email'') \<and>
   scope_permits (lit ''send_message'') (lit ''send_message:email'')"
proof -
  have a: "scope_token (lit ''send_message'')" "58 \<notin> set (lit ''send_message'')"
    "scope_token (lit ''send_message'' @ 58 # lit ''telegram'')" "lit ''telegram'' \<noteq> lit ''*''"
    "is_whitespace 32"
    by (simp_all add: scope_token_def lit_def is_whitespace_def)
  show ?thesis
    using scope_matching_rules [OF a, of "lit ''send_message:telegram''" "[]" "[]"]
      scope_matching_rules [OF a, of "lit ''send_message:email''" "[]" "[]"]
    by (simp add: lit_def trim_def trim_start_def trim_end_def is_whitespace_def split_scope_def)
qed

end
