(* ===== verification/Message.thy ===== *)
theory Message
  imports Prelude
begin

text \<open>
  The message vocabulary of \<open>copperclaw-types/src/message.rs\<close>: the kinds with their column form, the
  rows of the two per-session queues, the events of the channel adapters, and the base64 codec of
  attached files. The two encoders of the source (the public \<open>encode_base64\<close> and the serde
  serializer, which reuses a three-byte buffer between chunks) are shown equal, and the
  deserializer inverts them.
\<close>

section \<open>Kinds\<close>

datatype MessageKind =
    Chat | Task | Webhook | System | Agent | Card | Breadcrumb | TodoList | Diff | Error | Thinking

fun kind_as_str :: "MessageKind \<Rightarrow> ustring" where
  "kind_as_str Chat = lit ''chat''"
| "kind_as_str Task = lit ''task''"
| "kind_as_str Webhook = lit ''webhook''"
| "kind_as_str System = lit ''system''"
| "kind_as_str Agent = lit ''agent''"
| "kind_as_str Card = lit ''card''"
| "kind_as_str Breadcrumb = lit ''breadcrumb''"
| "kind_as_str TodoList = lit ''todo_list''"
| "kind_as_str Diff = lit ''diff''"
| "kind_as_str Error = lit ''error''"
| "kind_as_str Thinking = lit ''thinking''"

definition kind_parse_str :: "ustring \<Rightarrow> MessageKind option" where
  "kind_parse_str s =
     (if s = lit ''chat'' then Some Chat
      else if s = lit ''task'' then Some Task
      else if s = lit ''webhook'' then Some Webhook
      else if s = lit ''system'' then Some System
      else if s = lit ''agent'' then Some Agent
      else if s = lit ''card'' then Some Card
      else if s = lit ''breadcrumb'' then Some Breadcrumb
      else if s = lit ''todo_list'' then Some TodoList
      else if s = lit ''diff'' then Some Diff
      else if s = lit ''error'' then Some Error
      else if s = lit ''thinking'' then Some Thinking
      else None)"

interpretation message_kind: wire_enum kind_as_str kind_parse_str
proof
  show "kind_parse_str (kind_as_str e) = Some e" for e
    by (cases e) (simp_all add: kind_parse_str_def)
  show "kind_as_str e = s" if "kind_parse_str s = Some e" for s e
    using that by (auto simp: kind_parse_str_def split: if_splits)
qed

section \<open>Rows\<close>

type_synonym MessageId = nat
type_synonym ChannelType = ustring

text \<open>
  \<open>MessageInRow\<close>, a row of \<open>messages_in\<close>. The column \<open>crash_attempts\<close>, which the table has
  and \<open>MessageInRow\<close> does not select, is kept with it.
\<close>

record MessageInRow =
  in_id :: MessageId
  in_seq :: int
  in_kind :: MessageKind
  in_timestamp :: instant
  in_status :: ustring
  process_after :: "instant option"
  in_recurrence :: "ustring option"
  series_id :: "ustring option"
  in_tries :: int
  in_trigger :: bool
  in_platform_id :: "ustring option"
  in_channel_type :: "ChannelType option"
  in_thread_id :: "ustring option"
  in_content :: json
  source_session_id :: "ustring option"
  on_wake :: bool
  reply_to :: "ustring option"
  is_group :: "bool option"
  crash_attempts :: int

text \<open>
  \<open>MessageOutRow\<close>, a row of \<open>messages_out\<close>, with the two columns of the persisted retry state.
\<close>

record MessageOutRow =
  out_id :: MessageId
  out_seq :: int
  in_reply_to :: "MessageId option"
  out_timestamp :: instant
  deliver_after :: "instant option"
  out_recurrence :: "ustring option"
  out_kind :: MessageKind
  out_platform_id :: "ustring option"
  out_channel_type :: "ChannelType option"
  out_thread_id :: "ustring option"
  out_content :: json
  out_tries :: int
  not_before :: "instant option"

section \<open>Inbound events\<close>

text \<open>What a channel adapter hands to the router.\<close>

record InboundMessage =
  im_id :: ustring
  im_kind :: MessageKind
  im_content :: json
  im_timestamp :: instant
  im_is_mention :: "bool option"
  im_is_group :: "bool option"

record ReplyTo =
  rt_channel_type :: ChannelType
  rt_platform_id :: ustring
  rt_thread_id :: "ustring option"
  replying_to_self :: "bool option"

record SenderIdentity =
  si_channel_type :: ChannelType
  si_identity :: ustring
  si_display_name :: "ustring option"

record InboundEvent =
  ev_channel_type :: ChannelType
  ev_platform_id :: ustring
  ev_thread_id :: "ustring option"
  ev_message :: InboundMessage
  ev_reply_to :: "ReplyTo option"
  ev_sender :: "SenderIdentity option"

section \<open>Attached files: base64\<close>

type_synonym u8 = "8 word"
type_synonym u32 = "32 word"

definition ALPHABET :: "uchar list" where
  "ALPHABET = lit ''ABCDEFGHIJKLMNOPQRSTUVWXYZabcdefghijklmnopqrstuvwxyz0123456789+/''"

definition pad_char :: uchar where
  "pad_char = 61"

text \<open>\<open>u32::from(b) << k\<close>, and the six bits of \<open>n\<close> from position \<open>k\<close> as an index.\<close>

unbundle bit_operations_syntax

definition shl :: "u8 \<Rightarrow> nat \<Rightarrow> u32" where
  "shl b k = push_bit k (ucast b)"

definition sextet :: "u32 \<Rightarrow> nat \<Rightarrow> uchar" where
  "sextet n k = ALPHABET ! unat (drop_bit k n AND 63)"

definition join3 :: "u8 \<Rightarrow> u8 \<Rightarrow> u8 \<Rightarrow> u32" where
  "join3 b0 b1 b2 = shl b0 16 OR shl b1 8 OR ucast b2"

definition encode_chunk :: "u8 list \<Rightarrow> ustring" where
  "encode_chunk chunk =
     (let b0 = chunk ! 0;
          b1 = (if length chunk > 1 then chunk ! 1 else 0);
          b2 = (if length chunk > 2 then chunk ! 2 else 0);
          n = join3 b0 b1 b2
      in [sextet n 18, sextet n 12,
          if length chunk > 1 then sextet n 6 else pad_char,
          if length chunk > 2 then sextet n 0 else pad_char])"

definition encode_base64 :: "u8 list \<Rightarrow> ustring" where
  "encode_base64 bytes = concat (map encode_chunk (chunks 3 bytes))"

text \<open>
  \<open>base64_bytes::serialize\<close>: the same loop, over a buffer that keeps the bytes of the previous
  chunk where a short last chunk does not overwrite them.
\<close>

fun fill_buf :: "u8 list \<Rightarrow> nat \<Rightarrow> u8 list \<Rightarrow> u8 list" where
  "fill_buf buf i [] = buf"
| "fill_buf buf i (b # bs) = fill_buf (buf[i := b]) (Suc i) bs"

fun serialize_loop :: "u8 list \<Rightarrow> u8 list list \<Rightarrow> ustring" where
  "serialize_loop buf [] = []"
| "serialize_loop buf (chunk # rest) =
     (let buf' = fill_buf buf 0 chunk;
          b0 = buf' ! 0;
          b1 = (if length chunk > 1 then buf' ! 1 else 0);
          b2 = (if length chunk > 2 then buf' ! 2 else 0);
          n = join3 b0 b1 b2
      in [sextet n 18, sextet n 12,
          if length chunk > 1 then sextet n 6 else pad_char,
          if length chunk > 2 then sextet n 0 else pad_char] @ serialize_loop buf' rest)"

definition serialize :: "u8 list \<Rightarrow> ustring" where
  "serialize bytes = serialize_loop [0, 0, 0] (chunks 3 bytes)"

text \<open>\<open>base64_bytes::deserialize\<close>.\<close>

datatype Base64Error = InvalidChar | BadLength

definition val :: "u8 \<Rightarrow> Base64Error + u8" where
  "val c =
     (if 65 \<le> c \<and> c \<le> 90 then Inr (c - 65)
      else if 97 \<le> c \<and> c \<le> 122 then Inr (c - 97 + 26)
      else if 48 \<le> c \<and> c \<le> 57 then Inr (c - 48 + 52)
      else if c = 43 then Inr 62
      else if c = 47 then Inr 63
      else if c = 61 then Inr 0
      else Inl InvalidChar)"

definition join4 :: "u8 \<Rightarrow> u8 \<Rightarrow> u8 \<Rightarrow> u8 \<Rightarrow> u32" where
  "join4 v0 v1 v2 v3 = shl v0 18 OR shl v1 12 OR shl v2 6 OR ucast v3"

definition octet :: "u32 \<Rightarrow> nat \<Rightarrow> u8" where
  "octet n k = ucast (drop_bit k n AND 255)"

definition decode_chunk :: "u8 list \<Rightarrow> Base64Error + u8 list" where
  "decode_chunk chunk =
     (if length chunk < 4 then Inl BadLength
      else case val (chunk ! 0) of Inl e \<Rightarrow> Inl e | Inr v0 \<Rightarrow>
        (case val (chunk ! 1) of Inl e \<Rightarrow> Inl e | Inr v1 \<Rightarrow>
        (case val (chunk ! 2) of Inl e \<Rightarrow> Inl e | Inr v2 \<Rightarrow>
        (case val (chunk ! 3) of Inl e \<Rightarrow> Inl e | Inr v3 \<Rightarrow>
          (let n = join4 v0 v1 v2 v3
           in Inr ([octet n 16] @
                   (if chunk ! 2 \<noteq> 61 then [octet n 8] else []) @
                   (if chunk ! 3 \<noteq> 61 then [octet n 0] else [])))))))"

fun deserialize_loop :: "u8 list list \<Rightarrow> Base64Error + u8 list" where
  "deserialize_loop [] = Inr []"
| "deserialize_loop (chunk # rest) =
     (case decode_chunk chunk of
        Inl e \<Rightarrow> Inl e
      | Inr bs \<Rightarrow> (case deserialize_loop rest of Inl e \<Rightarrow> Inl e | Inr bs' \<Rightarrow> Inr (bs @ bs')))"

definition deserialize :: "ustring \<Rightarrow> Base64Error + u8 list" where
  "deserialize s = deserialize_loop (chunks 4 (as_bytes (trim s)))"

section \<open>The codec is lossless\<close>

lemma unat_sextet_index: "unat (drop_bit k n AND 63 :: u32) < 64"
proof -
  have "drop_bit k n AND 63 \<le> (63 :: u32)"
    by (rule word_and_le1)
  then show ?thesis
    by (simp add: word_le_nat_alt)
qed

lemma length_ALPHABET: "length ALPHABET = 64"
  by (simp add: ALPHABET_def lit_def)


lemma alphabet_table:
  "list_all (\<lambda>(i, c). val (of_nat c) = Inr (of_nat i) \<and> c \<noteq> 61 \<and>
      c < 128 \<and> \<not> is_whitespace c) (enumerate 0 ALPHABET)"
  by (simp add: ALPHABET_def lit_def val_def is_whitespace_def)

lemma alphabet_nth:
  assumes "i < 64"
  shows "val (of_nat (ALPHABET ! i)) = Inr (of_nat i)" "ALPHABET ! i \<noteq> 61"
    "ALPHABET ! i < 128" "\<not> is_whitespace (ALPHABET ! i)"
proof -
  have "(i, ALPHABET ! i) \<in> set (enumerate 0 ALPHABET)"
    using assms by (auto simp: in_set_enumerate_eq length_ALPHABET)
  with alphabet_table show "val (of_nat (ALPHABET ! i)) = Inr (of_nat i)" "ALPHABET ! i \<noteq> 61"
    "ALPHABET ! i < 128" "\<not> is_whitespace (ALPHABET ! i)"
    by (auto simp: list_all_iff)
qed


lemma of_nat_eq_pad: "c < 128 \<Longrightarrow> (of_nat c :: u8) = 61 \<longleftrightarrow> c = 61"
  by (simp add: word_unat_eq_iff unsigned_of_nat take_bit_nat_eq_self)

lemma mask_consts: "(63 :: u32) = mask 6" "(255 :: u32) = mask 8"
  by (simp_all add: mask_eq_exp_minus_1)

lemma join4_sextets:
  "join4 (ucast (drop_bit 18 n AND 63)) (ucast (drop_bit 12 n AND 63))
     (ucast (drop_bit 6 n AND 63)) (ucast (n AND 63)) = n AND mask 24"
  unfolding join4_def shl_def mask_consts
proof (rule bit_word_eqI, goal_cases)
  case (1 m)
  then consider "m < 6" | "6 \<le> m" "m < 12" | "12 \<le> m" "m < 18" | "18 \<le> m" "m < 24" | "24 \<le> m"
    by linarith
  then show ?case using 1
    by cases (auto simp: bit_simps)
qed

lemma chunks3_cases:
  assumes "xs \<noteq> []"
  obtains (one) b0 where "xs = [b0]"
    | (two) b0 b1 where "xs = [b0, b1]"
    | (three) b0 b1 b2 rest where "xs = b0 # b1 # b2 # rest"
  using assms by (metis list.exhaust)


lemma octet_join3:
  "octet (join3 b0 b1 b2 AND mask 24) 16 = b0"
  "octet (join3 b0 b1 b2 AND mask 24) 8 = b1"
  "octet (join3 b0 b1 b2 AND mask 24) 0 = b2"
  unfolding octet_def join3_def shl_def mask_consts
  by (rule bit_word_eqI; auto simp: bit_simps dest: bit_imp_le_length)+


lemma sextet_val:
  "val (of_nat (sextet n k)) = Inr (ucast (drop_bit k n AND 63))"
  "sextet n k < 128" "sextet n k \<noteq> pad_char" "\<not> is_whitespace (sextet n k)"
proof -
  have i: "unat (drop_bit k n AND 63) < 64"
    by (rule unat_sextet_index)
  show "val (of_nat (sextet n k)) = Inr (ucast (drop_bit k n AND 63))"
    by (simp add: sextet_def alphabet_nth(1) [OF i])
  show "sextet n k < 128" "sextet n k \<noteq> pad_char" "\<not> is_whitespace (sextet n k)"
    using alphabet_nth(2-4) [OF i] by (simp_all add: sextet_def pad_char_def)
qed

lemma val_pad: "val 61 = Inr 0"
  by (simp add: val_def)

lemma of_nat_sextet_pad: "(of_nat (sextet n k) :: u8) \<noteq> 61"
  using sextet_val(2,3) [of n k] by (simp add: of_nat_eq_pad pad_char_def)

lemma join4_short:
  "octet (join4 (ucast (drop_bit 18 n AND 63)) (ucast (drop_bit 12 n AND 63)) 0 0) 16 =
     octet (n AND mask 24) 16"
  "octet (join4 (ucast (drop_bit 18 n AND 63)) (ucast (drop_bit 12 n AND 63))
     (ucast (drop_bit 6 n AND 63)) 0) 16 = octet (n AND mask 24) 16"
  "octet (join4 (ucast (drop_bit 18 n AND 63)) (ucast (drop_bit 12 n AND 63))
     (ucast (drop_bit 6 n AND 63)) 0) 8 = octet (n AND mask 24) 8"
  unfolding octet_def join4_def shl_def mask_consts
  by (rule bit_word_eqI; auto simp: bit_simps)+

lemma decode_encode_chunk:
  assumes "chunk \<noteq> []" and "length chunk \<le> 3"
  shows "decode_chunk (map of_nat (encode_chunk chunk)) = Inr chunk"
proof -
  from assms consider b0 where "chunk = [b0]" | b0 b1 where "chunk = [b0, b1]"
    | b0 b1 b2 where "chunk = [b0, b1, b2]"
    by (cases rule: chunks3_cases [OF assms(1)]) auto
  then show ?thesis
    by cases (simp_all add: decode_chunk_def encode_chunk_def Let_def sextet_val val_pad
        pad_char_def of_nat_sextet_pad join4_short join4_sextets octet_join3)
qed


text \<open>Induction over the chunks of an input: a full chunk of three, or a short last one.\<close>

lemma chunks3_induct [case_names Nil short full]:
  assumes "P []"
    and "\<And>xs. xs \<noteq> [] \<Longrightarrow> length xs < 3 \<Longrightarrow> P xs"
    and "\<And>b0 b1 b2 rest. P rest \<Longrightarrow> P (b0 # b1 # b2 # rest)"
  shows "P xs"
proof (induction xs rule: length_induct)
  case (1 xs)
  show ?case
  proof (cases "xs = []")
    case False
    then show ?thesis
    proof (cases rule: chunks3_cases)
      case (three b0 b1 b2 rest)
      with 1 have "P rest" by simp
      with assms(3) three show ?thesis by simp
    qed (simp_all add: assms(2))
  qed (simp add: assms(1))
qed

lemma chunks3_short: "xs \<noteq> [] \<Longrightarrow> length xs < 3 \<Longrightarrow> chunks 3 xs = [xs]"
  by (simp add: chunks.simps)

lemma chunks3_full: "chunks 3 (b0 # b1 # b2 # rest) = [b0, b1, b2] # chunks 3 rest"
  using chunks_append [of 3 "[b0, b1, b2]" rest] by simp

lemma encode_base64_Nil: "encode_base64 [] = []"
  by (simp add: encode_base64_def)

lemma encode_base64_short:
  "xs \<noteq> [] \<Longrightarrow> length xs < 3 \<Longrightarrow> encode_base64 xs = encode_chunk xs"
  by (simp add: encode_base64_def chunks3_short)

lemma encode_base64_full:
  "encode_base64 (b0 # b1 # b2 # rest) = encode_chunk [b0, b1, b2] @ encode_base64 rest"
  by (simp add: encode_base64_def chunks3_full)

lemmas encode_base64_simps = encode_base64_Nil encode_base64_short encode_base64_full

lemma length_encode_chunk: "length (encode_chunk c) = 4"
  by (simp add: encode_chunk_def Let_def)

lemma pad_char_ok: "pad_char < 128" "\<not> is_whitespace pad_char"
  by (simp_all add: pad_char_def is_whitespace_def)

lemma encode_chunk_chars: "x \<in> set (encode_chunk c) \<Longrightarrow> x < 128 \<and> \<not> is_whitespace x"
  by (auto simp: encode_chunk_def Let_def sextet_val pad_char_ok split: if_splits)

lemma encode_base64_chars: "x \<in> set (encode_base64 bs) \<Longrightarrow> x < 128 \<and> \<not> is_whitespace x"
  by (auto simp: encode_base64_def dest: encode_chunk_chars)

lemma trim_no_ws: "(\<And>x. x \<in> set s \<Longrightarrow> \<not> is_whitespace x) \<Longrightarrow> trim s = s"
proof -
  assume a: "\<And>x. x \<in> set s \<Longrightarrow> \<not> is_whitespace x"
  have "dropWhile is_whitespace t = t" if "set t \<subseteq> set s" for t
    using that a by (cases t) auto
  then show ?thesis by (simp add: trim_def trim_start_def trim_end_def)
qed

lemma as_bytes_encode: "as_bytes (trim (encode_base64 bs)) = map of_nat (encode_base64 bs)"
proof -
  have "trim (encode_base64 bs) = encode_base64 bs"
    by (rule trim_no_ws) (blast dest: encode_base64_chars)
  moreover have "list_all (\<lambda>c. c < 128) (encode_base64 bs)"
    by (auto simp: list_all_iff dest: encode_base64_chars)
  ultimately show ?thesis by (simp add: as_bytes_ascii)
qed

lemma deserialize_loop_encode:
  "deserialize_loop (chunks 4 (map of_nat (encode_base64 bs))) = Inr bs"
proof (induction bs rule: chunks3_induct)
  case Nil
  then show ?case by (simp add: encode_base64_simps)
next
  case (short xs)
  then have "chunks 4 (map of_nat (encode_chunk xs) :: u8 list) = [map of_nat (encode_chunk xs)]"
    using chunks_append [of 4 "map of_nat (encode_chunk xs) :: u8 list" "[]"]
    by (simp add: length_encode_chunk)
  with short show ?case
    by (simp add: encode_base64_short decode_encode_chunk)
next
  case (full b0 b1 b2 rest)
  then show ?case
    by (simp add: encode_base64_full chunks_append length_encode_chunk decode_encode_chunk)
qed

text \<open>The stale buffer bytes of the serde serializer are never read.\<close>

lemma fill_buf_eq: "length buf = 3 \<Longrightarrow> length bs \<le> 3 \<Longrightarrow> fill_buf buf 0 bs = bs @ drop (length bs) buf"
proof -
  assume buf: "length buf = 3" and bs: "length bs \<le> 3"
  obtain a b c where b: "buf = [a, b, c]"
    using buf by (auto simp: numeral_3_eq_3 length_Suc_conv)
  consider "bs = []" | x where "bs = [x]" | x y where "bs = [x, y]" | x y z where "bs = [x, y, z]"
    using bs by (cases "bs = []") (auto elim: chunks3_cases)
  then show ?thesis by cases (simp_all add: b)
qed

lemma serialize_loop_eq:
  assumes "length buf = 3"
  shows "serialize_loop buf (chunks 3 bs) = encode_base64 bs"
  using assms
proof (induction bs arbitrary: buf rule: chunks3_induct)
  case Nil
  then show ?case by (simp add: encode_base64_simps)
next
  case (short xs)
  then show ?case
    by (simp add: chunks3_short encode_base64_short encode_chunk_def Let_def fill_buf_eq nth_append)
next
  case (full b0 b1 b2 rest)
  then have "serialize_loop [b0, b1, b2] (chunks 3 rest) = encode_base64 rest"
    by simp
  moreover have "fill_buf buf 0 [b0, b1, b2] = [b0, b1, b2]"
    using full.prems by (simp add: fill_buf_eq del: fill_buf.simps)
  ultimately show ?case
    by (simp add: chunks3_full encode_base64_full encode_chunk_def Let_def del: fill_buf.simps)
qed

text \<open>
  the serde serializer of attached files, which keeps a three-byte buffer across chunks, writes
  exactly what \<open>encode_base64\<close> writes, for every byte sequence.
\<close>

theorem serialize_is_encode_base64: "serialize bs = encode_base64 bs"
  by (simp add: serialize_def serialize_loop_eq)

text \<open>
  C39: a file attached to an outbound message survives its trip through JSON: deserializing the
  base64 text of any byte sequence, padding included, returns that sequence and never an error.
\<close>

theorem base64_roundtrip: "deserialize (encode_base64 bs) = Inr bs"
  by (simp add: deserialize_def as_bytes_encode deserialize_loop_encode)

end
