(* ===== verification/Session_Db.thy ===== *)
theory Session_Db
  imports Message Sql
begin

text \<open>
  The per-session queues (\<open>copperclaw-db/src/tables\<close>): \<open>messages_in\<close> (written by the host with even
  sequence numbers), \<open>messages_out\<close> (written by the container with odd ones), the \<open>delivered\<close> ledger
  and the \<open>processing_ack\<close> claims. Each operation takes the table and returns the new one with the
  operation's result, or a \<open>DbError\<close> and no change. The clock (\<open>Utc::now\<close>) is an argument.

  The invariants (distinct ids, strictly increasing sequence numbers of the side's parity) are kept
  by every operation, so every reachable table satisfies them; both queues implement the contracts
  of theory \<open>Sql\<close>, and the ledger implements \<open>delivery_ledger\<close>, the contract the concurrent delivery
  passes rely on.
\<close>

section \<open>messages_in\<close>

record WriteInbound =
  w_id :: MessageId
  w_kind :: MessageKind
  w_timestamp :: instant
  w_content :: json
  w_trigger :: bool
  w_on_wake :: bool
  w_process_after :: "instant option"
  w_recurrence :: "ustring option"
  w_series_id :: "ustring option"
  w_platform_id :: "ustring option"
  w_channel_type :: "ChannelType option"
  w_thread_id :: "ustring option"
  w_source_session_id :: "ustring option"
  w_reply_to :: "ustring option"
  w_is_group :: "bool option"

definition pending :: ustring where "pending = lit ''pending''"
definition completed :: ustring where "completed = lit ''completed''"
definition failed :: ustring where "failed = lit ''failed''"

lemma status_distinct [simp]:
  "pending \<noteq> completed" "pending \<noteq> failed" "completed \<noteq> failed"
  "completed \<noteq> pending" "failed \<noteq> pending" "failed \<noteq> completed"
  by (simp_all add: pending_def completed_def failed_def)

definition next_even_seq :: "MessageInRow list \<Rightarrow> int" where
  "next_even_seq t =
     (let next = (case sql_max (map in_seq t) of None \<Rightarrow> 0 | Some m \<Rightarrow> m) + 1
      in if next mod 2 \<noteq> 0 then next + 1 else next)"

definition inbound_row :: "WriteInbound \<Rightarrow> int \<Rightarrow> MessageInRow" where
  "inbound_row msg seq =
     \<lparr>in_id = w_id msg, in_seq = seq, in_kind = w_kind msg, in_timestamp = w_timestamp msg,
      in_status = pending, process_after = w_process_after msg,
      in_recurrence = w_recurrence msg, series_id = w_series_id msg, in_tries = 0,
      in_trigger = w_trigger msg, in_platform_id = w_platform_id msg,
      in_channel_type = w_channel_type msg, in_thread_id = w_thread_id msg,
      in_content = w_content msg, source_session_id = w_source_session_id msg,
      on_wake = w_on_wake msg, reply_to = w_reply_to msg, is_group = w_is_group msg,
      crash_attempts = 0\<rparr>"

text \<open>
  \<open>insert_impl\<close>: a violated uniqueness (primary key \<open>id\<close>, unique \<open>seq\<close>) makes \<open>INSERT\<close> fail and
  \<open>INSERT OR IGNORE\<close> insert nothing, which is reported as sequence number 0.
\<close>

definition insert_impl ::
  "MessageInRow list \<Rightarrow> WriteInbound \<Rightarrow> bool \<Rightarrow> DbError + (int \<times> MessageInRow list)" where
  "insert_impl t msg idempotent =
     (let seq = next_even_seq t
      in if w_id msg \<in> in_id ` set t \<or> seq \<in> in_seq ` set t
         then (if idempotent then Inr (0, t) else Inl ConstraintViolation)
         else Inr (seq, t @ [inbound_row msg seq]))"

definition insert_in :: "MessageInRow list \<Rightarrow> WriteInbound \<Rightarrow> DbError + (int \<times> MessageInRow list)" where
  "insert_in t msg = insert_impl t msg False"

definition insert_idempotent ::
  "MessageInRow list \<Rightarrow> WriteInbound \<Rightarrow> DbError + (int \<times> MessageInRow list)" where
  "insert_idempotent t msg = insert_impl t msg True"

definition is_due :: "instant option \<Rightarrow> instant \<Rightarrow> bool" where
  "is_due after now \<longleftrightarrow> (case after of None \<Rightarrow> True | Some a \<Rightarrow> a \<le> now)"

definition count_due :: "MessageInRow list \<Rightarrow> instant \<Rightarrow> nat" where
  "count_due t now =
     length (filter (\<lambda>r. in_status r = pending \<and> in_trigger r \<and> is_due (process_after r) now) t)"

definition count_pending_for_typing :: "MessageInRow list \<Rightarrow> instant \<Rightarrow> nat" where
  "count_pending_for_typing t now =
     length (filter (\<lambda>r. in_status r = pending \<and> is_due (process_after r) now) t)"

definition set_status :: "ustring \<Rightarrow> MessageInRow list \<Rightarrow> MessageId \<Rightarrow> DbError + MessageInRow list" where
  "set_status st t i =
     (let (n, t') = sql_update (\<lambda>r. in_id r = i) (\<lambda>r. r\<lparr>in_status := st\<rparr>) t
      in if n = 0 then Inl NotFound else Inr t')"

definition mark_completed :: "MessageInRow list \<Rightarrow> MessageId \<Rightarrow> DbError + MessageInRow list" where
  "mark_completed t i = set_status completed t i"

definition mark_failed :: "MessageInRow list \<Rightarrow> MessageId \<Rightarrow> DbError + MessageInRow list" where
  "mark_failed t i = set_status failed t i"

definition increment_crash_attempts ::
  "MessageInRow list \<Rightarrow> MessageId \<Rightarrow> DbError + (int \<times> MessageInRow list)" where
  "increment_crash_attempts t i =
     (let (n, t') = sql_update (\<lambda>r. in_id r = i) (\<lambda>r. r\<lparr>crash_attempts := crash_attempts r + 1\<rparr>) t
      in if n = 0 then Inl NotFound
         else case find (\<lambda>r. in_id r = i) t' of
             None \<Rightarrow> Inl ConstraintViolation
           | Some r \<Rightarrow> Inr (crash_attempts r, t'))"

definition max_seq :: "MessageInRow list \<Rightarrow> int" where
  "max_seq t = (case sql_max (map in_seq t) of None \<Rightarrow> 0 | Some m \<Rightarrow> m)"

text \<open>
  \<open>row_to_message_in\<close>: the columns that the read normalises. An empty \<open>source_session_id\<close> or
  \<open>reply_to\<close> reads as absent and a \<open>tries\<close> outside \<open>u32\<close> as 0.
\<close>

definition non_empty :: "ustring option \<Rightarrow> ustring option" where
  "non_empty s = (case s of Some x \<Rightarrow> if x = [] then None else Some x | None \<Rightarrow> None)"

definition u32_or_zero :: "int \<Rightarrow> int" where
  "u32_or_zero v = (if 0 \<le> v \<and> v < 2 ^ 32 then v else 0)"

definition row_to_message_in :: "MessageInRow \<Rightarrow> MessageInRow" where
  "row_to_message_in r =
     r\<lparr>source_session_id := non_empty (source_session_id r), reply_to := non_empty (reply_to r),
       in_tries := u32_or_zero (in_tries r)\<rparr>"

definition get_new_since :: "MessageInRow list \<Rightarrow> int \<Rightarrow> instant \<Rightarrow> MessageInRow list" where
  "get_new_since t min_seq now =
     map row_to_message_in
       (order_by in_seq (filter (\<lambda>r. in_status r = pending \<and> in_seq r > min_seq \<and> \<not> on_wake r \<and>
          is_due (process_after r) now) t))"

definition get_pending :: "MessageInRow list \<Rightarrow> bool \<Rightarrow> int \<Rightarrow> instant \<Rightarrow> MessageInRow list" where
  "get_pending t first_poll limit now =
     map row_to_message_in
       (sql_limit limit
         (order_by_desc in_seq
           (filter (\<lambda>r. in_status r = pending \<and> is_due (process_after r) now \<and>
              (\<not> on_wake r \<or> first_poll)) t)))"

subsection \<open>Invariant\<close>

definition messages_in_wf :: "MessageInRow list \<Rightarrow> bool" where
  "messages_in_wf t \<longleftrightarrow>
     distinct (map in_id t) \<and> sorted_wrt (<) (map in_seq t) \<and>
     (\<forall>r \<in> set t. even (in_seq r) \<and> 0 < in_seq r)"

lemma next_even_seq_even: "even (next_even_seq t)"
  unfolding next_even_seq_def Let_def by presburger

lemma next_even_seq_above: "r \<in> set t \<Longrightarrow> in_seq r < next_even_seq t"
proof -
  assume "r \<in> set t"
  then obtain m where m: "sql_max (map in_seq t) = Some m"
    by (metis map_is_Nil_conv empty_iff list.set(1) not_None_eq sql_max_None_iff)
  with \<open>r \<in> set t\<close> have "in_seq r \<le> m"
    by (auto dest: sql_max_SomeD)
  then show ?thesis by (simp add: next_even_seq_def m Let_def)
qed

lemma next_even_seq_pos: "messages_in_wf t \<Longrightarrow> 0 < next_even_seq t"
proof (cases t)
  case Nil
  then show ?thesis by (simp add: next_even_seq_def sql_max_def)
next
  case (Cons r t')
  moreover assume "messages_in_wf t"
  ultimately show ?thesis
    using next_even_seq_above [of r t] by (auto simp: messages_in_wf_def)
qed

interpretation inbound_key: primary_key messages_in_wf in_id
  by unfold_locales (simp add: messages_in_wf_def)

interpretation inbound_seq: parity_sequence messages_in_wf in_seq next_even_seq False
  by unfold_locales
    (auto simp: messages_in_wf_def next_even_seq_even intro: next_even_seq_above)

lemma next_even_seq_fresh: "next_even_seq t \<notin> in_seq ` set t"
  using next_even_seq_above by fastforce

lemma messages_in_wf_Nil: "messages_in_wf []"
  by (simp add: messages_in_wf_def)

lemma inbound_row_simps [simp]:
  "in_id (inbound_row msg s) = w_id msg" "in_seq (inbound_row msg s) = s"
  "in_status (inbound_row msg s) = pending" "crash_attempts (inbound_row msg s) = 0"
  "process_after (inbound_row msg s) = w_process_after msg"
  "on_wake (inbound_row msg s) = w_on_wake msg" "in_kind (inbound_row msg s) = w_kind msg"
  "in_trigger (inbound_row msg s) = w_trigger msg"
  by (simp_all add: inbound_row_def)

lemma insert_impl_wf:
  "messages_in_wf t \<Longrightarrow> insert_impl t msg b = Inr (s, t') \<Longrightarrow> messages_in_wf t'"
  using next_even_seq_pos [of t] inbound_seq.append_strict [of t "inbound_row msg (next_even_seq t)"]
  by (auto simp: insert_impl_def Let_def messages_in_wf_def next_even_seq_even split: if_splits)

lemma sql_update_wf:
  "messages_in_wf t \<Longrightarrow> (\<And>r. in_id (f r) = in_id r \<and> in_seq (f r) = in_seq r) \<Longrightarrow>
     messages_in_wf (snd (sql_update p f t))"
  by (auto simp: messages_in_wf_def table_simps)

lemma set_status_wf: "messages_in_wf t \<Longrightarrow> set_status st t i = Inr t' \<Longrightarrow> messages_in_wf t'"
  using sql_update_wf [of t "\<lambda>r. r\<lparr>in_status := st\<rparr>" "\<lambda>r. in_id r = i"]
  by (auto simp: set_status_def split: prod.splits if_splits)

lemma increment_crash_attempts_wf:
  "messages_in_wf t \<Longrightarrow> increment_crash_attempts t i = Inr (c, t') \<Longrightarrow> messages_in_wf t'"
  using sql_update_wf [of t "\<lambda>r. r\<lparr>crash_attempts := crash_attempts r + 1\<rparr>" "\<lambda>r. in_id r = i"]
  by (auto simp: increment_crash_attempts_def split: prod.splits if_splits option.splits)

subsection \<open>Reachable inbound queues\<close>

inductive inbound_step :: "MessageInRow list \<Rightarrow> MessageInRow list \<Rightarrow> bool" where
  insert: "insert_in t msg = Inr (s, t') \<Longrightarrow> inbound_step t t'"
| insert_idem: "insert_idempotent t msg = Inr (s, t') \<Longrightarrow> inbound_step t t'"
| complete: "mark_completed t i = Inr t' \<Longrightarrow> inbound_step t t'"
| fail: "mark_failed t i = Inr t' \<Longrightarrow> inbound_step t t'"
| crash: "increment_crash_attempts t i = Inr (c, t') \<Longrightarrow> inbound_step t t'"

inductive inbound_reachable :: "MessageInRow list \<Rightarrow> bool" where
  start: "inbound_reachable []"
| step: "inbound_reachable t \<Longrightarrow> inbound_step t t' \<Longrightarrow> inbound_reachable t'"

lemma inbound_step_wf: "inbound_step t t' \<Longrightarrow> messages_in_wf t \<Longrightarrow> messages_in_wf t'"
  by (induction rule: inbound_step.induct)
    (auto simp: insert_in_def insert_idempotent_def mark_completed_def mark_failed_def
      intro: insert_impl_wf set_status_wf increment_crash_attempts_wf)

lemma inbound_reachable_wf: "inbound_reachable t \<Longrightarrow> messages_in_wf t"
  by (induction rule: inbound_reachable.induct) (auto intro: messages_in_wf_Nil inbound_step_wf)


subsection \<open>What the readers see\<close>

abbreviation pollable :: "bool \<Rightarrow> instant \<Rightarrow> MessageInRow \<Rightarrow> bool" where
  "pollable first_poll now r \<equiv>
     in_status r = pending \<and> is_due (process_after r) now \<and> (\<not> on_wake r \<or> first_poll)"

lemma get_pending_eq:
  "messages_in_wf t \<Longrightarrow>
     get_pending t fp n now = map row_to_message_in (sql_limit n (rev (filter (pollable fp now) t)))"
  by (simp add: get_pending_def inbound_seq.order_by_desc_seq)

lemma row_to_message_in_simps [simp]:
  "in_id (row_to_message_in r) = in_id r" "in_seq (row_to_message_in r) = in_seq r"
  "in_kind (row_to_message_in r) = in_kind r" "in_status (row_to_message_in r) = in_status r"
  "in_content (row_to_message_in r) = in_content r" "series_id (row_to_message_in r) = series_id r"
  by (simp_all add: row_to_message_in_def)

lemma set_status_eq:
  "set_status st t i = Inr t' \<Longrightarrow>
     t' = map (\<lambda>r. if in_id r = i then r\<lparr>in_status := st\<rparr> else r) t \<and> i \<in> in_id ` set t"
  by (auto simp: set_status_def sql_update_def filter_empty_conv split: if_splits)

lemma set_status_Inr_iff: "(\<exists>t'. set_status st t i = Inr t') \<longleftrightarrow> i \<in> in_id ` set t"
  by (auto simp: set_status_def sql_update_def filter_empty_conv)

lemma filter_pollable_set_status:
  "st \<noteq> pending \<Longrightarrow>
     filter (pollable fp now) (map (\<lambda>r. if in_id r = i then r\<lparr>in_status := st\<rparr> else r) t) =
     filter (\<lambda>r. in_id r \<noteq> i) (filter (pollable fp now) t)"
  by (induction t) auto

lemma poll_after_finish:
  assumes "messages_in_wf t" and "st \<noteq> pending" and "set_status st t i = Inr t'"
  shows "get_pending t' fp (- 1) now = filter (\<lambda>r. in_id r \<noteq> i) (get_pending t fp (- 1) now)"
proof -
  have "messages_in_wf t'"
    using assms(1,3) by (rule set_status_wf)
  moreover have "filter (pollable fp now) t' = filter (\<lambda>r. in_id r \<noteq> i) (filter (pollable fp now) t)"
    using set_status_eq [OF assms(3)] filter_pollable_set_status [OF assms(2)] by simp
  ultimately show ?thesis
    using assms(1)
    by (simp add: get_pending_eq sql_limit_def rev_filter [symmetric] filter_map comp_def del: filter_filter)
qed

lemma insert_in_InrD:
  "insert_in t msg = Inr (s, t') \<Longrightarrow>
     s = next_even_seq t \<and> t' = t @ [inbound_row msg s] \<and> w_id msg \<notin> in_id ` set t"
  by (auto simp: insert_in_def insert_impl_def Let_def split: if_splits)

lemma max_seq_less_next: "max_seq t < next_even_seq t"
  by (simp add: max_seq_def next_even_seq_def Let_def)

lemma max_seq_upper: "r \<in> set t \<Longrightarrow> in_seq r \<le> max_seq t"
  by (auto simp: max_seq_def dest!: sql_max_SomeD split: option.splits)

section \<open>messages_out\<close>

record WriteOutbound =
  o_id :: MessageId
  o_in_reply_to :: "MessageId option"
  o_timestamp :: instant
  o_deliver_after :: "instant option"
  o_recurrence :: "ustring option"
  o_kind :: MessageKind
  o_platform_id :: "ustring option"
  o_channel_type :: "ChannelType option"
  o_thread_id :: "ustring option"
  o_content :: json

definition next_odd_seq :: "MessageOutRow list \<Rightarrow> int" where
  "next_odd_seq t =
     (let next = (case sql_max (map out_seq t) of None \<Rightarrow> 0 | Some m \<Rightarrow> m) + 1
      in if next mod 2 = 0 then next + 1 else next)"

definition outbound_row :: "WriteOutbound \<Rightarrow> int \<Rightarrow> MessageOutRow" where
  "outbound_row msg seq =
     \<lparr>out_id = o_id msg, out_seq = seq, in_reply_to = o_in_reply_to msg,
      out_timestamp = o_timestamp msg, deliver_after = o_deliver_after msg,
      out_recurrence = o_recurrence msg, out_kind = o_kind msg,
      out_platform_id = o_platform_id msg, out_channel_type = o_channel_type msg,
      out_thread_id = o_thread_id msg, out_content = o_content msg, out_tries = 0,
      not_before = None\<rparr>"

definition insert_out :: "MessageOutRow list \<Rightarrow> WriteOutbound \<Rightarrow> DbError + (int \<times> MessageOutRow list)" where
  "insert_out t msg =
     (let seq = next_odd_seq t
      in if o_id msg \<in> out_id ` set t \<or> seq \<in> out_seq ` set t then Inl ConstraintViolation
         else Inr (seq, t @ [outbound_row msg seq]))"

definition list_due :: "MessageOutRow list \<Rightarrow> instant \<Rightarrow> MessageOutRow list" where
  "list_due t now = order_by out_seq (filter (\<lambda>r. is_due (deliver_after r) now) t)"

record PersistedRetryState =
  rs_id :: MessageId
  rs_tries :: int
  rs_not_before :: "instant option"

definition set_retry_state ::
  "MessageOutRow list \<Rightarrow> MessageId \<Rightarrow> int \<Rightarrow> instant option \<Rightarrow> MessageOutRow list" where
  "set_retry_state t i tries nb =
     snd (sql_update (\<lambda>r. out_id r = i) (\<lambda>r. r\<lparr>out_tries := tries, not_before := nb\<rparr>) t)"

definition list_retry_state :: "MessageOutRow list \<Rightarrow> PersistedRetryState list" where
  "list_retry_state t =
     map (\<lambda>r. \<lparr>rs_id = out_id r, rs_tries = u32_or_zero (out_tries r), rs_not_before = not_before r\<rparr>)
       (filter (\<lambda>r. out_tries r > 0 \<or> not_before r \<noteq> None) t)"

definition get_out :: "MessageOutRow list \<Rightarrow> MessageId \<Rightarrow> DbError + MessageOutRow" where
  "get_out t i = (case find (\<lambda>r. out_id r = i) t of None \<Rightarrow> Inl NotFound | Some r \<Rightarrow> Inr r)"

definition messages_out_wf :: "MessageOutRow list \<Rightarrow> bool" where
  "messages_out_wf t \<longleftrightarrow>
     distinct (map out_id t) \<and> sorted_wrt (<) (map out_seq t) \<and>
     (\<forall>r \<in> set t. odd (out_seq r) \<and> 0 < out_seq r)"

lemma next_odd_seq_odd: "odd (next_odd_seq t)"
  unfolding next_odd_seq_def Let_def by presburger

lemma next_odd_seq_above: "r \<in> set t \<Longrightarrow> out_seq r < next_odd_seq t"
proof -
  assume "r \<in> set t"
  then obtain m where m: "sql_max (map out_seq t) = Some m"
    by (metis map_is_Nil_conv empty_iff list.set(1) not_None_eq sql_max_None_iff)
  with \<open>r \<in> set t\<close> have "out_seq r \<le> m"
    by (auto dest: sql_max_SomeD)
  then show ?thesis by (simp add: next_odd_seq_def m Let_def)
qed

lemma next_odd_seq_pos: "messages_out_wf t \<Longrightarrow> 0 < next_odd_seq t"
proof (cases t)
  case Nil
  then show ?thesis by (simp add: next_odd_seq_def sql_max_def)
next
  case (Cons r t')
  moreover assume "messages_out_wf t"
  ultimately show ?thesis
    using next_odd_seq_above [of r t] by (auto simp: messages_out_wf_def)
qed

interpretation outbound_key: primary_key messages_out_wf out_id
  by unfold_locales (simp add: messages_out_wf_def)

interpretation outbound_seq: parity_sequence messages_out_wf out_seq next_odd_seq True
  by unfold_locales
    (auto simp: messages_out_wf_def next_odd_seq_odd intro: next_odd_seq_above)

lemma next_odd_seq_fresh: "next_odd_seq t \<notin> out_seq ` set t"
  using next_odd_seq_above by fastforce

lemma insert_out_cases:
  "insert_out t msg =
     (if o_id msg \<in> out_id ` set t then Inl ConstraintViolation
      else Inr (next_odd_seq t, t @ [outbound_row msg (next_odd_seq t)]))"
  using next_odd_seq_fresh [of t] by (simp add: insert_out_def Let_def)

lemma messages_out_wf_Nil: "messages_out_wf []"
  by (simp add: messages_out_wf_def)

lemma insert_out_wf: "messages_out_wf t \<Longrightarrow> insert_out t msg = Inr (s, t') \<Longrightarrow> messages_out_wf t'"
  using next_odd_seq_pos [of t] outbound_seq.append_strict [of t "outbound_row msg (next_odd_seq t)"]
  by (auto simp: insert_out_cases messages_out_wf_def next_odd_seq_odd outbound_row_def
      split: if_splits)

lemma set_retry_state_wf: "messages_out_wf t \<Longrightarrow> messages_out_wf (set_retry_state t i n nb)"
  by (auto simp: set_retry_state_def messages_out_wf_def table_simps)

inductive outbound_reachable :: "MessageOutRow list \<Rightarrow> bool" where
  start: "outbound_reachable []"
| insert: "outbound_reachable t \<Longrightarrow> insert_out t msg = Inr (s, t') \<Longrightarrow> outbound_reachable t'"
| retry: "outbound_reachable t \<Longrightarrow> outbound_reachable (set_retry_state t i n nb)"

lemma outbound_reachable_wf: "outbound_reachable t \<Longrightarrow> messages_out_wf t"
  by (induction rule: outbound_reachable.induct)
    (auto intro: messages_out_wf_Nil insert_out_wf set_retry_state_wf)

lemma list_due_eq:
  "messages_out_wf t \<Longrightarrow> list_due t now = filter (\<lambda>r. is_due (deliver_after r) now) t"
  by (simp add: list_due_def outbound_seq.order_by_seq)

section \<open>What a later state keeps of an earlier one\<close>

text \<open>
  Steps never remove a row, never move one, and never return a finished row to the queue. \<open>keeps t u\<close>
  is what every later table \<open>u\<close> owes to \<open>t\<close>.
\<close>

definition keeps :: "MessageInRow list \<Rightarrow> MessageInRow list \<Rightarrow> bool" where
  "keeps t u \<longleftrightarrow>
     (\<exists>u1 u2. u = u1 @ u2 \<and>
        list_all2 (\<lambda>r s. in_id s = in_id r \<and> in_seq s = in_seq r \<and>
          (in_status r \<noteq> pending \<longrightarrow> in_status s \<noteq> pending)) t u1 \<and>
        (\<forall>s \<in> set u2. max_seq t < in_seq s))"

lemma list_all2_in_id: "list_all2 P t u \<Longrightarrow> (\<And>r s. P r s \<Longrightarrow> f s = f r) \<Longrightarrow> map f u = map f t"
  by (induction rule: list_all2_induct) auto

lemma list_all2_ex: "list_all2 P t u \<Longrightarrow> r \<in> set t \<Longrightarrow> \<exists>s \<in> set u. P r s"
  by (induction rule: list_all2_induct) auto

lemma keeps_same:
  "list_all2 (\<lambda>r s. in_id s = in_id r \<and> in_seq s = in_seq r \<and>
     (in_status r \<noteq> pending \<longrightarrow> in_status s \<noteq> pending)) t u \<Longrightarrow> keeps t u"
  unfolding keeps_def by (intro exI [of _ u] exI [of _ "[]"]) simp

lemma keeps_refl: "keeps t t"
  by (rule keeps_same) (simp add: list_all2_refl)

lemma keeps_insert: "keeps t (t @ [inbound_row msg (next_even_seq t)])"
  unfolding keeps_def
  by (intro exI [of _ t] exI [of _ "[inbound_row msg (next_even_seq t)]"])
    (simp add: list_all2_refl max_seq_less_next)

lemma keeps_update:
  "(\<And>r. in_id (f r) = in_id r \<and> in_seq (f r) = in_seq r \<and>
      (in_status r \<noteq> pending \<longrightarrow> in_status (f r) \<noteq> pending)) \<Longrightarrow>
     keeps t (map (\<lambda>r. if p r then f r else r) t)"
  by (rule keeps_same) (auto simp: list_all2_conv_all_nth)

lemma inbound_step_keeps: "inbound_step t t' \<Longrightarrow> keeps t t'"
proof (induction rule: inbound_step.induct)
  case (crash t i c t')
  then have "t' = map (\<lambda>r. if in_id r = i then r\<lparr>crash_attempts := crash_attempts r + 1\<rparr> else r) t"
    by (auto simp: increment_crash_attempts_def sql_update_def split: if_splits option.splits)
  then show ?case by (simp add: keeps_update)
qed (auto simp: insert_in_def insert_idempotent_def insert_impl_def Let_def mark_completed_def
      mark_failed_def keeps_refl keeps_insert keeps_update dest!: set_status_eq split: if_splits)

lemma max_seq_cases: "t = [] \<and> max_seq t = 0 \<or> max_seq t \<in> in_seq ` set t"
proof (cases "t = []")
  case True
  then show ?thesis by (simp add: max_seq_def sql_max_def)
next
  case False
  then obtain m where "sql_max (map in_seq t) = Some m"
    by (cases "sql_max (map in_seq t)") auto
  then show ?thesis by (auto simp: max_seq_def dest: sql_max_SomeD)
qed

lemma max_seq_grows:
  assumes "map in_seq u1 = map in_seq t" and "\<forall>s \<in> set u2. max_seq t < in_seq s"
  shows "max_seq t \<le> max_seq (u1 @ u2)"
proof (cases "t = []")
  case True
  then have "max_seq t = 0" and "u1 = []"
    using assms(1) by (simp_all add: max_seq_def sql_max_def)
  then show ?thesis
    using assms(2) max_seq_cases [of u2] by force
next
  case False
  then have "max_seq t \<in> in_seq ` set t"
    using max_seq_cases [of t] by simp
  also have "in_seq ` set t = in_seq ` set u1"
    using assms(1) by (metis list.set_map)
  finally obtain r where "r \<in> set u1" and "max_seq t = in_seq r"
    by blast
  then show ?thesis by (simp add: max_seq_upper)
qed

lemma keeps_trans: "keeps t u \<Longrightarrow> keeps u v \<Longrightarrow> keeps t v"
proof -
  let ?P = "\<lambda>r s. in_id s = in_id r \<and> in_seq s = in_seq r \<and>
    (in_status r \<noteq> pending \<longrightarrow> in_status s \<noteq> pending)"
  assume "keeps t u" and "keeps u v"
  then obtain u1 u2 v1 v2 where u: "u = u1 @ u2" "list_all2 ?P t u1" "\<forall>s \<in> set u2. max_seq t < in_seq s"
    and v: "v = v1 @ v2" "list_all2 ?P u v1" "\<forall>s \<in> set v2. max_seq u < in_seq s"
    unfolding keeps_def by blast
  from v(2) u(1) obtain w1 w2 where w: "v1 = w1 @ w2" "list_all2 ?P u1 w1" "list_all2 ?P u2 w2"
    by (auto simp: list_all2_append1)
  have "list_all2 ?P t w1"
    by (rule list_all2_trans [OF _ u(2) w(2)]) auto
  moreover have "max_seq t \<le> max_seq u"
    using max_seq_grows [OF _ u(3)] u(1,2) list_all2_in_id [OF u(2), of in_seq] by simp
  moreover have "\<forall>s \<in> set w2. max_seq t < in_seq s"
  proof
    fix s assume "s \<in> set w2"
    then have "in_seq s \<in> in_seq ` set u2"
      using list_all2_in_id [OF w(3), of in_seq] by (metis image_eqI list.set_map)
    then show "max_seq t < in_seq s" using u(3) by auto
  qed
  ultimately have "list_all2 ?P t w1 \<and> (\<forall>s \<in> set (w2 @ v2). max_seq t < in_seq s)"
    using v(3) by auto
  then show ?thesis
    unfolding keeps_def v(1) w(1) by (intro exI [of _ w1] exI [of _ "w2 @ v2"]) simp
qed

lemma inbound_steps_keeps: "inbound_step\<^sup>*\<^sup>* t u \<Longrightarrow> keeps t u"
  by (induction rule: rtranclp_induct) (auto intro: keeps_refl keeps_trans inbound_step_keeps)

lemma inbound_steps_reachable:
  "inbound_step\<^sup>*\<^sup>* t u \<Longrightarrow> inbound_reachable t \<Longrightarrow> inbound_reachable u"
  by (induction rule: rtranclp_induct) (auto intro: inbound_reachable.step)

lemma keeps_new_iff:
  assumes "keeps t u" and "s \<in> set u"
  shows "max_seq t < in_seq s \<longleftrightarrow> in_seq s \<notin> in_seq ` set t"
proof -
  obtain u1 u2 where u: "u = u1 @ u2" "map in_seq u1 = map in_seq t" "\<forall>s \<in> set u2. max_seq t < in_seq s"
    using assms(1) unfolding keeps_def by (auto dest: list_all2_in_id [where f = in_seq])
  have seqs: "in_seq ` set u1 = in_seq ` set t"
    using u(2) by (metis list.set_map)
  show ?thesis
  proof
    assume "max_seq t < in_seq s"
    then show "in_seq s \<notin> in_seq ` set t"
      using max_seq_upper [of _ t] by (auto simp: not_le [symmetric])
  next
    assume "in_seq s \<notin> in_seq ` set t"
    then have "s \<notin> set u1"
      unfolding seqs [symmetric] by blast
    then show "max_seq t < in_seq s"
      using u(1,3) assms(2) by auto
  qed
qed

lemma keeps_finished:
  assumes "keeps t u" and "messages_in_wf u" and "r \<in> set t" and "in_status r \<noteq> pending"
    and "s \<in> set u" and "in_id s = in_id r"
  shows "in_status s \<noteq> pending"
proof -
  let ?P = "\<lambda>r s. in_id s = in_id r \<and> in_seq s = in_seq r \<and>
    (in_status r \<noteq> pending \<longrightarrow> in_status s \<noteq> pending)"
  obtain u1 u2 where u: "u = u1 @ u2" "list_all2 ?P t u1"
    using assms(1) unfolding keeps_def by blast
  obtain s' where "s' \<in> set u1" and "?P r s'"
    using list_all2_ex [OF u(2) assms(3)] by blast
  moreover from this have "s' = s"
    using inbound_key.key_inj [OF assms(2)] assms(5,6) u(1) by auto
  ultimately show ?thesis using assms(4) by simp
qed

lemma set_retry_state_simps:
  "set_retry_state [] i n nb = []"
  "set_retry_state (r # t) i n nb =
     (if out_id r = i then r\<lparr>out_tries := n, not_before := nb\<rparr> else r) # set_retry_state t i n nb"
  by (simp_all add: set_retry_state_def sql_update_def)

lemma list_retry_state_simps:
  "list_retry_state [] = []"
  "list_retry_state (r # t) =
     (if out_tries r > 0 \<or> not_before r \<noteq> None
      then [\<lparr>rs_id = out_id r, rs_tries = u32_or_zero (out_tries r), rs_not_before = not_before r\<rparr>]
      else []) @ list_retry_state t"
  by (simp_all add: list_retry_state_def)

lemmas retry_state_simps = set_retry_state_simps list_retry_state_simps

lemma retry_report_others:
  "filter (\<lambda>p. rs_id p \<noteq> i) (list_retry_state (set_retry_state t i tries nb)) =
     filter (\<lambda>p. rs_id p \<noteq> i) (list_retry_state t)"
  by (induction t) (simp_all add: retry_state_simps)

lemma retry_report_none:
  "i \<notin> out_id ` set t \<Longrightarrow> filter (\<lambda>p. rs_id p = i) (list_retry_state (set_retry_state t i tries nb)) = []"
  by (induction t) (auto simp: retry_state_simps)

lemma retry_report_own:
  "distinct (map out_id t) \<Longrightarrow> i \<in> out_id ` set t \<Longrightarrow> 0 \<le> tries \<Longrightarrow> tries < 2 ^ 32 \<Longrightarrow>
     filter (\<lambda>p. rs_id p = i) (list_retry_state (set_retry_state t i tries nb)) =
     (if tries > 0 \<or> nb \<noteq> None then [\<lparr>rs_id = i, rs_tries = tries, rs_not_before = nb\<rparr>] else [])"
proof (induction t)
  case (Cons r t)
  then show ?case
  proof (cases "out_id r = i")
    case True
    with Cons.prems have "filter (\<lambda>p. rs_id p = i) (list_retry_state (set_retry_state t i tries nb)) = []"
      by (intro retry_report_none) auto
    with True Cons.prems show ?thesis
      by (simp add: retry_state_simps u32_or_zero_def)
  next
    case False
    with Cons.prems have "i \<in> out_id ` set t" by auto
    with False Cons show ?thesis by (simp add: retry_state_simps)
  qed
qed simp

section \<open>Properties of the queues\<close>

text \<open>
  C23: In every session the host's inbound rows and the container's outbound rows, each written only
  through the crate's operations, have distinct ids and strictly increasing sequence numbers on each
  side, and no sequence number is used by both sides.
\<close>

theorem session_sequences_disjoint:
  assumes "inbound_reachable ti" and "outbound_reachable to"
  shows "messages_in_wf ti \<and> messages_out_wf to \<and> in_seq ` set ti \<inter> out_seq ` set to = {}"
proof -
  have "messages_in_wf ti" and "messages_out_wf to"
    using assms by (simp_all add: inbound_reachable_wf outbound_reachable_wf)
  moreover from this have "in_seq r \<noteq> out_seq s" if "r \<in> set ti" "s \<in> set to" for r s
    using that inbound_seq.wf_parity outbound_seq.wf_parity by fastforce
  ultimately show ?thesis by auto
qed

definition sample_in :: "nat \<Rightarrow> WriteInbound" where
  "sample_in i =
     \<lparr>w_id = i, w_kind = Chat, w_timestamp = 0, w_content = JNull, w_trigger = True,
      w_on_wake = False, w_process_after = None, w_recurrence = None, w_series_id = None,
      w_platform_id = None, w_channel_type = None, w_thread_id = None,
      w_source_session_id = None, w_reply_to = None, w_is_group = None\<rparr>"

definition sample_out :: "nat \<Rightarrow> WriteOutbound" where
  "sample_out i =
     \<lparr>o_id = i, o_in_reply_to = None, o_timestamp = 0, o_deliver_after = None, o_recurrence = None,
      o_kind = Chat, o_platform_id = None, o_channel_type = None, o_thread_id = None,
      o_content = JNull\<rparr>"

lemma sample_in_simps [simp]:
  "w_id (sample_in i) = i" "w_on_wake (sample_in i) = False" "w_process_after (sample_in i) = None"
  by (simp_all add: sample_in_def)

definition two_in :: "MessageInRow list" where
  "two_in = [inbound_row (sample_in 1) 2, inbound_row (sample_in 2) 4]"

definition two_out :: "MessageOutRow list" where
  "two_out = [outbound_row (sample_out 1) 1, outbound_row (sample_out 2) 3]"

lemma insert_sample_1: "insert_in [] (sample_in 1) = Inr (2, [inbound_row (sample_in 1) 2])"
  by (simp add: insert_in_def insert_impl_def next_even_seq_def sql_max_def Let_def)

lemma insert_sample_2: "insert_in [inbound_row (sample_in 1) 2] (sample_in 2) = Inr (4, two_in)"
  by (simp add: insert_in_def insert_impl_def next_even_seq_def sql_max_def Let_def two_in_def)

lemma one_in_reachable: "inbound_reachable [inbound_row (sample_in 1) 2]"
  by (rule inbound_reachable.step [OF inbound_reachable.start inbound_step.insert [OF insert_sample_1]])

lemma two_in_reachable: "inbound_reachable two_in"
  by (rule inbound_reachable.step [OF one_in_reachable inbound_step.insert [OF insert_sample_2]])

lemma two_out_reachable: "outbound_reachable two_out"
proof -
  have "insert_out [] (sample_out 1) = Inr (1, [outbound_row (sample_out 1) 1])"
    by (simp add: insert_out_def next_odd_seq_def sql_max_def Let_def)
  from outbound_reachable.insert [OF outbound_reachable.start this]
  have "outbound_reachable [outbound_row (sample_out 1) 1]" .
  moreover have "insert_out [outbound_row (sample_out 1) 1] (sample_out 2) = Inr (3, two_out)"
    by (simp add: insert_out_def next_odd_seq_def sql_max_def Let_def two_out_def outbound_row_def
        sample_out_def)
  ultimately show ?thesis by (rule outbound_reachable.insert)
qed

theorem session_sequences_disjoint_witness:
  "inbound_reachable two_in \<and> outbound_reachable two_out \<and>
   messages_in_wf two_in \<and> in_seq ` set two_in \<inter> out_seq ` set two_out = {}"
  using two_in_reachable two_out_reachable
    session_sequences_disjoint [OF two_in_reachable two_out_reachable] by simp



text \<open>
  A freshly inserted row that is due heads the next poll, and the rest of the poll is the poll of
  the table before the insert with one slot less, so with a positive limit a new message is never
  crowded out by a backlog.
\<close>

theorem inserted_row_heads_poll:
  assumes "inbound_reachable t" and "insert_in t msg = Inr (s, t')"
    and "is_due (w_process_after msg) now" and "\<not> w_on_wake msg \<or> first_poll" and "0 < limit"
  shows "get_pending t' first_poll limit now =
    row_to_message_in (inbound_row msg s) # get_pending t first_poll (limit - 1) now"
proof -
  have "messages_in_wf t" and t': "t' = t @ [inbound_row msg s]"
    using assms(1,2) by (auto simp: inbound_reachable_wf dest: insert_in_InrD)
  moreover have "messages_in_wf t'"
    using \<open>messages_in_wf t\<close> assms(2) by (auto simp: insert_in_def intro: insert_impl_wf)
  moreover have "nat limit = Suc (nat (limit - 1))"
    using assms(5) by simp
  ultimately show ?thesis
    using assms(3-5) by (auto simp: get_pending_eq sql_limit_def)
qed

theorem inserted_row_heads_poll_witness:
  "get_pending two_in False 1 0 = [row_to_message_in (inbound_row (sample_in 2) 4)]"
  using inserted_row_heads_poll [OF one_in_reachable insert_sample_2, of 0 False 1]
  by (simp add: is_due_def get_pending_def sql_limit_def)

text \<open>
  Mid-turn steering sees exactly the new messages: with the snapshot \<open>max_seq\<close> taken when the turn
  starts, \<open>get_new_since\<close> returns, after any operations, the pending, due rows that were not in the
  table at the snapshot (and are not wake-only), oldest first.
\<close>

theorem get_new_since_exact:
  assumes "inbound_reachable t" and "inbound_step\<^sup>*\<^sup>* t u"
  shows "get_new_since u (max_seq t) now =
    map row_to_message_in
      (filter (\<lambda>r. in_status r = pending \<and> in_seq r \<notin> in_seq ` set t \<and> \<not> on_wake r \<and>
         is_due (process_after r) now) u)"
proof -
  have "messages_in_wf u"
    using assms by (blast intro: inbound_steps_reachable inbound_reachable_wf)
  then have "get_new_since u (max_seq t) now = map row_to_message_in
      (filter (\<lambda>r. in_status r = pending \<and> in_seq r > max_seq t \<and> \<not> on_wake r \<and>
         is_due (process_after r) now) u)"
    by (simp add: get_new_since_def inbound_seq.order_by_seq)
  also have "\<dots> = map row_to_message_in
      (filter (\<lambda>r. in_status r = pending \<and> in_seq r \<notin> in_seq ` set t \<and> \<not> on_wake r \<and>
         is_due (process_after r) now) u)"
    using keeps_new_iff [OF inbound_steps_keeps [OF assms(2)]] by (simp cong: filter_cong)
  finally show ?thesis .
qed

theorem get_new_since_exact_witness:
  "get_new_since two_in (max_seq [inbound_row (sample_in 1) 2]) 0 =
     [row_to_message_in (inbound_row (sample_in 2) 4)]"
  using get_new_since_exact [OF one_in_reachable
      r_into_rtranclp [of inbound_step, OF inbound_step.insert [OF insert_sample_2]], of 0]
  by (simp add: two_in_def is_due_def)

text \<open>
  \<open>insert_idempotent\<close> is idempotent: after it has run on a message, running it again changes nothing
  and reports 0; it never fails, it reports 0 exactly when the id was already queued, and otherwise it
  does what \<open>insert\<close> does.
\<close>

theorem insert_idempotent_absorbs_redelivery:
  "\<exists>s t'. insert_idempotent t msg = Inr (s, t') \<and>
     insert_idempotent t' msg = Inr (0, t') \<and>
     (if w_id msg \<in> in_id ` set t then s = 0 \<and> t' = t \<and> insert_in t msg = Inl ConstraintViolation
      else insert_in t msg = Inr (s, t') \<and> s = next_even_seq t)"
  using next_even_seq_fresh [of t]
  by (simp add: insert_idempotent_def insert_in_def insert_impl_def Let_def)

text \<open>
  The retry state of a row survives a restart: what \<open>set_retry_state\<close> wrote for a row is what
  \<open>list_retry_state\<close> reports for it (nothing, when the row has neither tries nor a hold), and it
  changes the report of no other row.
\<close>

theorem retry_state_roundtrip:
  assumes "outbound_reachable t" and "i \<in> out_id ` set t" and "0 \<le> tries" and "tries < 2 ^ 32"
  shows "filter (\<lambda>p. rs_id p = i) (list_retry_state (set_retry_state t i tries nb)) =
      (if tries > 0 \<or> nb \<noteq> None then [\<lparr>rs_id = i, rs_tries = tries, rs_not_before = nb\<rparr>] else []) \<and>
    filter (\<lambda>p. rs_id p \<noteq> i) (list_retry_state (set_retry_state t i tries nb)) =
      filter (\<lambda>p. rs_id p \<noteq> i) (list_retry_state t)"
proof
  have "distinct (map out_id t)"
    using assms(1) outbound_key.wf_distinct outbound_reachable_wf by blast
  then show "filter (\<lambda>p. rs_id p = i) (list_retry_state (set_retry_state t i tries nb)) =
      (if tries > 0 \<or> nb \<noteq> None then [\<lparr>rs_id = i, rs_tries = tries, rs_not_before = nb\<rparr>] else [])"
    using assms(2-4) by (rule retry_report_own)
  show "filter (\<lambda>p. rs_id p \<noteq> i) (list_retry_state (set_retry_state t i tries nb)) =
      filter (\<lambda>p. rs_id p \<noteq> i) (list_retry_state t)"
    by (rule retry_report_others)
qed

theorem retry_state_roundtrip_witness:
  "filter (\<lambda>p. rs_id p = 2) (list_retry_state (set_retry_state two_out 2 3 (Some 60))) =
     [\<lparr>rs_id = 2, rs_tries = 3, rs_not_before = Some 60\<rparr>]"
  using retry_state_roundtrip [OF two_out_reachable, of 2 3 "Some 60"]
  by (simp add: two_out_def outbound_row_def sample_out_def)

end
