(* ===== verification/Policy.thy ===== *)
theory Policy
  imports Prelude
begin

text \<open>
  The tool authorization policy of the runner (\<open>copperclaw-runner/src/policy.rs\<close>): the tool-name
  lists, the group profiles, the sender roles, the per-turn trust state and the layered decision
  \<open>evaluate\<close> that every tool dispatch consults. The decision comes with the increments of the
  \<open>policy_denied\<close> metric it makes, as a list of (layer, tool) labels.

  The declarative reading of the policy is \<open>policy_permits\<close>: the intersection of the positive layers and
  the provenance gate. \<open>evaluate\<close> refines it, and the facts a caller relies on (which layer
  decides, what a guest, an autonomous turn or a tainted turn can reach) are consequences.
\<close>

named_theorems policy_simps \<open>the tool lists and the classification predicates\<close>

section \<open>Tool-name lists\<close>

definition ALWAYS_TOOLS :: "ustring list" where
  "ALWAYS_TOOLS = map lit
     [''send_message'', ''send_file'', ''edit_message'', ''add_reaction'', ''send_card'',
      ''ask_user_question'', ''load_skill'', ''todo_add'', ''todo_list'', ''todo_update'',
      ''todo_delete'', ''compact_now'', ''clear_history'', ''artifact_path'']"

definition READONLY_TOOLS :: "ustring list" where
  "READONLY_TOOLS = map lit
     [''read_file'', ''view_image'', ''glob'', ''grep'', ''find_symbol'', ''git_blame'',
      ''git_diff'', ''git_log'', ''git_status'', ''web_search'', ''web_fetch'', ''list_tasks'',
      ''list_goals'', ''list_skills'']"

definition SCHEDULING_MUTATION_TOOLS :: "ustring list" where
  "SCHEDULING_MUTATION_TOOLS = map lit
     [''schedule_task'', ''cancel_task'', ''pause_task'', ''resume_task'', ''update_task'',
      ''create_goal'', ''update_goal'', ''register_condition'', ''set_condition_flag'']"

definition CODING_TOOLS :: "ustring list" where
  "CODING_TOOLS = map lit
     [''shell'', ''write_file'', ''edit_file'', ''multi_edit'', ''apply_patch'', ''copy_file'',
      ''explore'', ''create_agent'', ''delegate'', ''expose_preview'', ''close_preview'',
      ''make_preview_public'', ''ui_screenshot'', ''ui_inspect'', ''diagnostics'',
      ''self_review'']"

definition SELF_MOD_TOOLS :: "ustring list" where
  "SELF_MOD_TOOLS = map lit [''install_packages'', ''add_mcp_server'', ''save_skill'']"

definition MEMORY_WRITE_TOOLS :: "ustring list" where
  "MEMORY_WRITE_TOOLS = map lit [''memory_save'']"

definition BROWSER_WRITE_TOOLS :: "ustring list" where
  "BROWSER_WRITE_TOOLS = map lit [''browser_interact'']"

definition CREDENTIALED_EXTERNAL_TOOLS :: "ustring list" where
  "CREDENTIALED_EXTERNAL_TOOLS = map lit
     [''web_fetch'', ''web_search'', ''install_packages'', ''add_mcp_server'',
      ''expose_preview'', ''close_preview'', ''make_preview_public'']"

definition LAN_PREVIEW_TOOLS :: "ustring list" where
  "LAN_PREVIEW_TOOLS = map lit [''expose_preview'', ''close_preview'']"

definition PROVIDER_PINNED_SEARCH_TOOLS :: "ustring list" where
  "PROVIDER_PINNED_SEARCH_TOOLS = map lit [''web_search'']"

definition PROFILE_TOOL_LISTS :: "(ustring \<times> ustring list) list" where
  "PROFILE_TOOL_LISTS =
     [(lit ''ALWAYS_TOOLS'', ALWAYS_TOOLS),
      (lit ''READONLY_TOOLS'', READONLY_TOOLS),
      (lit ''SCHEDULING_MUTATION_TOOLS'', SCHEDULING_MUTATION_TOOLS),
      (lit ''CODING_TOOLS'', CODING_TOOLS),
      (lit ''SELF_MOD_TOOLS'', SELF_MOD_TOOLS),
      (lit ''MEMORY_WRITE_TOOLS'', MEMORY_WRITE_TOOLS),
      (lit ''CREDENTIALED_EXTERNAL_TOOLS'', CREDENTIALED_EXTERNAL_TOOLS)]"

definition EXTERNAL_MCP_PREFIX :: ustring where
  "EXTERNAL_MCP_PREFIX = lit ''mcp__''"

lemmas tool_list_defs =
  ALWAYS_TOOLS_def READONLY_TOOLS_def SCHEDULING_MUTATION_TOOLS_def CODING_TOOLS_def
  SELF_MOD_TOOLS_def MEMORY_WRITE_TOOLS_def BROWSER_WRITE_TOOLS_def
  CREDENTIALED_EXTERNAL_TOOLS_def LAN_PREVIEW_TOOLS_def PROVIDER_PINNED_SEARCH_TOOLS_def

section \<open>Classification of a tool name\<close>

definition is_credentialed_external :: "ustring \<Rightarrow> bool" where
  "is_credentialed_external tool \<longleftrightarrow>
     tool \<in> set CREDENTIALED_EXTERNAL_TOOLS \<or> starts_with tool EXTERNAL_MCP_PREFIX"

definition is_lan_preview :: "ustring \<Rightarrow> bool" where
  "is_lan_preview tool \<longleftrightarrow> tool \<in> set LAN_PREVIEW_TOOLS"

definition is_provider_pinned_search :: "ustring \<Rightarrow> bool" where
  "is_provider_pinned_search tool \<longleftrightarrow> tool \<in> set PROVIDER_PINNED_SEARCH_TOOLS"

definition is_readonly_tool :: "ustring \<Rightarrow> bool" where
  "is_readonly_tool tool \<longleftrightarrow> tool \<in> set READONLY_TOOLS"

definition is_mutating :: "ustring \<Rightarrow> bool" where
  "is_mutating tool \<longleftrightarrow>
     tool \<in> set SCHEDULING_MUTATION_TOOLS \<or> tool \<in> set CODING_TOOLS \<or>
     tool \<in> set SELF_MOD_TOOLS \<or> tool \<in> set MEMORY_WRITE_TOOLS \<or>
     tool \<in> set BROWSER_WRITE_TOOLS"

section \<open>Profiles and roles\<close>

datatype ToolProfile = Minimal | Messaging | Coding | Full

fun profile_as_str :: "ToolProfile \<Rightarrow> ustring" where
  "profile_as_str Minimal = lit ''minimal''"
| "profile_as_str Messaging = lit ''messaging''"
| "profile_as_str Coding = lit ''coding''"
| "profile_as_str Full = lit ''full''"

definition profile_parse :: "ustring \<Rightarrow> ToolProfile option" where
  "profile_parse s =
     (if s = lit ''minimal'' then Some Minimal
      else if s = lit ''messaging'' then Some Messaging
      else if s = lit ''coding'' then Some Coding
      else if s = lit ''full'' then Some Full
      else None)"

definition allows :: "ToolProfile \<Rightarrow> ustring \<Rightarrow> bool" where
  "allows p tool =
     (if tool \<in> set ALWAYS_TOOLS then True
      else (case p of
          Minimal \<Rightarrow> False
        | Messaging \<Rightarrow> tool \<in> set READONLY_TOOLS \<or> tool \<in> set SCHEDULING_MUTATION_TOOLS
        | Coding \<Rightarrow> tool \<in> set READONLY_TOOLS \<or> tool \<in> set SCHEDULING_MUTATION_TOOLS \<or>
            tool \<in> set CODING_TOOLS
        | Full \<Rightarrow> True))"

datatype SenderRole = Admin | Member | Guest

fun role_as_str :: "SenderRole \<Rightarrow> ustring" where
  "role_as_str Admin = lit ''admin''"
| "role_as_str Member = lit ''member''"
| "role_as_str Guest = lit ''guest''"

definition role_parse :: "ustring \<Rightarrow> SenderRole option" where
  "role_parse s =
     (if s = lit ''admin'' then Some Admin
      else if s = lit ''member'' then Some Member
      else if s = lit ''guest'' then Some Guest
      else None)"

definition denies_mutating :: "SenderRole \<Rightarrow> bool" where
  "denies_mutating r \<longleftrightarrow> r = Guest"

interpretation tool_profile: wire_enum profile_as_str profile_parse
proof
  show "profile_parse (profile_as_str e) = Some e" for e
    by (cases e) (simp_all add: profile_parse_def)
  show "profile_as_str e = s" if "profile_parse s = Some e" for s e
    using that by (auto simp: profile_parse_def split: if_splits)
qed

interpretation sender_role: wire_enum role_as_str role_parse
proof
  show "role_parse (role_as_str e) = Some e" for e
    by (cases e) (simp_all add: role_parse_def)
  show "role_as_str e = s" if "role_parse s = Some e" for s e
    using that by (auto simp: role_parse_def split: if_splits)
qed

text \<open>Profiles are cumulative: the order of the tiers.\<close>

instantiation ToolProfile :: linorder
begin

definition profile_rank :: "ToolProfile \<Rightarrow> nat" where
  "profile_rank p = (case p of Minimal \<Rightarrow> 0 | Messaging \<Rightarrow> 1 | Coding \<Rightarrow> 2 | Full \<Rightarrow> 3)"

definition less_eq_ToolProfile :: "ToolProfile \<Rightarrow> ToolProfile \<Rightarrow> bool" where
  "less_eq_ToolProfile p q \<longleftrightarrow> profile_rank p \<le> profile_rank q"

definition less_ToolProfile :: "ToolProfile \<Rightarrow> ToolProfile \<Rightarrow> bool" where
  "less_ToolProfile p q \<longleftrightarrow> profile_rank p < profile_rank q"

instance
  by standard
    (auto simp: less_eq_ToolProfile_def less_ToolProfile_def profile_rank_def
      split: ToolProfile.splits)

end

lemma allows_mono: "p \<le> q \<Longrightarrow> allows p tool \<Longrightarrow> allows q tool"
  by (auto simp: allows_def less_eq_ToolProfile_def profile_rank_def
      split: ToolProfile.splits if_splits)

section \<open>The policy and its decision\<close>

datatype PolicyDecision = Allow | Deny ustring

definition is_allow :: "PolicyDecision \<Rightarrow> bool" where
  "is_allow d \<longleftrightarrow> d = Allow"

fun deny_reason :: "PolicyDecision \<Rightarrow> ustring option" where
  "deny_reason (Deny reason) = Some reason"
| "deny_reason Allow = None"

record TurnTrust =
  tainted :: bool
  approved :: bool
  autonomous :: bool

definition default_trust :: TurnTrust where
  "default_trust = \<lparr>tainted = False, approved = False, autonomous = False\<rparr>"

record ToolPolicy =
  profile :: ToolProfile
  sender_role :: "SenderRole option"
  skill_allowed :: "ustring list option"
  trust :: TurnTrust

definition default_policy :: ToolPolicy where
  "default_policy =
     \<lparr>profile = Full, sender_role = None, skill_allowed = None, trust = default_trust\<rparr>"

definition new_policy :: "ToolProfile \<Rightarrow> SenderRole option \<Rightarrow> ToolPolicy" where
  "new_policy p r = \<lparr>profile = p, sender_role = r, skill_allowed = None, trust = default_trust\<rparr>"

definition with_active_skill :: "ToolPolicy \<Rightarrow> ustring list option \<Rightarrow> ToolPolicy" where
  "with_active_skill pol allowed = pol\<lparr>skill_allowed := allowed\<rparr>"

definition with_trust :: "ToolPolicy \<Rightarrow> TurnTrust \<Rightarrow> ToolPolicy" where
  "with_trust pol t = pol\<lparr>trust := t\<rparr>"

text \<open>The model-facing texts of the denials.\<close>

definition role_reason :: "ustring \<Rightarrow> SenderRole \<Rightarrow> ustring" where
  "role_reason tool role =
     lit ''Tool `'' @ tool @ lit ''` is not available to `'' @ role_as_str role @
     lit ''` senders (read-only).''"

definition skill_reason :: "ustring \<Rightarrow> ustring" where
  "skill_reason tool =
     lit ''Tool `'' @ tool @ lit ''` is not in the active skill's allowed-tools list.''"

definition profile_reason :: "ustring \<Rightarrow> ToolProfile \<Rightarrow> ustring" where
  "profile_reason tool p =
     lit ''Tool `'' @ tool @ lit ''` is not permitted by the `'' @ profile_as_str p @
     lit ''` tool profile.''"

definition autonomous_reason :: "ustring \<Rightarrow> ustring" where
  "autonomous_reason tool =
     lit ''Tool `'' @ tool @
     lit ''` takes a credentialed external action, which is not permitted on an autonomous (heartbeat/scheduled) turn. Search memory and propose the action for a human turn to approve instead.''"

definition em_dash :: ustring where
  "em_dash = [8212]"

definition tainted_reason :: "ustring \<Rightarrow> ustring" where
  "tainted_reason tool =
     lit ''Tool `'' @ tool @
     lit ''` takes a credentialed external action, but this turn's context contains untrusted-provenance content (e.g. a fetched page or an untrusted memory entry). Fresh operator approval is required: an approval request has been filed for this action. Tell the user what you were blocked from doing and that once they approve it (the approval card, or `cclaw approvals approve-id <id>`) the clearance covers exactly ONE turn '' @
     em_dash @ lit '' retry the action on your next turn after approval.''"

text \<open>
  The four layers of \<open>ToolPolicy::evaluate\<close>, each the model-facing reason of its denial or
  \<open>None\<close> when the tool survives it.
\<close>

definition role_layer :: "ToolPolicy \<Rightarrow> ustring \<Rightarrow> ustring option" where
  "role_layer pol tool =
     (case sender_role pol of
        Some role \<Rightarrow>
          if denies_mutating role \<and> is_mutating tool then Some (role_reason tool role) else None
      | None \<Rightarrow> None)"

definition skill_layer :: "ToolPolicy \<Rightarrow> ustring \<Rightarrow> ustring option" where
  "skill_layer pol tool =
     (case skill_allowed pol of
        Some allowed \<Rightarrow>
          if tool \<notin> set ALWAYS_TOOLS \<and> tool \<notin> set allowed then Some (skill_reason tool) else None
      | None \<Rightarrow> None)"

definition profile_layer :: "ToolPolicy \<Rightarrow> ustring \<Rightarrow> ustring option" where
  "profile_layer pol tool =
     (if \<not> allows (profile pol) tool then Some (profile_reason tool (profile pol)) else None)"

definition provenance_layer :: "ToolPolicy \<Rightarrow> ustring \<Rightarrow> ustring option" where
  "provenance_layer pol tool =
     (if is_credentialed_external tool then
        if autonomous (trust pol) then Some (autonomous_reason tool)
        else if tainted (trust pol) \<and> \<not> approved (trust pol) \<and>
            \<not> is_lan_preview tool \<and> \<not> is_provider_pinned_search tool
        then Some (tainted_reason tool)
        else None
      else None)"

text \<open>
  \<open>ToolPolicy::evaluate\<close>: the first layer that denies decides. Beside the decision, the labels
  (layer, tool) of the \<open>inc_policy_denied\<close> call.
\<close>

definition evaluate :: "ToolPolicy \<Rightarrow> ustring \<Rightarrow> PolicyDecision \<times> (ustring \<times> ustring) list" where
  "evaluate pol tool =
     (case role_layer pol tool of
        Some reason \<Rightarrow> (Deny reason, [(lit ''role'', tool)])
      | None \<Rightarrow>
     (case skill_layer pol tool of
        Some reason \<Rightarrow> (Deny reason, [(lit ''skill'', tool)])
      | None \<Rightarrow>
     (case profile_layer pol tool of
        Some reason \<Rightarrow> (Deny reason, [(lit ''profile'', tool)])
      | None \<Rightarrow>
     (case provenance_layer pol tool of
        Some reason \<Rightarrow> (Deny reason, [(lit ''provenance'', tool)])
      | None \<Rightarrow> (Allow, [])))))"

section \<open>The declarative reading\<close>

definition exempt_from_taint :: "ustring \<Rightarrow> bool" where
  "exempt_from_taint tool \<longleftrightarrow> is_lan_preview tool \<or> is_provider_pinned_search tool"

text \<open>The tools a guest may never reach, an active skill admits, and the trust state lets out.\<close>

definition role_permits :: "SenderRole option \<Rightarrow> ustring \<Rightarrow> bool" where
  "role_permits r tool \<longleftrightarrow> \<not> (r = Some Guest \<and> is_mutating tool)"

definition skill_permits :: "ustring list option \<Rightarrow> ustring \<Rightarrow> bool" where
  "skill_permits sk tool \<longleftrightarrow> (\<forall>allowed. sk = Some allowed \<longrightarrow> tool \<in> set ALWAYS_TOOLS \<union> set allowed)"

definition trust_permits :: "TurnTrust \<Rightarrow> ustring \<Rightarrow> bool" where
  "trust_permits t tool \<longleftrightarrow>
     (is_credentialed_external tool \<longrightarrow>
        \<not> autonomous t \<and> (tainted t \<longrightarrow> approved t \<or> exempt_from_taint tool))"

definition policy_permits :: "ToolPolicy \<Rightarrow> ustring \<Rightarrow> bool" where
  "policy_permits pol tool \<longleftrightarrow>
     role_permits (sender_role pol) tool \<and> skill_permits (skill_allowed pol) tool \<and>
     allows (profile pol) tool \<and> trust_permits (trust pol) tool"

lemma layer_None_iff:
  "role_layer pol tool = None \<longleftrightarrow> role_permits (sender_role pol) tool"
  "skill_layer pol tool = None \<longleftrightarrow> skill_permits (skill_allowed pol) tool"
  "profile_layer pol tool = None \<longleftrightarrow> allows (profile pol) tool"
  "provenance_layer pol tool = None \<longleftrightarrow> trust_permits (trust pol) tool"
  by (auto simp: role_layer_def role_permits_def denies_mutating_def skill_layer_def
      skill_permits_def profile_layer_def provenance_layer_def trust_permits_def
      exempt_from_taint_def split: option.splits)

lemma evaluate_Allow_iff: "fst (evaluate pol tool) = Allow \<longleftrightarrow> policy_permits pol tool"
  unfolding policy_permits_def layer_None_iff [symmetric]
  by (auto simp: evaluate_def split: option.splits)

text \<open>The housekeeping tools are local, and the read-only and mutating classes are disjoint.\<close>

lemma always_tools_local:
  assumes "tool \<in> set ALWAYS_TOOLS"
  shows "\<not> is_mutating tool \<and> \<not> is_credentialed_external tool"
proof -
  have "list_all (\<lambda>t. \<not> is_mutating t \<and> \<not> is_credentialed_external t) ALWAYS_TOOLS"
    by (simp add: is_mutating_def is_credentialed_external_def EXTERNAL_MCP_PREFIX_def
        tool_list_defs)
  with assms show ?thesis by (simp add: list_all_iff)
qed

lemma readonly_tools_not_mutating:
  assumes "tool \<in> set READONLY_TOOLS"
  shows "\<not> is_mutating tool"
proof -
  have "list_all (\<lambda>t. \<not> is_mutating t) READONLY_TOOLS"
    by (simp add: is_mutating_def tool_list_defs)
  with assms show ?thesis by (simp add: list_all_iff)
qed

lemma exempt_is_external: "exempt_from_taint tool \<Longrightarrow> is_credentialed_external tool"
  by (auto simp: exempt_from_taint_def is_lan_preview_def is_provider_pinned_search_def
      is_credentialed_external_def tool_list_defs)

section \<open>The contract of the gate\<close>

text \<open>
  What the dispatcher relies on, whatever the layers are: a tool the gate lets through either stays
  inside the container, or the turn is interactive and its context is clean, approved or irrelevant
  to the tool.
\<close>

locale trust_gate =
  fixes lets_through :: "'pol \<Rightarrow> 'tool \<Rightarrow> bool"
    and external :: "'tool \<Rightarrow> bool"
    and exempt :: "'tool \<Rightarrow> bool"
    and turn :: "'pol \<Rightarrow> TurnTrust"
  assumes external_interactive:
      "lets_through pol tool \<Longrightarrow> external tool \<Longrightarrow> \<not> autonomous (turn pol)"
    and external_clean:
      "lets_through pol tool \<Longrightarrow> external tool \<Longrightarrow> tainted (turn pol) \<Longrightarrow>
         approved (turn pol) \<or> exempt tool"
begin

lemma autonomous_reach: "autonomous (turn pol) \<Longrightarrow> {tool. external tool \<and> lets_through pol tool} = {}"
  using external_interactive by blast

lemma tainted_reach:
  "tainted (turn pol) \<Longrightarrow> \<not> approved (turn pol) \<Longrightarrow>
     {tool. external tool \<and> lets_through pol tool} \<subseteq> {tool. exempt tool}"
  using external_clean by blast

end

interpretation tool_policy:
  trust_gate "\<lambda>pol tool. fst (evaluate pol tool) = Allow" is_credentialed_external exempt_from_taint trust
  by unfold_locales (auto simp: evaluate_Allow_iff policy_permits_def trust_permits_def)

text \<open>A policy that is at most as permissive as another, layer by layer.\<close>

definition skill_narrower :: "ustring list option \<Rightarrow> ustring list option \<Rightarrow> bool" where
  "skill_narrower s s' \<longleftrightarrow>
     (case s' of None \<Rightarrow> True
      | Some ys \<Rightarrow> (case s of None \<Rightarrow> False | Some xs \<Rightarrow> set xs \<subseteq> set ys \<union> set ALWAYS_TOOLS))"

definition trust_narrower :: "TurnTrust \<Rightarrow> TurnTrust \<Rightarrow> bool" where
  "trust_narrower t t' \<longleftrightarrow>
     (autonomous t' \<longrightarrow> autonomous t) \<and> (tainted t' \<longrightarrow> tainted t) \<and> (approved t \<longrightarrow> approved t')"

definition narrower :: "ToolPolicy \<Rightarrow> ToolPolicy \<Rightarrow> bool" where
  "narrower pol pol' \<longleftrightarrow>
     profile pol \<le> profile pol' \<and> (sender_role pol' = Some Guest \<longrightarrow> sender_role pol = Some Guest) \<and>
     skill_narrower (skill_allowed pol) (skill_allowed pol') \<and> trust_narrower (trust pol) (trust pol')"

lemma skill_permits_mono: "skill_narrower s s' \<Longrightarrow> skill_permits s tool \<Longrightarrow> skill_permits s' tool"
  by (auto simp: skill_narrower_def skill_permits_def split: option.splits)

lemma trust_permits_mono: "trust_narrower t t' \<Longrightarrow> trust_permits t tool \<Longrightarrow> trust_permits t' tool"
  by (auto simp: trust_narrower_def trust_permits_def)

section \<open>Properties of the policy\<close>

text \<open>
  C3: The layered decision procedure implements the declarative policy: a tool is allowed exactly
  when the role, the active skill, the profile and the trust state all permit it. An allowed call
  leaves no metric; a denied call leaves exactly one, labelled with the first layer (in the order
  role, skill, profile, provenance) that does not permit the tool.
\<close>

theorem evaluate_refines_policy:
  "(fst (evaluate pol tool) = Allow \<longleftrightarrow> policy_permits pol tool) \<and>
   snd (evaluate pol tool) =
     (if \<not> role_permits (sender_role pol) tool then [(lit ''role'', tool)]
      else if \<not> skill_permits (skill_allowed pol) tool then [(lit ''skill'', tool)]
      else if \<not> allows (profile pol) tool then [(lit ''profile'', tool)]
      else if \<not> trust_permits (trust pol) tool then [(lit ''provenance'', tool)]
      else [])"
  unfolding policy_permits_def layer_None_iff [symmetric]
  by (auto simp: evaluate_def split: option.splits)

text \<open>
  Narrowing any layer never grants a tool: a lower profile, a guest sender, a smaller skill
  allow-list, a turn that becomes autonomous or tainted or loses its approval can only remove tools.
\<close>

theorem evaluate_monotone:
  assumes "narrower pol pol'" and "fst (evaluate pol tool) = Allow"
  shows "fst (evaluate pol' tool) = Allow"
  using assms skill_permits_mono trust_permits_mono allows_mono
  by (auto simp: evaluate_Allow_iff policy_permits_def narrower_def role_permits_def)

theorem evaluate_monotone_witness:
  "fst (evaluate (new_policy Coding None) (lit ''shell'')) = Allow"
proof -
  have "narrower ((new_policy Coding (Some Member))\<lparr>skill_allowed := Some [lit ''shell'']\<rparr>)
      (new_policy Coding None)"
    by (simp add: narrower_def new_policy_def skill_narrower_def trust_narrower_def)
  moreover have "fst (evaluate ((new_policy Coding (Some Member))\<lparr>skill_allowed := Some [lit ''shell'']\<rparr>)
      (lit ''shell'')) = Allow"
    by (simp add: evaluate_Allow_iff policy_permits_def role_permits_def skill_permits_def allows_def
        trust_permits_def new_policy_def default_trust_def tool_list_defs)
  ultimately show ?thesis by (rule evaluate_monotone)
qed

text \<open>
  The guest floor: whatever the profile, the skill and the trust state, a guest sender reaches
  no mutating tool, and below the \<open>full\<close> profile reaches only housekeeping and read-only tools.
\<close>

theorem guest_reach:
  assumes "sender_role pol = Some Guest" and "fst (evaluate pol tool) = Allow"
  shows "\<not> is_mutating tool \<and> (profile pol \<noteq> Full \<longrightarrow> tool \<in> set ALWAYS_TOOLS \<union> set READONLY_TOOLS)"
  using assms
  by (auto simp: evaluate_Allow_iff policy_permits_def role_permits_def allows_def is_mutating_def
      split: if_splits ToolProfile.splits)

theorem guest_reach_witness:
  "fst (evaluate (new_policy Coding (Some Guest)) (lit ''read_file'')) = Allow \<and>
   \<not> is_mutating (lit ''read_file'')"
proof -
  have a: "fst (evaluate (new_policy Coding (Some Guest)) (lit ''read_file'')) = Allow"
    by (simp add: evaluate_Allow_iff policy_permits_def role_permits_def skill_permits_def allows_def
        trust_permits_def new_policy_def default_trust_def is_mutating_def tool_list_defs)
  have "sender_role (new_policy Coding (Some Guest)) = Some Guest"
    by (simp add: new_policy_def)
  from guest_reach [OF this a] a show ?thesis by simp
qed

text \<open>
  The housekeeping tools (replying, asking, the todo list, compaction) are reachable under every
  policy and never count as a denial, so no combination of layers can leave an agent mute.
\<close>

theorem housekeeping_always_allowed:
  assumes "tool \<in> set ALWAYS_TOOLS"
  shows "evaluate pol tool = (Allow, [])"
  using assms always_tools_local [OF assms] evaluate_Allow_iff [of pol tool]
  by (auto simp: evaluate_def layer_None_iff role_permits_def skill_permits_def allows_def
      trust_permits_def split: option.splits)

theorem housekeeping_always_allowed_witness:
  "evaluate \<lparr>profile = Minimal, sender_role = Some Guest, skill_allowed = Some [],
     trust = \<lparr>tainted = True, approved = False, autonomous = True\<rparr>\<rparr> (lit ''send_message'') = (Allow, [])"
  by (rule housekeeping_always_allowed) (simp add: ALWAYS_TOOLS_def)

text \<open>
  What a turn may do outside the container: an autonomous turn reaches no credentialed external
  tool, whatever its approval; a turn tainted by untrusted content and not approved reaches at most
  the two local preview tools and the provider-pinned search, and reaches exactly those under the
  default policy.
\<close>

theorem external_reach:
  "(autonomous t \<longrightarrow>
      {tool. is_credentialed_external tool \<and> fst (evaluate (with_trust pol t) tool) = Allow} = {}) \<and>
   (tainted t \<and> \<not> approved t \<longrightarrow>
      {tool. is_credentialed_external tool \<and> fst (evaluate (with_trust pol t) tool) = Allow} \<subseteq>
        lit ` {''expose_preview'', ''close_preview'', ''web_search''}) \<and>
   (tainted t \<and> \<not> approved t \<and> \<not> autonomous t \<longrightarrow>
      {tool. is_credentialed_external tool \<and> fst (evaluate (with_trust default_policy t) tool) = Allow} =
        lit ` {''expose_preview'', ''close_preview'', ''web_search''})"
proof -
  have exempt: "{tool. exempt_from_taint tool} = lit ` {''expose_preview'', ''close_preview'', ''web_search''}"
    by (auto simp: exempt_from_taint_def is_lan_preview_def is_provider_pinned_search_def
        LAN_PREVIEW_TOOLS_def PROVIDER_PINNED_SEARCH_TOOLS_def)
  have turn: "trust (with_trust p t) = t" for p
    by (simp add: with_trust_def)
  have "fst (evaluate (with_trust default_policy t) tool) = Allow"
    if "\<not> autonomous t" "exempt_from_taint tool" for tool
    using that by (simp add: evaluate_Allow_iff policy_permits_def with_trust_def default_policy_def
        role_permits_def skill_permits_def allows_def trust_permits_def)
  then show ?thesis
    using tool_policy.autonomous_reach [of "with_trust pol t"] tool_policy.tainted_reach [of "with_trust pol t"]
      tool_policy.tainted_reach [of "with_trust default_policy t"] exempt_is_external
    unfolding turn exempt [symmetric] by blast
qed

theorem external_reach_witness:
  "{tool. is_credentialed_external tool \<and>
      fst (evaluate (with_trust default_policy \<lparr>tainted = True, approved = False, autonomous = False\<rparr>) tool) = Allow} =
     lit ` {''expose_preview'', ''close_preview'', ''web_search''}"
  using external_reach [of "\<lparr>tainted = True, approved = False, autonomous = False\<rparr>" default_policy] by simp

end
