(* ===== verification/Self_Mod.thy ===== *)
theory Self_Mod
  imports Prelude
begin

text \<open>
  The validators of the self-modification requests (\<open>copperclaw-modules/src/self_mod.rs\<close>): the package
  names and the external-server definitions an agent may ask the host to install. The names end up as
  arguments of package managers, so what matters is the alphabet and the first character.
\<close>

datatype PackageManager = Apt | Npm

fun package_manager_as_str :: "PackageManager \<Rightarrow> ustring" where
  "package_manager_as_str Apt = lit ''apt''"
| "package_manager_as_str Npm = lit ''npm''"

datatype PackageError =
    Empty
  | TooLong ustring
  | IllegalChar ustring uchar
  | BadStart ustring
  | ScopeMissingName ustring
  | BadTransport ustring
  | BadMcpName ustring uchar

definition MAX_PACKAGE_LEN :: nat where
  "MAX_PACKAGE_LEN = 214"

text \<open>The loop over the characters: the first one outside the alphabet is the error.\<close>

fun check_chars :: "(uchar \<Rightarrow> bool) \<Rightarrow> (uchar \<Rightarrow> PackageError) \<Rightarrow> ustring \<Rightarrow> PackageError + unit" where
  "check_chars ok err [] = Inr ()"
| "check_chars ok err (c # cs) = (if ok c then check_chars ok err cs else Inl (err c))"

definition apt_char :: "uchar \<Rightarrow> bool" where
  "apt_char c \<longleftrightarrow> is_ascii_alphanumeric c \<or> c = 45 \<or> c = 43 \<or> c = 46"

definition npm_char :: "uchar \<Rightarrow> bool" where
  "npm_char c \<longleftrightarrow> is_ascii_alphanumeric c \<or> c = 45 \<or> c = 95 \<or> c = 46"

definition validate_apt_package :: "ustring \<Rightarrow> PackageError + unit" where
  "validate_apt_package name =
     (if name = [] then Inl Empty
      else if byte_len name > MAX_PACKAGE_LEN then Inl (TooLong name)
      else if \<not> is_ascii_alphanumeric (hd name) then Inl (BadStart name)
      else check_chars apt_char (IllegalChar name) name)"

definition validate_npm_package :: "ustring \<Rightarrow> PackageError + unit" where
  "validate_npm_package name =
     (if name = [] then Inl Empty
      else if byte_len name > MAX_PACKAGE_LEN then Inl (TooLong name)
      else
        (case (if hd name = 64 then
                 (case (case split_once 47 (tl name) of Some p \<Rightarrow> p | None \<Rightarrow> (tl name, [])) of
                    (scope, bare) \<Rightarrow>
                      if bare = [] then Inl (ScopeMissingName name)
                      else if scope = [] then Inl (BadStart name)
                      else (case check_chars npm_char (IllegalChar name) scope of
                              Inl e \<Rightarrow> Inl e
                            | Inr _ \<Rightarrow> Inr bare))
               else Inr name) of
           Inl e \<Rightarrow> Inl e
         | Inr bare \<Rightarrow>
             if \<not> is_ascii_alphanumeric (hd bare) then Inl (BadStart name)
             else check_chars npm_char (IllegalChar name) bare))"

definition validate_mcp_name :: "ustring \<Rightarrow> PackageError + unit" where
  "validate_mcp_name name =
     (if name = [] then Inl Empty
      else if byte_len name > MAX_PACKAGE_LEN then Inl (TooLong name)
      else if \<not> is_ascii_alphanumeric (hd name) then Inl (BadStart name)
      else check_chars npm_char (BadMcpName name) name)"

definition validate_mcp_transport :: "json \<Rightarrow> PackageError + unit" where
  "validate_mcp_transport transport =
     (case transport of
        JObject obj \<Rightarrow>
          (case Option.bind (map_of obj (lit ''type'')) json_as_str of
             None \<Rightarrow> Inl (BadTransport (lit ''missing `type`''))
           | Some ty \<Rightarrow>
               if ty = lit ''stdio'' then
                 (if map_of obj (lit ''command'') = None
                  then Inl (BadTransport (lit ''stdio missing `command`'')) else Inr ())
               else if ty = lit ''http'' \<or> ty = lit ''http-sse'' then
                 (case Option.bind (map_of obj (lit ''url'')) json_as_str of
                    None \<Rightarrow> Inl (BadTransport (ty @ lit '' missing `url`''))
                  | Some url \<Rightarrow>
                      if starts_with url (lit ''http://'') \<or> starts_with url (lit ''https://'') then Inr ()
                      else Inl (BadTransport (ty @ lit '' url must be http(s): '' @ url)))
               else Inl (BadTransport (lit ''unknown transport `'' @ ty @ lit ''`'')))
      | _ \<Rightarrow> Inl (BadTransport (lit ''not a JSON object'')))"

datatype ChangeRequest =
    InstallPackages "ustring list" "ustring list" ustring
  | AddMcpServer ustring json ustring

fun check_all :: "('a \<Rightarrow> PackageError + unit) \<Rightarrow> 'a list \<Rightarrow> PackageError + unit" where
  "check_all f [] = Inr ()"
| "check_all f (x # xs) = (case f x of Inl e \<Rightarrow> Inl e | Inr _ \<Rightarrow> check_all f xs)"

definition build_install_packages ::
  "ustring list \<Rightarrow> ustring list \<Rightarrow> ustring \<Rightarrow> PackageError + ChangeRequest" where
  "build_install_packages apt npm reason =
     (case check_all validate_apt_package apt of
        Inl e \<Rightarrow> Inl e
      | Inr _ \<Rightarrow>
         (case check_all validate_npm_package npm of
            Inl e \<Rightarrow> Inl e
          | Inr _ \<Rightarrow> Inr (InstallPackages apt npm reason)))"

definition build_add_mcp_server :: "ustring \<Rightarrow> json \<Rightarrow> ustring \<Rightarrow> PackageError + ChangeRequest" where
  "build_add_mcp_server name transport reason =
     (case validate_mcp_name name of
        Inl e \<Rightarrow> Inl e
      | Inr _ \<Rightarrow>
         (case validate_mcp_transport transport of
            Inl e \<Rightarrow> Inl e
          | Inr _ \<Rightarrow> Inr (AddMcpServer name transport reason)))"

section \<open>What an accepted request looks like\<close>

lemma check_chars_Inr_iff: "check_chars ok err s = Inr u \<longleftrightarrow> (\<forall>c \<in> set s. ok c)"
  by (induction s) auto

lemma check_all_Inr_iff: "check_all f xs = Inr u \<longleftrightarrow> (\<forall>x \<in> set xs. f x = Inr ())"
  by (induction xs) (auto split: sum.splits)

text \<open>
  A shell- and option-safe argument: non-empty, letters, digits and the given punctuation only, and it
  does not start with a dash.
\<close>

definition safe_word :: "uchar set \<Rightarrow> ustring \<Rightarrow> bool" where
  "safe_word extra w \<longleftrightarrow>
     w \<noteq> [] \<and> length w \<le> MAX_PACKAGE_LEN \<and> hd w \<noteq> 45 \<and>
     (\<forall>c \<in> set w. is_ascii_alphanumeric c \<or> c \<in> extra)"

lemma alnum_not_dash: "is_ascii_alphanumeric c \<Longrightarrow> c \<noteq> 45"
  by (auto simp: is_ascii_alphanumeric_def is_ascii_digit_def)

lemma short_length: "byte_len w \<le> MAX_PACKAGE_LEN \<Longrightarrow> length w \<le> MAX_PACKAGE_LEN"
  using length_le_byte_len [of w] by simp

lemma validate_apt_safe: "validate_apt_package w = Inr () \<Longrightarrow> safe_word {43, 45, 46} w"
  by (auto simp: validate_apt_package_def safe_word_def check_chars_Inr_iff apt_char_def not_less
      short_length dest: alnum_not_dash split: if_splits)

lemma validate_mcp_name_safe: "validate_mcp_name w = Inr () \<Longrightarrow> safe_word {45, 46, 95} w"
  by (auto simp: validate_mcp_name_def safe_word_def check_chars_Inr_iff npm_char_def not_less
      short_length dest: alnum_not_dash split: if_splits)

lemma validate_npm_safe:
  assumes "validate_npm_package w = Inr ()"
  shows "safe_word {45, 46, 47, 64, 95} w"
proof (cases "hd w = 64")
  case False
  with assms show ?thesis
    by (auto simp: validate_npm_package_def safe_word_def check_chars_Inr_iff npm_char_def not_less
        short_length dest: alnum_not_dash split: if_splits)
next
  case True
  have w: "w \<noteq> []" "length w \<le> MAX_PACKAGE_LEN"
    using assms by (auto simp: validate_npm_package_def not_less short_length split: if_splits)
  with True have split: "w = 64 # tl w"
    by (cases w) auto
  obtain scope bare where "split_once 47 (tl w) = Some (scope, bare)"
    and chars: "\<forall>c \<in> set scope. npm_char c" "\<forall>c \<in> set bare. npm_char c"
    using assms True w
    by (auto simp: validate_npm_package_def check_chars_Inr_iff split: if_splits sum.splits option.splits)
  then have "tl w = scope @ 47 # bare"
    by (simp add: split_once_SomeD)
  with split have weq: "w = 64 # scope @ 47 # bare" by simp
  have "is_ascii_alphanumeric c \<or> c \<in> {45, 46, 47, 64, 95}" if "c \<in> set w" for c
    using that chars unfolding weq npm_char_def by auto
  with w weq show ?thesis by (simp add: safe_word_def)
qed

section \<open>Properties of the validators\<close>

text \<open>
  Every accepted install request names only safe packages: apt names over letters, digits and
  plus, dash, dot, npm names with underscore and one scope prefix as well; none is empty, over-long, or
  starts with a dash, so none can be read as an option or carry shell syntax.
\<close>

theorem install_request_is_safe:
  assumes "build_install_packages apt npm reason = Inr req"
  shows "req = InstallPackages apt npm reason \<and>
    (\<forall>w \<in> set apt. safe_word {43, 45, 46} w) \<and> (\<forall>w \<in> set npm. safe_word {45, 46, 47, 64, 95} w)"
  using assms
  by (auto simp: build_install_packages_def check_all_Inr_iff validate_apt_safe validate_npm_safe
      split: sum.splits)

theorem install_request_is_safe_witness:
  "build_install_packages [lit ''jq''] [lit ''@scope/pkg''] [] =
     Inr (InstallPackages [lit ''jq''] [lit ''@scope/pkg''] []) \<and>
   safe_word {45, 46, 47, 64, 95} (lit ''@scope/pkg'')"
proof -
  have "build_install_packages [lit ''jq''] [lit ''@scope/pkg''] [] =
      Inr (InstallPackages [lit ''jq''] [lit ''@scope/pkg''] [])"
    by (simp add: build_install_packages_def validate_apt_package_def validate_npm_package_def lit_def
        byte_len_def as_bytes_def utf8_bytes_def MAX_PACKAGE_LEN_def is_ascii_alphanumeric_def
        is_ascii_digit_def apt_char_def npm_char_def)
  with install_request_is_safe [OF this] show ?thesis by simp
qed

end
