(* ===== verification/Autonomy_Gate.thy ===== *)
theory Autonomy_Gate
  imports Task_Grants Session_Db Policy Self_Mod
begin

text \<open>
  How a scheduled turn comes by its authority. The host writes the firing task's live grant into the
  session directory (\<open>write_grant_snapshot\<close> of \<open>copperclaw-host/src/container_manager/tasks_snapshot.rs\<close>),
  the runner loads it when the turn starts (\<open>load_turn_grant\<close>, \<open>firing_task_id\<close>,
  \<open>consume_taint_clearance\<close> and the turn-start block of \<open>copperclaw-runner/src/run/mod.rs\<close>), and the
  gate maps a tool call to the capability it requires and decides (\<open>required_capability\<close>, \<open>url_host\<close>,
  \<open>autonomy_verdict\<close> of \<open>run/tool_dispatch.rs\<close>).

  The session directory is the record \<open>SessionDir\<close> of the two files involved; a file that does not
  parse is \<open>Some None\<close>. Serialising a snapshot and reading it back is \<open>serde\<close>'s and is the identity.
\<close>

section \<open>The grant of a turn\<close>

record TurnGrant =
  tg_grant_id :: ustring
  tg_task_id :: ustring
  tg_capability_scope :: ustring
  tg_tokens_remaining :: "int option"
  tg_fires_remaining :: "int option"
  tg_expires_at :: "instant option"

definition turn_permits :: "TurnGrant \<Rightarrow> ustring \<Rightarrow> bool" where
  "turn_permits g required = scope_permits (tg_capability_scope g) required"

definition is_live :: "TurnGrant \<Rightarrow> instant \<Rightarrow> bool" where
  "is_live g now =
     (if (case tg_expires_at g of Some e \<Rightarrow> now \<ge> e | None \<Rightarrow> False) then False
      else if (case tg_fires_remaining g of Some f \<Rightarrow> f \<le> 0 | None \<Rightarrow> False) then False
      else if (case tg_tokens_remaining g of Some n \<Rightarrow> n \<le> 0 | None \<Rightarrow> False) then False
      else True)"

record GrantGateState =
  gate_grant :: "TurnGrant option"
  fire_consumed :: bool
  taint_source :: "ustring option"
  taint_request_emitted :: bool

definition default_gate :: GrantGateState where
  "default_gate = \<lparr>gate_grant = None, fire_consumed = False, taint_source = None,
     taint_request_emitted = False\<rparr>"

section \<open>The capability a call requires\<close>

text \<open>\<open>url_host\<close>: scheme, userinfo and port stripped, then trimmed and lower-cased.\<close>

definition after_scheme :: "ustring \<Rightarrow> ustring" where
  "after_scheme url = (case find_sub (lit ''://'') url of Some i \<Rightarrow> drop (i + 3) url | None \<Rightarrow> url)"

definition last_segment :: "uchar \<Rightarrow> ustring \<Rightarrow> ustring" where
  "last_segment c s = rev (takeWhile (\<lambda>x. x \<noteq> c) (rev s))"

definition url_host :: "json \<Rightarrow> ustring option" where
  "url_host input =
     (case json_get input (lit ''url'') of
        None \<Rightarrow> None
      | Some v \<Rightarrow>
         (case json_as_str v of
            None \<Rightarrow> None
          | Some url \<Rightarrow>
             (let authority = takeWhile (\<lambda>c. c \<notin> {47, 63, 35}) (after_scheme url);
                  host_port = last_segment 64 authority;
                  host = trim (takeWhile (\<lambda>c. c \<noteq> 58) host_port)
              in if host = [] then None else Some (map ascii_lower host))))"

definition required_capability :: "ustring \<Rightarrow> json \<Rightarrow> ustring" where
  "required_capability name input =
     (case strip_prefix name EXTERNAL_MCP_PREFIX of
        Some rest \<Rightarrow>
          lit ''mcp:'' @ (case find_sub (lit ''__'') rest of Some i \<Rightarrow> take i rest | None \<Rightarrow> rest)
      | None \<Rightarrow>
          if name = lit ''web_fetch''
          then (case url_host input of
                  Some host \<Rightarrow> lit ''web_fetch:'' @ host
                | None \<Rightarrow> lit ''web_fetch'')
          else name)"

datatype AutonomyVerdict = NotGated | Granted TurnGrant | Blocked ustring

definition scope_reason :: "ustring \<Rightarrow> ustring \<Rightarrow> ustring \<Rightarrow> ustring" where
  "scope_reason name required scope =
     lit ''Tool `'' @ name @ lit ''` takes a credentialed external action requiring capability `'' @
     required @ lit ''`, which is outside this task's approved grant (scope: `'' @ scope @
     lit ''`) on this autonomous (heartbeat/scheduled) turn. Search memory and propose the action for a human turn to approve instead.''"

definition autonomy_verdict ::
  "bool \<Rightarrow> TurnGrant option \<Rightarrow> ustring \<Rightarrow> json \<Rightarrow> instant \<Rightarrow> AutonomyVerdict" where
  "autonomy_verdict is_autonomous grant name input now =
     (if \<not> is_autonomous \<or> \<not> is_credentialed_external name then NotGated
      else let required = required_capability name input
           in case grant of
                Some g \<Rightarrow>
                  if is_live g now \<and> turn_permits g required then Granted g
                  else if is_live g now then Blocked (scope_reason name required (tg_capability_scope g))
                  else NotGated
              | None \<Rightarrow> NotGated)"

section \<open>The session directory\<close>

record TaintClearance =
  tc_session_id :: ustring
  tc_expires_at :: instant

record SessionDir =
  grant_json :: "TurnGrant option option"
  taint_clearance_json :: "TaintClearance option option"

definition task_id_of :: "MessageInRow \<Rightarrow> ustring option" where
  "task_id_of r =
     (case Option.bind (json_get (in_content r) (lit ''task_id'')) json_as_str of
        Some i \<Rightarrow> Some i
      | None \<Rightarrow> series_id r)"

text \<open>The runner's \<open>firing_task_id\<close>, on the rows of the turn.\<close>

definition firing_task_id :: "MessageInRow list \<Rightarrow> ustring option" where
  "firing_task_id rows = Option.bind (find (\<lambda>r. in_kind r = Task) rows) task_id_of"

text \<open>
  The host's \<open>firing_task_id_from_inbound\<close>: \<open>None\<close> stands for a session with no inbound database (or
  one that cannot be opened).
\<close>

definition firing_task_id_from_inbound :: "MessageInRow list option \<Rightarrow> instant \<Rightarrow> ustring option" where
  "firing_task_id_from_inbound inbound now =
     (case inbound of
        None \<Rightarrow> None
      | Some t \<Rightarrow> Option.bind (find (\<lambda>r. in_kind r = Task) (get_pending t True 64 now)) task_id_of)"

definition grant_snapshot_row :: "EffectiveGrant \<Rightarrow> TurnGrant" where
  "grant_snapshot_row e =
     \<lparr>tg_grant_id = eg_id e, tg_task_id = eg_task_id e, tg_capability_scope = eg_capability_scope e,
      tg_tokens_remaining = tokens_remaining e, tg_fires_remaining = fires_remaining e,
      tg_expires_at = eg_expires_at e\<rparr>"

text \<open>
  \<open>write_grant_snapshot\<close>: \<open>fs_ok\<close> says that the file operation succeeds (a failed write or removal is
  logged and leaves the file). The label is the one of \<open>inc_grants_snapshotted\<close>.
\<close>

definition remove_stale_grant :: "bool \<Rightarrow> SessionDir \<Rightarrow> SessionDir" where
  "remove_stale_grant fs_ok d = (if fs_ok then d\<lparr>grant_json := None\<rparr> else d)"

definition write_grant_snapshot ::
  "bool \<Rightarrow> (DbError + TaskGrant list) \<Rightarrow> MessageInRow list option \<Rightarrow> instant \<Rightarrow> SessionDir \<Rightarrow>
     SessionDir \<times> ustring list" where
  "write_grant_snapshot fs_ok central inbound now d =
     (case firing_task_id_from_inbound inbound now of
        None \<Rightarrow> (remove_stale_grant fs_ok d, [lit ''removed_no_firing_task''])
      | Some task \<Rightarrow>
         (case central of
            Inl err \<Rightarrow> (remove_stale_grant fs_ok d, [lit ''removed_read_error''])
          | Inr grants \<Rightarrow>
             (case effective_grant grants task now of
                None \<Rightarrow> (remove_stale_grant fs_ok d, [lit ''removed_no_grant''])
              | Some e \<Rightarrow>
                  if fs_ok then (d\<lparr>grant_json := Some (Some (grant_snapshot_row e))\<rparr>, [lit ''written''])
                  else (d, []))))"

text \<open>The runner's \<open>load_turn_grant\<close> and \<open>consume_taint_clearance\<close>.\<close>

definition load_turn_grant :: "SessionDir \<Rightarrow> ustring option \<Rightarrow> instant \<Rightarrow> TurnGrant option" where
  "load_turn_grant d task now =
     (case grant_json d of
        None \<Rightarrow> None
      | Some None \<Rightarrow> None
      | Some (Some g) \<Rightarrow>
          if (case task of Some tid \<Rightarrow> tg_task_id g \<noteq> tid | None \<Rightarrow> False) then None
          else if is_live g now then Some g else None)"

definition consume_taint_clearance ::
  "bool \<Rightarrow> SessionDir \<Rightarrow> ustring \<Rightarrow> instant \<Rightarrow> bool \<times> SessionDir" where
  "consume_taint_clearance fs_ok d session now =
     (case taint_clearance_json d of
        None \<Rightarrow> (False, d)
      | Some content \<Rightarrow>
          if \<not> fs_ok then (False, d)
          else
            (case content of
               None \<Rightarrow> (False, d\<lparr>taint_clearance_json := None\<rparr>)
             | Some c \<Rightarrow>
                 if tc_session_id c \<noteq> session then (False, d\<lparr>taint_clearance_json := None\<rparr>)
                 else if now \<ge> tc_expires_at c then (False, d\<lparr>taint_clearance_json := None\<rparr>)
                 else (True, d\<lparr>taint_clearance_json := None\<rparr>)))"

section \<open>The start of a turn\<close>

text \<open>
  The live signals of the tool context. \<open>begin_turn\<close> is the turn-start block of \<open>run_loop\<close> (gate state,
  clearance, provenance) followed by \<open>begin_activity\<close> of \<open>drive_turn\<close>, which resets the taint.
\<close>

record ToolCtx =
  ctx_tainted :: bool
  ctx_approved :: bool
  ctx_autonomous :: bool
  ctx_skill :: "ustring list option"
  ctx_verify_gate :: bool

definition is_autonomous_batch :: "MessageInRow list \<Rightarrow> bool" where
  "is_autonomous_batch rows \<longleftrightarrow> \<not> list_ex (\<lambda>r. in_kind r = Chat) rows"

definition begin_turn ::
  "bool \<Rightarrow> ustring \<Rightarrow> instant \<Rightarrow> MessageInRow list \<Rightarrow> SessionDir \<Rightarrow> ToolCtx \<Rightarrow>
     GrantGateState \<times> ToolCtx \<times> SessionDir" where
  "begin_turn fs_ok session now rows d ctx =
     (let auton = is_autonomous_batch rows;
          grant = (if auton then load_turn_grant d (firing_task_id rows) now else None);
          gate = \<lparr>gate_grant = grant, fire_consumed = False, taint_source = None,
                  taint_request_emitted = False\<rparr>;
          (cleared, d') = (if auton then (False, d) else consume_taint_clearance fs_ok d session now)
      in (gate, ctx\<lparr>ctx_autonomous := auton, ctx_approved := cleared, ctx_tainted := False\<rparr>, d'))"

section \<open>Lemmas\<close>

lemma verdict_GrantedD:
  "autonomy_verdict auton grant name input now = Granted g \<Longrightarrow>
     auton \<and> is_credentialed_external name \<and> grant = Some g \<and> is_live g now \<and>
     turn_permits g (required_capability name input)"
  by (auto simp: autonomy_verdict_def Let_def split: if_splits option.splits)

lemma snapshot_row_live:
  assumes "grant_live g now"
  shows "is_live (grant_snapshot_row (to_effective g)) now"
  using assms
  by (auto simp: is_live_def grant_snapshot_row_def to_effective_def grant_live_def exhausted_def
      tokens_remaining_def fires_remaining_def split: option.splits)

lemma snapshot_row_live_iff:
  assumes "grant_live g now" and "now \<le> now'"
  shows "is_live (grant_snapshot_row (to_effective g)) now' \<longleftrightarrow>
    (case expires_at g of Some e \<Rightarrow> now' < e | None \<Rightarrow> True)"
  using assms
  by (auto simp: is_live_def grant_snapshot_row_def to_effective_def grant_live_def exhausted_def
      tokens_remaining_def fires_remaining_def split: option.splits)

lemma effective_grant_task: "effective_grant t task now = Some e \<Longrightarrow> eg_task_id e = task"
proof -
  assume "effective_grant t task now = Some e"
  then obtain g rest where "list_for_task t task = g # rest" and e: "e = to_effective g"
    by (auto simp: effective_grant_eq split: list.splits if_splits)
  then have "g \<in> set (list_for_task t task)"
    by simp
  then show ?thesis
    by (simp add: list_for_task_def e to_effective_def)
qed

lemma effective_grant_live:
  "effective_grant t task now = Some e \<Longrightarrow> \<exists>g \<in> set t. e = to_effective g \<and> grant_live g now"
proof -
  assume "effective_grant t task now = Some e"
  then obtain g rest where g: "list_for_task t task = g # rest" "e = to_effective g" "grant_live g now"
    by (auto simp: effective_grant_eq split: list.splits if_splits)
  then have "g \<in> set (list_for_task t task)"
    by simp
  then have "g \<in> set t"
    by (simp add: list_for_task_def)
  with g show ?thesis by blast
qed

lemma load_after_write:
  assumes "now \<le> now'"
  shows "load_turn_grant (fst (write_grant_snapshot True (Inr grants) inbound now d)) (Some tid) now' = Some g \<longleftrightarrow>
    firing_task_id_from_inbound inbound now = Some tid \<and>
    (\<exists>e. effective_grant grants tid now = Some e \<and> g = grant_snapshot_row e \<and>
       (case eg_expires_at e of Some x \<Rightarrow> now' < x | None \<Rightarrow> True))"
proof (cases "firing_task_id_from_inbound inbound now")
  case None
  then show ?thesis
    by (simp add: write_grant_snapshot_def remove_stale_grant_def load_turn_grant_def)
next
  case (Some task)
  show ?thesis
  proof (cases "effective_grant grants task now")
    case None
    with Some show ?thesis
      by (auto simp: write_grant_snapshot_def remove_stale_grant_def load_turn_grant_def)
  next
    case e: (Some e)
    obtain row where row: "e = to_effective row" "grant_live row now"
      using effective_grant_live [OF e] by blast
    have "is_live (grant_snapshot_row e) now' \<longleftrightarrow>
        (case eg_expires_at e of Some x \<Rightarrow> now' < x | None \<Rightarrow> True)"
      using snapshot_row_live_iff [OF row(2) assms] by (simp add: row(1) to_effective_def)
    moreover have "tg_task_id (grant_snapshot_row e) = task"
      using effective_grant_task [OF e] by (simp add: grant_snapshot_row_def)
    ultimately show ?thesis
      using Some e by (auto simp: write_grant_snapshot_def load_turn_grant_def)
  qed
qed

section \<open>Properties of the gate\<close>

text \<open>
  C5: The authority a scheduled turn loads is exactly a live, approved grant of its own task: from the
  snapshot the host wrote at \<open>now\<close>, the runner, for a turn fired by \<open>tid\<close> at a later time, loads a grant
  exactly when the host saw \<open>tid\<close> as the firing task, \<open>tid\<close> had an effective grant at \<open>now\<close>, and that
  grant has not expired since; and what it loads is that grant with the budgets left at \<open>now\<close>.
\<close>

theorem loaded_grant_is_effective_grant:
  assumes "now \<le> now'"
  shows "load_turn_grant (fst (write_grant_snapshot True (Inr grants) inbound now d)) (Some tid) now' = Some g \<longleftrightarrow>
    firing_task_id_from_inbound inbound now = Some tid \<and>
    (\<exists>e. effective_grant grants tid now = Some e \<and> g = grant_snapshot_row e \<and>
       (case eg_expires_at e of Some x \<Rightarrow> now' < x | None \<Rightarrow> True))"
  using assms by (rule load_after_write)

definition task_fire :: "nat \<Rightarrow> string \<Rightarrow> WriteInbound" where
  "task_fire i task = (sample_in i)\<lparr>w_kind := Task, w_on_wake := True, w_series_id := Some (lit task)\<rparr>"

definition one_fire :: "MessageInRow list" where
  "one_fire = [inbound_row (task_fire 1 ''t1'') 2]"

definition empty_dir :: SessionDir where
  "empty_dir = \<lparr>grant_json = None, taint_clearance_json = None\<rparr>"

lemma one_fire_task: "firing_task_id_from_inbound (Some one_fire) 10 = Some (lit ''t1'')"
  by (simp add: firing_task_id_from_inbound_def one_fire_def get_pending_def sql_limit_def
      order_by_desc_def is_due_def task_fire_def sample_in_def inbound_row_def row_to_message_in_def
      task_id_of_def json_get_def non_empty_def)

lemma sample_grant_effective:
  "effective_grant [approved_row sample_grant 1] (lit ''t1'') 10 =
     Some (to_effective (approved_row sample_grant 1))"
  by (simp add: effective_grant_def approved_row_def sample_grant_def order_by_desc_def sql_limit_def)

lemma sample_grant_expiry: "eg_expires_at (to_effective (approved_row sample_grant 1)) = Some 100"
  by (simp add: to_effective_def approved_row_def sample_grant_def)

theorem loaded_grant_is_effective_grant_witness:
  "load_turn_grant
     (fst (write_grant_snapshot True (Inr [approved_row sample_grant 1]) (Some one_fire) 10 empty_dir))
     (Some (lit ''t1'')) 20 = Some (grant_snapshot_row (to_effective (approved_row sample_grant 1)))"
  using loaded_grant_is_effective_grant [of 10 20 "[approved_row sample_grant 1]" "Some one_fire" empty_dir
      "lit ''t1''" "grant_snapshot_row (to_effective (approved_row sample_grant 1))"]
    sample_grant_expiry by (simp add: one_fire_task sample_grant_effective)

text \<open>
  The taint clearance is single-turn and human: a turn starts approved only if a channel message
  drove it and the session directory held an unexpired clearance for this very session; the file is
  gone afterwards, so the next turn is not approved again. Every turn starts untainted, with an
  unspent fire and no approval request, and only an autonomous turn carries a grant.
\<close>

theorem turn_start_state:
  assumes "begin_turn fs_ok session now rows d ctx = (gate, ctx', d')"
  shows "(ctx_approved ctx' \<longrightarrow>
      (\<exists>r \<in> set rows. in_kind r = Chat) \<and>
      (\<exists>c. taint_clearance_json d = Some (Some c) \<and> tc_session_id c = session \<and> now < tc_expires_at c) \<and>
      taint_clearance_json d' = None \<and>
      \<not> ctx_approved (fst (snd (begin_turn fs_ok2 session now2 rows2 d' ctx2)))) \<and>
    \<not> ctx_tainted ctx' \<and> (ctx_autonomous ctx' \<longrightarrow> \<not> ctx_approved ctx') \<and>
    \<not> fire_consumed gate \<and> \<not> taint_request_emitted gate \<and> taint_source gate = None \<and>
    (gate_grant gate \<noteq> None \<longrightarrow> ctx_autonomous ctx')"
proof -
  have "ctx_approved ctx' \<longrightarrow>
      (\<exists>r \<in> set rows. in_kind r = Chat) \<and>
      (\<exists>c. taint_clearance_json d = Some (Some c) \<and> tc_session_id c = session \<and> now < tc_expires_at c) \<and>
      taint_clearance_json d' = None"
    using assms
    by (auto simp: begin_turn_def is_autonomous_batch_def consume_taint_clearance_def list_ex_iff Let_def
        split: if_splits option.splits prod.splits)
  moreover have "taint_clearance_json d' = None \<Longrightarrow>
      \<not> ctx_approved (fst (snd (begin_turn fs_ok2 session now2 rows2 d' ctx2)))"
    by (simp add: begin_turn_def consume_taint_clearance_def Let_def)
  moreover have "\<not> ctx_tainted ctx' \<and> (ctx_autonomous ctx' \<longrightarrow> \<not> ctx_approved ctx') \<and>
    \<not> fire_consumed gate \<and> \<not> taint_request_emitted gate \<and> taint_source gate = None \<and>
    (gate_grant gate \<noteq> None \<longrightarrow> ctx_autonomous ctx')"
    using assms by (auto simp: begin_turn_def Let_def split: if_splits prod.splits)
  ultimately show ?thesis by blast
qed

definition sample_ctx :: ToolCtx where
  "sample_ctx = \<lparr>ctx_tainted = True, ctx_approved = False, ctx_autonomous = False, ctx_skill = None,
     ctx_verify_gate = True\<rparr>"

definition cleared_dir :: SessionDir where
  "cleared_dir = \<lparr>grant_json = None,
     taint_clearance_json = Some (Some \<lparr>tc_session_id = lit ''s1'', tc_expires_at = 100\<rparr>)\<rparr>"

theorem turn_start_state_witness:
  "ctx_approved (fst (snd (begin_turn True (lit ''s1'') 10 two_in cleared_dir sample_ctx))) \<and>
   taint_clearance_json (snd (snd (begin_turn True (lit ''s1'') 10 two_in cleared_dir sample_ctx))) = None"
proof -
  have a: "ctx_approved (fst (snd (begin_turn True (lit ''s1'') 10 two_in cleared_dir sample_ctx)))"
    by (simp add: begin_turn_def is_autonomous_batch_def two_in_def sample_in_def inbound_row_def
        consume_taint_clearance_def cleared_dir_def)
  obtain gate ctx' d' where b: "begin_turn True (lit ''s1'') 10 two_in cleared_dir sample_ctx = (gate, ctx', d')"
    by (metis prod_cases3)
  show ?thesis
    using a b turn_start_state [OF b, of True 11 two_in sample_ctx] by simp
qed

text \<open>
  A turn that no task fired (a webhook or agent message with no channel message beside it) loads
  whatever live grant the session directory still holds, of whichever task: the check of the task id is
  skipped when the turn has none.
\<close>

theorem taskless_turn_loads_any_grant:
  assumes "\<forall>r \<in> set rows. in_kind r \<noteq> Task \<and> in_kind r \<noteq> Chat"
    and "grant_json d = Some (Some g)" and "is_live g now"
  shows "gate_grant (fst (begin_turn fs_ok session now rows d ctx)) = Some g"
proof -
  have "firing_task_id rows = None"
    using assms(1) by (simp add: firing_task_id_def find_None_iff [THEN iffD2])
  moreover have "is_autonomous_batch rows"
    using assms(1) by (auto simp: is_autonomous_batch_def list_ex_iff)
  ultimately show ?thesis
    using assms(2,3) by (simp add: begin_turn_def load_turn_grant_def Let_def)
qed

theorem taskless_turn_loads_any_grant_witness:
  "gate_grant (fst (begin_turn True (lit ''s1'') 10
      [inbound_row ((sample_in 1)\<lparr>w_kind := Webhook\<rparr>) 2]
      (empty_dir\<lparr>grant_json := Some (Some (grant_snapshot_row (to_effective (approved_row sample_grant 1))))\<rparr>)
      sample_ctx)) = Some (grant_snapshot_row (to_effective (approved_row sample_grant 1)))"
  by (rule taskless_turn_loads_any_grant)
    (simp_all add: inbound_row_def empty_dir_def is_live_def grant_snapshot_row_def to_effective_def
      approved_row_def sample_grant_def tokens_remaining_def fires_remaining_def)

definition two_fires :: "MessageInRow list" where
  "two_fires = [inbound_row (task_fire 1 ''t1'') 2, inbound_row (task_fire 2 ''t2'') 4]"

text \<open>
  Two pending task fires make the host and the runner disagree on the firing task: the host takes
  the newest pending row, the runner the oldest of its batch in sequence order, so the snapshot is for
  the other task and the runner ignores it (the gate stays closed).
\<close>

theorem firing_task_disagreement:
  "firing_task_id_from_inbound (Some two_fires) 10 = Some (lit ''t2'') \<and>
   firing_task_id (order_by in_seq (get_pending two_fires True 64 10)) = Some (lit ''t1'')"
  by (simp add: firing_task_id_from_inbound_def firing_task_id_def two_fires_def get_pending_def sql_limit_def
      order_by_desc_def order_by_def is_due_def task_fire_def sample_in_def inbound_row_def
      row_to_message_in_def task_id_of_def json_get_def non_empty_def)

text \<open>
  A grant for one external server also covers a server whose name extends it by two underscores:
  the name \<open>gh__evil\<close> passes the server-name validation, and its tools require only \<open>mcp:gh\<close>.
\<close>

theorem server_name_confusion:
  "validate_mcp_name (lit ''gh__evil'') = Inr () \<and>
   required_capability (EXTERNAL_MCP_PREFIX @ lit ''gh__evil'' @ lit ''__'' @ lit ''post'') input = lit ''mcp:gh'' \<and>
   scope_permits (lit ''mcp:gh'')
     (required_capability (EXTERNAL_MCP_PREFIX @ lit ''gh__evil'' @ lit ''__'' @ lit ''post'') input)"
proof -
  have "validate_mcp_name (lit ''gh__evil'') = Inr ()"
    by (simp add: validate_mcp_name_def lit_def byte_len_def as_bytes_def utf8_bytes_def MAX_PACKAGE_LEN_def
        is_ascii_alphanumeric_def is_ascii_digit_def npm_char_def)
  moreover have r: "required_capability (EXTERNAL_MCP_PREFIX @ lit ''gh__evil'' @ lit ''__'' @ lit ''post'') input =
      lit ''mcp:gh''"
    by (simp add: required_capability_def strip_prefix_def EXTERNAL_MCP_PREFIX_def lit_def)
  moreover have "scope_permits (lit ''mcp:gh'') (lit ''mcp:gh'')"
    by (simp add: scope_permits_def lit_def trim_def trim_start_def trim_end_def is_whitespace_def
        split_whitespace_def token_permits_def)
  ultimately show ?thesis by simp
qed

end
