(* ===== verification/Mcp_Relay.thy ===== *)
theory Mcp_Relay
  imports Policy Sql "HOL-Library.List_Lexorder"
begin

text \<open>
  The request/response relay by which the sandboxed runner has the host execute external tools
  (\<open>copperclaw-db/src/tables/mcp_calls.rs\<close>, \<open>copperclaw-runner/src/run/external_mcp.rs\<close>,
  \<open>preview.rs\<close>, and \<open>drain_mcp_calls\<close> of \<open>copperclaw-host-delivery/src/service.rs\<close>). The runner
  writes \<open>mcp_call_requests\<close> and polls \<open>mcp_call_responses\<close>; the host's delivery passes snapshot the
  requests, drop consumed responses, and execute what is unanswered in a detached task. Each process
  writes one database only.

  The interleaving of the two processes is the step relation \<open>relay_step\<close>. With one pass at a time, and
  the runner quiet between the two reads of a pass, no response is dropped before its request is
  consumed and no call is executed twice; without either condition both can happen, and two traces
  show it.
\<close>

section \<open>The two tables\<close>

record McpCallRequest =
  rq_id :: ustring
  rq_server :: ustring
  rq_tool :: ustring
  rq_input :: json
  rq_created :: instant

record McpCallResponse =
  resp_id :: ustring
  resp_is_error :: bool
  resp_result :: ustring

definition insert_request :: "McpCallRequest list \<Rightarrow> McpCallRequest \<Rightarrow> McpCallRequest list" where
  "insert_request t req = (if rq_id req \<in> rq_id ` set t then t else t @ [req])"

definition list_requests :: "McpCallRequest list \<Rightarrow> McpCallRequest list" where
  "list_requests t = sort_key rq_created (sort_key rq_id t)"

definition request_ids :: "McpCallRequest list \<Rightarrow> ustring set" where
  "request_ids t = set (map rq_id t)"

definition delete_request :: "McpCallRequest list \<Rightarrow> ustring \<Rightarrow> McpCallRequest list" where
  "delete_request t i = snd (sql_delete (\<lambda>r. rq_id r = i) t)"

definition insert_response :: "McpCallResponse list \<Rightarrow> McpCallResponse \<Rightarrow> McpCallResponse list" where
  "insert_response t resp = (if resp_id resp \<in> resp_id ` set t then t else t @ [resp])"

text \<open>\<open>get_response\<close>: a database the host has not migrated yet (\<open>None\<close>) has no response.\<close>

definition get_response ::
  "McpCallResponse list option \<Rightarrow> ustring \<Rightarrow> DbError + McpCallResponse option" where
  "get_response t i =
     (case t of None \<Rightarrow> Inr None | Some rs \<Rightarrow> Inr (find (\<lambda>r. resp_id r = i) rs))"

definition response_ids :: "McpCallResponse list \<Rightarrow> ustring set" where
  "response_ids t = set (map resp_id t)"

definition gc_orphan_responses ::
  "McpCallResponse list \<Rightarrow> ustring set \<Rightarrow> nat \<times> McpCallResponse list" where
  "gc_orphan_responses t live =
     (card (response_ids t - live), filter (\<lambda>r. resp_id r \<in> live) t)"

lemma list_requests_set [simp]: "set (list_requests t) = set t"
  by (simp add: list_requests_def)

lemma request_ids_simps [simp]:
  "request_ids (insert_request t req) = insert (rq_id req) (request_ids t)"
  "request_ids (delete_request t i) = request_ids t - {i}"
  by (auto simp: request_ids_def insert_request_def delete_request_def sql_delete_def)

lemma response_ids_simps [simp]:
  "response_ids (insert_response t resp) = insert (resp_id resp) (response_ids t)"
  "response_ids (snd (gc_orphan_responses t live)) = response_ids t \<inter> live"
  by (auto simp: response_ids_def insert_response_def gc_orphan_responses_def)

section \<open>The runner's side\<close>

definition EXTERNAL_MCP_DEADLINE_MS :: nat where "EXTERNAL_MCP_DEADLINE_MS = 120000"
definition EXTERNAL_MCP_POLL_MS :: nat where "EXTERNAL_MCP_POLL_MS = 200"

record ExternalToolRoute =
  route_server :: ustring
  route_tool :: ustring

definition advertised_name :: "ustring \<Rightarrow> ustring \<Rightarrow> ustring" where
  "advertised_name server tool = EXTERNAL_MCP_PREFIX @ server @ lit ''__'' @ tool"

text \<open>
  \<open>load_external_tools\<close>: the manifest as its entries (\<open>None\<close> when it is missing or malformed), giving
  the advertised definitions and the route table. A \<open>HashMap::insert\<close> of a known key replaces the route.
\<close>

record ManifestEntry =
  me_server :: ustring
  me_name :: ustring
  me_description :: "ustring option"
  me_input_schema :: json

record ToolDef =
  td_name :: ustring
  td_description :: ustring
  td_input_schema :: json

definition load_external_tools ::
  "ManifestEntry list option \<Rightarrow> ToolDef list \<times> (ustring \<rightharpoonup> ExternalToolRoute)" where
  "load_external_tools manifest =
     (case manifest of
        None \<Rightarrow> ([], \<lambda>_. None)
      | Some entries \<Rightarrow>
          (map (\<lambda>e. \<lparr>td_name = advertised_name (me_server e) (me_name e),
                     td_description = (case me_description e of None \<Rightarrow> [] | Some d \<Rightarrow> d),
                     td_input_schema = me_input_schema e\<rparr>) entries,
           fold (\<lambda>e m. m(advertised_name (me_server e) (me_name e) \<mapsto>
                        \<lparr>route_server = me_server e, route_tool = me_name e\<rparr>)) entries (\<lambda>_. None)))"

definition PREVIEW_SERVER :: ustring where "PREVIEW_SERVER = lit ''__preview''"

definition is_preview_tool :: "ustring \<Rightarrow> bool" where
  "is_preview_tool name \<longleftrightarrow>
     name = lit ''expose_preview'' \<or> name = lit ''close_preview'' \<or> name = lit ''make_preview_public''"

definition preview_route :: "ustring \<Rightarrow> ExternalToolRoute" where
  "preview_route name = \<lparr>route_server = PREVIEW_SERVER, route_tool = name\<rparr>"

text \<open>
  \<open>poll_for_response\<close>: \<open>lookup k\<close> is what the \<open>k\<close>-th read of the response table returns and \<open>cost k\<close>
  the milliseconds it takes; \<open>elapsed\<close> is the time since the start.
\<close>

function poll_for_response ::
  "(nat \<Rightarrow> DbError + McpCallResponse option) \<Rightarrow> (nat \<Rightarrow> nat) \<Rightarrow> nat \<Rightarrow> nat \<Rightarrow> nat \<Rightarrow>
     DbError + McpCallResponse option" where
  "poll_for_response lookup cost deadline k elapsed =
     (case lookup k of
        Inr (Some resp) \<Rightarrow> Inr (Some resp)
      | Inl err \<Rightarrow> Inl err
      | Inr None \<Rightarrow>
          if elapsed + cost k \<ge> deadline then Inr None
          else poll_for_response lookup cost deadline (Suc k) (elapsed + cost k + EXTERNAL_MCP_POLL_MS))"
  by pat_completeness auto
termination
  by (relation "measure (\<lambda>(lookup, cost, deadline, k, elapsed). deadline - elapsed)")
    (auto simp: EXTERNAL_MCP_POLL_MS_def)

declare poll_for_response.simps [simp del]

definition timeout_response :: "ustring \<Rightarrow> ustring \<Rightarrow> McpCallResponse" where
  "timeout_response i advertised =
     \<lparr>resp_id = i, resp_is_error = True,
      resp_result = lit ''External MCP tool `'' @ advertised @
        lit ''` did not return within 120s (the host did not respond). The call may still be running host-side; try again or break the work into smaller steps.''\<rparr>"

text \<open>
  \<open>dispatch_external\<close> on the state it uses: the request table, the turn's taint flag and the preview
  metric. What the environment supplies: the fresh request id, the clock, whether queueing fails, the
  results of the polls, and the text of a database error.
\<close>

record ExternalIo =
  io_request_id :: ustring
  io_now :: instant
  io_queue_error :: "DbError option"
  io_lookup :: "nat \<Rightarrow> DbError + McpCallResponse option"
  io_cost :: "nat \<Rightarrow> nat"
  io_err_text :: "DbError \<Rightarrow> ustring"

type_synonym ToolImage = "ustring \<times> ustring"
type_synonym ToolOutput = "ustring \<times> ToolImage list \<times> bool"

record ExternalOutcome =
  x_output :: ToolOutput
  x_requests :: "McpCallRequest list"
  x_tainted :: bool
  x_metrics :: "ustring list"

definition dispatch_external ::
  "ExternalIo \<Rightarrow> McpCallRequest list \<Rightarrow> bool \<Rightarrow> ExternalToolRoute \<Rightarrow> ustring \<Rightarrow> json \<Rightarrow> ExternalOutcome" where
  "dispatch_external io reqs is_tainted route advertised input =
     (case io_queue_error io of
        Some err \<Rightarrow>
          \<lparr>x_output = (lit ''Could not queue external MCP call `'' @ advertised @ lit ''`: '' @
                        io_err_text io err, [], True),
           x_requests = reqs, x_tainted = is_tainted, x_metrics = []\<rparr>
      | None \<Rightarrow>
         (let i = io_request_id io;
              reqs1 = insert_request reqs
                \<lparr>rq_id = i, rq_server = route_server route, rq_tool = route_tool route,
                 rq_input = input, rq_created = io_now io\<rparr>;
              result = poll_for_response (io_lookup io) (io_cost io) EXTERNAL_MCP_DEADLINE_MS 0 0;
              reqs2 = delete_request reqs1 i;
              metrics = (if route_server route = PREVIEW_SERVER
                         then (case result of Inr (Some _) \<Rightarrow> [lit ''served''] | Inr None \<Rightarrow> [lit ''timeout'']
                               | Inl _ \<Rightarrow> [])
                         else [])
          in case result of
               Inl err \<Rightarrow>
                 \<lparr>x_output = (lit ''External MCP call `'' @ advertised @
                               lit ''` failed reading the host response: '' @ io_err_text io err, [], True),
                  x_requests = reqs2, x_tainted = is_tainted, x_metrics = metrics\<rparr>
             | Inr answer \<Rightarrow>
                 (let resp = (case answer of Some r \<Rightarrow> r | None \<Rightarrow> timeout_response i advertised)
                  in \<lparr>x_output = (resp_result resp, [], resp_is_error resp),
                      x_requests = reqs2,
                      x_tainted = (is_tainted \<or> route_server route \<noteq> PREVIEW_SERVER),
                      x_metrics = metrics\<rparr>)))"

section \<open>The host's side\<close>

text \<open>
  \<open>drain_mcp_calls\<close> of one session, cut at the points where another process or thread can come in
  between: the two reads of the outbound database, which are not one transaction; the garbage
  collection and the early return on no requests; the look at the in-flight guard; and the rest, which
  reads the answered ids and, if some request is unanswered, takes the guard and starts the detached
  task. A database error ends a pass at any of these points. \<open>issued\<close>, \<open>executed\<close> and \<open>unwritten\<close> are
  history: the request ids the runner used, the calls executed, and those whose response could not be
  written.
\<close>

datatype DrainPass =
    Listed "McpCallRequest list"
  | Snapped "McpCallRequest list" "ustring set"
  | Collected "McpCallRequest list"
  | Checked "McpCallRequest list"

record relay =
  requests :: "McpCallRequest list"
  responses :: "McpCallResponse list"
  passes :: "DrainPass list"
  inflight :: bool
  drain_tasks :: "McpCallRequest list list"
  issued :: "ustring set"
  executed :: "ustring list"
  unwritten :: "ustring list"

definition relay_start :: relay where
  "relay_start = \<lparr>requests = [], responses = [], passes = [], inflight = False, drain_tasks = [],
     issued = {}, executed = [], unwritten = []\<rparr>"

definition drop_nth :: "nat \<Rightarrow> 'a list \<Rightarrow> 'a list" where
  "drop_nth k xs = take k xs @ drop (Suc k) xs"

definition drain_list :: "relay \<Rightarrow> relay" where
  "drain_list s = s\<lparr>passes := passes s @ [Listed (list_requests (requests s))]\<rparr>"

definition drain_ids :: "nat \<Rightarrow> relay \<Rightarrow> relay" where
  "drain_ids k s =
     (case passes s ! k of
        Listed reqs \<Rightarrow> s\<lparr>passes := (passes s)[k := Snapped reqs (request_ids (requests s))]\<rparr>
      | _ \<Rightarrow> s)"

definition drain_error :: "nat \<Rightarrow> relay \<Rightarrow> relay" where
  "drain_error k s = s\<lparr>passes := drop_nth k (passes s)\<rparr>"

definition drain_collect :: "nat \<Rightarrow> relay \<Rightarrow> relay" where
  "drain_collect k s =
     (case passes s ! k of
        Snapped reqs live \<Rightarrow>
          s\<lparr>responses := snd (gc_orphan_responses (responses s) live),
            passes := (if reqs = [] then drop_nth k (passes s) else (passes s)[k := Collected reqs])\<rparr>
      | _ \<Rightarrow> s)"

definition drain_check :: "nat \<Rightarrow> relay \<Rightarrow> relay" where
  "drain_check k s =
     (case passes s ! k of
        Collected reqs \<Rightarrow>
          s\<lparr>passes := (if inflight s then drop_nth k (passes s) else (passes s)[k := Checked reqs])\<rparr>
      | _ \<Rightarrow> s)"

definition unanswered :: "McpCallResponse list \<Rightarrow> McpCallRequest list \<Rightarrow> McpCallRequest list" where
  "unanswered resps reqs = filter (\<lambda>r. rq_id r \<notin> response_ids resps) reqs"

definition drain_claim :: "nat \<Rightarrow> relay \<Rightarrow> relay" where
  "drain_claim k s =
     (case passes s ! k of
        Checked reqs \<Rightarrow>
          (let todo = unanswered (responses s) reqs
           in if todo = [] then s\<lparr>passes := drop_nth k (passes s)\<rparr>
              else s\<lparr>passes := drop_nth k (passes s), inflight := True,
                     drain_tasks := drain_tasks s @ [todo]\<rparr>)
      | _ \<Rightarrow> s)"

text \<open>
  One iteration of the detached task: the call is executed (its result, here any response for the
  request, is the external server's) and the response recorded, unless the inbound database cannot be
  opened or written, which is only logged. When its list is done the task ends and drops the guard.
\<close>

definition task_answer :: "nat \<Rightarrow> bool \<Rightarrow> McpCallResponse \<Rightarrow> relay \<Rightarrow> relay" where
  "task_answer k db_ok resp s =
     (case drain_tasks s ! k of
        r # rest \<Rightarrow>
          s\<lparr>responses := (if db_ok then insert_response (responses s) resp else responses s),
            executed := executed s @ [rq_id r],
            unwritten := (if db_ok then unwritten s else unwritten s @ [rq_id r]),
            drain_tasks := (drain_tasks s)[k := rest]\<rparr>
      | [] \<Rightarrow> s)"

definition task_end :: "nat \<Rightarrow> relay \<Rightarrow> relay" where
  "task_end k s =
     (if drain_tasks s ! k = [] then s\<lparr>inflight := False, drain_tasks := drop_nth k (drain_tasks s)\<rparr>
      else s)"

inductive relay_step :: "relay \<Rightarrow> relay \<Rightarrow> bool" where
  call: "rq_id req \<notin> issued s \<Longrightarrow>
    relay_step s (s\<lparr>requests := insert_request (requests s) req, issued := insert (rq_id req) (issued s)\<rparr>)"
| consume: "relay_step s (s\<lparr>requests := delete_request (requests s) i\<rparr>)"
| list: "relay_step s (drain_list s)"
| ids: "k < length (passes s) \<Longrightarrow> relay_step s (drain_ids k s)"
| error: "k < length (passes s) \<Longrightarrow> relay_step s (drain_error k s)"
| collect: "k < length (passes s) \<Longrightarrow> relay_step s (drain_collect k s)"
| check: "k < length (passes s) \<Longrightarrow> relay_step s (drain_check k s)"
| claim: "k < length (passes s) \<Longrightarrow> relay_step s (drain_claim k s)"
| answer: "k < length (drain_tasks s) \<Longrightarrow> drain_tasks s ! k = r # rest \<Longrightarrow> resp_id resp = rq_id r \<Longrightarrow>
    relay_step s (task_answer k db_ok resp s)"
| finish: "k < length (drain_tasks s) \<Longrightarrow> relay_step s (task_end k s)"

text \<open>
  The states reached by undisturbed steps, and all of them. A step is undisturbed when it leaves at most
  one pass of the session in progress, does not consume a request between the two reads of a pass, and
  loses no response to a database error.
\<close>

definition undisturbed :: "relay \<Rightarrow> relay \<Rightarrow> bool" where
  "undisturbed s s' \<longleftrightarrow>
     length (passes s') \<le> 1 \<and>
     (\<forall>reqs. Listed reqs \<in> set (passes s) \<longrightarrow> request_ids (requests s) \<subseteq> request_ids (requests s')) \<and>
     unwritten s' = unwritten s"

inductive seq_reachable :: "relay \<Rightarrow> bool" where
  start: "seq_reachable relay_start"
| step: "seq_reachable s \<Longrightarrow> relay_step s s' \<Longrightarrow> undisturbed s s' \<Longrightarrow> seq_reachable s'"

inductive relay_reachable :: "relay \<Rightarrow> bool" where
  start: "relay_reachable relay_start"
| step: "relay_reachable s \<Longrightarrow> relay_step s s' \<Longrightarrow> relay_reachable s'"

section \<open>One pass at a time\<close>

text \<open>
  The invariant. \<open>open_ids\<close> are the outstanding requests, \<open>task_ids\<close> what the running task still has to
  execute, \<open>pass_ids\<close> the requests a pass has seen.
\<close>

abbreviation open_ids :: "relay \<Rightarrow> ustring set" where
  "open_ids s \<equiv> request_ids (requests s)"

abbreviation task_ids :: "relay \<Rightarrow> ustring set" where
  "task_ids s \<equiv> request_ids (concat (drain_tasks s))"

fun pass_requests :: "DrainPass \<Rightarrow> McpCallRequest list" where
  "pass_requests (Listed reqs) = reqs"
| "pass_requests (Snapped reqs live) = reqs"
| "pass_requests (Collected reqs) = reqs"
| "pass_requests (Checked reqs) = reqs"

definition pass_ok :: "relay \<Rightarrow> DrainPass \<Rightarrow> bool" where
  "pass_ok s p \<longleftrightarrow>
     request_ids (pass_requests p) \<subseteq> issued s \<and> distinct (map rq_id (pass_requests p)) \<and>
     request_ids (pass_requests p) \<inter> set (executed s) \<subseteq> response_ids (responses s) \<and>
     (case p of
        Listed reqs \<Rightarrow> request_ids reqs \<subseteq> open_ids s
      | Snapped reqs live \<Rightarrow>
          request_ids reqs \<subseteq> live \<and> open_ids s \<inter> (response_ids (responses s) \<union> task_ids s) \<subseteq> live
      | Collected reqs \<Rightarrow> True
      | Checked reqs \<Rightarrow> drain_tasks s = [])"

definition relay_inv :: "relay \<Rightarrow> bool" where
  "relay_inv s \<longleftrightarrow>
     distinct (map rq_id (requests s)) \<and>
     open_ids s \<union> response_ids (responses s) \<union> task_ids s \<union> set (executed s) \<subseteq> issued s \<and>
     open_ids s \<inter> set (executed s) \<subseteq> response_ids (responses s) \<and>
     length (drain_tasks s) \<le> 1 \<and> (inflight s \<longleftrightarrow> drain_tasks s \<noteq> []) \<and>
     distinct (map rq_id (concat (drain_tasks s))) \<and> task_ids s \<inter> set (executed s) = {} \<and>
     distinct (executed s) \<and> length (passes s) \<le> 1 \<and> (\<forall>p \<in> set (passes s). pass_ok s p)"

lemma distinct_list_requests: "distinct (map rq_id t) \<Longrightarrow> distinct (map rq_id (list_requests t))"
  by (simp add: list_requests_def distinct_map)

lemma only_element: "length xs \<le> 1 \<Longrightarrow> k < length xs \<Longrightarrow> xs = [xs ! k] \<and> k = 0"
  by (cases xs; cases "tl xs") auto

lemma single_pass: "relay_inv s \<Longrightarrow> k < length (passes s) \<Longrightarrow> \<exists>p. passes s = [p] \<and> k = 0"
  using only_element [of "passes s" k] by (auto simp: relay_inv_def)

lemma single_task: "relay_inv s \<Longrightarrow> k < length (drain_tasks s) \<Longrightarrow> drain_tasks s = [drain_tasks s ! k] \<and> k = 0"
  using only_element [of "drain_tasks s" k] by (auto simp: relay_inv_def)

lemma inv_start: "relay_inv relay_start"
  by (simp add: relay_inv_def relay_start_def request_ids_def response_ids_def)

lemma inv_call:
  assumes "relay_inv s" and "rq_id req \<notin> issued s"
  shows "relay_inv (s\<lparr>requests := insert_request (requests s) req, issued := insert (rq_id req) (issued s)\<rparr>)"
proof -
  have "pass_ok (s\<lparr>requests := insert_request (requests s) req, issued := insert (rq_id req) (issued s)\<rparr>) p"
    if "pass_ok s p" for p
    using that assms by (cases p) (auto simp: pass_ok_def relay_inv_def)
  moreover have "distinct (map rq_id (insert_request (requests s) req))"
    using assms(1) by (auto simp: relay_inv_def insert_request_def)
  ultimately show ?thesis
    using assms by (auto simp: relay_inv_def)
qed

lemma inv_consume:
  assumes "relay_inv s" and "undisturbed s (s\<lparr>requests := delete_request (requests s) i\<rparr>)"
  shows "relay_inv (s\<lparr>requests := delete_request (requests s) i\<rparr>)"
proof -
  have "pass_ok (s\<lparr>requests := delete_request (requests s) i\<rparr>) p" if "p \<in> set (passes s)" "pass_ok s p" for p
    using that assms(2) by (auto simp: pass_ok_def undisturbed_def split: DrainPass.splits)
  moreover have "distinct (map rq_id (delete_request (requests s) i))"
    using assms by (simp add: relay_inv_def delete_request_def sql_delete_def distinct_map_filter)
  ultimately show ?thesis
    using assms(1) by (auto simp: relay_inv_def)
qed

lemma request_ids_list [simp]: "request_ids (list_requests t) = request_ids t"
  by (simp add: request_ids_def)

lemma request_ids_list_simps [simp]:
  "request_ids [] = {}" "request_ids (r # rs) = insert (rq_id r) (request_ids rs)"
  "request_ids (xs @ ys) = request_ids xs \<union> request_ids ys"
  by (auto simp: request_ids_def)

lemma inv_list:
  assumes "relay_inv s" and "passes s = []"
  shows "relay_inv (drain_list s)"
proof -
  have "pass_ok (drain_list s) (Listed (list_requests (requests s)))"
    using assms(1) by (auto simp: pass_ok_def relay_inv_def drain_list_def distinct_list_requests)
  then show ?thesis
    using assms by (auto simp: relay_inv_def drain_list_def)
qed

lemma inv_ids:
  assumes inv: "relay_inv s" and p: "passes s = [p]"
  shows "relay_inv (drain_ids 0 s)"
proof (cases p)
  case (Listed reqs)
  have "pass_ok s (Listed reqs)"
    using inv p Listed by (simp add: relay_inv_def)
  then have "pass_ok (drain_ids 0 s) (Snapped reqs (open_ids s))"
    using inv p Listed by (auto simp: pass_ok_def drain_ids_def relay_inv_def)
  then show ?thesis
    using assms Listed by (auto simp: relay_inv_def drain_ids_def)
qed (use assms in \<open>simp_all add: drain_ids_def\<close>)

lemma inv_error:
  assumes inv: "relay_inv s" and p: "passes s = [p]"
  shows "relay_inv (drain_error 0 s)"
  using assms by (auto simp: relay_inv_def drain_error_def drop_nth_def)

lemma inv_collect:
  assumes inv: "relay_inv s" and p: "passes s = [p]"
  shows "relay_inv (drain_collect 0 s)"
proof (cases p)
  case (Snapped reqs live)
  let ?s = "drain_collect 0 s"
  have ok: "pass_ok s (Snapped reqs live)"
    using inv p Snapped by (simp add: relay_inv_def)
  have s': "requests ?s = requests s" "responses ?s = snd (gc_orphan_responses (responses s) live)"
    "issued ?s = issued s" "executed ?s = executed s" "drain_tasks ?s = drain_tasks s"
    "inflight ?s = inflight s" "passes ?s = (if reqs = [] then [] else [Collected reqs])"
    using p Snapped by (auto simp: drain_collect_def drop_nth_def)
  have "pass_ok ?s (Collected reqs)"
    using ok by (auto simp: pass_ok_def s')
  then show ?thesis
    using inv ok by (auto simp: relay_inv_def pass_ok_def s' split: if_splits)
qed (use assms in \<open>simp_all add: drain_collect_def\<close>)

lemma inv_check:
  assumes inv: "relay_inv s" and p: "passes s = [p]"
  shows "relay_inv (drain_check 0 s)"
proof (cases p)
  case (Collected reqs)
  let ?s = "drain_check 0 s"
  have ok: "pass_ok s (Collected reqs)"
    using inv p Collected by (simp add: relay_inv_def)
  have s': "requests ?s = requests s" "responses ?s = responses s"
    "issued ?s = issued s" "executed ?s = executed s" "drain_tasks ?s = drain_tasks s"
    "inflight ?s = inflight s" "passes ?s = (if inflight s then [] else [Checked reqs])"
    using p Collected by (auto simp: drain_check_def drop_nth_def)
  have "\<not> inflight s \<Longrightarrow> pass_ok ?s (Checked reqs)"
    using ok inv by (auto simp: pass_ok_def relay_inv_def s')
  then show ?thesis
    using inv by (auto simp: relay_inv_def s' split: if_splits)
qed (use assms in \<open>simp_all add: drain_check_def\<close>)

lemma request_ids_unanswered:
  "request_ids (unanswered resps reqs) = request_ids reqs - response_ids resps"
  by (auto simp: request_ids_def unanswered_def)

lemma inv_claim:
  assumes inv: "relay_inv s" and p: "passes s = [p]"
  shows "relay_inv (drain_claim 0 s)"
proof (cases p)
  case (Checked reqs)
  let ?s = "drain_claim 0 s" and ?todo = "unanswered (responses s) reqs"
  have ok: "pass_ok s (Checked reqs)"
    using inv p Checked by (simp add: relay_inv_def)
  then have none: "drain_tasks s = []"
    by (simp add: pass_ok_def)
  have s': "requests ?s = requests s" "responses ?s = responses s"
    "issued ?s = issued s" "executed ?s = executed s" "passes ?s = []"
    "drain_tasks ?s = (if ?todo = [] then [] else [?todo])" "inflight ?s = (?todo \<noteq> [])"
    using p Checked none inv by (auto simp: drain_claim_def drop_nth_def Let_def relay_inv_def)
  have "distinct (map rq_id ?todo)"
    using ok by (simp add: pass_ok_def unanswered_def distinct_map_filter)
  then show ?thesis
    using inv ok by (auto simp: relay_inv_def pass_ok_def s' request_ids_unanswered)
qed (use assms in \<open>simp_all add: drain_claim_def\<close>)

lemma inv_answer:
  assumes inv: "relay_inv s" and k: "k < length (drain_tasks s)" and "drain_tasks s ! k = r # rest"
    and "resp_id resp = rq_id r"
  shows "relay_inv (task_answer k True resp s)"
proof -
  let ?s = "task_answer k True resp s"
  have tasks: "drain_tasks s = [r # rest]" "k = 0"
    using single_task [OF inv k] assms(3) by simp_all
  then have s': "requests ?s = requests s" "responses ?s = insert_response (responses s) resp"
    "issued ?s = issued s" "executed ?s = executed s @ [rq_id r]" "passes ?s = passes s"
    "drain_tasks ?s = [rest]" "inflight ?s = inflight s"
    by (auto simp: task_answer_def)
  have fresh: "rq_id r \<notin> request_ids rest" "rq_id r \<notin> set (executed s)"
    using inv tasks(1) by (auto simp: relay_inv_def request_ids_def)
  have "pass_ok ?s p" if "pass_ok s p" for p
    using that tasks(1) assms(4) by (cases p) (auto simp: pass_ok_def s')
  then show ?thesis
    using inv tasks(1) fresh assms(4) by (auto simp: relay_inv_def s')
qed

lemma inv_finish:
  assumes inv: "relay_inv s" and k: "k < length (drain_tasks s)"
  shows "relay_inv (task_end k s)"
proof (cases "drain_tasks s ! k = []")
  case True
  let ?s = "task_end k s"
  have tasks: "drain_tasks s = [[]]" "k = 0"
    using single_task [OF inv k] True by simp_all
  then have s': "requests ?s = requests s" "responses ?s = responses s"
    "issued ?s = issued s" "executed ?s = executed s" "passes ?s = passes s"
    "drain_tasks ?s = []" "inflight ?s = False"
    by (auto simp: task_end_def drop_nth_def)
  have "pass_ok ?s p" if "pass_ok s p" for p
    using that tasks(1) by (cases p) (auto simp: pass_ok_def s')
  then show ?thesis
    using inv tasks(1) by (auto simp: relay_inv_def s')
qed (use inv in \<open>simp add: task_end_def\<close>)

lemma relay_step_inv:
  assumes "relay_step s s'" and "relay_inv s" and "undisturbed s s'"
  shows "relay_inv s'"
  using assms
proof (induction rule: relay_step.induct)
  case (list s)
  then have "passes s = []"
    by (simp add: drain_list_def undisturbed_def)
  with list show ?case by (simp add: inv_list)
next
  case (ids k s)
  then obtain p where "passes s = [p]" "k = 0"
    using single_pass by blast
  with ids show ?case by (simp add: inv_ids)
next
  case (error k s)
  then obtain p where "passes s = [p]" "k = 0"
    using single_pass by blast
  with error show ?case by (simp add: inv_error)
next
  case (answer k s r rest resp db_ok)
  then have db_ok
    by (auto simp: task_answer_def undisturbed_def split: if_splits)
  with answer show ?case by (simp add: inv_answer)
next
  case (collect k s)
  then obtain p where "passes s = [p]" "k = 0"
    using single_pass by blast
  with collect show ?case by (simp add: inv_collect)
next
  case (check k s)
  then obtain p where "passes s = [p]" "k = 0"
    using single_pass by blast
  with check show ?case by (simp add: inv_check)
next
  case (claim k s)
  then obtain p where "passes s = [p]" "k = 0"
    using single_pass by blast
  with claim show ?case by (simp add: inv_claim)
qed (auto intro: inv_call inv_consume inv_answer inv_finish)

lemma seq_reachable_inv: "seq_reachable s \<Longrightarrow> relay_inv s"
  by (induction rule: seq_reachable.induct) (auto intro: inv_start relay_step_inv)

lemma answered_stays:
  assumes "relay_inv s" and "relay_step s s'"
  shows "open_ids s \<inter> response_ids (responses s) \<subseteq> response_ids (responses s')"
  using assms(2)
proof (cases rule: relay_step.cases)
  case (collect k)
  obtain p where p: "passes s = [p]" "k = 0"
    using single_pass [OF assms(1) collect(2)] by blast
  show ?thesis
  proof (cases p)
    case (Snapped reqs live)
    then have "open_ids s \<inter> response_ids (responses s) \<subseteq> live"
      using assms(1) p by (auto simp: relay_inv_def pass_ok_def)
    then show ?thesis
      using collect(1) p Snapped by (auto simp: drain_collect_def)
  qed (use collect(1) p in \<open>auto simp: drain_collect_def\<close>)
qed (auto simp: drain_list_def drain_ids_def drain_error_def drain_check_def drain_claim_def task_answer_def task_end_def Let_def
    split: DrainPass.splits list.splits)

section \<open>The poll\<close>

lemma poll_for_response_spec:
  "\<exists>n. (\<forall>j < n. lookup (k + j) = Inr None) \<and>
     poll_for_response lookup cost deadline k elapsed = lookup (k + n) \<and>
     (lookup (k + n) = Inr None \<longrightarrow>
        deadline \<le> elapsed + (\<Sum>j\<le>n. cost (k + j)) + EXTERNAL_MCP_POLL_MS * n) \<and>
     (n = 0 \<or> elapsed + EXTERNAL_MCP_POLL_MS * n < deadline + EXTERNAL_MCP_POLL_MS)"
proof (induction lookup cost deadline k elapsed rule: poll_for_response.induct)
  case (1 lookup cost deadline k elapsed)
  show ?case
  proof (cases "lookup k = Inr None \<and> elapsed + cost k < deadline")
    case False
    then have "poll_for_response lookup cost deadline k elapsed = lookup k"
      by (subst poll_for_response.simps) (auto split: sum.splits option.splits)
    with False show ?thesis
      by (intro exI [of _ 0]) auto
  next
    case True
    let ?e = "elapsed + cost k + EXTERNAL_MCP_POLL_MS"
    have eq: "poll_for_response lookup cost deadline k elapsed =
        poll_for_response lookup cost deadline (Suc k) ?e"
      using True by (subst poll_for_response.simps) simp
    obtain n where n: "\<forall>j < n. lookup (Suc k + j) = Inr None"
      "poll_for_response lookup cost deadline (Suc k) ?e = lookup (Suc k + n)"
      "lookup (Suc k + n) = Inr None \<longrightarrow>
         deadline \<le> ?e + (\<Sum>j\<le>n. cost (Suc k + j)) + EXTERNAL_MCP_POLL_MS * n"
      "n = 0 \<or> ?e + EXTERNAL_MCP_POLL_MS * n < deadline + EXTERNAL_MCP_POLL_MS"
      using "1.IH" True by auto
    have "\<forall>j < Suc n. lookup (k + j) = Inr None"
      using n(1) True by (auto simp: less_Suc_eq_0_disj)
    moreover have "(\<Sum>j\<le>Suc n. cost (k + j)) = cost k + (\<Sum>j\<le>n. cost (Suc k + j))"
      by (subst sum.atMost_Suc_shift) simp
    ultimately show ?thesis
      using n True eq by (intro exI [of _ "Suc n"]) (auto simp: EXTERNAL_MCP_POLL_MS_def)
  qed
qed

section \<open>Properties of the relay\<close>

text \<open>
  C22: The relay is safe under every interleaving of the runner, the delivery pass and the detached task,
  as long as passes of a session do not overlap, the runner consumes no response between the two reads of
  a pass, and no response is lost to a database error: no external call is executed twice, an executed
  call whose request is still outstanding has its response waiting, and no step of either process removes
  the response of an outstanding request.
\<close>

theorem relay_exactly_once:
  assumes "seq_reachable s"
  shows "distinct (executed s) \<and>
    open_ids s \<inter> set (executed s) \<subseteq> response_ids (responses s) \<and>
    (\<forall>s'. relay_step s s' \<longrightarrow>
       open_ids s \<inter> response_ids (responses s) \<subseteq> response_ids (responses s'))"
  using seq_reachable_inv [OF assms] answered_stays [of s] by (simp add: relay_inv_def)

definition sample_request :: McpCallRequest where
  "sample_request =
     \<lparr>rq_id = lit ''r1'', rq_server = lit ''gh'', rq_tool = lit ''create_issue'', rq_input = JNull,
      rq_created = 0\<rparr>"

definition sample_response :: McpCallResponse where
  "sample_response = \<lparr>resp_id = lit ''r1'', resp_is_error = False, resp_result = lit ''ok''\<rparr>"

definition after_call :: relay where
  "after_call = relay_start\<lparr>requests := [sample_request], issued := {lit ''r1''}\<rparr>"

lemma call_step: "relay_step relay_start after_call"
  using relay_step.call [of sample_request relay_start]
  by (simp add: relay_start_def after_call_def sample_request_def insert_request_def)

definition one_pass :: "relay \<Rightarrow> relay" where
  "one_pass s = drain_claim 0 (drain_check 0 (drain_collect 0 (drain_ids 0 (drain_list s))))"

lemmas drain_defs = drain_list_def drain_ids_def drain_error_def drain_collect_def drain_check_def
  drain_claim_def task_answer_def task_end_def drop_nth_def unanswered_def list_requests_def
  request_ids_def response_ids_def gc_orphan_responses_def insert_response_def insert_request_def
  delete_request_def sql_delete_def Let_def

theorem relay_exactly_once_witness:
  "distinct (executed (drain_ids 0 (drain_list after_call))) \<and> open_ids (drain_ids 0 (drain_list after_call)) = {lit ''r1''}"
proof -
  have "seq_reachable after_call"
    by (rule seq_reachable.step [OF seq_reachable.start call_step])
      (simp add: undisturbed_def after_call_def relay_start_def)
  then have "seq_reachable (drain_list after_call)"
    by (rule seq_reachable.step [OF _ relay_step.list])
      (simp add: undisturbed_def after_call_def relay_start_def drain_list_def)
  then have "seq_reachable (drain_ids 0 (drain_list after_call))"
    by (rule seq_reachable.step [OF _ relay_step.ids])
      (simp_all add: undisturbed_def after_call_def relay_start_def drain_list_def drain_ids_def)
  from relay_exactly_once [OF this] show ?thesis
    by (simp add: drain_defs after_call_def relay_start_def sample_request_def)
qed

lemma pass_reachable:
  assumes "relay_reachable s" and "k < length (passes s)" and "k < length (passes (drain_ids k s))"
    and "k < length (passes (drain_collect k (drain_ids k s)))"
    and "k < length (passes (drain_check k (drain_collect k (drain_ids k s))))"
  shows "relay_reachable (drain_claim k (drain_check k (drain_collect k (drain_ids k s))))"
  by (intro relay_reachable.step [OF _ relay_step.claim] relay_reachable.step [OF _ relay_step.check]
      relay_reachable.step [OF _ relay_step.collect] relay_reachable.step [OF _ relay_step.ids] assms)

lemma task_reachable:
  assumes "relay_reachable s" and "drain_tasks s = [[r]]" and "resp_id resp = rq_id r"
  shows "relay_reachable (task_answer 0 db_ok resp s)"
    and "relay_reachable (task_end 0 (task_answer 0 db_ok resp s))"
proof -
  show answered: "relay_reachable (task_answer 0 db_ok resp s)"
    by (rule relay_reachable.step [OF _ relay_step.answer [of _ _ r "[]"]]) (use assms in simp_all)
  show "relay_reachable (task_end 0 (task_answer 0 db_ok resp s))"
    by (rule relay_reachable.step [OF answered relay_step.finish]) (use assms in \<open>simp add: task_answer_def\<close>)
qed

lemma after_call_reachable: "relay_reachable after_call"
  by (rule relay_reachable.step [OF relay_reachable.start call_step])

lemmas scenario_defs = drain_defs relay_start_def sample_request_def sample_response_def after_call_def

definition consumed_between_reads :: relay where
  "consumed_between_reads =
     (let s1 = task_end 0 (task_answer 0 True sample_response (one_pass after_call));
          s2 = (drain_list s1)\<lparr>requests := delete_request (requests (drain_list s1)) (lit ''r1'')\<rparr>
      in task_answer 0 True sample_response (drain_claim 0 (drain_check 0 (drain_collect 0 (drain_ids 0 s2)))))"

text \<open>
  The two reads of the request table are not one transaction, and that is enough for a call to be
  executed twice with a single pass at a time: when the runner reads the response and deletes the request
  between them, the collection drops the response and the pass executes the listed request again.
\<close>

theorem consumption_between_reads_executes_twice:
  "relay_reachable consumed_between_reads \<and> executed consumed_between_reads = [lit ''r1'', lit ''r1''] \<and>
   unwritten consumed_between_reads = []"
proof -
  define s1 where "s1 = task_end 0 (task_answer 0 True sample_response (one_pass after_call))"
  define s2 where "s2 = (drain_list s1)\<lparr>requests := delete_request (requests (drain_list s1)) (lit ''r1'')\<rparr>"
  define s3 where "s3 = drain_claim 0 (drain_check 0 (drain_collect 0 (drain_ids 0 s2)))"
  note defs = s1_def s2_def s3_def one_pass_def scenario_defs
  have "relay_reachable (one_pass after_call)"
    unfolding one_pass_def
    by (rule pass_reachable [OF relay_reachable.step [OF after_call_reachable relay_step.list]])
      (simp_all add: scenario_defs)
  then have "relay_reachable s1"
    unfolding s1_def by (rule task_reachable(2) [where r = sample_request]) (simp_all add: one_pass_def scenario_defs)
  then have "relay_reachable s2"
    unfolding s2_def by (intro relay_reachable.step [OF _ relay_step.consume] relay_reachable.step [OF _ relay_step.list])
  then have "relay_reachable s3"
    unfolding s3_def by (rule pass_reachable) (simp_all add: defs)
  then have "relay_reachable (task_answer 0 True sample_response s3)"
    by (rule task_reachable(1) [where r = sample_request]) (simp_all add: defs)
  moreover have "executed (task_answer 0 True sample_response s3) = [lit ''r1'', lit ''r1'']"
    "unwritten (task_answer 0 True sample_response s3) = []"
    by (simp_all add: defs)
  moreover have "consumed_between_reads = task_answer 0 True sample_response s3"
    by (simp add: consumed_between_reads_def Let_def s3_def s2_def s1_def)
  ultimately show ?thesis by simp
qed

definition double_execution :: relay where
  "double_execution =
     (let s1 = drain_ids 0 (drain_list relay_start);
          s2 = s1\<lparr>requests := insert_request (requests s1) sample_request,
                  issued := insert (rq_id sample_request) (issued s1)\<rparr>;
          s3 = drain_claim 1 (drain_check 1 (drain_collect 1 (drain_ids 1 (drain_list s2))));
          s4 = drain_collect 0 (task_end 0 (task_answer 0 True sample_response s3))
      in task_answer 0 True sample_response (one_pass s4))"

text \<open>
  With two passes of the same session in progress (the active loop and the sweep loop share the
  service), a call can be executed twice: the collection of a pass whose snapshot is older than the
  request drops the response before the runner has read it, and the next pass executes the request
  again.
\<close>

theorem overlapping_passes_execute_twice:
  "relay_reachable double_execution \<and> executed double_execution = [lit ''r1'', lit ''r1''] \<and>
   lit ''r1'' \<in> open_ids double_execution \<and> unwritten double_execution = []"
proof -
  define s1 where "s1 = drain_ids 0 (drain_list relay_start)"
  define s2 where "s2 = s1\<lparr>requests := insert_request (requests s1) sample_request,
    issued := insert (rq_id sample_request) (issued s1)\<rparr>"
  define s3 where "s3 = drain_claim 1 (drain_check 1 (drain_collect 1 (drain_ids 1 (drain_list s2))))"
  define s4 where "s4 = drain_collect 0 (task_end 0 (task_answer 0 True sample_response s3))"
  note defs = s1_def s2_def s3_def s4_def one_pass_def scenario_defs
  have "relay_reachable s2"
    unfolding s2_def s1_def
    by (intro relay_reachable.step [OF _ relay_step.call] relay_reachable.step [OF _ relay_step.ids]
        relay_reachable.step [OF _ relay_step.list] relay_reachable.start) (simp_all add: scenario_defs)
  then have "relay_reachable s3"
    unfolding s3_def
    by (intro pass_reachable relay_reachable.step [OF _ relay_step.list]) (simp_all add: defs)
  then have "relay_reachable (task_end 0 (task_answer 0 True sample_response s3))"
    by (rule task_reachable(2) [where r = sample_request]) (simp_all add: defs)
  then have "relay_reachable s4"
    unfolding s4_def by (rule relay_reachable.step [OF _ relay_step.collect]) (simp add: defs)
  then have "relay_reachable (one_pass s4)"
    unfolding one_pass_def
    by (intro pass_reachable relay_reachable.step [OF _ relay_step.list]) (simp_all add: defs)
  then have "relay_reachable (task_answer 0 True sample_response (one_pass s4))"
    by (rule task_reachable(1) [where r = sample_request]) (simp_all add: defs)
  moreover have "executed (task_answer 0 True sample_response (one_pass s4)) = [lit ''r1'', lit ''r1'']"
    "open_ids (task_answer 0 True sample_response (one_pass s4)) = {lit ''r1''}"
    "unwritten (task_answer 0 True sample_response (one_pass s4)) = []"
    by (simp_all add: defs)
  moreover have "double_execution = task_answer 0 True sample_response (one_pass s4)"
    by (simp add: double_execution_def Let_def s4_def s3_def s2_def s1_def)
  ultimately show ?thesis by simp
qed

text \<open>
  The runner's wait for the host is bounded and misses nothing: it stops at the first read that
  returns an answer or an error, gives up only once the deadline has passed, and makes at most
  one read per poll interval of the deadline, plus one.
\<close>

theorem external_poll_bounded:
  "\<exists>n. (\<forall>j < n. lookup j = Inr None) \<and>
     poll_for_response lookup cost EXTERNAL_MCP_DEADLINE_MS 0 0 = lookup n \<and>
     (lookup n = Inr None \<longrightarrow>
        EXTERNAL_MCP_DEADLINE_MS \<le> (\<Sum>j\<le>n. cost j) + EXTERNAL_MCP_POLL_MS * n) \<and>
     n \<le> 600"
  using poll_for_response_spec [of lookup 0 cost EXTERNAL_MCP_DEADLINE_MS 0]
  by (auto simp: EXTERNAL_MCP_DEADLINE_MS_def EXTERNAL_MCP_POLL_MS_def)

definition answered_at_three :: "nat \<Rightarrow> DbError + McpCallResponse option" where
  "answered_at_three j = (if j < 3 then Inr None else Inr (Some sample_response))"

theorem external_poll_bounded_witness:
  "poll_for_response answered_at_three (\<lambda>_. 1) EXTERNAL_MCP_DEADLINE_MS 0 0 = Inr (Some sample_response)"
proof -
  from external_poll_bounded [of answered_at_three "\<lambda>_. 1"] obtain n
    where n: "poll_for_response answered_at_three (\<lambda>_. 1) EXTERNAL_MCP_DEADLINE_MS 0 0 = answered_at_three n"
      "answered_at_three n = Inr None \<longrightarrow>
         EXTERNAL_MCP_DEADLINE_MS \<le> (\<Sum>j\<le>n. 1) + EXTERNAL_MCP_POLL_MS * n"
    by (elim exE conjE) (rule that)
  have "\<not> n < 3"
    using n(2) by (auto simp: answered_at_three_def EXTERNAL_MCP_DEADLINE_MS_def EXTERNAL_MCP_POLL_MS_def)
  with n(1) show ?thesis by (simp add: answered_at_three_def)
qed

text \<open>
  An external call with a fresh request id leaves the request table as it was, never clears the
  taint, and taints the turn exactly when an answer (or the timeout's) from a server other than the
  host's own preview relay reached the model.
\<close>

theorem dispatch_external_effects:
  assumes "io_request_id io \<notin> request_ids reqs"
  shows "x_requests (dispatch_external io reqs is_tainted route advertised input) = reqs \<and>
    (x_tainted (dispatch_external io reqs is_tainted route advertised input) \<longleftrightarrow>
       is_tainted \<or>
       io_queue_error io = None \<and> route_server route \<noteq> PREVIEW_SERVER \<and>
       (\<exists>answer. poll_for_response (io_lookup io) (io_cost io) EXTERNAL_MCP_DEADLINE_MS 0 0 = Inr answer))"
proof -
  have "delete_request (insert_request reqs req) (io_request_id io) = reqs"
    if "rq_id req = io_request_id io" for req
    using that assms
    by (auto simp: delete_request_def insert_request_def sql_delete_def request_ids_def filter_id_conv
        image_iff)
  then show ?thesis
    by (auto simp: dispatch_external_def Let_def split: option.splits sum.splits)
qed

theorem dispatch_external_effects_witness:
  "x_tainted (dispatch_external
     \<lparr>io_request_id = lit ''r1'', io_now = 0, io_queue_error = None,
      io_lookup = (\<lambda>_. Inr (Some sample_response)), io_cost = (\<lambda>_. 1), io_err_text = (\<lambda>_. [])\<rparr>
     [] False \<lparr>route_server = lit ''gh'', route_tool = lit ''create_issue''\<rparr>
     (lit ''mcp__gh__create_issue'') JNull)"
  using dispatch_external_effects [of
      "\<lparr>io_request_id = lit ''r1'', io_now = 0, io_queue_error = None,
        io_lookup = (\<lambda>_. Inr (Some sample_response)), io_cost = (\<lambda>_. 1), io_err_text = (\<lambda>_. [])\<rparr>" "[]" False
      "\<lparr>route_server = lit ''gh'', route_tool = lit ''create_issue''\<rparr>" "lit ''mcp__gh__create_issue''" JNull]
  by (simp add: PREVIEW_SERVER_def poll_for_response.simps)

end
