(* ===== verification/Tool_Dispatch.thy ===== *)
theory Tool_Dispatch
  imports Autonomy_Gate Mcp_Relay
begin

text \<open>
  The dispatch of one model-requested tool call (\<open>copperclaw-runner/src/run/tool_dispatch.rs\<close>): the
  autonomy gate, the policy, the charge of the grant, the three executors (preview relay, external
  relay, in-container handler) and the rendering of the result.

  The runner's state is the record \<open>Runner\<close>: the base policy and the tool context, the gate state, the
  outbound queue, the request table of the relay, the counters written to the metrics, the see-fix
  hooks fired, and \<open>r_dispatched\<close>, the calls handed to an executor, in order. What the code reaches
  outside this file is a parameter: the in-container handlers (\<open>Tools\<close>) see the arguments and the tool
  context, and return a result with a new context and the outbound rows they wrote; the environment of
  a call (\<open>Env\<close>) supplies the clock, fresh ids, the external relay's answers and the rendering of an
  image block.
\<close>

section \<open>Calls, results, state\<close>

record PendingToolCall =
  call_id :: ustring
  call_name :: ustring
  call_input :: json
  call_parse_error :: "ustring option"

datatype RawContent = RText ustring | RImage ustring ustring | RAudio | RResource

type_synonym CallToolResult = "RawContent list"

datatype HandlerResult = Returned CallToolResult | Errored ustring | TimedOut

type_synonym Handler =
  "(ustring \<times> json) list option \<Rightarrow> ToolCtx \<Rightarrow> HandlerResult \<times> ToolCtx \<times> WriteOutbound list"

record Tools =
  tool_map :: "ustring \<Rightarrow> Handler option"
  external_tools :: "ustring \<Rightarrow> ExternalToolRoute option"
  tool_deadline_secs :: nat

record Env =
  e_now :: instant
  e_row_id :: MessageId
  e_row_time :: instant
  e_ext :: ExternalIo
  e_render_image :: "ustring \<Rightarrow> ustring \<Rightarrow> ustring"

datatype SeeFixAction = Clear | Mark | NoAction

datatype Dispatched = ToPreview ustring | ToExternal ustring | ToHandler ustring

record Runner =
  r_policy :: ToolPolicy
  r_ctx :: ToolCtx
  r_gate :: GrantGateState
  r_outbound :: "MessageOutRow list"
  r_requests :: "McpCallRequest list"
  r_metrics :: "(ustring \<times> ustring) list"
  r_see_fix :: "SeeFixAction list"
  r_dispatched :: "Dispatched list"

section \<open>Rows the dispatcher emits\<close>

text \<open>A System row with the given payload; a failed insert is logged and ignored.\<close>

definition system_row :: "Env \<Rightarrow> json \<Rightarrow> WriteOutbound" where
  "system_row env payload =
     \<lparr>o_id = e_row_id env, o_in_reply_to = None, o_timestamp = e_row_time env, o_deliver_after = None,
      o_recurrence = None, o_kind = System, o_platform_id = None, o_channel_type = None,
      o_thread_id = None, o_content = payload\<rparr>"

definition try_insert_out :: "WriteOutbound \<Rightarrow> MessageOutRow list \<Rightarrow> MessageOutRow list" where
  "try_insert_out w t = (case insert_out t w of Inl _ \<Rightarrow> t | Inr (_, t') \<Rightarrow> t')"

definition grant_consume_payload :: "TurnGrant \<Rightarrow> json" where
  "grant_consume_payload g =
     JObject [(lit ''grant_consume'',
       JObject [(lit ''grant_id'', JString (tg_grant_id g)), (lit ''task_id'', JString (tg_task_id g)),
                (lit ''fires'', JNumber 1)])]"

definition charge_grant_fire_once :: "Env \<Rightarrow> TurnGrant \<Rightarrow> Runner \<Rightarrow> Runner" where
  "charge_grant_fire_once env g r =
     (if fire_consumed (r_gate r) then r
      else r\<lparr>r_gate := (r_gate r)\<lparr>fire_consumed := True\<rparr>,
             r_outbound := try_insert_out (system_row env (grant_consume_payload g)) (r_outbound r)\<rparr>)"

text \<open>
  \<open>taint_was_deciding_layer\<close>, with the metric labels that its second evaluation of the policy leaves.
\<close>

definition taint_was_deciding_layer :: "ToolPolicy \<Rightarrow> ustring \<Rightarrow> bool \<times> (ustring \<times> ustring) list" where
  "taint_was_deciding_layer pol tool =
     (if \<not> tainted (trust pol) \<or> approved (trust pol) \<or> autonomous (trust pol) then (False, [])
      else let cleared = with_trust pol ((trust pol)\<lparr>approved := True\<rparr>);
               (decision, ms) = evaluate cleared tool
           in (decision = Allow, ms))"

definition taint_request_payload :: "ustring \<Rightarrow> ustring \<Rightarrow> json" where
  "taint_request_payload tool source =
     JObject [(lit ''taint_approval_request'',
       JObject [(lit ''tool'', JString tool), (lit ''taint_source'', JString source)])]"

definition emit_taint_approval_request :: "Env \<Rightarrow> ustring \<Rightarrow> Runner \<Rightarrow> Runner" where
  "emit_taint_approval_request env tool r =
     (if taint_request_emitted (r_gate r) then r
      else let source = (case taint_source (r_gate r) of Some s \<Rightarrow> s | None \<Rightarrow> lit ''unknown'')
           in r\<lparr>r_gate := (r_gate r)\<lparr>taint_request_emitted := True\<rparr>,
                r_outbound := try_insert_out (system_row env (taint_request_payload tool source))
                  (r_outbound r)\<rparr>)"

section \<open>Rendering\<close>

definition see_fix_action :: "ustring \<Rightarrow> SeeFixAction" where
  "see_fix_action tool =
     (if tool = lit ''ui_screenshot'' then Clear
      else if tool \<in> {lit ''edit_file'', lit ''multi_edit'', lit ''apply_patch'', lit ''copy_file''} then Mark
      else NoAction)"

definition apply_see_fix_hooks :: "ustring \<Rightarrow> Runner \<Rightarrow> Runner" where
  "apply_see_fix_hooks tool r =
     (if see_fix_action tool = NoAction \<or> \<not> ctx_verify_gate (r_ctx r) then r
      else r\<lparr>r_see_fix := r_see_fix r @ [see_fix_action tool]\<rparr>)"

fun extract_tool_images :: "CallToolResult \<Rightarrow> ToolImage list" where
  "extract_tool_images [] = []"
| "extract_tool_images (RImage mime data # bs) = (mime, data) # extract_tool_images bs"
| "extract_tool_images (b # bs) = extract_tool_images bs"

fun render_block :: "(ustring \<Rightarrow> ustring \<Rightarrow> ustring) \<Rightarrow> RawContent \<Rightarrow> ustring" where
  "render_block img (RText s) = s"
| "render_block img (RImage mime data) = img mime data"
| "render_block img RAudio = lit ''<audio>''"
| "render_block img RResource = lit ''<resource>''"

fun render_blocks :: "(ustring \<Rightarrow> ustring \<Rightarrow> ustring) \<Rightarrow> ustring \<Rightarrow> CallToolResult \<Rightarrow> ustring" where
  "render_blocks img out [] = out"
| "render_blocks img out (b # bs) =
     render_blocks img ((if out \<noteq> [] then out @ [10, 10] else out) @ render_block img b) bs"

definition render_tool_result :: "(ustring \<Rightarrow> ustring \<Rightarrow> ustring) \<Rightarrow> CallToolResult \<Rightarrow> ustring" where
  "render_tool_result img result =
     (let out = render_blocks img [] result
      in if out = [] then lit ''(tool produced no output)'' else out)"

fun short_type :: "json \<Rightarrow> ustring" where
  "short_type JNull = lit ''null''"
| "short_type (JBool _) = lit ''bool''"
| "short_type (JNumber _) = lit ''number''"
| "short_type (JString _) = lit ''string''"
| "short_type (JArray _) = lit ''array''"
| "short_type (JObject _) = lit ''object''"

section \<open>The dispatch\<close>

definition run_external :: "Env \<Rightarrow> ExternalToolRoute \<Rightarrow> PendingToolCall \<Rightarrow> Runner \<Rightarrow> ToolOutput \<times> Runner" where
  "run_external env route call r =
     (let x = dispatch_external (e_ext env) (r_requests r) (ctx_tainted (r_ctx r)) route
                (call_name call) (call_input call)
      in (x_output x,
          r\<lparr>r_requests := x_requests x, r_ctx := (r_ctx r)\<lparr>ctx_tainted := x_tainted x\<rparr>,
            r_metrics := r_metrics r @ map (Pair (lit ''preview_expose'')) (x_metrics x)\<rparr>))"

definition run_handler ::
  "Tools \<Rightarrow> Env \<Rightarrow> Handler \<Rightarrow> (ustring \<times> json) list option \<Rightarrow> PendingToolCall \<Rightarrow> Runner \<Rightarrow>
     ToolOutput \<times> Runner" where
  "run_handler tools env h arguments call r =
     (let (result, ctx, writes) = h arguments (r_ctx r);
          r1 = r\<lparr>r_ctx := ctx, r_outbound := fold try_insert_out writes (r_outbound r)\<rparr>
      in case result of
           Returned res \<Rightarrow>
             ((render_tool_result (e_render_image env) res, extract_tool_images res, False),
              apply_see_fix_hooks (call_name call) r1)
         | Errored err \<Rightarrow>
             ((lit ''Tool `'' @ call_name call @ lit ''` failed: '' @ err, [], True), r1)
         | TimedOut \<Rightarrow>
             ((lit ''Tool `'' @ call_name call @ lit ''` did not return within '' @
               show_nat (tool_deadline_secs tools) @
               lit ''s (per-tool deadline); the runner aborted it. Consider breaking the work into smaller steps.'',
               [], True), r1))"

text \<open>The executors, in the order the code tries them.\<close>

definition execute_call :: "Tools \<Rightarrow> Env \<Rightarrow> PendingToolCall \<Rightarrow> Runner \<Rightarrow> ToolOutput \<times> Runner" where
  "execute_call tools env call r =
     (if is_preview_tool (call_name call) then
        run_external env (preview_route (call_name call)) call
          (r\<lparr>r_dispatched := r_dispatched r @ [ToPreview (call_name call)]\<rparr>)
      else case external_tools tools (call_name call) of
        Some route \<Rightarrow>
          run_external env route call (r\<lparr>r_dispatched := r_dispatched r @ [ToExternal (call_name call)]\<rparr>)
      | None \<Rightarrow>
         (case tool_map tools (call_name call) of
            None \<Rightarrow>
              ((lit ''Unknown tool `'' @ call_name call @ lit ''` '' @ em_dash @ lit '' no handler registered.'',
                [], True), r)
          | Some h \<Rightarrow>
             (case call_input call of
                JObject obj \<Rightarrow>
                  run_handler tools env h (Some obj) call
                    (r\<lparr>r_dispatched := r_dispatched r @ [ToHandler (call_name call)]\<rparr>)
              | JNull \<Rightarrow>
                  run_handler tools env h None call
                    (r\<lparr>r_dispatched := r_dispatched r @ [ToHandler (call_name call)]\<rparr>)
              | other \<Rightarrow>
                  ((lit ''Tool `'' @ call_name call @ lit ''` input must be a JSON object, got '' @
                    short_type other, [], True), r))))"

definition call_policy :: "Runner \<Rightarrow> bool \<Rightarrow> ToolPolicy" where
  "call_policy r is_autonomous =
     with_trust (with_active_skill (r_policy r) (ctx_skill (r_ctx r)))
       \<lparr>tainted = ctx_tainted (r_ctx r), approved = ctx_approved (r_ctx r), autonomous = is_autonomous\<rparr>"

text \<open>
  \<open>invoke_tool_inner\<close> after the verdict: the policy, then the charge of a granted fire, then the
  executor. \<open>granted\<close> is the grant of a \<open>Granted\<close> verdict.
\<close>

definition gated_call ::
  "Tools \<Rightarrow> Env \<Rightarrow> PendingToolCall \<Rightarrow> TurnGrant option \<Rightarrow> bool \<Rightarrow> Runner \<Rightarrow> ToolOutput \<times> Runner" where
  "gated_call tools env call granted is_autonomous r =
     (let pol = call_policy r is_autonomous;
          (decision, ms) = evaluate pol (call_name call);
          r1 = r\<lparr>r_metrics := r_metrics r @ ms\<rparr>
      in case decision of
           Deny reason \<Rightarrow>
             (let (deciding, ms') = taint_was_deciding_layer pol (call_name call);
                  r2 = r1\<lparr>r_metrics := r_metrics r1 @ ms'\<rparr>
              in ((reason, [], True),
                  if deciding then emit_taint_approval_request env (call_name call) r2 else r2))
         | Allow \<Rightarrow>
             (case granted of
                Some g \<Rightarrow>
                  (let r2 = charge_grant_fire_once env g r1
                   in execute_call tools env call
                        (r2\<lparr>r_metrics := r_metrics r2 @ [(lit ''autonomous_action'', lit ''taken'')]\<rparr>))
              | None \<Rightarrow> execute_call tools env call r1))"

definition invoke_tool_inner :: "Tools \<Rightarrow> Env \<Rightarrow> PendingToolCall \<Rightarrow> Runner \<Rightarrow> ToolOutput \<times> Runner" where
  "invoke_tool_inner tools env call r =
     (case autonomy_verdict (ctx_autonomous (r_ctx r)) (gate_grant (r_gate r)) (call_name call)
             (call_input call) (e_now env) of
        NotGated \<Rightarrow> gated_call tools env call None (ctx_autonomous (r_ctx r)) r
      | Granted g \<Rightarrow> gated_call tools env call (Some g) False r
      | Blocked reason \<Rightarrow>
          ((reason, [], True),
           r\<lparr>r_metrics := r_metrics r @ [(lit ''autonomous_action'', lit ''blocked_proposed'')]\<rparr>))"

definition invoke_tool :: "Tools \<Rightarrow> Env \<Rightarrow> PendingToolCall \<Rightarrow> Runner \<Rightarrow> ToolOutput \<times> Runner" where
  "invoke_tool tools env call r =
     (let (out, r') = invoke_tool_inner tools env call r
      in (out,
          if \<not> ctx_tainted (r_ctx r) \<and> ctx_tainted (r_ctx r') \<and> taint_source (r_gate r') = None
          then r'\<lparr>r_gate := (r_gate r')\<lparr>taint_source := Some (call_name call)\<rparr>\<rparr>
          else r'))"

text \<open>The calls of a turn, in order, each with its environment.\<close>

fun run_calls :: "Tools \<Rightarrow> (Env \<times> PendingToolCall) list \<Rightarrow> Runner \<Rightarrow> ToolOutput list \<times> Runner" where
  "run_calls tools [] r = ([], r)"
| "run_calls tools ((env, call) # cs) r =
     (let (out, r1) = invoke_tool tools env call r;
          (outs, r2) = run_calls tools cs r1
      in (out # outs, r2))"

section \<open>What is assumed of the in-container handlers\<close>

text \<open>
  The documented behaviour of a tool handler: it may taint the context and narrow the skill scope, but
  it never clears the taint, never touches the turn's provenance (only the run loop does), and never
  writes the two System rows that belong to the dispatcher.
\<close>

definition reserved_rows :: "ustring set" where
  "reserved_rows = {lit ''grant_consume'', lit ''taint_approval_request''}"

definition well_behaved :: "Tools \<Rightarrow> bool" where
  "well_behaved tools \<longleftrightarrow>
     (\<forall>name h args ctx res ctx' writes.
        tool_map tools name = Some h \<longrightarrow> h args ctx = (res, ctx', writes) \<longrightarrow>
          ctx_autonomous ctx' = ctx_autonomous ctx \<and> ctx_approved ctx' = ctx_approved ctx \<and>
          (ctx_tainted ctx \<longrightarrow> ctx_tainted ctx') \<and>
          (\<forall>w \<in> set writes. \<forall>k \<in> reserved_rows. json_get (o_content w) k = None))"

section \<open>Counting the reserved rows\<close>

definition rows_with :: "ustring \<Rightarrow> MessageOutRow list \<Rightarrow> nat" where
  "rows_with k t = length (filter (\<lambda>row. json_get (out_content row) k \<noteq> None) t)"

lemma rows_with_try_insert:
  "rows_with k (try_insert_out w t) \<le> rows_with k t + of_bool (json_get (o_content w) k \<noteq> None)"
  by (auto simp: rows_with_def try_insert_out_def insert_out_def Let_def outbound_row_def split: sum.splits)

lemma rows_with_handler_writes:
  "(\<And>w. w \<in> set ws \<Longrightarrow> json_get (o_content w) k = None) \<Longrightarrow>
     rows_with k (fold try_insert_out ws t) \<le> rows_with k t"
proof (induction ws arbitrary: t)
  case (Cons w ws)
  have "rows_with k (fold try_insert_out ws (try_insert_out w t)) \<le> rows_with k (try_insert_out w t)"
    using Cons by simp
  also have "\<dots> \<le> rows_with k t"
    using rows_with_try_insert [of k w t] Cons.prems by simp
  finally show ?case by simp
qed simp

lemma payload_keys [simp]:
  "json_get (grant_consume_payload g) (lit ''taint_approval_request'') = None"
  "json_get (taint_request_payload tool src) (lit ''grant_consume'') = None"
  "o_content (system_row env p) = p"
  by (simp_all add: json_get_def grant_consume_payload_def taint_request_payload_def system_row_def)

section \<open>What the executors keep\<close>

text \<open>
  Handing a call to an executor changes neither the policy nor the gate state, keeps the turn's
  provenance and taint, and adds no reserved row.
\<close>

definition keeps_gate :: "Runner \<Rightarrow> Runner \<Rightarrow> bool" where
  "keeps_gate r r' \<longleftrightarrow>
     r_policy r' = r_policy r \<and> r_gate r' = r_gate r \<and>
     ctx_autonomous (r_ctx r') = ctx_autonomous (r_ctx r) \<and>
     ctx_approved (r_ctx r') = ctx_approved (r_ctx r) \<and>
     (ctx_tainted (r_ctx r) \<longrightarrow> ctx_tainted (r_ctx r')) \<and>
     (\<forall>k \<in> reserved_rows. rows_with k (r_outbound r') \<le> rows_with k (r_outbound r))"

lemma keeps_gate_external: "keeps_gate r (snd (run_external env route call r))"
  by (auto simp: keeps_gate_def run_external_def Let_def dispatch_external_def
      split: option.splits sum.splits)

lemma apply_see_fix_hooks_keeps:
  "r_policy (apply_see_fix_hooks n r) = r_policy r" "r_gate (apply_see_fix_hooks n r) = r_gate r"
  "r_ctx (apply_see_fix_hooks n r) = r_ctx r" "r_outbound (apply_see_fix_hooks n r) = r_outbound r"
  "r_dispatched (apply_see_fix_hooks n r) = r_dispatched r"
  by (simp_all add: apply_see_fix_hooks_def)

lemma snd_run_handler:
  assumes "h args (r_ctx r) = (res, ctx, writes)"
  shows "r_policy (snd (run_handler tools env h args call r)) = r_policy r"
    "r_gate (snd (run_handler tools env h args call r)) = r_gate r"
    "r_ctx (snd (run_handler tools env h args call r)) = ctx"
    "r_outbound (snd (run_handler tools env h args call r)) = fold try_insert_out writes (r_outbound r)"
  using assms
  by (auto simp: run_handler_def apply_see_fix_hooks_keeps Let_def split: HandlerResult.splits)

lemma keeps_gate_handler:
  assumes "well_behaved tools" and "tool_map tools name = Some h"
  shows "keeps_gate r (snd (run_handler tools env h args call r))"
proof -
  obtain res ctx writes where h: "h args (r_ctx r) = (res, ctx, writes)"
    by (metis prod_cases3)
  have wb: "ctx_autonomous ctx = ctx_autonomous (r_ctx r) \<and> ctx_approved ctx = ctx_approved (r_ctx r) \<and>
      (ctx_tainted (r_ctx r) \<longrightarrow> ctx_tainted ctx) \<and>
      (\<forall>w \<in> set writes. \<forall>k \<in> reserved_rows. json_get (o_content w) k = None)"
    using assms h unfolding well_behaved_def by blast
  then have "rows_with k (fold try_insert_out writes (r_outbound r)) \<le> rows_with k (r_outbound r)"
    if "k \<in> reserved_rows" for k
    using that by (intro rows_with_handler_writes) blast
  with wb show ?thesis
    by (simp add: keeps_gate_def snd_run_handler [where h = h and args = args and r = r, OF h])
qed

lemma keeps_gate_log:
  "keeps_gate (r\<lparr>r_dispatched := ds\<rparr>) r' \<Longrightarrow> keeps_gate r r'"
  "keeps_gate (r\<lparr>r_metrics := ms\<rparr>) r' \<Longrightarrow> keeps_gate r r'"
  by (simp_all add: keeps_gate_def)

lemma keeps_gate_refl: "keeps_gate r r"
  by (simp add: keeps_gate_def)

lemma keeps_gate_external_logged: "keeps_gate r (snd (run_external env route call (r\<lparr>r_dispatched := ds\<rparr>)))"
  by (rule keeps_gate_log(1) [OF keeps_gate_external])

lemma keeps_gate_handler_logged:
  "well_behaved tools \<Longrightarrow> tool_map tools name = Some h \<Longrightarrow>
     keeps_gate r (snd (run_handler tools env h args call (r\<lparr>r_dispatched := ds\<rparr>)))"
  by (rule keeps_gate_log(1) [OF keeps_gate_handler])

lemma keeps_gate_execute:
  "well_behaved tools \<Longrightarrow> keeps_gate r (snd (execute_call tools env call r))"
  by (simp add: execute_call_def keeps_gate_external_logged keeps_gate_refl keeps_gate_handler_logged
      split: option.split json.split)

section \<open>One emission per turn\<close>

text \<open>
  A latch that is set with the first emission bounds the emissions of a whole sequence of steps. The
  contract is the law of one step: an emission costs the latch.
\<close>

locale once_per_turn =
  fixes step :: "'c \<Rightarrow> 's \<Rightarrow> 's"
    and ok :: "'c \<Rightarrow> bool"
    and latch :: "'s \<Rightarrow> bool"
    and emitted :: "'s \<Rightarrow> nat"
  assumes emission_costs_latch:
    "ok c \<Longrightarrow>
       emitted (step c s) + of_bool (\<not> latch (step c s)) \<le> emitted s + of_bool (\<not> latch s)"
begin

lemma fold_bound:
  "(\<And>c. c \<in> set cs \<Longrightarrow> ok c) \<Longrightarrow>
     emitted (fold step cs s) + of_bool (\<not> latch (fold step cs s)) \<le> emitted s + of_bool (\<not> latch s)"
proof (induction cs arbitrary: s)
  case (Cons c cs)
  then show ?case
    using emission_costs_latch [of c s] Cons.IH [of "step c s"] by fastforce
qed simp

lemma at_most_one: "(\<And>c. c \<in> set cs \<Longrightarrow> ok c) \<Longrightarrow> emitted (fold step cs s) \<le> Suc (emitted s)"
  using fold_bound [of cs s] by (auto simp: of_bool_def split: if_splits)

end

definition call_step :: "Tools \<times> Env \<times> PendingToolCall \<Rightarrow> Runner \<Rightarrow> Runner" where
  "call_step c r = (case c of (tools, env, call) \<Rightarrow> snd (invoke_tool tools env call r))"

lemma charge_effect:
  "rows_with (lit ''grant_consume'') (r_outbound (charge_grant_fire_once env g r)) +
     of_bool (\<not> fire_consumed (r_gate (charge_grant_fire_once env g r)))
   \<le> rows_with (lit ''grant_consume'') (r_outbound r) + of_bool (\<not> fire_consumed (r_gate r))"
  using rows_with_try_insert [of "lit ''grant_consume''" "system_row env (grant_consume_payload g)" "r_outbound r"]
  by (auto simp: charge_grant_fire_once_def of_bool_def split: if_splits)

lemma charge_other:
  "rows_with (lit ''taint_approval_request'') (r_outbound (charge_grant_fire_once env g r)) \<le>
     rows_with (lit ''taint_approval_request'') (r_outbound r)"
  "taint_request_emitted (r_gate (charge_grant_fire_once env g r)) = taint_request_emitted (r_gate r)"
  "taint_source (r_gate (charge_grant_fire_once env g r)) = taint_source (r_gate r)"
  "r_ctx (charge_grant_fire_once env g r) = r_ctx r" "r_dispatched (charge_grant_fire_once env g r) = r_dispatched r"
  using rows_with_try_insert [of "lit ''taint_approval_request''" "system_row env (grant_consume_payload g)"
      "r_outbound r"]
  by (auto simp: charge_grant_fire_once_def)

lemma emit_effect:
  "rows_with (lit ''taint_approval_request'') (r_outbound (emit_taint_approval_request env n r)) +
     of_bool (\<not> taint_request_emitted (r_gate (emit_taint_approval_request env n r)))
   \<le> rows_with (lit ''taint_approval_request'') (r_outbound r) + of_bool (\<not> taint_request_emitted (r_gate r))"
  using rows_with_try_insert [of "lit ''taint_approval_request''"
      "system_row env (taint_request_payload n (case taint_source (r_gate r) of Some s \<Rightarrow> s | None \<Rightarrow> lit ''unknown''))"
      "r_outbound r"]
  by (auto simp: emit_taint_approval_request_def Let_def of_bool_def split: if_splits)

lemma emit_other:
  "rows_with (lit ''grant_consume'') (r_outbound (emit_taint_approval_request env n r)) \<le>
     rows_with (lit ''grant_consume'') (r_outbound r)"
  "fire_consumed (r_gate (emit_taint_approval_request env n r)) = fire_consumed (r_gate r)"
  "taint_source (r_gate (emit_taint_approval_request env n r)) = taint_source (r_gate r)"
  "r_ctx (emit_taint_approval_request env n r) = r_ctx r"
  "r_dispatched (emit_taint_approval_request env n r) = r_dispatched r"
  "r_requests (emit_taint_approval_request env n r) = r_requests r"
  "r_see_fix (emit_taint_approval_request env n r) = r_see_fix r"
  "r_policy (emit_taint_approval_request env n r) = r_policy r"
  using rows_with_try_insert [of "lit ''grant_consume''"
      "system_row env (taint_request_payload n (case taint_source (r_gate r) of Some s \<Rightarrow> s | None \<Rightarrow> lit ''unknown''))"
      "r_outbound r"]
  by (auto simp: emit_taint_approval_request_def Let_def)

text \<open>The shape of one call: blocked, denied, or executed after the charge.\<close>

definition denied :: "Runner \<Rightarrow> Runner \<Rightarrow> bool" where
  "denied r r' \<longleftrightarrow>
     r_dispatched r' = r_dispatched r \<and> r_ctx r' = r_ctx r \<and> r_requests r' = r_requests r \<and>
     r_see_fix r' = r_see_fix r \<and> r_policy r' = r_policy r \<and>
     fire_consumed (r_gate r') = fire_consumed (r_gate r) \<and> taint_source (r_gate r') = taint_source (r_gate r) \<and>
     rows_with (lit ''grant_consume'') (r_outbound r') \<le> rows_with (lit ''grant_consume'') (r_outbound r) \<and>
     rows_with (lit ''taint_approval_request'') (r_outbound r') + of_bool (\<not> taint_request_emitted (r_gate r'))
       \<le> rows_with (lit ''taint_approval_request'') (r_outbound r) + of_bool (\<not> taint_request_emitted (r_gate r))"

lemma denied_log: "denied (r\<lparr>r_metrics := ms\<rparr>) r' \<Longrightarrow> denied r r'"
  by (simp add: denied_def)

lemma gated_call_denied:
  assumes "fst (evaluate (call_policy r auton) (call_name call)) = Deny reason"
  shows "denied r (snd (gated_call tools env call granted auton r)) \<and>
    fst (gated_call tools env call granted auton r) = (reason, [], True)"
proof -
  have "denied r (emit_taint_approval_request env n (r\<lparr>r_metrics := ms\<rparr>))"
    and "denied r (r\<lparr>r_metrics := ms\<rparr>)" for n ms
    using emit_effect [of env n "r\<lparr>r_metrics := ms\<rparr>"] emit_other [of env n "r\<lparr>r_metrics := ms\<rparr>"]
    by (simp_all add: denied_def)
  then show ?thesis
    using assms by (auto simp: gated_call_def Let_def split: prod.splits)
qed

lemma gated_call_allowed:
  assumes "fst (evaluate (call_policy r auton) (call_name call)) = Allow"
  shows "gated_call tools env call granted auton r =
    execute_call tools env call
      (case granted of
         None \<Rightarrow> r
       | Some g \<Rightarrow> (charge_grant_fire_once env g r)
           \<lparr>r_metrics := r_metrics r @ [(lit ''autonomous_action'', lit ''taken'')]\<rparr>)"
proof -
  have "snd (evaluate (call_policy r auton) (call_name call)) = []"
    using assms by (auto simp: evaluate_def split: option.splits)
  then have "evaluate (call_policy r auton) (call_name call) = (Allow, [])"
    using assms by (simp add: prod_eq_iff)
  then show ?thesis
    by (auto simp: gated_call_def Let_def charge_grant_fire_once_def split: option.splits)
qed

text \<open>What an invocation may do to the two latched emissions.\<close>

definition emission_law :: "Runner \<Rightarrow> Runner \<Rightarrow> bool" where
  "emission_law r r' \<longleftrightarrow>
     rows_with (lit ''grant_consume'') (r_outbound r') + of_bool (\<not> fire_consumed (r_gate r'))
       \<le> rows_with (lit ''grant_consume'') (r_outbound r) + of_bool (\<not> fire_consumed (r_gate r)) \<and>
     rows_with (lit ''taint_approval_request'') (r_outbound r') + of_bool (\<not> taint_request_emitted (r_gate r'))
       \<le> rows_with (lit ''taint_approval_request'') (r_outbound r) + of_bool (\<not> taint_request_emitted (r_gate r))"

lemma emission_denied: "denied r r' \<Longrightarrow> emission_law r r'"
  by (simp add: denied_def emission_law_def)

lemma emission_keeps: "keeps_gate r r' \<Longrightarrow> emission_law r r'"
  by (simp add: keeps_gate_def emission_law_def reserved_rows_def)

lemma emission_log: "emission_law r (r\<lparr>r_metrics := ms\<rparr>)"
  by (simp add: emission_law_def)

lemma emission_trans: "emission_law r r1 \<Longrightarrow> emission_law r1 r2 \<Longrightarrow> emission_law r r2"
  by (auto simp: emission_law_def)

lemma emission_charge:
  "emission_law r ((charge_grant_fire_once env g r)\<lparr>r_metrics := ms\<rparr>)"
  using charge_effect [of env g r] charge_other(1,2) [of env g r] by (simp add: emission_law_def)

lemma emission_gated:
  assumes "well_behaved tools"
  shows "emission_law r (snd (gated_call tools env call granted auton r))"
proof (cases "fst (evaluate (call_policy r auton) (call_name call))")
  case Allow
  show ?thesis
    unfolding gated_call_allowed [OF Allow]
    by (cases granted)
      (simp_all add: emission_keeps [OF keeps_gate_execute [OF assms]]
        emission_trans [OF emission_charge emission_keeps [OF keeps_gate_execute [OF assms]]])
next
  case (Deny reason)
  then show ?thesis by (simp add: gated_call_denied emission_denied)
qed

lemma emission_inner:
  "well_behaved tools \<Longrightarrow> emission_law r (snd (invoke_tool_inner tools env call r))"
  by (simp add: invoke_tool_inner_def emission_gated emission_log split: AutonomyVerdict.split)

lemma invoke_tool_same:
  "r_outbound (snd (invoke_tool tools env call r)) = r_outbound (snd (invoke_tool_inner tools env call r))"
  "fire_consumed (r_gate (snd (invoke_tool tools env call r))) =
     fire_consumed (r_gate (snd (invoke_tool_inner tools env call r)))"
  "taint_request_emitted (r_gate (snd (invoke_tool tools env call r))) =
     taint_request_emitted (r_gate (snd (invoke_tool_inner tools env call r)))"
  "r_dispatched (snd (invoke_tool tools env call r)) = r_dispatched (snd (invoke_tool_inner tools env call r))"
  "r_ctx (snd (invoke_tool tools env call r)) = r_ctx (snd (invoke_tool_inner tools env call r))"
  "fst (invoke_tool tools env call r) = fst (invoke_tool_inner tools env call r)"
  by (simp_all add: invoke_tool_def split: prod.splits)

lemma emission_step: "well_behaved (fst c) \<Longrightarrow> emission_law r (call_step c r)"
  using emission_inner [of "fst c" r "fst (snd c)" "snd (snd c)"]
  by (simp add: call_step_def case_prod_unfold emission_law_def invoke_tool_same)

interpretation fire_charges: once_per_turn call_step "\<lambda>c. well_behaved (fst c)"
    "\<lambda>r. fire_consumed (r_gate r)" "\<lambda>r. rows_with (lit ''grant_consume'') (r_outbound r)"
  by unfold_locales (use emission_step in \<open>simp add: emission_law_def\<close>)

interpretation taint_requests: once_per_turn call_step "\<lambda>c. well_behaved (fst c)"
    "\<lambda>r. taint_request_emitted (r_gate r)" "\<lambda>r. rows_with (lit ''taint_approval_request'') (r_outbound r)"
  by unfold_locales (use emission_step in \<open>simp add: emission_law_def\<close>)

lemma run_calls_fold:
  "snd (run_calls tools cs r) = fold call_step (map (\<lambda>(env, call). (tools, env, call)) cs) r"
  by (induction tools cs r rule: run_calls.induct) (auto simp: call_step_def split: prod.splits)

text \<open>The verdict of a call, and whether the policy still sees the turn as autonomous.\<close>

definition verdict_of :: "Env \<Rightarrow> PendingToolCall \<Rightarrow> Runner \<Rightarrow> AutonomyVerdict" where
  "verdict_of env call r =
     autonomy_verdict (ctx_autonomous (r_ctx r)) (gate_grant (r_gate r)) (call_name call) (call_input call)
       (e_now env)"

definition seen_autonomous :: "Env \<Rightarrow> PendingToolCall \<Rightarrow> Runner \<Rightarrow> bool" where
  "seen_autonomous env call r \<longleftrightarrow>
     ctx_autonomous (r_ctx r) \<and> (\<forall>g. verdict_of env call r \<noteq> Granted g)"

lemma inner_gated:
  "(\<And>reason. verdict_of env call r \<noteq> Blocked reason) \<Longrightarrow>
     \<exists>granted. invoke_tool_inner tools env call r =
       gated_call tools env call granted (seen_autonomous env call r) r"
  by (auto simp: invoke_tool_inner_def seen_autonomous_def verdict_of_def split: AutonomyVerdict.splits)

lemma inner_blocked:
  "verdict_of env call r = Blocked reason \<Longrightarrow>
     invoke_tool_inner tools env call r =
       ((reason, [], True),
        r\<lparr>r_metrics := r_metrics r @ [(lit ''autonomous_action'', lit ''blocked_proposed'')]\<rparr>)"
  by (simp add: invoke_tool_inner_def verdict_of_def)

text \<open>The reason of a refused call: the verdict's, or else the policy's.\<close>

definition refusal :: "Env \<Rightarrow> PendingToolCall \<Rightarrow> Runner \<Rightarrow> ustring option" where
  "refusal env call r =
     (case verdict_of env call r of
        Blocked reason \<Rightarrow> Some reason
      | _ \<Rightarrow> deny_reason (fst (evaluate (call_policy r (seen_autonomous env call r)) (call_name call))))"

lemma refused_inner:
  assumes "refusal env call r = Some reason"
  shows "denied r (snd (invoke_tool_inner tools env call r)) \<and>
    fst (invoke_tool_inner tools env call r) = (reason, [], True)"
proof (cases "verdict_of env call r")
  case (Blocked reason')
  then show ?thesis
    using assms by (simp add: refusal_def inner_blocked denied_def)
next
  case NotGated
  then have "fst (evaluate (call_policy r (seen_autonomous env call r)) (call_name call)) = Deny reason"
    using assms by (auto simp: refusal_def elim!: deny_reason.elims)
  then show ?thesis
    using inner_gated [of env call r tools] NotGated gated_call_denied by fastforce
next
  case (Granted g)
  then have "fst (evaluate (call_policy r (seen_autonomous env call r)) (call_name call)) = Deny reason"
    using assms by (auto simp: refusal_def elim!: deny_reason.elims)
  then show ?thesis
    using inner_gated [of env call r tools] Granted gated_call_denied by fastforce
qed

lemma not_refused:
  assumes "refusal env call r = None"
  shows "policy_permits (call_policy r (seen_autonomous env call r)) (call_name call)"
  using assms unfolding refusal_def evaluate_Allow_iff [symmetric]
  by (cases "fst (evaluate (call_policy r (seen_autonomous env call r)) (call_name call))")
    (auto split: AutonomyVerdict.splits)

lemma call_policy_simps [simp]:
  "sender_role (call_policy r a) = sender_role (r_policy r)" "profile (call_policy r a) = profile (r_policy r)"
  "skill_allowed (call_policy r a) = ctx_skill (r_ctx r)"
  "trust (call_policy r a) = \<lparr>tainted = ctx_tainted (r_ctx r), approved = ctx_approved (r_ctx r), autonomous = a\<rparr>"
  by (simp_all add: call_policy_def with_trust_def with_active_skill_def)

text \<open>Taint and its source.\<close>

definition keeps_taint :: "Runner \<Rightarrow> Runner \<Rightarrow> bool" where
  "keeps_taint r r' \<longleftrightarrow>
     taint_source (r_gate r') = taint_source (r_gate r) \<and> (ctx_tainted (r_ctx r) \<longrightarrow> ctx_tainted (r_ctx r'))"

lemma keeps_taint_execute:
  "well_behaved tools \<Longrightarrow> taint_source (r_gate r1) = taint_source (r_gate r) \<Longrightarrow> r_ctx r1 = r_ctx r \<Longrightarrow>
     keeps_taint r (snd (execute_call tools env call r1))"
  using keeps_gate_execute [of tools r1 env call] by (simp add: keeps_gate_def keeps_taint_def)

lemma keeps_taint_gated:
  assumes "well_behaved tools"
  shows "keeps_taint r (snd (gated_call tools env call granted auton r))"
proof (cases "fst (evaluate (call_policy r auton) (call_name call))")
  case Allow
  show ?thesis
    unfolding gated_call_allowed [OF Allow]
    by (rule keeps_taint_execute [OF assms]) (auto simp: charge_other split: option.splits)
next
  case (Deny reason)
  then show ?thesis
    using gated_call_denied [OF Deny, of tools env granted] by (simp add: denied_def keeps_taint_def)
qed

lemma keeps_taint_inner:
  "well_behaved tools \<Longrightarrow> keeps_taint r (snd (invoke_tool_inner tools env call r))"
  by (simp add: invoke_tool_inner_def keeps_taint_gated split: AutonomyVerdict.split)
    (simp add: keeps_taint_def)

lemma invoke_tool_taint:
  assumes "well_behaved tools" and "ctx_tainted (r_ctx r) \<longleftrightarrow> taint_source (r_gate r) \<noteq> None"
  shows "let r' = snd (invoke_tool tools env call r)
    in (ctx_tainted (r_ctx r') \<longleftrightarrow> taint_source (r_gate r') \<noteq> None) \<and>
       (taint_source (r_gate r') = taint_source (r_gate r) \<or> taint_source (r_gate r') = Some (call_name call))"
  using keeps_taint_inner [OF assms(1), of r env call] assms(2)
  by (auto simp: invoke_tool_def keeps_taint_def Let_def split: prod.splits)

lemma run_calls_taint:
  "well_behaved tools \<Longrightarrow> ctx_tainted (r_ctx r) \<longleftrightarrow> taint_source (r_gate r) \<noteq> None \<Longrightarrow>
     (ctx_tainted (r_ctx (snd (run_calls tools cs r))) \<longleftrightarrow>
        taint_source (r_gate (snd (run_calls tools cs r))) \<noteq> None) \<and>
     (taint_source (r_gate (snd (run_calls tools cs r))) = taint_source (r_gate r) \<or>
      taint_source (r_gate (snd (run_calls tools cs r))) \<in> Some ` (\<lambda>c. call_name (snd c)) ` set cs)"
proof (induction tools cs r rule: run_calls.induct)
  case (2 tools env call cs r)
  obtain out r1 where i: "invoke_tool tools env call r = (out, r1)"
    by fastforce
  then have "(ctx_tainted (r_ctx r1) \<longleftrightarrow> taint_source (r_gate r1) \<noteq> None) \<and>
      (taint_source (r_gate r1) = taint_source (r_gate r) \<or> taint_source (r_gate r1) = Some (call_name call))"
    using invoke_tool_taint [OF "2.prems", of env call] by (simp add: Let_def)
  moreover have "snd (run_calls tools ((env, call) # cs) r) = snd (run_calls tools cs r1)"
    by (simp add: i split: prod.splits)
  ultimately show ?case
    using "2.IH" [OF i [symmetric] refl "2.prems"(1)] by auto
qed simp

section \<open>Properties of the dispatch\<close>

text \<open>
  C1: No call reaches an executor without authority. A dispatched call is permitted by the sender's
  role, the active skill and the profile. If it takes a credentialed external action, then on a tainted
  turn the operator approved it or the tool is exempt, and on an autonomous turn the turn holds a live
  grant whose scope permits the very capability the call requires; a grant does not lift the taint.
\<close>

theorem dispatched_calls_are_authorised:
  assumes "r_dispatched (snd (invoke_tool tools env call r)) \<noteq> r_dispatched r"
  shows "role_permits (sender_role (r_policy r)) (call_name call) \<and>
    skill_permits (ctx_skill (r_ctx r)) (call_name call) \<and> allows (profile (r_policy r)) (call_name call) \<and>
    (is_credentialed_external (call_name call) \<longrightarrow>
       (ctx_tainted (r_ctx r) \<longrightarrow> ctx_approved (r_ctx r) \<or> exempt_from_taint (call_name call)) \<and>
       (ctx_autonomous (r_ctx r) \<longrightarrow>
          (\<exists>g. gate_grant (r_gate r) = Some g \<and> is_live g (e_now env) \<and>
             turn_permits g (required_capability (call_name call) (call_input call)))))"
proof -
  have "refusal env call r = None"
    using assms refused_inner [of env call r] by (cases "refusal env call r") (auto simp: invoke_tool_same denied_def)
  then have p: "policy_permits (call_policy r (seen_autonomous env call r)) (call_name call)"
    by (rule not_refused)
  moreover have "\<exists>g. gate_grant (r_gate r) = Some g \<and> is_live g (e_now env) \<and>
      turn_permits g (required_capability (call_name call) (call_input call))"
    if ext: "is_credentialed_external (call_name call)" and auton: "ctx_autonomous (r_ctx r)"
  proof -
    have "\<not> seen_autonomous env call r"
      using p ext by (auto simp: policy_permits_def trust_permits_def)
    then obtain g where "verdict_of env call r = Granted g"
      using auton by (auto simp: seen_autonomous_def)
    then show ?thesis
      unfolding verdict_of_def by (auto dest: verdict_GrantedD)
  qed
  ultimately show ?thesis
    by (auto simp: policy_permits_def trust_permits_def)
qed

definition sample_tools :: Tools where
  "sample_tools =
     \<lparr>tool_map = (\<lambda>name. Some (\<lambda>args ctx. (Returned [RText (lit ''ok'')], ctx, []))),
      external_tools = (\<lambda>_. None), tool_deadline_secs = 900\<rparr>"

definition sample_env :: Env where
  "sample_env =
     \<lparr>e_now = 10, e_row_id = 7, e_row_time = 10,
      e_ext = \<lparr>io_request_id = [], io_now = 0, io_queue_error = None, io_lookup = (\<lambda>_. Inr None),
               io_cost = (\<lambda>_. 1), io_err_text = (\<lambda>_. [])\<rparr>,
      e_render_image = (\<lambda>_ _. [])\<rparr>"

definition fetch_call :: PendingToolCall where
  "fetch_call = \<lparr>call_id = [], call_name = lit ''web_fetch'',
     call_input = JObject [(lit ''url'', JString (lit ''https://example.com/x''))], call_parse_error = None\<rparr>"

definition fetch_grant :: TurnGrant where
  "fetch_grant = \<lparr>tg_grant_id = lit ''g1'', tg_task_id = lit ''t1'', tg_capability_scope = lit ''web_fetch'',
     tg_tokens_remaining = None, tg_fires_remaining = Some 1, tg_expires_at = None\<rparr>"

definition autonomous_runner :: Runner where
  "autonomous_runner =
     \<lparr>r_policy = default_policy,
      r_ctx = \<lparr>ctx_tainted = False, ctx_approved = False, ctx_autonomous = True, ctx_skill = None,
               ctx_verify_gate = True\<rparr>,
      r_gate = default_gate\<lparr>gate_grant := Some fetch_grant\<rparr>,
      r_outbound = [], r_requests = [], r_metrics = [], r_see_fix = [], r_dispatched = []\<rparr>"

lemma fetch_call_required: "required_capability (call_name fetch_call) (call_input fetch_call) = lit ''web_fetch:example.com''"
  by (simp add: fetch_call_def required_capability_def strip_prefix_def EXTERNAL_MCP_PREFIX_def url_host_def
      json_get_def json_as_str_def after_scheme_def last_segment_def lit_def trim_def trim_start_def trim_end_def
      is_whitespace_def ascii_lower_def)

lemma fetch_grant_permits: "turn_permits fetch_grant (lit ''web_fetch:example.com'')"
  by (simp add: turn_permits_def fetch_grant_def scope_permits_def lit_def trim_def trim_start_def trim_end_def
      is_whitespace_def split_whitespace_def token_permits_def split_scope_def)

lemma fetch_external: "is_credentialed_external (lit ''web_fetch'')"
  by (simp add: is_credentialed_external_def CREDENTIALED_EXTERNAL_TOOLS_def)

lemma fetch_verdict: "verdict_of sample_env fetch_call autonomous_runner = Granted fetch_grant"
  using fetch_call_required fetch_grant_permits fetch_external
  by (simp add: verdict_of_def autonomy_verdict_def autonomous_runner_def Let_def is_live_def fetch_grant_def
      sample_env_def) (simp add: fetch_call_def)

lemma fetch_allowed: "fst (evaluate (call_policy autonomous_runner False) (lit ''web_fetch'')) = Allow"
  by (simp add: evaluate_Allow_iff policy_permits_def role_permits_def skill_permits_def allows_def
      trust_permits_def autonomous_runner_def default_policy_def)

lemma fetch_inner:
  "invoke_tool_inner sample_tools sample_env fetch_call autonomous_runner =
     execute_call sample_tools sample_env fetch_call
       ((charge_grant_fire_once sample_env fetch_grant autonomous_runner)
          \<lparr>r_metrics := [(lit ''autonomous_action'', lit ''taken'')]\<rparr>)"
proof -
  have "invoke_tool_inner sample_tools sample_env fetch_call autonomous_runner =
      gated_call sample_tools sample_env fetch_call (Some fetch_grant) False autonomous_runner"
    using fetch_verdict by (simp add: invoke_tool_inner_def verdict_of_def)
  moreover have "fst (evaluate (call_policy autonomous_runner False) (call_name fetch_call)) = Allow"
    using fetch_allowed by (simp add: fetch_call_def)
  ultimately show ?thesis
    by (simp add: gated_call_allowed) (simp add: autonomous_runner_def)
qed

lemma fetch_dispatched:
  "r_dispatched (snd (invoke_tool sample_tools sample_env fetch_call autonomous_runner)) =
     [ToHandler (lit ''web_fetch'')]"
  unfolding invoke_tool_same fetch_inner
  by (simp add: execute_call_def fetch_call_def is_preview_tool_def sample_tools_def run_handler_def
      apply_see_fix_hooks_keeps charge_other) (simp add: autonomous_runner_def)

theorem dispatched_calls_are_authorised_witness:
  "\<exists>g. gate_grant (r_gate autonomous_runner) = Some g \<and> is_live g (e_now sample_env) \<and>
     turn_permits g (required_capability (call_name fetch_call) (call_input fetch_call))"
proof -
  have "r_dispatched (snd (invoke_tool sample_tools sample_env fetch_call autonomous_runner)) \<noteq>
      r_dispatched autonomous_runner"
    unfolding fetch_dispatched by (simp add: autonomous_runner_def)
  from dispatched_calls_are_authorised [OF this] fetch_external show ?thesis
    by (simp add: autonomous_runner_def fetch_call_def)
qed


lemma sample_tools_well_behaved: "well_behaved sample_tools"
  by (auto simp: well_behaved_def sample_tools_def)



definition shell_call :: PendingToolCall where
  "shell_call = \<lparr>call_id = [], call_name = lit ''shell'', call_input = JNull, call_parse_error = None\<rparr>"

definition tainted_guest :: Runner where
  "tainted_guest = autonomous_runner
     \<lparr>r_policy := new_policy Coding (Some Guest),
      r_ctx := \<lparr>ctx_tainted = True, ctx_approved = False, ctx_autonomous = False, ctx_skill = None,
                ctx_verify_gate = True\<rparr>,
      r_gate := default_gate\<rparr>"

lemma shell_call_name: "call_name shell_call = lit ''shell''"
  by (simp add: shell_call_def)

lemma shell_denied:
  "evaluate (call_policy tainted_guest a) (lit ''shell'') =
     (Deny (role_reason (lit ''shell'') Guest), [(lit ''role'', lit ''shell'')])"
  by (simp add: evaluate_def role_layer_def tainted_guest_def new_policy_def denies_mutating_def
      is_mutating_def tool_list_defs)

lemma shell_not_gated: "verdict_of sample_env shell_call tainted_guest = NotGated"
  by (simp add: verdict_of_def autonomy_verdict_def tainted_guest_def)


text \<open>
  An approval request is raised for exactly the denials a fresh approval can lift: the policy denied
  the call and the taint was the deciding layer if and only if the role, the skill and the profile permit
  the tool, the turn is interactive, tainted and unapproved, and the tool is external and not exempt.
\<close>

theorem taint_deciding_exact:
  "(fst (evaluate pol tool) \<noteq> Allow \<and> fst (taint_was_deciding_layer pol tool)) \<longleftrightarrow>
     role_permits (sender_role pol) tool \<and> skill_permits (skill_allowed pol) tool \<and> allows (profile pol) tool \<and>
     tainted (trust pol) \<and> \<not> approved (trust pol) \<and> \<not> autonomous (trust pol) \<and>
     is_credentialed_external tool \<and> \<not> exempt_from_taint tool"
  unfolding evaluate_Allow_iff taint_was_deciding_layer_def
  by (auto simp: evaluate_Allow_iff policy_permits_def trust_permits_def with_trust_def Let_def
      case_prod_unfold)

text \<open>
  On a tainted interactive turn a denial by an earlier layer is counted twice in the denial metric:
  asking whether the taint decided evaluates the policy again, and that evaluation counts as well.
\<close>

theorem denial_counted_twice:
  "r_metrics (snd (invoke_tool sample_tools sample_env shell_call tainted_guest)) =
     [(lit ''role'', lit ''shell''), (lit ''role'', lit ''shell'')]"
proof -
  have cleared: "with_trust (call_policy tainted_guest False) \<lparr>tainted = True, approved = True, autonomous = False\<rparr> =
      call_policy (tainted_guest\<lparr>r_ctx := (r_ctx tainted_guest)\<lparr>ctx_approved := True\<rparr>\<rparr>) False"
    by (simp add: call_policy_def with_trust_def with_active_skill_def tainted_guest_def)
  have "evaluate (with_trust (call_policy tainted_guest False)
      \<lparr>tainted = True, approved = True, autonomous = False\<rparr>) (lit ''shell'') =
      (Deny (role_reason (lit ''shell'') Guest), [(lit ''role'', lit ''shell'')])"
    unfolding cleared
    by (simp add: evaluate_def role_layer_def tainted_guest_def new_policy_def denies_mutating_def
        is_mutating_def tool_list_defs)
  then have "taint_was_deciding_layer (call_policy tainted_guest False) (lit ''shell'') =
      (False, [(lit ''role'', lit ''shell'')])"
    by (simp add: taint_was_deciding_layer_def tainted_guest_def)
  moreover have "invoke_tool_inner sample_tools sample_env shell_call tainted_guest =
      gated_call sample_tools sample_env shell_call None False tainted_guest"
    using shell_not_gated by (simp add: invoke_tool_inner_def verdict_of_def) (simp add: tainted_guest_def)
  ultimately show ?thesis
    by (simp add: invoke_tool_def gated_call_def shell_call_def shell_denied Let_def)
      (simp add: tainted_guest_def autonomous_runner_def)
qed

text \<open>
  A tainted turn names its taint source: after any calls of a turn that started clean, the context is
  tainted exactly when a source is recorded, and the source is the name of a call of this turn, so an
  approval request never has to report an unknown source.
\<close>

theorem tainted_turn_names_its_source:
  assumes "well_behaved tools" and "\<not> ctx_tainted (r_ctx r)" and "taint_source (r_gate r) = None"
  shows "(ctx_tainted (r_ctx (snd (run_calls tools cs r))) \<longleftrightarrow>
      taint_source (r_gate (snd (run_calls tools cs r))) \<noteq> None) \<and>
    (\<forall>n. taint_source (r_gate (snd (run_calls tools cs r))) = Some n \<longrightarrow>
       (\<exists>c \<in> set cs. call_name (snd c) = n))"
proof -
  have "ctx_tainted (r_ctx r) \<longleftrightarrow> taint_source (r_gate r) \<noteq> None"
    using assms(2,3) by simp
  note run_calls_taint [OF assms(1) this, of cs]
  then show ?thesis unfolding assms(3) image_image by (metis (no_types, lifting) imageE option.inject option.distinct(1))
qed

definition tainting_tools :: Tools where
  "tainting_tools = sample_tools
     \<lparr>tool_map := (\<lambda>name. Some (\<lambda>args ctx. (Returned [], ctx\<lparr>ctx_tainted := True\<rparr>, [])))\<rparr>"

theorem tainted_turn_names_its_source_witness:
  "taint_source (r_gate (snd (run_calls tainting_tools [(sample_env, shell_call)]
     (autonomous_runner\<lparr>r_policy := new_policy Coding None\<rparr>)))) \<noteq> None"
proof -
  let ?r = "autonomous_runner\<lparr>r_policy := new_policy Coding None\<rparr>"
  have "well_behaved tainting_tools"
    by (auto simp: well_behaved_def tainting_tools_def sample_tools_def)
  moreover have clean: "\<not> ctx_tainted (r_ctx ?r)" "taint_source (r_gate ?r) = None"
    by (simp_all add: autonomous_runner_def default_gate_def)
  moreover have "ctx_tainted (r_ctx (snd (run_calls tainting_tools [(sample_env, shell_call)] ?r)))"
  proof -
    have "autonomy_verdict a g (lit ''shell'') i n = NotGated" for a g i n
      by (simp add: autonomy_verdict_def is_credentialed_external_def CREDENTIALED_EXTERNAL_TOOLS_def
          EXTERNAL_MCP_PREFIX_def)
    then have "invoke_tool_inner tainting_tools sample_env shell_call ?r =
        gated_call tainting_tools sample_env shell_call None (ctx_autonomous (r_ctx ?r)) ?r"
      by (simp add: invoke_tool_inner_def shell_call_def)
    moreover have "fst (evaluate (call_policy ?r a) (call_name shell_call)) = Allow" for a
      by (simp add: evaluate_Allow_iff policy_permits_def role_permits_def skill_permits_def allows_def
          trust_permits_def autonomous_runner_def new_policy_def shell_call_def tool_list_defs
          is_credentialed_external_def EXTERNAL_MCP_PREFIX_def)
    ultimately show ?thesis
      by (simp add: case_prod_unfold Let_def invoke_tool_same gated_call_allowed)
        (simp add: execute_call_def shell_call_def is_preview_tool_def tainting_tools_def sample_tools_def
          run_handler_def apply_see_fix_hooks_keeps)
  qed
  ultimately show ?thesis
    using tainted_turn_names_its_source [of tainting_tools ?r "[(sample_env, shell_call)]"] by simp
qed

end
