(* ===== verification/Failover.thy ===== *)
theory Failover
  imports Prelude
begin

text \<open>
  Provider resilience (\<open>copperclaw-providers/src/failover.rs\<close> and \<open>error.rs\<close>): the fallback chain with
  its keys, the health of every (provider, model, key), the classification of failures, typed and by
  error text, and the selection of the entry and key for a spawn. A \<open>HashMap\<close> is a map; the 32-bit
  failure count is a word. The cool-down of a chain is in seconds, as are instants here; a configured
  value that chrono itself cannot represent (it panics above 2^63/1000 seconds) is not modelled.
\<close>

section \<open>Errors\<close>

datatype ProviderError =
    Transport ustring
  | SessionInvalid
  | Api nat ustring
  | Decode ustring
  | Cancelled
  | Overloaded
  | BadRequest ustring
  | DeadlineExceeded nat nat

fun is_retryable :: "ProviderError \<Rightarrow> bool" where
  "is_retryable (Transport _) = True"
| "is_retryable Overloaded = True"
| "is_retryable (Api status _) = (status \<ge> 500)"
| "is_retryable SessionInvalid = False"
| "is_retryable (Decode _) = False"
| "is_retryable Cancelled = False"
| "is_retryable (BadRequest _) = False"
| "is_retryable (DeadlineExceeded _ _) = False"

text \<open>The \<open>Display\<close> of an error.\<close>

fun display :: "ProviderError \<Rightarrow> ustring" where
  "display (Transport s) = lit ''transport error: '' @ s"
| "display SessionInvalid = lit ''session invalidated''"
| "display (Api status message) = lit ''api error '' @ show_nat status @ lit '': '' @ message"
| "display (Decode s) = lit ''decode error: '' @ s"
| "display Cancelled = lit ''cancelled''"
| "display Overloaded = lit ''overloaded''"
| "display (BadRequest s) = lit ''bad request: '' @ s"
| "display (DeadlineExceeded deadline_ms attempts) =
     lit ''provider deadline exceeded after '' @ show_nat attempts @ lit '' attempt(s) ('' @
     show_nat deadline_ms @ lit '' ms each)''"

section \<open>The chain\<close>

definition AMBIENT_KEY_ID :: ustring where "AMBIENT_KEY_ID = []"
definition DEFAULT_REPROBE_AFTER :: duration where "DEFAULT_REPROBE_AFTER = 120"

record ProviderKey =
  pk_id :: ustring
  api_key_env :: "ustring option"

record ChainEntry =
  ce_provider :: ustring
  ce_model :: ustring
  ce_keys :: "ProviderKey list"

definition key_ids :: "ChainEntry \<Rightarrow> ustring list" where
  "key_ids e = (if ce_keys e = [] then [AMBIENT_KEY_ID] else map pk_id (ce_keys e))"

record FallbackChain =
  entries :: "ChainEntry list"
  model_by_channel :: "ustring \<Rightarrow> ustring option"
  reprobe_after_secs :: "nat option"

datatype HealthStatus = Healthy | RateLimited | Down

fun health_as_str :: "HealthStatus \<Rightarrow> ustring" where
  "health_as_str Healthy = lit ''healthy''"
| "health_as_str RateLimited = lit ''rate_limited''"
| "health_as_str Down = lit ''down''"

definition health_parse :: "ustring \<Rightarrow> HealthStatus" where
  "health_parse s =
     (if s = lit ''rate_limited'' then RateLimited
      else if s = lit ''down'' then Down
      else Healthy)"

section \<open>Classification of failures\<close>

lemma show_nat_not_Nil [simp]: "show_nat n \<noteq> []"
  by (subst show_nat.simps) simp

lemma find_sub_bound: "find_sub p s = Some i \<Longrightarrow> p \<noteq> [] \<Longrightarrow> i < length s"
  by (induction s arbitrary: i) (auto split: if_splits)

text \<open>
  \<open>contains_status\<close>, the loop from position \<open>from\<close>. The text around a match is looked at as characters:
  the byte before or after an ASCII match is a digit exactly when the character is.
\<close>

function contains_status_from :: "ustring \<Rightarrow> nat \<Rightarrow> nat \<Rightarrow> bool" where
  "contains_status_from haystack status from =
     (case find_sub (show_nat status) (drop from haystack) of
        None \<Rightarrow> False
      | Some rel \<Rightarrow>
         (let start = from + rel;
              end = start + length (show_nat status);
              left_ok = (start = 0 \<or> \<not> is_ascii_digit (haystack ! (start - 1)));
              right_ok = (end \<ge> length haystack \<or> \<not> is_ascii_digit (haystack ! end))
          in if left_ok \<and> right_ok then True else contains_status_from haystack status (start + 1)))"
  by pat_completeness auto
termination
  by (relation "measure (\<lambda>(h, s, from). length h - from)") (auto dest: find_sub_bound)

declare contains_status_from.simps [simp del]

definition contains_status :: "ustring \<Rightarrow> nat \<Rightarrow> bool" where
  "contains_status haystack status = contains_status_from haystack status 0"

datatype DegradeReason = RateLimit | OverloadedReason | ServerError | TransportReason

fun reason_as_str :: "DegradeReason \<Rightarrow> ustring" where
  "reason_as_str RateLimit = lit ''rate_limit''"
| "reason_as_str OverloadedReason = lit ''overloaded''"
| "reason_as_str ServerError = lit ''server_error''"
| "reason_as_str TransportReason = lit ''transport''"

fun reason_status :: "DegradeReason \<Rightarrow> HealthStatus" where
  "reason_status RateLimit = RateLimited"
| "reason_status OverloadedReason = RateLimited"
| "reason_status ServerError = Down"
| "reason_status TransportReason = Down"

text \<open>\<open>str::parse::<u16>\<close> of a non-empty run of digits: \<open>None\<close> on overflow.\<close>

definition parse_u16 :: "ustring \<Rightarrow> nat option" where
  "parse_u16 ds = (if digits_value ds < 65536 then Some (digits_value ds) else None)"

definition api_status :: "ustring \<Rightarrow> nat option" where
  "api_status rest =
     Option.bind (find (\<lambda>w. w \<noteq> []) (split_on (\<lambda>c. \<not> is_ascii_digit c) rest)) parse_u16"

definition from_error_text :: "ustring \<Rightarrow> DegradeReason option" where
  "from_error_text text =
     (let t = map ascii_lower (trim text)
      in if t = [] then None
         else case find_sub (lit ''api error '') t of
             Some idx \<Rightarrow>
               (case api_status (drop (idx + 10) t) of
                  Some s \<Rightarrow>
                    if s = 429 then Some RateLimit
                    else if 500 \<le> s \<and> s < 600 then Some ServerError
                    else None
                | None \<Rightarrow> None)
           | None \<Rightarrow>
               if contains t (lit ''transport error'') \<or> contains t (lit ''connection reset'') \<or>
                  contains t (lit ''connection refused'') \<or> contains t (lit ''timed out'') \<or>
                  contains t (lit ''timeout'') then Some TransportReason
               else if contains t (lit ''overload'') \<or> contains_status t 529 then Some OverloadedReason
               else if contains t (lit ''rate limit'') \<or> contains t (lit ''rate-limit'') \<or>
                  contains_status t 429 then Some RateLimit
               else if contains t (lit ''service unavailable'') \<or> contains t (lit ''bad gateway'') \<or>
                  contains t (lit ''internal server error'') \<or> contains t (lit ''gateway timeout'') \<or>
                  list_ex (contains_status t) [500..<600] then Some ServerError
               else None)"

fun from_error :: "ProviderError \<Rightarrow> DegradeReason option" where
  "from_error Overloaded = Some OverloadedReason"
| "from_error (Transport _) = Some TransportReason"
| "from_error (Api status _) =
     (if status = 429 then Some RateLimit else if status \<ge> 500 then Some ServerError else None)"
| "from_error SessionInvalid = None"
| "from_error (Decode _) = None"
| "from_error Cancelled = None"
| "from_error (BadRequest _) = None"
| "from_error (DeadlineExceeded _ _) = None"

section \<open>Health\<close>

record HealthEntry =
  h_status :: HealthStatus
  cooldown_until :: "instant option"
  last_failure_at :: "instant option"
  last_reason :: "ustring option"
  failure_count :: "32 word"

definition default_health :: HealthEntry where
  "default_health = \<lparr>h_status = Healthy, cooldown_until = None, last_failure_at = None,
     last_reason = None, failure_count = 0\<rparr>"

definition is_eligible :: "HealthEntry \<Rightarrow> instant \<Rightarrow> bool" where
  "is_eligible h now =
     (case h_status h of
        Healthy \<Rightarrow> True
      | _ \<Rightarrow> (case cooldown_until h of None \<Rightarrow> True | Some until \<Rightarrow> now \<ge> until))"

record HealthKey =
  hk_provider :: ustring
  hk_model :: ustring
  hk_key_id :: ustring

type_synonym HealthMap = "HealthKey \<Rightarrow> HealthEntry option"

definition health_key :: "ustring \<Rightarrow> ustring \<Rightarrow> ustring \<Rightarrow> HealthKey" where
  "health_key p m k = \<lparr>hk_provider = p, hk_model = m, hk_key_id = k\<rparr>"

definition health_at :: "HealthMap \<Rightarrow> HealthKey \<Rightarrow> HealthEntry" where
  "health_at h k = (case h k of Some e \<Rightarrow> e | None \<Rightarrow> default_health)"

record Selection =
  entry_index :: nat
  sel_provider :: ustring
  sel_model :: ustring
  sel_key_id :: ustring
  sel_api_key_env :: "ustring option"
  degraded :: bool
  pinned_model :: bool

text \<open>
  The configured cool-down in seconds. A value that fits \<open>i64\<close> but not chrono's range (above
  \<open>i64::MAX / 1000\<close> seconds) makes \<open>Duration::seconds\<close> panic; the model, whose instants are unbounded,
  is about the values below that.
\<close>

definition reprobe_after :: "FallbackChain \<Rightarrow> duration" where
  "reprobe_after c =
     (case reprobe_after_secs c of
        Some s \<Rightarrow> if s < 2 ^ 63 then int s else DEFAULT_REPROBE_AFTER
      | None \<Rightarrow> DEFAULT_REPROBE_AFTER)"

definition entry_health :: "ChainEntry \<Rightarrow> HealthMap \<Rightarrow> ustring \<Rightarrow> HealthEntry" where
  "entry_health e h k = health_at h (health_key (ce_provider e) (ce_model e) k)"

definition pick_key :: "ChainEntry \<Rightarrow> HealthMap \<Rightarrow> instant \<Rightarrow> (ustring \<times> ustring option) option" where
  "pick_key e h now =
     (if ce_keys e = [] then
        (if is_eligible (entry_health e h AMBIENT_KEY_ID) now then Some (AMBIENT_KEY_ID, None) else None)
      else case find (\<lambda>k. h_status (entry_health e h (pk_id k)) = Healthy) (ce_keys e) of
          Some k \<Rightarrow> Some (pk_id k, api_key_env k)
        | None \<Rightarrow>
           (case find (\<lambda>k. is_eligible (entry_health e h (pk_id k)) now) (ce_keys e) of
              Some k \<Rightarrow> Some (pk_id k, api_key_env k)
            | None \<Rightarrow> None))"

definition entry_eligible :: "ChainEntry \<Rightarrow> HealthMap \<Rightarrow> instant \<Rightarrow> bool" where
  "entry_eligible e h now \<longleftrightarrow> pick_key e h now \<noteq> None"

text \<open>\<open>Iterator::position\<close>.\<close>

fun position :: "('a \<Rightarrow> bool) \<Rightarrow> 'a list \<Rightarrow> nat option" where
  "position p [] = None"
| "position p (x # xs) = (if p x then Some 0 else map_option Suc (position p xs))"

definition select :: "FallbackChain \<Rightarrow> ustring option \<Rightarrow> HealthMap \<Rightarrow> instant \<Rightarrow> Selection option" where
  "select c channel h now =
     (if entries c = [] then None
      else
        (let pin = Option.bind channel (model_by_channel c);
             i = (case position (\<lambda>e. entry_eligible e h now) (entries c) of Some i \<Rightarrow> i | None \<Rightarrow> 0);
             e = entries c ! i;
             (key, env) =
               (case pick_key e h now of
                  Some p \<Rightarrow> p
                | None \<Rightarrow> (case ce_keys e of [] \<Rightarrow> (AMBIENT_KEY_ID, None) | k # _ \<Rightarrow> (pk_id k, api_key_env k)))
         in Some \<lparr>entry_index = i, sel_provider = ce_provider e,
                  sel_model = (case pin of Some m \<Rightarrow> m | None \<Rightarrow> ce_model e),
                  sel_key_id = key, sel_api_key_env = env, degraded = (i > 0),
                  pinned_model = (pin \<noteq> None)\<rparr>))"

definition record_failure ::
  "FallbackChain \<Rightarrow> HealthMap \<Rightarrow> HealthKey \<Rightarrow> DegradeReason \<Rightarrow> instant \<Rightarrow> HealthMap" where
  "record_failure c h k reason now =
     (let e = health_at h k
      in h(k \<mapsto> e\<lparr>h_status := reason_status reason, cooldown_until := Some (now + reprobe_after c),
                 last_failure_at := Some now, last_reason := Some (reason_as_str reason),
                 failure_count := saturating_succ32 (failure_count e)\<rparr>))"

definition record_success :: "HealthMap \<Rightarrow> HealthKey \<Rightarrow> HealthMap" where
  "record_success h k =
     h(k \<mapsto> (health_at h k)\<lparr>h_status := Healthy, cooldown_until := None, last_reason := None,
            failure_count := 0\<rparr>)"

section \<open>A circuit breaker\<close>

text \<open>
  The contract of the health map, as its clients see it: a failure makes its key ineligible for exactly
  the cool-down, a success makes it eligible at once, and neither touches another key. Then the
  eligibility of a key after any history depends only on the last event of that key.
\<close>

datatype 'r health_event = Fail 'r instant | Recover

locale circuit_breaker =
  fixes eligible :: "'h \<Rightarrow> 'k \<Rightarrow> instant \<Rightarrow> bool"
    and fail :: "'h \<Rightarrow> 'k \<Rightarrow> 'r \<Rightarrow> instant \<Rightarrow> 'h"
    and recover :: "'h \<Rightarrow> 'k \<Rightarrow> 'h"
    and cooldown :: duration
  assumes eligible_fail: "eligible (fail h k r at) k now \<longleftrightarrow> at + cooldown \<le> now"
    and eligible_recover: "eligible (recover h k) k now"
    and fail_other: "j \<noteq> k \<Longrightarrow> eligible (fail h k r at) j now = eligible h j now"
    and recover_other: "j \<noteq> k \<Longrightarrow> eligible (recover h k) j now = eligible h j now"
begin

lemma eligible_step:
  "eligible (case ev of (k, Fail r at) \<Rightarrow> fail h k r at | (k, Recover) \<Rightarrow> recover h k) j now \<longleftrightarrow>
     (case ev of (k, e) \<Rightarrow>
        if k = j then (case e of Fail r at \<Rightarrow> at + cooldown \<le> now | Recover \<Rightarrow> True)
        else eligible h j now)"
  by (cases ev; cases "snd ev"; cases "fst ev = j")
    (auto simp: eligible_fail eligible_recover fail_other recover_other)

lemma eligible_history:
  "eligible (foldr (\<lambda>ev h. case ev of (k, Fail r at) \<Rightarrow> fail h k r at | (k, Recover) \<Rightarrow> recover h k) evs h) j now \<longleftrightarrow>
     (case map_of evs j of
        None \<Rightarrow> eligible h j now
      | Some (Fail r at) \<Rightarrow> at + cooldown \<le> now
      | Some Recover \<Rightarrow> True)"
  by (induction evs) (auto simp: eligible_step split: prod.splits health_event.splits)

end

lemma reason_not_healthy: "reason_status r \<noteq> Healthy"
  by (cases r) simp_all

lemma health_at_failure:
  "health_at (record_failure c h k r now) j =
     (if j = k then (health_at h k)\<lparr>h_status := reason_status r, cooldown_until := Some (now + reprobe_after c),
        last_failure_at := Some now, last_reason := Some (reason_as_str r),
        failure_count := saturating_succ32 (failure_count (health_at h k))\<rparr>
      else health_at h j)"
  by (simp add: record_failure_def health_at_def Let_def)

lemma health_at_success:
  "health_at (record_success h k) j =
     (if j = k then (health_at h k)\<lparr>h_status := Healthy, cooldown_until := None, last_reason := None,
        failure_count := 0\<rparr> else health_at h j)"
  by (simp add: record_success_def health_at_def)

interpretation provider_health: circuit_breaker
    "\<lambda>h k now. is_eligible (health_at h k) now" "record_failure c" record_success "reprobe_after c" for c
proof
  show "is_eligible (health_at (record_failure c h k r at) k) now \<longleftrightarrow> at + reprobe_after c \<le> now" for h k r at now
    using reason_not_healthy [of r]
    by (cases "reason_status r") (simp_all add: health_at_failure is_eligible_def)
  show "is_eligible (health_at (record_success h k) k) now" for h k now
    by (simp add: health_at_success is_eligible_def)
qed (simp_all add: health_at_failure health_at_success)

section \<open>Selection\<close>

lemma position_SomeD:
  "position p xs = Some i \<Longrightarrow> i < length xs \<and> p (xs ! i) \<and> (\<forall>j < i. \<not> p (xs ! j))"
proof (induction xs arbitrary: i)
  case (Cons x xs)
  show ?case
  proof (cases "p x")
    case True
    with Cons.prems show ?thesis by simp
  next
    case False
    with Cons.prems obtain k where k: "position p xs = Some k" "i = Suc k"
      by auto
    with Cons.IH False show ?thesis
      by (auto simp: nth_Cons less_Suc_eq_0_disj split: nat.splits)
  qed
qed simp

lemma position_None_iff: "position p xs = None \<longleftrightarrow> (\<forall>x \<in> set xs. \<not> p x)"
  by (induction xs) auto

lemma healthy_eligible: "h_status e = Healthy \<Longrightarrow> is_eligible e now"
  by (simp add: is_eligible_def)

lemma pick_key_None_iff:
  "pick_key e h now = None \<longleftrightarrow> (\<forall>k \<in> set (key_ids e). \<not> is_eligible (entry_health e h k) now)"
proof (cases "ce_keys e = []")
  case True
  then show ?thesis by (simp add: pick_key_def key_ids_def)
next
  case False
  then show ?thesis
    by (auto simp: pick_key_def key_ids_def find_None_iff dest!: find_Some_in
        intro: healthy_eligible split: option.splits)
qed

lemma pick_key_SomeD:
  assumes "pick_key e h now = Some (k, env)"
  shows "k \<in> set (key_ids e) \<and> is_eligible (entry_health e h k) now \<and>
    ((\<exists>j \<in> set (key_ids e). h_status (entry_health e h j) = Healthy) \<longrightarrow>
       h_status (entry_health e h k) = Healthy)"
proof (cases "ce_keys e = []")
  case True
  with assms show ?thesis by (simp add: pick_key_def key_ids_def split: if_splits)
next
  case False
  show ?thesis
  proof (cases "find (\<lambda>k. h_status (entry_health e h (pk_id k)) = Healthy) (ce_keys e)")
    case None
    with assms False show ?thesis
      by (auto simp: pick_key_def key_ids_def find_None_iff dest!: find_Some_in split: option.splits)
  next
    case (Some key)
    with assms False show ?thesis
      by (auto simp: pick_key_def key_ids_def healthy_eligible dest!: find_Some_in)
  qed
qed

section \<open>Status codes in texts\<close>

definition standalone_at :: "ustring \<Rightarrow> ustring \<Rightarrow> nat \<Rightarrow> bool" where
  "standalone_at h w i \<longleftrightarrow>
     starts_with (drop i h) w \<and> (i = 0 \<or> \<not> is_ascii_digit (h ! (i - 1))) \<and>
     (i + length w \<ge> length h \<or> \<not> is_ascii_digit (h ! (i + length w)))"

lemma find_sub_first:
  "find_sub p s = Some i \<Longrightarrow> starts_with (drop i s) p \<and> (\<forall>j < i. \<not> starts_with (drop j s) p)"
proof (induction s arbitrary: i)
  case (Cons c s)
  show ?case
  proof (cases "starts_with (c # s) p")
    case True
    with Cons.prems show ?thesis by simp
  next
    case False
    with Cons.prems obtain k where "find_sub p s = Some k" "i = Suc k"
      by auto
    with Cons.IH False show ?thesis by (auto simp: less_Suc_eq_0_disj)
  qed
qed (auto split: if_splits)

lemma find_sub_None: "find_sub p s = None \<Longrightarrow> \<not> starts_with (drop j s) p"
  using find_sub_NoneD [of p s "take j s"] by (metis append_take_drop_id starts_with_iff)

lemma contains_status_from_iff:
  "contains_status_from h s n \<longleftrightarrow> (\<exists>i \<ge> n. standalone_at h (show_nat s) i)"
proof (induction h s n rule: contains_status_from.induct)
  case (1 h s n)
  show ?case
  proof (cases "find_sub (show_nat s) (drop n h)")
    case None
    then have "\<not> starts_with (drop i h) (show_nat s)" if "n \<le> i" for i
      using find_sub_None [of "show_nat s" "drop n h" "i - n"] that by simp
    with None show ?thesis
      by (subst contains_status_from.simps) (auto simp: standalone_at_def)
  next
    case (Some rel)
    let ?i = "n + rel"
    have first: "starts_with (drop ?i h) (show_nat s)"
      and least: "n \<le> j \<Longrightarrow> j < ?i \<Longrightarrow> \<not> starts_with (drop j h) (show_nat s)" for j
      using find_sub_first [OF Some] by (auto simp: add.commute dest!: spec [of _ "j - n"])
    show ?thesis
    proof (cases "standalone_at h (show_nat s) ?i")
      case True
      then have "contains_status_from h s n"
        by (subst contains_status_from.simps) (simp add: Some Let_def standalone_at_def)
      with True show ?thesis by (meson le_add1)
    next
      case False
      then have "contains_status_from h s n = contains_status_from h s (?i + 1)"
        using first by (subst contains_status_from.simps) (auto simp: Some Let_def standalone_at_def)
      also have "\<dots> \<longleftrightarrow> (\<exists>i \<ge> ?i + 1. standalone_at h (show_nat s) i)"
        using False first by (intro "1.IH" [OF Some refl refl refl refl]) (auto simp: standalone_at_def)
      also have "\<dots> \<longleftrightarrow> (\<exists>i \<ge> n. standalone_at h (show_nat s) i)"
      proof
        assume "\<exists>i \<ge> n. standalone_at h (show_nat s) i"
        then obtain i where i: "n \<le> i" "standalone_at h (show_nat s) i" by blast
        then have "\<not> i < ?i" and "i \<noteq> ?i"
          using least [of i] False by (auto simp: standalone_at_def)
        with i show "\<exists>i \<ge> ?i + 1. standalone_at h (show_nat s) i"
          by (intro exI [of _ i]) simp
      qed (meson Suc_leD add_leE order_trans le_add1)
      finally show ?thesis .
    qed
  qed
qed

section \<open>Reading an error text back\<close>

lemma split_on_prefix:
  "(\<And>c. c \<in> set w \<Longrightarrow> \<not> p c) \<Longrightarrow> p x \<Longrightarrow> split_on p (w @ x # r) = w # split_on p r"
  by (induction w) auto

lemma api_status_show:
  "s < 65536 \<Longrightarrow> api_status (show_nat s @ 58 # rest) = Some s"
  using split_on_prefix [of "show_nat s" "\<lambda>c. \<not> is_ascii_digit c" 58 rest] show_nat_digits
  by (simp add: api_status_def parse_u16_def digits_value_show_nat is_ascii_digit_def)

lemma ascii_lower_digits: "map ascii_lower (show_nat n) = show_nat n"
proof (rule map_idI)
  fix c assume "c \<in> set (show_nat n)"
  then show "ascii_lower c = c"
    using show_nat_digits [of c n] by (auto simp: is_ascii_digit_def ascii_lower_def)
qed

lemma trim_end_keeps: "\<not> is_whitespace c \<Longrightarrow> trim_end (a @ c # b) = a @ c # trim_end b"
proof -
  assume "\<not> is_whitespace c"
  then have "dropWhile is_whitespace (rev b @ c # rev a) =
      dropWhile is_whitespace (rev b) @ c # rev a"
    by (induction "rev b" arbitrary: b rule: rev_induct) (auto simp: dropWhile_append3 dropWhile_append)
  then show ?thesis by (simp add: trim_end_def)
qed

text \<open>The first marker of a text that does not contain it before.\<close>

lemma find_sub_at:
  assumes "p \<noteq> []" and "\<not> contains (a @ butlast p) p"
  shows "find_sub p (a @ p @ b) = Some (length a)"
proof (cases "find_sub p (a @ p @ b)")
  case None
  then show ?thesis using find_sub_NoneD [of p "a @ p @ b" a b] by simp
next
  case (Some i)
  have "\<not> length a < i"
    using find_sub_first [OF Some] by (auto dest!: spec [of _ "length a"])
  moreover have "\<not> i < length a"
  proof
    assume i: "i < length a"
    obtain r where "drop i (a @ p @ b) = p @ r"
      using find_sub_SomeD [OF Some] by blast
    then have "take (length p) (drop i (a @ p @ b)) = p"
      by simp
    moreover have "take (length p) (drop i (a @ p @ b)) = take (length p) (drop i (a @ butlast p))"
      using i assms(1)
      by (auto simp: drop_append take_append butlast_conv_take intro!: arg_cong2 [of _ _ _ _ "(@)"])
    ultimately have "drop i (a @ butlast p) = p @ drop (length p) (drop i (a @ butlast p))"
      by (metis append_take_drop_id)
    then have "a @ butlast p = take i (a @ butlast p) @ p @ drop (length p) (drop i (a @ butlast p))"
      by (metis append_take_drop_id)
    with assms(2) show False by (metis contains_iff)
  qed
  ultimately show ?thesis using Some by simp
qed

lemma from_error_text_api:
  assumes "s < 65536" and "a = [] \<or> \<not> is_whitespace (hd a)"
    and "\<not> contains (map ascii_lower a @ lit ''api error'') (lit ''api error '')"
  shows "from_error_text (a @ display (Api s m) @ b) =
    (if s = 429 then Some RateLimit else if 500 \<le> s \<and> s < 600 then Some ServerError else None)"
proof -
  let ?marker = "lit ''api error ''" and ?mb = "32 # m @ b"
  have colon: "lit '': '' = [58, 32]"
    by (simp add: lit_def)
  have whole: "a @ display (Api s m) @ b = (a @ ?marker @ show_nat s) @ 58 # ?mb"
    by (simp add: colon)
  have start: "trim_start (a @ display (Api s m) @ b) = a @ display (Api s m) @ b"
    using assms(2) by (cases a) (auto simp: trim_start_def lit_def is_whitespace_def)
  have "trim (a @ display (Api s m) @ b) = (a @ ?marker @ show_nat s) @ 58 # trim_end ?mb"
    unfolding trim_def start unfolding whole by (rule trim_end_keeps) (simp add: is_whitespace_def)
  then have t: "map ascii_lower (trim (a @ display (Api s m) @ b)) =
      map ascii_lower a @ ?marker @ (show_nat s @ 58 # map ascii_lower (trim_end ?mb))"
    by (simp add: ascii_lower_digits) (simp add: lit_def ascii_lower_def)
  have "butlast ?marker = lit ''api error''"
    by (simp add: lit_def)
  then have "find_sub ?marker (map ascii_lower (trim (a @ display (Api s m) @ b))) = Some (length a)"
    unfolding t using find_sub_at [of ?marker "map ascii_lower a"] assms(3) by simp
  moreover have "drop (length a + 10) (map ascii_lower (trim (a @ display (Api s m) @ b))) =
      show_nat s @ 58 # map ascii_lower (trim_end ?mb)"
    unfolding t by (simp add: lit_def)
  moreover have "map ascii_lower (trim (a @ display (Api s m) @ b)) \<noteq> []"
    unfolding t by simp
  ultimately show ?thesis
    using api_status_show [OF assms(1)] by (simp add: from_error_text_def Let_def)
qed

section \<open>Properties of the failover\<close>

text \<open>
  C21: Selection never goes dark and prefers the primary: a configured chain always yields a selection.
  It is the first entry with an eligible key, with one of that entry's eligible keys, a healthy one
  whenever the entry has one; only when every key of every entry is cooling down is it the primary with
  its first key. It is marked degraded exactly when it is not the primary.
\<close>

theorem select_first_eligible:
  assumes "entries c \<noteq> []"
  shows "\<exists>sel. select c channel h now = Some sel \<and>
    (let i = entry_index sel; e = entries c ! i
     in i < length (entries c) \<and> sel_provider sel = ce_provider e \<and> (degraded sel \<longleftrightarrow> i \<noteq> 0) \<and>
        sel_key_id sel \<in> set (key_ids e) \<and>
        (\<forall>j < i. \<forall>k \<in> set (key_ids (entries c ! j)). \<not> is_eligible (entry_health (entries c ! j) h k) now) \<and>
        (if \<exists>e \<in> set (entries c). \<exists>k \<in> set (key_ids e). is_eligible (entry_health e h k) now
         then is_eligible (entry_health e h (sel_key_id sel)) now \<and>
           ((\<exists>k \<in> set (key_ids e). h_status (entry_health e h k) = Healthy) \<longrightarrow>
              h_status (entry_health e h (sel_key_id sel)) = Healthy)
         else i = 0 \<and> sel_key_id sel = hd (key_ids e)))"
proof (cases "position (\<lambda>e. entry_eligible e h now) (entries c)")
  case None
  then have none: "\<forall>e \<in> set (entries c). \<forall>k \<in> set (key_ids e). \<not> is_eligible (entry_health e h k) now"
    by (simp add: position_None_iff entry_eligible_def pick_key_None_iff)
  have "pick_key (entries c ! 0) h now = None"
    using none assms by (simp add: pick_key_None_iff)
  then show ?thesis
    using None none assms by (auto simp: select_def Let_def key_ids_def split: list.splits)
next
  case (Some i)
  note pos = position_SomeD [OF Some]
  obtain k env where k: "pick_key (entries c ! i) h now = Some (k, env)"
    using pos by (auto simp: entry_eligible_def)
  have "\<forall>j < i. \<forall>k \<in> set (key_ids (entries c ! j)). \<not> is_eligible (entry_health (entries c ! j) h k) now"
    using pos by (simp add: entry_eligible_def pick_key_None_iff)
  moreover have "\<exists>e \<in> set (entries c). \<exists>k \<in> set (key_ids e). is_eligible (entry_health e h k) now"
    using pos pick_key_SomeD [OF k] by (meson nth_mem)
  ultimately show ?thesis
    using pick_key_SomeD [OF k] pos assms
    by (simp add: select_def Let_def Some k)
qed

definition sample_chain :: FallbackChain where
  "sample_chain =
     \<lparr>entries = [\<lparr>ce_provider = lit ''anthropic'', ce_model = lit ''m1'', ce_keys = []\<rparr>,
                 \<lparr>ce_provider = lit ''ollama'', ce_model = lit ''m2'', ce_keys = []\<rparr>],
      model_by_channel = (\<lambda>_. None), reprobe_after_secs = Some 60\<rparr>"

theorem select_first_eligible_witness:
  "\<exists>sel. select sample_chain None
      (record_failure sample_chain (\<lambda>_. None) (health_key (lit ''anthropic'') (lit ''m1'') []) ServerError 0) 30 =
        Some sel \<and> entry_index sel = 1 \<and> degraded sel"
proof -
  let ?h = "record_failure sample_chain (\<lambda>_. None) (health_key (lit ''anthropic'') (lit ''m1'') []) ServerError 0"
  have "entries sample_chain \<noteq> []"
    by (simp add: sample_chain_def)
  from select_first_eligible [OF this, of None ?h 30] obtain sel
    where sel: "select sample_chain None ?h 30 = Some sel" "degraded sel \<longleftrightarrow> entry_index sel \<noteq> 0"
    by (auto simp: Let_def)
  have "select sample_chain None ?h 30 =
      Some \<lparr>entry_index = 1, sel_provider = lit ''ollama'', sel_model = lit ''m2'', sel_key_id = [],
        sel_api_key_env = None, degraded = True, pinned_model = False\<rparr>"
    by (simp add: select_def sample_chain_def entry_eligible_def pick_key_def entry_health_def health_key_def
        health_at_def record_failure_def reprobe_after_def is_eligible_def default_health_def
        AMBIENT_KEY_ID_def Let_def)
  with sel show ?thesis by auto
qed

text \<open>
  C34: The health of a key is a circuit breaker: after any history of failures and successes, recorded in
  any order on any keys (latest first in the list), a key is eligible at \<open>now\<close> exactly as its own latest
  event says: a failure at \<open>at\<close> keeps it out until the cool-down after \<open>at\<close> has passed and not longer, a
  success lets it in at once, and a key without events keeps the health it had.
\<close>

theorem health_is_circuit_breaker:
  "is_eligible (health_at
      (foldr (\<lambda>ev h. case ev of (k, Fail r at) \<Rightarrow> record_failure c h k r at | (k, Recover) \<Rightarrow> record_success h k)
        evs h) k) now \<longleftrightarrow>
     (case map_of evs k of
        None \<Rightarrow> is_eligible (health_at h k) now
      | Some (Fail r at) \<Rightarrow> at + reprobe_after c \<le> now
      | Some Recover \<Rightarrow> True)"
  by (rule provider_health.eligible_history)

lemma failure_count_step:
  "unat (failure_count (health_at (record_failure c h k r at) k)) =
     min (Suc (unat (failure_count (health_at h k)))) (2 ^ 32 - 1)"
  by (simp add: health_at_failure unat_saturating_succ32)

text \<open>
  The failure count counts and saturates: after \<open>n\<close> failures in a row it is the old count plus \<open>n\<close>, capped
  at the largest 32-bit value, never wrapping to zero; one success resets it.
\<close>

theorem failure_count_saturates:
  "unat (failure_count (health_at (fold (\<lambda>(r, at) h. record_failure c h k r at) fs h) k)) =
     min (unat (failure_count (health_at h k)) + length fs) (2 ^ 32 - 1) \<and>
   failure_count (health_at (record_success h k) k) = 0"
proof
  show "failure_count (health_at (record_success h k) k) = 0"
    by (simp add: health_at_success)
  show "unat (failure_count (health_at (fold (\<lambda>(r, at) h. record_failure c h k r at) fs h) k)) =
     min (unat (failure_count (health_at h k)) + length fs) (2 ^ 32 - 1)"
  proof (induction fs arbitrary: h)
    case Nil
    have "unat (failure_count (health_at h k)) < 2 ^ 32"
      using unsigned_less [of "failure_count (health_at h k)"] by simp
    then show ?case by simp
  next
    case (Cons f fs)
    obtain r at where "f = (r, at)" by (cases f)
    with Cons.IH [of "record_failure c h k r at"] show ?case
      by (simp add: failure_count_step)
  qed
qed

text \<open>
  A bare status is recognised exactly as a standalone number: the scanning loop terminates and finds
  the status if and only if its digits occur somewhere in the text with no digit directly before or after.
\<close>

theorem contains_status_exact:
  "contains_status h status \<longleftrightarrow>
     (\<exists>l r. h = l @ show_nat status @ r \<and> (l = [] \<or> \<not> is_ascii_digit (last l)) \<and>
        (r = [] \<or> \<not> is_ascii_digit (hd r)))"
proof
  assume "contains_status h status"
  then obtain i where "standalone_at h (show_nat status) i"
    by (auto simp: contains_status_def contains_status_from_iff)
  then obtain r where r: "drop i h = show_nat status @ r"
    and ok: "i = 0 \<or> \<not> is_ascii_digit (h ! (i - 1))"
      "i + length (show_nat status) \<ge> length h \<or> \<not> is_ascii_digit (h ! (i + length (show_nat status)))"
    by (auto simp: standalone_at_def starts_with_iff)
  have h: "h = take i h @ show_nat status @ r"
    by (metis append_take_drop_id r)
  have "i < length h"
    using r by (metis append_is_Nil_conv drop_eq_Nil2 linorder_not_le show_nat_not_Nil)
  then have "take i h = [] \<or> \<not> is_ascii_digit (last (take i h))"
    using ok(1) by (auto simp: last_conv_nth)
  moreover have "r = [] \<or> \<not> is_ascii_digit (hd r)"
  proof (cases r)
    case (Cons d ds)
    have "h ! (i + length (show_nat status)) = drop i h ! length (show_nat status)"
      using \<open>i < length h\<close> by simp
    moreover have "length h > i + length (show_nat status)"
      using r Cons by (metis (no_types, lifting) add.commute append_Cons length_append length_drop
          less_diff_conv list.distinct(1) less_add_same_cancel1 length_greater_0_conv)
    ultimately show ?thesis using ok(2) Cons by (simp add: r)
  qed simp
  ultimately show "\<exists>l r. h = l @ show_nat status @ r \<and> (l = [] \<or> \<not> is_ascii_digit (last l)) \<and>
      (r = [] \<or> \<not> is_ascii_digit (hd r))"
    using h by blast
next
  assume "\<exists>l r. h = l @ show_nat status @ r \<and> (l = [] \<or> \<not> is_ascii_digit (last l)) \<and>
      (r = [] \<or> \<not> is_ascii_digit (hd r))"
  then obtain l r where "h = l @ show_nat status @ r" "l = [] \<or> \<not> is_ascii_digit (last l)"
    "r = [] \<or> \<not> is_ascii_digit (hd r)"
    by blast
  then have "standalone_at h (show_nat status) (length l)"
    by (auto simp: standalone_at_def nth_append last_conv_nth hd_conv_nth)
  then show "contains_status h status"
    by (auto simp: contains_status_def contains_status_from_iff)
qed

theorem contains_status_exact_witness: "contains_status [120, 32, 52, 50, 57, 33] 429"
proof -
  have "[120, 32, 52, 50, 57, 33] = [120, 32] @ show_nat 429 @ [33]"
    by (simp add: show_nat.simps)
  then show ?thesis
    unfolding contains_status_exact by (intro exI [of _ "[120, 32]"] exI [of _ "[33]"]) (simp add: is_ascii_digit_def)
qed

text \<open>
  The host's classification of a persisted error text agrees with the typed classification in the
  container: for an API error with any status below 600 and any message, wrapped in any text that
  does not itself contain the marker before it, the text is read back to the reason of the error.
\<close>

theorem text_classification_agrees:
  assumes "s < 600" and "pre = [] \<or> \<not> is_whitespace (hd pre)"
    and "\<not> contains (map ascii_lower pre @ lit ''api error'') (lit ''api error '')"
  shows "from_error_text (pre @ display (Api s m) @ post) = from_error (Api s m)"
  using from_error_text_api [of s pre m post] assms by simp

theorem text_classification_agrees_witness:
  "from_error_text (lit ''(x '' @ display (Api 503 (lit ''timeout'')) @ lit '')'') = Some ServerError"
  using text_classification_agrees [of 503 "lit ''(x ''" "lit ''timeout''" "lit '')''"]
  by (simp add: lit_def is_whitespace_def ascii_lower_def contains_def del: display.simps)

text \<open>
  The text classification is not the typed one outside API errors: a bad request whose message
  mentions a timeout is classified as a transport failure and degrades the chain, although bad requests
  must not, and a status of 600 or more degrades the chain in the container and not in the host.
\<close>

theorem text_classification_differs:
  "from_error (BadRequest (lit ''timeout must be positive'')) = None \<and>
   from_error_text (display (BadRequest (lit ''timeout must be positive''))) = Some TransportReason \<and>
   from_error (Api 600 []) = Some ServerError \<and>
   from_error_text (display (Api 600 [])) = None"
proof -
  have "from_error_text (display (BadRequest (lit ''timeout must be positive''))) = Some TransportReason"
    by (simp add: from_error_text_def lit_def trim_def trim_start_def trim_end_def is_whitespace_def
        ascii_lower_def contains_def)
  moreover have "from_error_text (display (Api 600 [])) = None"
    using from_error_text_api [of 600 "[]" "[]" "[]"] by (simp add: lit_def contains_def del: display.simps)
  ultimately show ?thesis by simp
qed

end
