(* ===== verification/Slash_Commands.thy ===== *)
theory Slash_Commands
  imports Message "HOL-Library.List_Lexorder"
begin

text \<open>
  The end-user commands (\<open>copperclaw-host-router/src/commands.rs\<close>), the workspaces behind \<open>/projects\<close>
  and \<open>/switch\<close> (\<open>workspaces.rs\<close>), and the runner's side of the passthrough commands (\<open>SlashCommand\<close> of
  \<open>copperclaw-runner/src/run/mod.rs\<close>). The router rewrites a recognised \<open>/clear\<close> or \<open>/compact\<close> so that
  the runner, which parses again, recognises the same command.
\<close>

section \<open>Commands of the router\<close>

datatype SlashCommand = Stop | Status | Compact | Clear | Projects

definition slash_parse :: "ustring \<Rightarrow> SlashCommand option" where
  "slash_parse text =
     (let trimmed = trim text
      in if \<not> starts_with trimmed (lit ''/'') then None
         else case split_whitespace trimmed of
             [token] \<Rightarrow>
               (let bare = map ascii_lower (before_char 64 token)
                in if bare = lit ''/stop'' \<or> bare = lit ''/cancel'' then Some Stop
                   else if bare = lit ''/status'' then Some Status
                   else if bare = lit ''/compact'' then Some Compact
                   else if bare = lit ''/clear'' \<or> bare = lit ''/reset'' \<or> bare = lit ''/new'' then Some Clear
                   else if bare = lit ''/projects'' then Some Projects
                   else None)
           | _ \<Rightarrow> None)"

fun canonical :: "SlashCommand \<Rightarrow> ustring" where
  "canonical Stop = lit ''/stop''"
| "canonical Status = lit ''/status''"
| "canonical Compact = lit ''/compact''"
| "canonical Clear = lit ''/clear''"
| "canonical Projects = lit ''/projects''"

fun slash_op :: "SlashCommand \<Rightarrow> ustring" where
  "slash_op Stop = lit ''stop''"
| "slash_op Status = lit ''status''"
| "slash_op Compact = lit ''compact''"
| "slash_op Clear = lit ''clear''"
| "slash_op Projects = lit ''projects''"

datatype SwitchTarget = Valid ustring | Invalid ustring
datatype ParsedCommand = Bare SlashCommand | Switch SwitchTarget

definition workspace_char :: "uchar \<Rightarrow> bool" where
  "workspace_char c \<longleftrightarrow> is_ascii_alphanumeric c \<or> c = 46 \<or> c = 95 \<or> c = 45"

definition validate_workspace_name :: "ustring \<Rightarrow> bool" where
  "validate_workspace_name name =
     (if name = [] \<or> name = lit ''.'' \<or> name = lit ''..'' then False
      else if 47 \<in> set name \<or> 92 \<in> set name then False
      else list_all workspace_char name)"

definition parse_switch :: "ustring \<Rightarrow> SwitchTarget option" where
  "parse_switch trimmed =
     (case split_whitespace trimmed of
        [] \<Rightarrow> None
      | head # rest \<Rightarrow>
          if map ascii_lower (before_char 64 head) \<noteq> lit ''/switch'' then None
          else (case rest of
                  [] \<Rightarrow> Some (Invalid [])
                | name # extra \<Rightarrow>
                    if extra = [] \<and> validate_workspace_name name then Some (Valid name)
                    else Some (Invalid name)))"

definition parsed_parse :: "ustring \<Rightarrow> ParsedCommand option" where
  "parsed_parse text =
     (let trimmed = trim text
      in if \<not> starts_with trimmed (lit ''/'') then None
         else case slash_parse trimmed of
             Some cmd \<Rightarrow> Some (Bare cmd)
           | None \<Rightarrow> map_option Switch (parse_switch trimmed))"

definition event_text :: "InboundEvent \<Rightarrow> ustring option" where
  "event_text event = Option.bind (json_get (im_content (ev_message event)) (lit ''text'')) json_as_str"

definition slash_detect :: "InboundEvent \<Rightarrow> SlashCommand option" where
  "slash_detect event =
     (if im_kind (ev_message event) \<noteq> Chat then None else Option.bind (event_text event) slash_parse)"

definition parsed_detect :: "InboundEvent \<Rightarrow> ParsedCommand option" where
  "parsed_detect event =
     (if im_kind (ev_message event) \<noteq> Chat then None else Option.bind (event_text event) parsed_parse)"

fun parsed_op :: "ParsedCommand \<Rightarrow> ustring" where
  "parsed_op (Bare cmd) = slash_op cmd"
| "parsed_op (Switch _) = lit ''switch''"

section \<open>Row contents\<close>

definition preserve_original :: "json \<Rightarrow> SlashCommand \<Rightarrow> ustring \<Rightarrow> json" where
  "preserve_original obj cmd original_text =
     (let trimmed = trim original_text
      in if trimmed \<noteq> canonical cmd then json_insert obj (lit ''original_text'') (JString trimmed) else obj)"

definition control_content :: "SlashCommand \<Rightarrow> ustring \<Rightarrow> json" where
  "control_content cmd original_text =
     preserve_original
       (JObject [(lit ''control'', JObject [(lit ''op'', JString (slash_op cmd))]),
                 (lit ''command'', JString (slash_op cmd)), (lit ''text'', JString (canonical cmd))])
       cmd original_text"

definition passthrough_content :: "SlashCommand \<Rightarrow> json \<Rightarrow> ustring \<Rightarrow> json" where
  "passthrough_content cmd original original_text =
     (let obj = (if json_is_object original then original else JObject [(lit ''raw'', original)]);
          obj = json_insert obj (lit ''text'') (JString (canonical cmd));
          obj = json_insert obj (lit ''command'') (JString (slash_op cmd))
      in preserve_original obj cmd original_text)"

section \<open>Commands of the runner\<close>

datatype RunnerCommand = RClear | RCompact | RHelp

definition runner_parse :: "ustring \<Rightarrow> RunnerCommand option" where
  "runner_parse text =
     (let t = map ascii_lower (trim text)
      in if t = lit ''/clear'' \<or> t = lit ''/reset'' \<or> t = lit ''/new'' then Some RClear
         else if t = lit ''/compact'' then Some RCompact
         else if t = lit ''/help'' \<or> t = lit ''/?'' \<or> t = lit ''/commands'' then Some RHelp
         else None)"

definition detect_slash_command_batch :: "MessageInRow list \<Rightarrow> RunnerCommand option" where
  "detect_slash_command_batch rows =
     (case rows of
        [row] \<Rightarrow>
          if in_kind row \<noteq> Chat then None
          else Option.bind (Option.bind (json_get (in_content row) (lit ''text'')) json_as_str) runner_parse
      | _ \<Rightarrow> None)"

section \<open>Workspaces\<close>

definition CONTAINER_SESSION_DIR :: ustring where "CONTAINER_SESSION_DIR = lit ''/data''"

definition SYSTEM_DIRS :: "ustring list" where
  "SYSTEM_DIRS = [lit ''skills'', lit ''memory'', lit ''inbox'', lit ''outbox'', lit ''node_modules'']"

record Workspace =
  ws_name :: ustring
  ws_is_git :: bool
  ws_active :: bool

text \<open>A directory entry: its name, whether it is a directory, and whether it holds a \<open>.git\<close> entry.\<close>

type_synonym dir_entry = "ustring \<times> bool \<times> bool"

definition is_system_dir :: "ustring \<Rightarrow> bool" where
  "is_system_dir name \<longleftrightarrow> starts_with name (lit ''.'') \<or> name \<in> set SYSTEM_DIRS"

definition unquote_shell :: "ustring \<Rightarrow> ustring" where
  "unquote_shell s =
     (if length s \<ge> 2 \<and> (hd s = 39 \<and> last s = 39 \<or> hd s = 34 \<and> last s = 34) then butlast (tl s) else s)"

fun parse_shell_pwd :: "ustring list \<Rightarrow> ustring option" where
  "parse_shell_pwd [] = None"
| "parse_shell_pwd (line # ls) =
     (case find_sub (lit ''PWD='') line of
        None \<Rightarrow> parse_shell_pwd ls
      | Some idx \<Rightarrow>
          if idx > 0 \<and> is_ascii_alphanumeric (line ! (idx - 1)) then parse_shell_pwd ls
          else let val = trim_matches 34 (trim (drop (idx + 4) line))
               in if val \<noteq> [] then Some val else parse_shell_pwd ls)"

fun parse_shell_cd :: "ustring list \<Rightarrow> ustring option" where
  "parse_shell_cd [] = None"
| "parse_shell_cd (line # ls) =
     (case strip_prefix (trim line) (lit ''cd '') of
        None \<Rightarrow> parse_shell_cd ls
      | Some rest \<Rightarrow>
          (let path = unquote_shell (trim rest) in if path \<noteq> [] then Some path else parse_shell_cd ls))"

definition parse_shell_cwd :: "ustring \<Rightarrow> ustring option" where
  "parse_shell_cwd state =
     (case parse_shell_cd (str_lines state) of
        Some path \<Rightarrow> Some path
      | None \<Rightarrow> parse_shell_pwd (str_lines state))"

definition active_from_shell_state :: "ustring \<Rightarrow> ustring option" where
  "active_from_shell_state state =
     (case parse_shell_cwd state of
        None \<Rightarrow> None
      | Some cwd \<Rightarrow>
         (case strip_prefix cwd CONTAINER_SESSION_DIR of
            None \<Rightarrow> None
          | Some rel \<Rightarrow>
              if rel \<noteq> [] \<and> \<not> starts_with rel (lit ''/'') then None
              else let seg = before_char 47 (dropWhile (\<lambda>c. c = 47) rel)
                   in if seg = [] then None else Some seg))"

definition active_workspace_name :: "ustring option \<Rightarrow> ustring option" where
  "active_workspace_name shell_state = Option.bind shell_state active_from_shell_state"

definition list_workspaces :: "dir_entry list option \<Rightarrow> ustring option \<Rightarrow> Workspace list" where
  "list_workspaces entries shell_state =
     (case entries of
        None \<Rightarrow> []
      | Some es \<Rightarrow>
          sort_key ws_name
            (map (\<lambda>(name, is_dir, git). \<lparr>ws_name = name, ws_is_git = git,
                     ws_active = (active_workspace_name shell_state = Some name)\<rparr>)
               (filter (\<lambda>(name, is_dir, git). is_dir \<and> \<not> is_system_dir name) es)))"

definition container_workspace_path :: "ustring \<Rightarrow> ustring" where
  "container_workspace_path name = CONTAINER_SESSION_DIR @ lit ''/'' @ name"

definition switch_shell_state :: "ustring \<Rightarrow> ustring" where
  "switch_shell_state name = lit ''cd '' @ [39] @ container_workspace_path name @ [39, 10]"

text \<open>The replies. Scalar value 8212 is the em dash and 8594 the arrow of the active marker.\<close>

definition render_projects :: "Workspace list \<Rightarrow> ustring" where
  "render_projects ws =
     (if ws = [] then
        lit ''No workspaces yet '' @ [8212] @ lit '' say '' @ [39] @ lit ''build me X'' @ [39] @
        lit '', or /switch <name> to start one.''
      else
        lit ''Workspaces (/data):'' @
        concat (map (\<lambda>w. [10] @ (if ws_active w then [8594] else lit '' '') @ lit '' '' @ ws_name w @
          (if ws_is_git w then lit '' (git)'' else [])) ws))"

definition render_switch_ok :: "ustring \<Rightarrow> bool \<Rightarrow> ustring" where
  "render_switch_ok name created =
     lit ''Switched to workspace `'' @ name @ lit ''` '' @ [8212] @ lit '' '' @
     container_workspace_path name @ lit '' ('' @ (if created then lit ''new'' else lit ''existing'') @
     lit '')'' @ [10] @ lit ''context reset; send your next message to continue there.''"

definition naming_rule :: ustring where
  "naming_rule =
     lit ''letters, digits, '' @ [39, 46, 39] @ lit '', '' @ [39, 95, 39] @ lit '' and '' @ [39, 45, 39] @ lit '' only''"

definition render_switch_invalid :: "ustring \<Rightarrow> ustring" where
  "render_switch_invalid raw =
     (if raw = [] then
        lit ''Usage: /switch <name> '' @ [8212] @ lit '' names may use '' @ naming_rule @ lit ''.''
      else
        lit ''Invalid workspace name `'' @ raw @ lit ''` '' @ [8212] @ lit '' use '' @ naming_rule @
        lit '' (no '' @ [39, 47, 39] @ lit '', '' @ [39, 46, 46, 39] @ lit '', or spaces).'')"


section \<open>What the commands are\<close>

text \<open>The documented names, and the specification of a switch request.\<close>

fun command_names :: "SlashCommand \<Rightarrow> ustring set" where
  "command_names Stop = {lit ''/stop'', lit ''/cancel''}"
| "command_names Status = {lit ''/status''}"
| "command_names Compact = {lit ''/compact''}"
| "command_names Clear = {lit ''/clear'', lit ''/reset'', lit ''/new''}"
| "command_names Projects = {lit ''/projects''}"

abbreviation command_word :: "ustring \<Rightarrow> ustring" where
  "command_word token \<equiv> map ascii_lower (before_char 64 token)"

lemma slash_not_whitespace: "\<not> is_whitespace 47"
  by (simp add: is_whitespace_def)

lemma command_word_slash:
  assumes "command_word w = 47 # r" and "w \<noteq> []"
  shows "hd w = 47"
  using assms by (cases w) (auto simp: before_char_def ascii_lower_def split: if_splits)

lemma lit_slash: "lit (CHR ''/'' # s) = 47 # lit s"
  by (simp add: lit_def)

lemma lit_slash_only: "lit ''/'' = [47]"
  by (simp add: lit_def)

lemma command_names_slash: "n \<in> command_names c \<Longrightarrow> \<exists>r. n = 47 # r"
  by (cases c) (auto simp: lit_slash)

lemma slash_parse_iff:
  "slash_parse text = Some c \<longleftrightarrow>
     (\<exists>token. split_whitespace text = [token] \<and> command_word token \<in> command_names c)"
proof
  assume "slash_parse text = Some c"
  then obtain token where "split_whitespace text = [token]" "command_word token \<in> command_names c"
    by (auto simp: slash_parse_def Let_def split: if_splits list.splits)
  then show "\<exists>token. split_whitespace text = [token] \<and> command_word token \<in> command_names c" by blast
next
  assume "\<exists>token. split_whitespace text = [token] \<and> command_word token \<in> command_names c"
  then obtain token where t: "split_whitespace text = [token]" "command_word token \<in> command_names c" by blast
  have "token \<noteq> []"
    using split_whitespace_wordD [of token "text"] t(1) by simp
  then have "hd token = 47"
    using command_names_slash [OF t(2)] by (auto intro: command_word_slash)
  then have "starts_with (trim text) (lit ''/'')"
    unfolding lit_slash_only using t(1) trim_starts_with_char [OF slash_not_whitespace] by blast
  with t show "slash_parse text = Some c"
    by (cases c) (auto simp: slash_parse_def Let_def)
qed

lemma slash_parse_trim [simp]: "slash_parse (trim text) = slash_parse text"
proof (rule option.expand)
  have same: "slash_parse (trim text) = Some c \<longleftrightarrow> slash_parse text = Some c" for c
    by (simp add: slash_parse_iff)
  then show "(slash_parse (trim text) = None) = (slash_parse text = None)"
    by (metis not_None_eq)
  show "the (slash_parse (trim text)) = the (slash_parse text)"
    if "slash_parse (trim text) \<noteq> None" "slash_parse text \<noteq> None"
    using that same by (metis option.exhaust_sel)
qed

lemma parsed_parse_Bare_iff: "parsed_parse text = Some (Bare c) \<longleftrightarrow> slash_parse text = Some c"
proof -
  have "slash_parse text = Some c \<Longrightarrow> starts_with (trim text) (lit ''/'')"
    by (auto simp: slash_parse_def Let_def split: if_splits)
  then show ?thesis
    by (auto simp: parsed_parse_def Let_def split: option.splits)
qed

definition switch_target :: "ustring list \<Rightarrow> SwitchTarget" where
  "switch_target args =
     (case args of
        [name] \<Rightarrow> if validate_workspace_name name then Valid name else Invalid name
      | [] \<Rightarrow> Invalid []
      | name # _ \<Rightarrow> Invalid name)"

lemma parsed_parse_Switch_iff:
  "parsed_parse text = Some (Switch t) \<longleftrightarrow>
     (\<exists>head args. split_whitespace text = head # args \<and> command_word head = lit ''/switch'' \<and> t = switch_target args)"
proof
  assume "parsed_parse text = Some (Switch t)"
  then have "parse_switch (trim text) = Some t"
    by (auto simp: parsed_parse_def Let_def split: if_splits option.splits)
  then show "\<exists>head args. split_whitespace text = head # args \<and> command_word head = lit ''/switch'' \<and> t = switch_target args"
    by (auto simp: parse_switch_def switch_target_def split: list.splits if_splits)
next
  assume "\<exists>head args. split_whitespace text = head # args \<and> command_word head = lit ''/switch'' \<and> t = switch_target args"
  then obtain head args where h: "split_whitespace text = head # args" "command_word head = lit ''/switch''"
    "t = switch_target args" by blast
  have "head \<noteq> []"
    using split_whitespace_wordD [of head "text"] h(1) by simp
  then have "hd head = 47"
    using h(2) by (auto simp: lit_slash intro: command_word_slash)
  then have slash: "starts_with (trim text) (lit ''/'')"
    unfolding lit_slash_only using h(1) trim_starts_with_char [OF slash_not_whitespace] by blast
  have "lit ''/switch'' \<notin> command_names c" for c
    by (cases c) auto
  then have "slash_parse text = None"
    using h(1,2) slash_parse_iff [of "text"] by (metis list.inject option.exhaust)
  moreover have "parse_switch (trim text) = Some t"
    using h by (auto simp: parse_switch_def switch_target_def split: list.splits)
  ultimately show "parsed_parse text = Some (Switch t)"
    using slash by (simp add: parsed_parse_def Let_def)
qed

section \<open>Properties of the commands\<close>

text \<open>
  Commands are recognised exactly as documented. A text is a bare command when it is, up to white
  space around it, one token that is one of the command's names, in any ASCII case and with an optional
  bot suffix; it is a switch when its first token is, and then the argument is valid only if it is the
  single one and passes the name check. Everything else is prose for the model.
\<close>

theorem command_recognition_exact:
  "(parsed_parse text = Some (Bare c) \<longleftrightarrow>
      (\<exists>token. split_whitespace text = [token] \<and> command_word token \<in> command_names c)) \<and>
   (parsed_parse text = Some (Switch t) \<longleftrightarrow>
      (\<exists>head args. split_whitespace text = head # args \<and> command_word head = lit ''/switch'' \<and>
         t = switch_target args))"
  by (simp add: parsed_parse_Bare_iff slash_parse_iff parsed_parse_Switch_iff)

fun runner_command :: "SlashCommand \<Rightarrow> RunnerCommand option" where
  "runner_command Clear = Some RClear"
| "runner_command Compact = Some RCompact"
| "runner_command _ = None"

lemma json_get_preserve:
  "json_is_object obj \<Longrightarrow> k \<noteq> lit ''original_text'' \<Longrightarrow>
     json_get (preserve_original obj cmd original) k = json_get obj k"
  by (simp add: preserve_original_def Let_def)

lemma passthrough_text:
  "json_get (passthrough_content cmd content original) (lit ''text'') = Some (JString (canonical cmd))"
  by (auto simp: passthrough_content_def Let_def json_get_preserve)

lemma runner_parse_word:
  assumes "split_whitespace text = [w]"
  shows "runner_parse text = runner_parse w"
  using assms trim_single_word [OF assms] split_whitespace_wordD [of w "text"]
  by (simp add: runner_parse_def trim_no_whitespace)

lemma runner_parse_canonical: "runner_parse (canonical cmd) = runner_command cmd"
proof -
  have "trim (canonical cmd) = canonical cmd"
    by (cases cmd) (auto intro!: trim_no_whitespace simp: lit_def is_whitespace_def)
  moreover have "map ascii_lower (canonical cmd) = canonical cmd"
    by (cases cmd) (simp_all add: lit_def ascii_lower_def)
  ultimately show ?thesis
    by (cases cmd) (simp_all add: runner_parse_def)
qed

lemma runner_names: "runner_parse text = runner_command c \<Longrightarrow> runner_command c \<noteq> None \<Longrightarrow>
  map ascii_lower (trim text) \<in> command_names c"
  by (cases c) (auto simp: runner_parse_def Let_def split: if_splits)

lemma lower_no_at: "map ascii_lower w \<in> command_names c \<Longrightarrow> before_char 64 w = w"
proof -
  assume w: "map ascii_lower w \<in> command_names c"
  have "64 \<notin> set n" if "n \<in> command_names c" for n
    using that by (cases c) (auto simp: lit_def)
  with w have "64 \<notin> ascii_lower ` set w"
    by (metis list.set_map)
  then have "64 \<notin> set w"
    by (force simp: ascii_lower_def)
  then show ?thesis
    by (auto simp: before_char_def takeWhile_eq_all_conv)
qed

lemma runner_implies_router:
  assumes "runner_parse text = runner_command c" and "runner_command c \<noteq> None"
  shows "slash_parse text = Some c"
proof -
  let ?w = "trim text"
  have n: "map ascii_lower ?w \<in> command_names c"
    by (rule runner_names [OF assms])
  have names: "n \<noteq> [] \<and> (\<forall>x \<in> set n. \<not> is_whitespace x)" if "n \<in> command_names c" for n
    using that by (cases c) (auto simp: lit_def is_whitespace_def)
  have "is_whitespace x \<Longrightarrow> is_whitespace (ascii_lower x)" for x
    by (auto simp: is_whitespace_def ascii_lower_def)
  with names [OF n] have "?w \<noteq> []" "\<forall>x \<in> set ?w. \<not> is_whitespace x"
    by auto
  then have "split_whitespace ?w = [?w]"
    by (rule split_whitespace_single)
  then show ?thesis
    using n lower_no_at [OF n] by (simp add: slash_parse_iff)
qed

text \<open>
  C37: The router and the runner agree on the passthrough commands. A row the router writes for a recognised
  \<open>/clear\<close> or \<open>/compact\<close>, under any alias, case or bot suffix, is recognised by the runner as that command
  when it is alone in its batch; and of the chat texts the router does not recognise, the runner
  recognises at most the help command.
\<close>

theorem router_and_runner_agree:
  assumes "in_kind row = im_kind (ev_message event)"
  shows "(parsed_detect event = Some (Bare cmd) \<and> runner_command cmd \<noteq> None \<and>
            in_content row = passthrough_content cmd content original \<longrightarrow>
          detect_slash_command_batch [row] = runner_command cmd) \<and>
         (parsed_detect event = None \<and> in_content row = im_content (ev_message event) \<longrightarrow>
          detect_slash_command_batch [row] \<in> {None, Some RHelp})"
proof (intro conjI impI)
  assume "parsed_detect event = Some (Bare cmd) \<and> runner_command cmd \<noteq> None \<and>
            in_content row = passthrough_content cmd content original"
  then show "detect_slash_command_batch [row] = runner_command cmd"
    using assms by (auto simp: detect_slash_command_batch_def parsed_detect_def passthrough_text
        json_as_str_def runner_parse_canonical split: if_splits)
next
  assume "parsed_detect event = None \<and> in_content row = im_content (ev_message event)"
  then have quiet: "im_kind (ev_message event) = Chat \<Longrightarrow> event_text event = Some t \<Longrightarrow> slash_parse t = None" for t
    using parsed_parse_Bare_iff [of t] by (cases "slash_parse t") (auto simp: parsed_detect_def)
  have batch: "detect_slash_command_batch [row] =
      (if im_kind (ev_message event) \<noteq> Chat then None else Option.bind (event_text event) runner_parse)"
    using assms \<open>parsed_detect event = None \<and> _\<close>
    by (simp add: detect_slash_command_batch_def event_text_def)
  show "detect_slash_command_batch [row] \<in> {None, Some RHelp}"
  proof (rule ccontr)
    assume "detect_slash_command_batch [row] \<notin> {None, Some RHelp}"
    then obtain t r where t: "im_kind (ev_message event) = Chat" "event_text event = Some t"
      "runner_parse t = Some r" "r \<noteq> RHelp"
      unfolding batch by (auto split: if_splits simp: bind_eq_Some_conv)
    then obtain c where "runner_command c = Some r"
      by (metis RunnerCommand.exhaust runner_command.simps(1,2))
    then have "slash_parse t = Some c"
      using t(3) by (intro runner_implies_router) simp_all
    with quiet t show False by auto
  qed
qed

definition sample_event :: "ustring \<Rightarrow> InboundEvent" where
  "sample_event s =
     \<lparr>ev_channel_type = lit ''telegram'', ev_platform_id = lit ''42'', ev_thread_id = None,
      ev_message = \<lparr>im_id = lit ''m1'', im_kind = Chat, im_content = JObject [(lit ''text'', JString s)],
                    im_timestamp = 0, im_is_mention = None, im_is_group = None\<rparr>,
      ev_reply_to = None, ev_sender = None\<rparr>"

lemma event_text_sample: "event_text (sample_event s) = Some s"
  by (simp add: event_text_def sample_event_def json_get_def json_as_str_def)

lemma reset_detected: "parsed_detect (sample_event (lit ''/reset@bot'')) = Some (Bare Clear)"
proof -
  have "split_whitespace (lit ''/reset@bot'') = [lit ''/reset@bot'']"
    by (rule split_whitespace_single) (auto simp: lit_def is_whitespace_def)
  moreover have "command_word (lit ''/reset@bot'') = lit ''/reset''"
    by (simp add: lit_def before_char_def ascii_lower_def)
  ultimately have "slash_parse (lit ''/reset@bot'') = Some Clear"
    by (auto simp: slash_parse_iff)
  then have "parsed_parse (lit ''/reset@bot'') = Some (Bare Clear)"
    by (simp add: parsed_parse_Bare_iff)
  moreover have "im_kind (ev_message (sample_event (lit ''/reset@bot''))) = Chat"
    by (simp add: sample_event_def)
  ultimately show ?thesis
    by (simp add: parsed_detect_def event_text_sample)
qed

definition reset_row :: MessageInRow where
  "reset_row =
     \<lparr>in_id = 1, in_seq = 2, in_kind = Chat, in_timestamp = 0, in_status = lit ''pending'', process_after = None,
      in_recurrence = None, series_id = None, in_tries = 0, in_trigger = True, in_platform_id = None,
      in_channel_type = None, in_thread_id = None,
      in_content = passthrough_content Clear (JObject [(lit ''text'', JString (lit ''/reset@bot''))]) (lit ''/reset@bot''),
      source_session_id = None, on_wake = False, reply_to = None, is_group = None, crash_attempts = 0\<rparr>"

theorem router_and_runner_agree_witness: "detect_slash_command_batch [reset_row] = Some RClear"
proof -
  have "in_kind reset_row = im_kind (ev_message (sample_event (lit ''/reset@bot'')))"
    by (simp add: reset_row_def sample_event_def)
  moreover have "in_content reset_row =
      passthrough_content Clear (JObject [(lit ''text'', JString (lit ''/reset@bot''))]) (lit ''/reset@bot'')"
    by (simp add: reset_row_def)
  ultimately show ?thesis
    using router_and_runner_agree [of reset_row "sample_event (lit ''/reset@bot'')" Clear] reset_detected
    by (metis option.distinct(1) runner_command.simps(1))
qed

section \<open>Properties of the workspaces\<close>

lemma valid_name_chars:
  "validate_workspace_name n \<Longrightarrow> n \<noteq> [] \<and> (\<forall>c \<in> set n. workspace_char c)"
  by (auto simp: validate_workspace_name_def list_all_iff split: if_splits)

lemma workspace_char_facts:
  "workspace_char c \<Longrightarrow> \<not> is_whitespace c \<and> c \<noteq> 10 \<and> c \<noteq> 39 \<and> c \<noteq> 34 \<and> c \<noteq> 47 \<and> c \<noteq> 92 \<and> c < 128"
  by (auto simp: workspace_char_def is_ascii_alphanumeric_def is_whitespace_def is_ascii_digit_def)

lemma trim_ends: "s \<noteq> [] \<Longrightarrow> \<not> is_whitespace (hd s) \<Longrightarrow> \<not> is_whitespace (last s) \<Longrightarrow> trim s = s"
  by (simp add: trim_def trim_start_def trim_end_def dropWhile_eq_self_iff [THEN iffD2] hd_rev)

lemma switch_line:
  assumes "validate_workspace_name n"
  shows "str_lines (switch_shell_state n) = [lit ''cd '' @ [39] @ container_workspace_path n @ [39]]"
proof -
  let ?l = "lit ''cd '' @ [39] @ container_workspace_path n @ [39]"
  have "\<forall>c \<in> set ?l. c \<noteq> 10"
    using valid_name_chars [OF assms] workspace_char_facts
    by (auto simp: container_workspace_path_def CONTAINER_SESSION_DIR_def lit_def)
  then have "split_on (\<lambda>c. c = 10) (?l @ 10 # []) = [?l, []]"
    by (subst split_on_append_sep) (simp_all add: split_on_single)
  then show ?thesis
    by (simp add: str_lines_def switch_shell_state_def strip_cr_def)
qed

lemma switch_active:
  assumes "validate_workspace_name n"
  shows "active_from_shell_state (switch_shell_state n) = Some n"
proof -
  let ?p = "container_workspace_path n"
  have n: "n \<noteq> []" "47 \<notin> set n"
    using valid_name_chars [OF assms] workspace_char_facts by blast+
  have "trim (lit ''cd '' @ [39] @ ?p @ [39]) = lit ''cd '' @ [39] @ ?p @ [39]"
    by (rule trim_ends) (simp_all add: lit_def is_whitespace_def)
  moreover have "strip_prefix (lit ''cd '' @ [39] @ ?p @ [39]) (lit ''cd '') = Some ([39] @ ?p @ [39])"
    by (simp add: strip_prefix_def starts_with_append)
  moreover have "trim ([39] @ ?p @ [39]) = [39] @ ?p @ [39]"
    by (rule trim_ends) (simp_all add: is_whitespace_def)
  moreover have "unquote_shell ([39] @ ?p @ [39]) = ?p"
    by (simp add: unquote_shell_def butlast_append)
  moreover have "?p \<noteq> []"
    by (simp add: container_workspace_path_def lit_def)
  ultimately have "parse_shell_cwd (switch_shell_state n) = Some ?p"
    by (simp add: parse_shell_cwd_def switch_line [OF assms])
  moreover have "strip_prefix ?p CONTAINER_SESSION_DIR = Some (lit ''/'' @ n)"
    by (simp add: strip_prefix_def container_workspace_path_def starts_with_append)
  moreover have "before_char 47 (dropWhile (\<lambda>c. c = 47) (lit ''/'' @ n)) = n"
    using n by (cases n) (auto simp: before_char_def lit_def takeWhile_eq_all_conv)
  ultimately show ?thesis
    using n by (simp add: active_from_shell_state_def starts_with_append)
qed

text \<open>
  Switching and listing agree. After a switch to a valid name, the listing marks exactly the directory
  of that name as active; a directory the listing hides (a dot entry or one of the system directories) can
  be switched to and is then not shown at all. A valid name is a single path segment: not empty, no
  separator, no quote, no white space, not \<open>.\<close> or \<open>..\<close>.
\<close>

theorem switch_marks_the_workspace:
  assumes "validate_workspace_name n"
  shows "map ws_name (filter ws_active (list_workspaces (Some es) (Some (switch_shell_state n)))) =
      map (\<lambda>_. n) (filter (\<lambda>(name, is_dir, git). name = n \<and> is_dir \<and> \<not> is_system_dir n) es) \<and>
    n \<notin> {[], lit ''.'', lit ''..''} \<and> set n \<inter> {39, 34, 47, 92} = {} \<and> (\<forall>c \<in> set n. \<not> is_whitespace c)"
proof -
  let ?rows = "\<lambda>es. map (\<lambda>(name, is_dir, git). \<lparr>ws_name = name, ws_is_git = git, ws_active = (name = n)\<rparr>)
    (filter (\<lambda>(name, is_dir, git). is_dir \<and> \<not> is_system_dir name) es)"
  have "active_workspace_name (Some (switch_shell_state n)) = Some name \<longleftrightarrow> name = n" for name
    using switch_active [OF assms] by (auto simp: active_workspace_name_def)
  then have rows: "list_workspaces (Some es) (Some (switch_shell_state n)) = sort_key ws_name (?rows es)"
    by (simp add: list_workspaces_def)
  have names: "map ws_name (filter ws_active (?rows es)) =
      map (\<lambda>_. n) (filter (\<lambda>(name, is_dir, git). name = n \<and> is_dir \<and> \<not> is_system_dir n) es)"
    by (induction es) auto
  have "sorted (map ws_name (filter ws_active (?rows es)))"
    unfolding names by (simp add: sorted_wrt_map sorted_wrt_true)
  then have "filter ws_active (sort_key ws_name (?rows es)) = filter ws_active (?rows es)"
    by (simp add: filter_sort sort_key_id_if_sorted)
  then show ?thesis
    using assms valid_name_chars [OF assms] workspace_char_facts rows names
    by (auto simp: validate_workspace_name_def)
qed

theorem switch_marks_the_workspace_witness:
  "map ws_name (filter ws_active (list_workspaces
     (Some [(lit ''app'', True, True), (lit ''site'', True, False)]) (Some (switch_shell_state (lit ''site''))))) =
   [lit ''site'']"
proof -
  have "validate_workspace_name (lit ''site'')"
    by (simp add: validate_workspace_name_def list_all_iff workspace_char_def is_ascii_alphanumeric_def lit_def)
  moreover have "\<not> is_system_dir (lit ''site'')"
    by (simp add: is_system_dir_def SYSTEM_DIRS_def)
  ultimately show ?thesis
    using switch_marks_the_workspace [of "lit ''site''" "[(lit ''app'', True, True), (lit ''site'', True, False)]"]
    by simp
qed

end
