(* ===== verification/Central_Tables.thy ===== *)
theory Central_Tables
  imports Sql Message
begin

text \<open>
  The tables of the central database that routing reads and writes
  (\<open>copperclaw-db/src/tables\<close>: \<open>messaging_groups.rs\<close>, \<open>messaging_group_agents.rs\<close>, \<open>sessions.rs\<close>,
  \<open>unregistered_senders.rs\<close>, \<open>dropped_messages.rs\<close>) and the per-session \<open>session_routing.rs\<close>. A session id
  is its textual form, because the router compares it with text; other ids are numbers. Fresh ids and the
  clock are arguments. Foreign keys are not modelled.
\<close>

type_synonym SessionId = ustring
type_synonym MessagingGroupId = nat
type_synonym AgentGroupId = nat
type_synonym UserId = nat

section \<open>messaging_groups\<close>

record MessagingGroup =
  mg_id :: MessagingGroupId
  mg_channel_type :: ChannelType
  mg_platform_id :: ustring
  mg_name :: "ustring option"
  mg_is_group :: bool
  unknown_sender_policy :: ustring
  denied_at :: "instant option"
  mg_created_at :: instant

record UpsertMessagingGroup =
  umg_channel_type :: ChannelType
  umg_platform_id :: ustring
  umg_name :: "ustring option"
  umg_is_group :: bool
  umg_policy :: ustring

definition get_by_platform :: "MessagingGroup list \<Rightarrow> ChannelType \<Rightarrow> ustring \<Rightarrow> MessagingGroup option" where
  "get_by_platform t ch p = find (\<lambda>g. mg_channel_type g = ch \<and> mg_platform_id g = p) t"

definition get_mg :: "MessagingGroup list \<Rightarrow> MessagingGroupId \<Rightarrow> DbError + MessagingGroup" where
  "get_mg t i = (case find (\<lambda>g. mg_id g = i) t of Some g \<Rightarrow> Inr g | None \<Rightarrow> Inl NotFound)"

definition list_mgs :: "MessagingGroup list \<Rightarrow> MessagingGroup list" where
  "list_mgs t = order_by mg_created_at t"

definition upsert_mg ::
  "MessagingGroup list \<Rightarrow> UpsertMessagingGroup \<Rightarrow> MessagingGroupId \<Rightarrow> instant \<Rightarrow>
     DbError + (MessagingGroup \<times> MessagingGroup list)" where
  "upsert_mg t req fresh now =
     (case get_by_platform t (umg_channel_type req) (umg_platform_id req) of
        Some g \<Rightarrow>
          (let t' = snd (sql_update (\<lambda>r. mg_id r = mg_id g)
             (\<lambda>r. r\<lparr>mg_name := umg_name req, mg_is_group := umg_is_group req, unknown_sender_policy := umg_policy req\<rparr>) t)
           in case get_mg t' (mg_id g) of Inl e \<Rightarrow> Inl e | Inr g' \<Rightarrow> Inr (g', t'))
      | None \<Rightarrow>
          (let g = \<lparr>mg_id = fresh, mg_channel_type = umg_channel_type req, mg_platform_id = umg_platform_id req,
                    mg_name = umg_name req, mg_is_group = umg_is_group req, unknown_sender_policy = umg_policy req,
                    denied_at = None, mg_created_at = now\<rparr>
           in if fresh \<in> mg_id ` set t then Inl ConstraintViolation else Inr (g, t @ [g])))"

definition delete_mg :: "MessagingGroup list \<Rightarrow> MessagingGroupId \<Rightarrow> DbError + MessagingGroup list" where
  "delete_mg t i = (let (n, t') = sql_delete (\<lambda>g. mg_id g = i) t in if n = 0 then Inl NotFound else Inr t')"

definition mark_denied :: "MessagingGroup list \<Rightarrow> MessagingGroupId \<Rightarrow> instant \<Rightarrow> DbError + MessagingGroup list" where
  "mark_denied t i now =
     (let (n, t') = sql_update (\<lambda>g. mg_id g = i) (\<lambda>g. g\<lparr>denied_at := Some now\<rparr>) t
      in if n = 0 then Inl NotFound else Inr t')"

section \<open>messaging_group_agents\<close>

datatype EngageMode = Pattern | Mention | MentionSticky
datatype SessionMode = Shared | PerThread | AgentShared

fun engage_mode_to_str :: "EngageMode \<Rightarrow> ustring" where
  "engage_mode_to_str Pattern = lit ''pattern''"
| "engage_mode_to_str Mention = lit ''mention''"
| "engage_mode_to_str MentionSticky = lit ''mention-sticky''"

definition parse_engage_mode :: "ustring \<Rightarrow> EngageMode option" where
  "parse_engage_mode s =
     (if s = lit ''pattern'' then Some Pattern else if s = lit ''mention'' then Some Mention
      else if s = lit ''mention-sticky'' then Some MentionSticky else None)"

fun session_mode_to_str :: "SessionMode \<Rightarrow> ustring" where
  "session_mode_to_str Shared = lit ''shared''"
| "session_mode_to_str PerThread = lit ''per-thread''"
| "session_mode_to_str AgentShared = lit ''agent-shared''"

definition parse_session_mode :: "ustring \<Rightarrow> SessionMode option" where
  "parse_session_mode s =
     (if s = lit ''shared'' then Some Shared else if s = lit ''per-thread'' then Some PerThread
      else if s = lit ''agent-shared'' then Some AgentShared else None)"

interpretation engage_mode: wire_enum engage_mode_to_str parse_engage_mode
proof
  show "parse_engage_mode (engage_mode_to_str e) = Some e" for e
    by (cases e) (simp_all add: parse_engage_mode_def)
  show "engage_mode_to_str e = s" if "parse_engage_mode s = Some e" for s e
    using that by (auto simp: parse_engage_mode_def split: if_splits)
qed

interpretation session_mode: wire_enum session_mode_to_str parse_session_mode
proof
  show "parse_session_mode (session_mode_to_str e) = Some e" for e
    by (cases e) (simp_all add: parse_session_mode_def)
  show "session_mode_to_str e = s" if "parse_session_mode s = Some e" for s e
    using that by (auto simp: parse_session_mode_def split: if_splits)
qed

record MessagingGroupAgent =
  wi_id :: nat
  wi_messaging_group :: MessagingGroupId
  wi_agent_group :: AgentGroupId
  engage_mode :: EngageMode
  engage_pattern :: "ustring option"
  sender_scope :: ustring
  ignored_message_policy :: ustring
  session_mode :: SessionMode
  priority :: int
  wi_created_at :: instant

text \<open>\<open>ORDER BY priority DESC, created_at\<close>.\<close>

definition list_for_mg :: "MessagingGroupAgent list \<Rightarrow> MessagingGroupId \<Rightarrow> MessagingGroupAgent list" where
  "list_for_mg t mg =
     order_by_desc priority (order_by wi_created_at (filter (\<lambda>w. wi_messaging_group w = mg) t))"

definition list_for_ag :: "MessagingGroupAgent list \<Rightarrow> AgentGroupId \<Rightarrow> MessagingGroupAgent list" where
  "list_for_ag t ag =
     order_by_desc priority (order_by wi_created_at (filter (\<lambda>w. wi_agent_group w = ag) t))"

record UpsertWiring =
  uw_messaging_group :: MessagingGroupId
  uw_agent_group :: AgentGroupId
  uw_engage_mode :: EngageMode
  uw_engage_pattern :: "ustring option"
  uw_sender_scope :: ustring
  uw_ignored_message_policy :: ustring
  uw_session_mode :: SessionMode
  uw_priority :: int

definition get_wiring :: "MessagingGroupAgent list \<Rightarrow> nat \<Rightarrow> DbError + MessagingGroupAgent" where
  "get_wiring t i = (case find (\<lambda>w. wi_id w = i) t of Some w \<Rightarrow> Inr w | None \<Rightarrow> Inl NotFound)"

definition upsert_wiring ::
  "MessagingGroupAgent list \<Rightarrow> UpsertWiring \<Rightarrow> nat \<Rightarrow> instant \<Rightarrow>
     DbError + (MessagingGroupAgent \<times> MessagingGroupAgent list)" where
  "upsert_wiring t req fresh now =
     (case find (\<lambda>w. wi_messaging_group w = uw_messaging_group req \<and> wi_agent_group w = uw_agent_group req) t of
        Some w \<Rightarrow>
          (let t' = snd (sql_update (\<lambda>r. wi_id r = wi_id w)
             (\<lambda>r. r\<lparr>engage_mode := uw_engage_mode req, engage_pattern := uw_engage_pattern req,
                   sender_scope := uw_sender_scope req, ignored_message_policy := uw_ignored_message_policy req,
                   session_mode := uw_session_mode req, priority := uw_priority req\<rparr>) t)
           in case get_wiring t' (wi_id w) of Inl e \<Rightarrow> Inl e | Inr w' \<Rightarrow> Inr (w', t'))
      | None \<Rightarrow>
          (let w = \<lparr>wi_id = fresh, wi_messaging_group = uw_messaging_group req, wi_agent_group = uw_agent_group req,
                    engage_mode = uw_engage_mode req, engage_pattern = uw_engage_pattern req,
                    sender_scope = uw_sender_scope req, ignored_message_policy = uw_ignored_message_policy req,
                    session_mode = uw_session_mode req, priority = uw_priority req, wi_created_at = now\<rparr>
           in if fresh \<in> wi_id ` set t then Inl ConstraintViolation else Inr (w, t @ [w])))"

definition delete_wiring :: "MessagingGroupAgent list \<Rightarrow> nat \<Rightarrow> DbError + MessagingGroupAgent list" where
  "delete_wiring t i = (let (n, t') = sql_delete (\<lambda>w. wi_id w = i) t in if n = 0 then Inl NotFound else Inr t')"

section \<open>sessions\<close>

datatype SessionStatus = Active | Stopped | Archived
datatype ContainerStatus = CIdle | CRunning | CStopped

fun session_status_as_str :: "SessionStatus \<Rightarrow> ustring" where
  "session_status_as_str Active = lit ''active''"
| "session_status_as_str Stopped = lit ''stopped''"
| "session_status_as_str Archived = lit ''archived''"

definition parse_status :: "ustring \<Rightarrow> SessionStatus" where
  "parse_status s =
     (if s = lit ''archived'' then Archived else if s = lit ''stopped'' then Stopped else Active)"

fun container_status_as_str :: "ContainerStatus \<Rightarrow> ustring" where
  "container_status_as_str CIdle = lit ''idle''"
| "container_status_as_str CRunning = lit ''running''"
| "container_status_as_str CStopped = lit ''stopped''"

definition parse_container_status :: "ustring \<Rightarrow> ContainerStatus" where
  "parse_container_status s =
     (if s = lit ''running'' then CRunning else if s = lit ''idle'' then CIdle else CStopped)"

lemma status_columns_roundtrip [wire_simps]:
  "parse_status (session_status_as_str st) = st"
  "parse_container_status (container_status_as_str ct) = ct"
  by (cases st; simp add: parse_status_def) (cases ct; simp add: parse_container_status_def)

record Session =
  se_id :: SessionId
  se_agent_group :: AgentGroupId
  se_messaging_group :: "MessagingGroupId option"
  se_thread :: "ustring option"
  se_provider :: "ustring option"
  se_status :: SessionStatus
  container_status :: ContainerStatus
  last_active :: instant
  se_created_at :: instant
  se_source :: "SessionId option"

record CreateSession =
  cs_agent_group :: AgentGroupId
  cs_messaging_group :: "MessagingGroupId option"
  cs_thread :: "ustring option"
  cs_provider :: "ustring option"
  cs_source :: "SessionId option"

definition create_session ::
  "Session list \<Rightarrow> CreateSession \<Rightarrow> SessionId \<Rightarrow> instant \<Rightarrow> DbError + (Session \<times> Session list)" where
  "create_session t req fresh now =
     (let s = \<lparr>se_id = fresh, se_agent_group = cs_agent_group req, se_messaging_group = cs_messaging_group req,
               se_thread = cs_thread req, se_provider = cs_provider req, se_status = Active,
               container_status = CStopped, last_active = now, se_created_at = now, se_source = cs_source req\<rparr>
      in if fresh \<in> se_id ` set t then Inl ConstraintViolation else Inr (s, t @ [s]))"

definition get_session :: "Session list \<Rightarrow> SessionId \<Rightarrow> DbError + Session" where
  "get_session t i = (case find (\<lambda>s. se_id s = i) t of Some s \<Rightarrow> Inr s | None \<Rightarrow> Inl NotFound)"

definition first_row :: "'a list \<Rightarrow> 'a option" where
  "first_row xs = (case xs of [] \<Rightarrow> None | x # _ \<Rightarrow> Some x)"

definition find_for_agent ::
  "Session list \<Rightarrow> AgentGroupId \<Rightarrow> MessagingGroupId option \<Rightarrow> ustring option \<Rightarrow> Session option" where
  "find_for_agent t agent mg thread =
     first_row (order_by_desc se_created_at
       (filter (\<lambda>s. se_agent_group s = agent \<and> se_messaging_group s = mg \<and> se_thread s = thread) t))"

definition find_by_agent_group :: "Session list \<Rightarrow> AgentGroupId \<Rightarrow> Session option" where
  "find_by_agent_group t agent =
     first_row (order_by_desc se_created_at (filter (\<lambda>s. se_agent_group s = agent) t))"

definition set_session_status :: "Session list \<Rightarrow> SessionId \<Rightarrow> SessionStatus \<Rightarrow> DbError + Session list" where
  "set_session_status t i st =
     (let (n, t') = sql_update (\<lambda>s. se_id s = i) (\<lambda>s. s\<lparr>se_status := st\<rparr>) t
      in if n = 0 then Inl NotFound else Inr t')"

definition set_container_status ::
  "Session list \<Rightarrow> SessionId \<Rightarrow> ContainerStatus \<Rightarrow> instant \<Rightarrow> DbError + Session list" where
  "set_container_status t i st now =
     (let (n, t') = sql_update (\<lambda>s. se_id s = i) (\<lambda>s. s\<lparr>container_status := st, last_active := now\<rparr>) t
      in if n = 0 then Inl NotFound else Inr t')"

definition touch_last_active :: "Session list \<Rightarrow> SessionId \<Rightarrow> instant \<Rightarrow> Session list" where
  "touch_last_active t i now = snd (sql_update (\<lambda>s. se_id s = i) (\<lambda>s. s\<lparr>last_active := now\<rparr>) t)"

definition list_active :: "Session list \<Rightarrow> Session list" where
  "list_active t = order_by_desc last_active (filter (\<lambda>s. se_status s = Active) t)"

definition list_for_agent_group :: "Session list \<Rightarrow> AgentGroupId \<Rightarrow> Session list" where
  "list_for_agent_group t agent = order_by_desc last_active (filter (\<lambda>s. se_agent_group s = agent) t)"

definition list_running :: "Session list \<Rightarrow> Session list" where
  "list_running t = filter (\<lambda>s. container_status s = CRunning) t"

definition list_reapable_children :: "Session list \<Rightarrow> instant \<Rightarrow> (SessionId \<times> AgentGroupId) list" where
  "list_reapable_children t idle_before =
     map (\<lambda>s. (se_id s, se_agent_group s))
       (order_by last_active
         (filter (\<lambda>s. se_source s \<noteq> None \<and> se_source s \<noteq> Some [] \<and> container_status s = CStopped \<and>
            last_active s < idle_before) t))"

section \<open>unregistered_senders and dropped_messages\<close>

record UnregisteredSender =
  us_channel_type :: ChannelType
  us_platform_id :: ustring
  us_user :: "UserId option"
  us_name :: "ustring option"
  us_reason :: ustring
  us_messaging_group :: "MessagingGroupId option"
  us_agent_group :: "AgentGroupId option"
  message_count :: int
  first_seen :: instant
  last_seen :: instant

record UpsertUnregisteredSender =
  uu_channel_type :: ChannelType
  uu_platform_id :: ustring
  uu_user :: "UserId option"
  uu_name :: "ustring option"
  uu_reason :: ustring
  uu_messaging_group :: "MessagingGroupId option"
  uu_agent_group :: "AgentGroupId option"

definition coalesce :: "'a option \<Rightarrow> 'a option \<Rightarrow> 'a option" where
  "coalesce a b = (case a of Some x \<Rightarrow> Some x | None \<Rightarrow> b)"

definition same_sender :: "ChannelType \<Rightarrow> ustring \<Rightarrow> UnregisteredSender \<Rightarrow> bool" where
  "same_sender ch p r \<longleftrightarrow> us_channel_type r = ch \<and> us_platform_id r = p"

definition get_unregistered :: "UnregisteredSender list \<Rightarrow> ChannelType \<Rightarrow> ustring \<Rightarrow> UnregisteredSender option" where
  "get_unregistered t ch p = find (same_sender ch p) t"

definition upsert_unregistered ::
  "UnregisteredSender list \<Rightarrow> UpsertUnregisteredSender \<Rightarrow> instant \<Rightarrow> UnregisteredSender list" where
  "upsert_unregistered t req now =
     (if list_ex (same_sender (uu_channel_type req) (uu_platform_id req)) t then
        snd (sql_update (same_sender (uu_channel_type req) (uu_platform_id req))
          (\<lambda>r. r\<lparr>us_user := coalesce (uu_user req) (us_user r), us_name := coalesce (uu_name req) (us_name r),
                us_reason := uu_reason req,
                us_messaging_group := coalesce (uu_messaging_group req) (us_messaging_group r),
                us_agent_group := coalesce (uu_agent_group req) (us_agent_group r),
                message_count := message_count r + 1, last_seen := now\<rparr>) t)
      else t @ [\<lparr>us_channel_type = uu_channel_type req, us_platform_id = uu_platform_id req, us_user = uu_user req,
                 us_name = uu_name req, us_reason = uu_reason req, us_messaging_group = uu_messaging_group req,
                 us_agent_group = uu_agent_group req, message_count = 1, first_seen = now, last_seen = now\<rparr>])"

definition list_unregistered :: "UnregisteredSender list \<Rightarrow> instant option \<Rightarrow> UnregisteredSender list" where
  "list_unregistered t since =
     order_by last_seen (case since of Some ts \<Rightarrow> filter (\<lambda>r. last_seen r \<ge> ts) t | None \<Rightarrow> t)"

record DroppedMessage =
  dm_channel_type :: ChannelType
  dm_platform_id :: ustring
  dm_user :: "UserId option"
  dm_sender_name :: "ustring option"
  dm_reason :: ustring
  dm_messaging_group :: "MessagingGroupId option"
  dm_agent_group :: "AgentGroupId option"
  dm_created_at :: instant

text \<open>\<open>dropped_messages::insert\<close>, without the fresh row id, which nothing reads.\<close>

definition insert_dropped :: "DroppedMessage list \<Rightarrow> DroppedMessage \<Rightarrow> DroppedMessage list" where
  "insert_dropped t d = t @ [d]"

definition list_dropped :: "DroppedMessage list \<Rightarrow> instant option \<Rightarrow> DroppedMessage list" where
  "list_dropped t since =
     order_by dm_created_at (case since of Some ts \<Rightarrow> filter (\<lambda>r. dm_created_at r \<ge> ts) t | None \<Rightarrow> t)"

section \<open>session_routing\<close>

record SessionRouting =
  sr_channel_type :: "ChannelType option"
  sr_platform_id :: "ustring option"
  sr_thread_id :: "ustring option"

definition write_routing :: "SessionRouting option \<Rightarrow> SessionRouting \<Rightarrow> SessionRouting option" where
  "write_routing row routing = Some routing"

definition read_routing :: "SessionRouting option \<Rightarrow> SessionRouting option" where
  "read_routing row = row"

section \<open>The tables keep their keys\<close>

definition mg_key :: "MessagingGroup \<Rightarrow> ChannelType \<times> ustring" where
  "mg_key g = (mg_channel_type g, mg_platform_id g)"

abbreviation groups_wf :: "MessagingGroup list \<Rightarrow> bool" where
  "groups_wf \<equiv> two_key_wf mg_id mg_key"

definition set_mg_cols :: "UpsertMessagingGroup \<Rightarrow> MessagingGroup \<Rightarrow> MessagingGroup" where
  "set_mg_cols req r =
     r\<lparr>mg_name := umg_name req, mg_is_group := umg_is_group req, unknown_sender_policy := umg_policy req\<rparr>"

definition new_mg :: "UpsertMessagingGroup \<Rightarrow> MessagingGroupId \<Rightarrow> instant \<Rightarrow> MessagingGroup" where
  "new_mg req fresh now =
     \<lparr>mg_id = fresh, mg_channel_type = umg_channel_type req, mg_platform_id = umg_platform_id req,
      mg_name = umg_name req, mg_is_group = umg_is_group req, unknown_sender_policy = umg_policy req,
      denied_at = None, mg_created_at = now\<rparr>"

lemma get_by_platform_key: "get_by_platform t ch p = find (\<lambda>g. mg_key g = (ch, p)) t"
  by (simp add: get_by_platform_def mg_key_def)

interpretation groups: upsert_by_key mg_id mg_key "\<lambda>q. (umg_channel_type q, umg_platform_id q)"
  set_mg_cols new_mg upsert_mg
  by unfold_locales
     (auto simp: upsert_mg_def get_by_platform_key get_mg_def set_mg_cols_def [abs_def] new_mg_def mg_key_def Let_def
       split: option.splits)

definition wi_key :: "MessagingGroupAgent \<Rightarrow> MessagingGroupId \<times> AgentGroupId" where
  "wi_key w = (wi_messaging_group w, wi_agent_group w)"

abbreviation wirings_wf :: "MessagingGroupAgent list \<Rightarrow> bool" where
  "wirings_wf \<equiv> two_key_wf wi_id wi_key"

definition set_wiring_cols :: "UpsertWiring \<Rightarrow> MessagingGroupAgent \<Rightarrow> MessagingGroupAgent" where
  "set_wiring_cols req r =
     r\<lparr>engage_mode := uw_engage_mode req, engage_pattern := uw_engage_pattern req,
       sender_scope := uw_sender_scope req, ignored_message_policy := uw_ignored_message_policy req,
       session_mode := uw_session_mode req, priority := uw_priority req\<rparr>"

definition new_wiring :: "UpsertWiring \<Rightarrow> nat \<Rightarrow> instant \<Rightarrow> MessagingGroupAgent" where
  "new_wiring req fresh now =
     \<lparr>wi_id = fresh, wi_messaging_group = uw_messaging_group req, wi_agent_group = uw_agent_group req,
      engage_mode = uw_engage_mode req, engage_pattern = uw_engage_pattern req,
      sender_scope = uw_sender_scope req, ignored_message_policy = uw_ignored_message_policy req,
      session_mode = uw_session_mode req, priority = uw_priority req, wi_created_at = now\<rparr>"

interpretation wirings: upsert_by_key wi_id wi_key "\<lambda>q. (uw_messaging_group q, uw_agent_group q)"
  set_wiring_cols new_wiring upsert_wiring
  by unfold_locales
     (auto simp: upsert_wiring_def get_wiring_def set_wiring_cols_def [abs_def] new_wiring_def wi_key_def Let_def
       split: option.splits)

text \<open>
  Registering a chat round-trips: after an upsert the chat is found under its channel and platform id with
  the requested name, kind and policy, every other chat is found as before, a chat that was already
  registered keeps its id, its creation time and its denial, and both keys stay unique.
\<close>

theorem messaging_group_roundtrip:
  assumes wf: "groups_wf t" and up: "upsert_mg t req fresh now = Inr (g, t')"
  shows "groups_wf t' \<and>
    (\<forall>ch p. get_by_platform t' ch p =
      (if ch = umg_channel_type req \<and> p = umg_platform_id req then Some g else get_by_platform t ch p)) \<and>
    mg_name g = umg_name req \<and> mg_is_group g = umg_is_group req \<and> unknown_sender_policy g = umg_policy req \<and>
    (case get_by_platform t (umg_channel_type req) (umg_platform_id req) of
       Some old \<Rightarrow> mg_id g = mg_id old \<and> mg_created_at g = mg_created_at old \<and> denied_at g = denied_at old
     | None \<Rightarrow> mg_id g = fresh \<and> mg_created_at g = now \<and> denied_at g = None)"
  using groups.upsert_wf [OF wf up] groups.upsert_lookup [OF wf up] groups.upsert_row [OF wf up]
  by (auto simp: get_by_platform_key set_mg_cols_def new_mg_def split: option.splits)

definition sample_group :: "ustring \<Rightarrow> UpsertMessagingGroup" where
  "sample_group name =
     \<lparr>umg_channel_type = [1], umg_platform_id = [2], umg_name = Some name, umg_is_group = True, umg_policy = [3]\<rparr>"

definition sample_groups :: "MessagingGroup list" where
  "sample_groups = [new_mg (sample_group [4]) 7 100]"

theorem messaging_group_roundtrip_witness:
  "\<exists>g t'. groups_wf sample_groups \<and> upsert_mg sample_groups (sample_group [5]) 8 200 = Inr (g, t') \<and>
     get_by_platform t' [1] [2] = Some g \<and> mg_id g = 7 \<and> mg_name g = Some [5]"
proof -
  have wf: "groups_wf sample_groups"
    by (simp add: two_key_wf_def sample_groups_def)
  have up: "upsert_mg sample_groups (sample_group [5]) 8 200 =
      Inr (set_mg_cols (sample_group [5]) (new_mg (sample_group [4]) 7 100),
           [set_mg_cols (sample_group [5]) (new_mg (sample_group [4]) 7 100)])"
    by (simp add: upsert_mg_def get_by_platform_def get_mg_def sample_groups_def sample_group_def new_mg_def
        set_mg_cols_def sql_update_def)
  from messaging_group_roundtrip [OF wf up] wf up show ?thesis
    by (simp add: sample_group_def new_mg_def set_mg_cols_def)
qed

text \<open>
  A wiring is upserted under its chat and agent group: afterwards the list of the chat's wirings holds it with
  the requested settings exactly once, together with the chat's other wirings.
\<close>

lemma upsert_wiring_listed:
  assumes "wirings_wf t" and "upsert_wiring t req fresh now = Inr (w, t')"
  shows "set (list_for_mg t' mg) =
    {v \<in> set (list_for_mg t mg). wi_key v \<noteq> wi_key w} \<union> (if mg = wi_messaging_group w then {w} else {})"
  using wirings.upsert_set [OF assms] by (auto simp: list_for_mg_def wi_key_def)

section \<open>Unregistered senders are counted\<close>

definition seen_count :: "UnregisteredSender list \<Rightarrow> ChannelType \<Rightarrow> ustring \<Rightarrow> int" where
  "seen_count t ch p = (case get_unregistered t ch p of Some r \<Rightarrow> message_count r | None \<Rightarrow> 0)"

lemma seen_count_update:
  assumes "\<And>r. us_channel_type (f r) = us_channel_type r" "\<And>r. us_platform_id (f r) = us_platform_id r"
    and "\<And>r. message_count (f r) = message_count r + 1"
  shows "seen_count (map (\<lambda>r. if same_sender c q r then f r else r) t) ch p =
    seen_count t ch p + (if ch = c \<and> p = q \<and> list_ex (same_sender c q) t then 1 else 0)"
  by (induction t) (auto simp: seen_count_def get_unregistered_def same_sender_def assms)

lemma seen_count_append:
  "seen_count (t @ [r]) ch p =
     (if list_ex (same_sender ch p) t \<or> \<not> same_sender ch p r then seen_count t ch p else message_count r)"
  by (induction t) (auto simp: seen_count_def get_unregistered_def)

lemma seen_count_absent: "\<not> list_ex (same_sender ch p) t \<Longrightarrow> seen_count t ch p = 0"
  by (induction t) (auto simp: seen_count_def get_unregistered_def)

lemma seen_count_upsert:
  "seen_count (upsert_unregistered t req now) ch p =
     seen_count t ch p + (if ch = uu_channel_type req \<and> p = uu_platform_id req then 1 else 0)"
  unfolding upsert_unregistered_def sql_update_def
  by (auto simp: seen_count_update seen_count_append seen_count_absent)
     (auto simp: same_sender_def)

text \<open>
  The count of an unregistered sender is exact: after any sequence of upserts it is the count before plus the
  number of upserts for that channel and identity.
\<close>

lemma unregistered_count_exact:
  "seen_count (fold (\<lambda>(req, now) t. upsert_unregistered t req now) reqs t) ch p =
     seen_count t ch p +
     int (length (filter (\<lambda>(req, now). uu_channel_type req = ch \<and> uu_platform_id req = p) reqs))"
  by (induction reqs arbitrary: t) (auto simp: seen_count_upsert split: if_splits)

end
