(* ===== verification/Route_Gates.thy ===== *)
theory Route_Gates
  imports Slash_Commands Central_Tables
begin

text \<open>
  What decides whether an inbound event is routed: the module hooks
  (\<open>copperclaw-host-router/src/hooks.rs\<close> with the operations of
  \<open>copperclaw-modules/src/permissions.rs\<close>), the mention gate (\<open>mention.rs\<close>) and the debouncer
  (\<open>debounce.rs\<close>). Hooks are installed closures, so the chain is a record of optional functions; the regular
  expression engine is a function that returns nothing for an invalid pattern.
\<close>

section \<open>Hooks\<close>

datatype PermissionOp =
  CreateAgent | EditWiring | ApproveSender | ApproveChannel | InstallPackagesOp | AddMcpServerOp |
  ScheduleTask | CancelOtherTask | SendMessage

fun permission_op_as_str :: "PermissionOp \<Rightarrow> ustring" where
  "permission_op_as_str CreateAgent = lit ''create_agent''"
| "permission_op_as_str EditWiring = lit ''edit_wiring''"
| "permission_op_as_str ApproveSender = lit ''approve_sender''"
| "permission_op_as_str ApproveChannel = lit ''approve_channel''"
| "permission_op_as_str InstallPackagesOp = lit ''install_packages''"
| "permission_op_as_str AddMcpServerOp = lit ''add_mcp_server''"
| "permission_op_as_str ScheduleTask = lit ''schedule_task''"
| "permission_op_as_str CancelOtherTask = lit ''cancel_other_task''"
| "permission_op_as_str SendMessage = lit ''send_message''"

definition permission_op_parse :: "ustring \<Rightarrow> PermissionOp option" where
  "permission_op_parse s =
     (if s = lit ''create_agent'' then Some CreateAgent
      else if s = lit ''edit_wiring'' then Some EditWiring
      else if s = lit ''approve_sender'' then Some ApproveSender
      else if s = lit ''approve_channel'' then Some ApproveChannel
      else if s = lit ''install_packages'' then Some InstallPackagesOp
      else if s = lit ''add_mcp_server'' then Some AddMcpServerOp
      else if s = lit ''schedule_task'' then Some ScheduleTask
      else if s = lit ''cancel_other_task'' then Some CancelOtherTask
      else if s = lit ''send_message'' \<or> s = lit ''deliver_message'' then Some SendMessage
      else None)"

fun is_privileged :: "PermissionOp \<Rightarrow> bool" where
  "is_privileged SendMessage = False"
| "is_privileged _ = True"

definition op_is_privileged :: "ustring \<Rightarrow> bool" where
  "op_is_privileged op = (case permission_op_parse op of Some p \<Rightarrow> is_privileged p | None \<Rightarrow> False)"

record GateCtx =
  gc_user :: "UserId option"
  gc_agent_group :: "AgentGroupId option"
  gc_messaging_group :: "MessagingGroupId option"
  gc_op :: ustring

datatype GateDecision = GAllow | GDeny ustring | GDefer

record SenderScopeCtx =
  sc_sender :: "SenderIdentity option"
  sc_messaging_group :: "MessagingGroupId option"
  sc_agent_group :: AgentGroupId
  sc_user :: "UserId option"

datatype SenderScopeDecision = SAllow | SDeny ustring | SPending ustring | SDefer

record ChannelRequestCtx =
  cr_channel_type :: ChannelType
  cr_platform_id :: ustring
  cr_thread_id :: "ustring option"
  cr_requester :: "UserId option"
  cr_agent_group :: "AgentGroupId option"

record ApprovalInterceptCtx =
  ai_callback_data :: ustring
  ai_sender :: "SenderIdentity option"
  ai_user :: "UserId option"
  ai_agent_group :: AgentGroupId
  ai_messaging_group :: "MessagingGroupId option"
  ai_channel_type :: ChannelType
  ai_platform_id :: ustring
  ai_thread_id :: "ustring option"

datatype ApprovalInterceptDecision = Handled | Passthrough

record HookChain =
  sender_resolver :: "(InboundEvent \<Rightarrow> UserId option) option"
  access_gate :: "(GateCtx \<Rightarrow> GateDecision) option"
  sender_scope_gate :: "(SenderScopeCtx \<Rightarrow> SenderScopeDecision) option"
  channel_request_gate :: "(ChannelRequestCtx \<Rightarrow> GateDecision) option"
  approval_interceptor :: "(ApprovalInterceptCtx \<Rightarrow> ApprovalInterceptDecision) option"

definition run_sender_resolver :: "HookChain \<Rightarrow> InboundEvent \<Rightarrow> UserId option" where
  "run_sender_resolver h event = (case sender_resolver h of Some cb \<Rightarrow> cb event | None \<Rightarrow> None)"

definition run_access_gate :: "HookChain \<Rightarrow> GateCtx \<Rightarrow> GateDecision option" where
  "run_access_gate h ctx = (case access_gate h of Some cb \<Rightarrow> Some (cb ctx) | None \<Rightarrow> None)"

definition resolve_access_gate :: "HookChain \<Rightarrow> GateCtx \<Rightarrow> GateDecision" where
  "resolve_access_gate h ctx =
     (case run_access_gate h ctx of
        Some GAllow \<Rightarrow> GAllow
      | Some (GDeny reason) \<Rightarrow> GDeny reason
      | _ \<Rightarrow>
          if op_is_privileged (gc_op ctx)
          then GDeny (lit ''privileged operation `'' @ gc_op ctx @ lit ''` denied: no gate granted access'')
          else GAllow)"

definition run_sender_scope_gate :: "HookChain \<Rightarrow> SenderScopeCtx \<Rightarrow> SenderScopeDecision option" where
  "run_sender_scope_gate h ctx = (case sender_scope_gate h of Some cb \<Rightarrow> Some (cb ctx) | None \<Rightarrow> None)"

definition run_channel_request_gate :: "HookChain \<Rightarrow> ChannelRequestCtx \<Rightarrow> GateDecision option" where
  "run_channel_request_gate h ctx = (case channel_request_gate h of Some cb \<Rightarrow> Some (cb ctx) | None \<Rightarrow> None)"

definition run_approval_interceptor ::
  "HookChain \<Rightarrow> ApprovalInterceptCtx \<Rightarrow> ApprovalInterceptDecision option" where
  "run_approval_interceptor h ctx = (case approval_interceptor h of Some cb \<Rightarrow> Some (cb ctx) | None \<Rightarrow> None)"

section \<open>The mention gate\<close>

record MentionGate =
  require_in_groups :: bool
  require_in_dms :: bool

definition default_mention_gate :: MentionGate where
  "default_mention_gate = \<lparr>require_in_groups = True, require_in_dms = False\<rparr>"

datatype MentionDecision = Process | DropUnmentioned

definition REACTION_KEY :: ustring where "REACTION_KEY = lit ''reaction''"

definition is_reaction_content :: "json \<Rightarrow> bool" where
  "is_reaction_content content =
     (case json_get content REACTION_KEY of
        Some r \<Rightarrow> json_is_object r \<and> json_has_key r (lit ''emoji'')
      | None \<Rightarrow> False)"

definition is_interaction_payload :: "InboundEvent \<Rightarrow> bool" where
  "is_interaction_payload event =
     (let content = im_content (ev_message event)
      in json_has_key content (lit ''callback'') \<or> json_has_key content (lit ''button'') \<or>
         json_has_key content (lit ''command'') \<or> json_has_key content REACTION_KEY)"

definition pattern_matches :: "(ustring \<Rightarrow> ustring \<Rightarrow> bool option) \<Rightarrow> ustring \<Rightarrow> InboundEvent \<Rightarrow> bool" where
  "pattern_matches regex pat event =
     (case event_text event of
        None \<Rightarrow> False
      | Some s \<Rightarrow> (case regex pat s of Some b \<Rightarrow> b | None \<Rightarrow> False))"

definition gates_venue :: "MentionGate \<Rightarrow> bool \<Rightarrow> bool" where
  "gates_venue g in_group = (if in_group then require_in_groups g else require_in_dms g)"

definition decide ::
  "(ustring \<Rightarrow> ustring \<Rightarrow> bool option) \<Rightarrow> MentionGate \<Rightarrow> InboundEvent \<Rightarrow> bool \<Rightarrow> EngageMode \<Rightarrow> ustring option \<Rightarrow>
     MentionDecision" where
  "decide regex g event in_group mode pat =
     (if im_kind (ev_message event) \<noteq> Chat then Process
      else if is_interaction_payload event then Process
      else if \<not> gates_venue g in_group then Process
      else if im_is_mention (ev_message event) = Some True then Process
      else if (case ev_reply_to event of Some r \<Rightarrow> replying_to_self r = Some True | None \<Rightarrow> False) then Process
      else if mode = Pattern \<and> (case pat of Some p \<Rightarrow> pattern_matches regex p event | None \<Rightarrow> False) then Process
      else DropUnmentioned)"

section \<open>The debouncer\<close>

text \<open>Instants are milliseconds here; \<open>Instant::duration_since\<close> saturates at zero.\<close>

definition DEBOUNCE_WINDOW :: int where "DEBOUNCE_WINDOW = 500"

record DebounceKey =
  dk_channel_type :: ChannelType
  dk_platform_id :: ustring
  dk_thread_id :: "ustring option"
  dk_message_id :: ustring

type_synonym Debouncer = "DebounceKey \<Rightarrow> instant option"

definition check_and_record :: "Debouncer \<Rightarrow> DebounceKey \<Rightarrow> instant \<Rightarrow> bool \<times> Debouncer" where
  "check_and_record d k now =
     (case d k of
        Some prev \<Rightarrow> if max 0 (now - prev) < DEBOUNCE_WINDOW then (True, d) else (False, d(k \<mapsto> now))
      | None \<Rightarrow> (False, d(k \<mapsto> now)))"

definition purge_expired :: "Debouncer \<Rightarrow> instant \<Rightarrow> Debouncer" where
  "purge_expired d now =
     (\<lambda>k. case d k of
        Some ts \<Rightarrow> if max 0 (now - ts) < DEBOUNCE_WINDOW * 4 then Some ts else None
      | None \<Rightarrow> None)"

section \<open>What the debouncer computes\<close>

text \<open>
  A run of the debouncer: checks and purges in the order of time. The specification knows every accepted
  event and nothing of the map: an event is a duplicate when an event of its key was accepted less than
  the window ago.
\<close>

datatype debounce_op = Check DebounceKey instant | Purge instant

fun op_time :: "debounce_op \<Rightarrow> instant" where
  "op_time (Check k t) = t"
| "op_time (Purge t) = t"

fun debounce_run :: "Debouncer \<Rightarrow> debounce_op list \<Rightarrow> bool list" where
  "debounce_run d [] = []"
| "debounce_run d (Check k t # ops) = (let (dup, d') = check_and_record d k t in dup # debounce_run d' ops)"
| "debounce_run d (Purge t # ops) = debounce_run (purge_expired d t) ops"

fun debounce_spec :: "(DebounceKey \<times> instant) list \<Rightarrow> debounce_op list \<Rightarrow> bool list" where
  "debounce_spec acc [] = []"
| "debounce_spec acc (Check k t # ops) =
     (let dup = list_ex (\<lambda>(k', t'). k' = k \<and> t - t' < DEBOUNCE_WINDOW) acc
      in dup # debounce_spec (if dup then acc else (k, t) # acc) ops)"
| "debounce_spec acc (Purge t # ops) = debounce_spec acc ops"

definition debounce_rel :: "instant \<Rightarrow> Debouncer \<Rightarrow> (DebounceKey \<times> instant) list \<Rightarrow> bool" where
  "debounce_rel now d acc \<longleftrightarrow>
     (\<forall>k t. d k = Some t \<longrightarrow> (k, t) \<in> set acc) \<and>
     (\<forall>(k, t') \<in> set acc. t' \<le> now \<and> (now - t' \<ge> DEBOUNCE_WINDOW \<or> (\<exists>t. d k = Some t \<and> t' \<le> t)))"

lemma debounce_rel_later: "debounce_rel now d acc \<Longrightarrow> now \<le> now' \<Longrightarrow> debounce_rel now' d acc"
  by (fastforce simp: debounce_rel_def)

lemma debounce_rel_purge: "debounce_rel now d acc \<Longrightarrow> debounce_rel now (purge_expired d now) acc"
  unfolding debounce_rel_def purge_expired_def DEBOUNCE_WINDOW_def
  by (fastforce split: option.splits if_splits)

lemma debounce_rel_dup:
  assumes "debounce_rel now d acc"
  shows "fst (check_and_record d k now) \<longleftrightarrow> list_ex (\<lambda>(k', t'). k' = k \<and> now - t' < DEBOUNCE_WINDOW) acc"
proof
  assume "fst (check_and_record d k now)"
  then obtain t where "d k = Some t" "now - t < DEBOUNCE_WINDOW"
    by (auto simp: check_and_record_def split: option.splits if_splits)
  with assms show "list_ex (\<lambda>(k', t'). k' = k \<and> now - t' < DEBOUNCE_WINDOW) acc"
    by (force simp: debounce_rel_def list_ex_iff)
next
  assume "list_ex (\<lambda>(k', t'). k' = k \<and> now - t' < DEBOUNCE_WINDOW) acc"
  then obtain t' where t': "(k, t') \<in> set acc" "now - t' < DEBOUNCE_WINDOW"
    by (auto simp: list_ex_iff)
  then obtain t where t: "d k = Some t" "t' \<le> t"
    using assms by (fastforce simp: debounce_rel_def)
  then have "max 0 (now - t) < DEBOUNCE_WINDOW"
    using t'(2) by (simp add: DEBOUNCE_WINDOW_def)
  with t show "fst (check_and_record d k now)"
    by (simp add: check_and_record_def)
qed

lemma debounce_rel_check:
  assumes "debounce_rel now d acc"
  shows "debounce_rel now (snd (check_and_record d k now))
    (if fst (check_and_record d k now) then acc else (k, now) # acc)"
  using assms by (fastforce simp: debounce_rel_def check_and_record_def split: option.splits if_splits)

lemma debounce_refinement:
  "debounce_rel now d acc \<Longrightarrow> sorted_wrt (\<lambda>a b. op_time a \<le> op_time b) ops \<Longrightarrow>
     (\<forall>op \<in> set ops. now \<le> op_time op) \<Longrightarrow> debounce_run d ops = debounce_spec acc ops"
proof (induction ops arbitrary: now d acc)
  case (Cons op ops)
  show ?case
  proof (cases op)
    case (Check k t)
    have rel: "debounce_rel t d acc"
      using Cons.prems Check by (auto intro: debounce_rel_later)
    have dup: "fst (check_and_record d k t) = list_ex (\<lambda>(k', t'). k' = k \<and> t - t' < DEBOUNCE_WINDOW) acc"
      by (rule debounce_rel_dup [OF rel])
    have "debounce_run (snd (check_and_record d k t)) ops =
        debounce_spec (if fst (check_and_record d k t) then acc else (k, t) # acc) ops"
      using Cons.prems Check by (intro Cons.IH [OF debounce_rel_check [OF rel]]) auto
    then show ?thesis
      using Check dup by (simp add: Let_def split_beta)
  next
    case (Purge t)
    have "debounce_rel t d acc"
      using Cons.prems Purge by (auto intro: debounce_rel_later)
    then have "debounce_run (purge_expired d t) ops = debounce_spec acc ops"
      using Cons.prems Purge by (intro Cons.IH [OF debounce_rel_purge]) auto
    then show ?thesis using Purge by simp
  qed
qed simp

section \<open>Properties of the gates\<close>

text \<open>
  C31: The debouncer drops exactly the duplicates: for any sequence of events and purges in the order of
  time, an event is dropped if and only if an event with the same channel, chat, thread and message id was
  accepted less than 500 milliseconds before; a dropped event does not extend the window, and purging
  old entries changes no decision.
\<close>

theorem debounce_drops_exactly_duplicates:
  assumes "sorted_wrt (\<lambda>a b. op_time a \<le> op_time b) ops"
  shows "debounce_run (\<lambda>_. None) ops = debounce_spec [] ops"
proof (cases ops)
  case (Cons op rest)
  show ?thesis
    using assms Cons by (intro debounce_refinement [of "op_time op"]) (auto simp: debounce_rel_def)
qed simp

definition sample_key :: DebounceKey where
  "sample_key = \<lparr>dk_channel_type = lit ''slack'', dk_platform_id = lit ''c'', dk_thread_id = None, dk_message_id = lit ''m''\<rparr>"

theorem debounce_drops_exactly_duplicates_witness:
  "debounce_run (\<lambda>_. None) [Check sample_key 0, Check sample_key 499, Purge 600, Check sample_key 700] = [False, True, False]"
proof -
  have "debounce_run (\<lambda>_. None) [Check sample_key 0, Check sample_key 499, Purge 600, Check sample_key 700] =
      debounce_spec [] [Check sample_key 0, Check sample_key 499, Purge 600, Check sample_key 700]"
    by (rule debounce_drops_exactly_duplicates) simp
  also have "\<dots> = [False, True, False]"
    by (simp add: DEBOUNCE_WINDOW_def)
  finally show ?thesis .
qed

text \<open>Sticky engagement is not implemented: the gate treats it as plain mention engagement.\<close>

lemma mention_sticky_is_mention: "decide regex g event in_group MentionSticky pat = decide regex g event in_group Mention pat"
  by (simp add: decide_def)

text \<open>
  Closed failure: a privileged operation is allowed only by a gate that says so.
\<close>

lemma privileged_needs_gate:
  assumes "op_is_privileged (gc_op ctx)" and "resolve_access_gate h ctx = GAllow"
  shows "run_access_gate h ctx = Some GAllow"
  using assms by (auto simp: resolve_access_gate_def split: option.splits GateDecision.splits)

end
