(* ===== verification/Inbound_Files.thy ===== *)
theory Inbound_Files
  imports Message
begin

text \<open>
  Inbound attachments: the filename sanitizer (\<open>copperclaw-channels/core/src/inbound_file.rs\<close>), the
  hardened inbox writer (\<open>copperclaw-db/src/attachments.rs\<close>) and the router's materialization of a staged
  download into a session's inbox (\<open>materialized_content\<close> of \<open>copperclaw-host-router/src/route.rs\<close>). An
  inbox maps a message component and a file name to the bytes stored there. Failures of the file system
  other than the ones the names cause are an argument.
\<close>

section \<open>Names\<close>

definition MAX_INBOUND_FILENAME_LEN :: nat where "MAX_INBOUND_FILENAME_LEN = 255"
definition FALLBACK_FILENAME :: ustring where "FALLBACK_FILENAME = lit ''attachment.bin''"
definition CONTAINER_INBOX_DIR :: ustring where "CONTAINER_INBOX_DIR = lit ''/data/inbox''"
definition STAGED_PATH_KEY :: ustring where "STAGED_PATH_KEY = lit ''staged_path''"
definition ATTACHMENT_PATH_KEY :: ustring where "ATTACHMENT_PATH_KEY = lit ''path''"

definition filename_char :: "uchar \<Rightarrow> bool" where
  "filename_char c \<longleftrightarrow> is_ascii_alphanumeric c \<or> c = 46 \<or> c = 45 \<or> c = 95"

definition sanitize_filename :: "ustring option \<Rightarrow> ustring \<Rightarrow> ustring" where
  "sanitize_filename name fallback =
     (let raw = trim (case name of Some n \<Rightarrow> n | None \<Rightarrow> [])
      in if raw = [] then fallback
         else let cleaned = map (\<lambda>c. if filename_char c then c else 95) raw;
                  trimmed = dropWhile (\<lambda>c. c = 46 \<or> c = 95) cleaned
              in if trimmed = [] then fallback
                 else if byte_len trimmed > MAX_INBOUND_FILENAME_LEN then take MAX_INBOUND_FILENAME_LEN trimmed
                 else trimmed)"

definition container_inbox_path :: "ustring \<Rightarrow> ustring \<Rightarrow> ustring" where
  "container_inbox_path msg_id filename = CONTAINER_INBOX_DIR @ lit ''/'' @ msg_id @ lit ''/'' @ filename"

text \<open>\<open>char::is_control\<close>: the general category Cc.\<close>

definition is_control :: "uchar \<Rightarrow> bool" where
  "is_control c \<longleftrightarrow> c < 32 \<or> (127 \<le> c \<and> c < 160)"

datatype InboxError = UnsafeName ustring | AlreadyExists | OtherIo ustring

definition MAX_FILENAME_LEN :: nat where "MAX_FILENAME_LEN = 255"

definition safe_attachment_name :: "ustring \<Rightarrow> InboxError + unit" where
  "safe_attachment_name name =
     (if name = [] then Inl (UnsafeName (lit ''filename is empty''))
      else if byte_len name > MAX_FILENAME_LEN then Inl (UnsafeName (lit ''filename too long''))
      else if starts_with name (lit ''.'') then Inl (UnsafeName (lit ''filename starts with '' @ [39, 46, 39]))
      else if name = lit ''.'' \<or> name = lit ''..'' then Inl (UnsafeName (lit ''filename is . or ..''))
      else if 47 \<in> set name \<or> 92 \<in> set name \<or> 0 \<in> set name
      then Inl (UnsafeName (lit ''filename has path separator or NUL''))
      else if list_ex is_control name then Inl (UnsafeName (lit ''filename has control character''))
      else Inr ())"

section \<open>The inbox\<close>

type_synonym bytes = "u8 list"
type_synonym inbox = "ustring \<times> ustring \<Rightarrow> bytes option"

text \<open>
  \<open>extract_to_inbox\<close>: \<open>io\<close> is a failure of the file system (a directory that cannot be made, a symbolic
  link, a write error), which stores nothing. The file is opened exclusively: an existing one is kept.
\<close>

definition extract_to_inbox ::
  "InboxError option \<Rightarrow> inbox \<Rightarrow> ustring \<Rightarrow> ustring \<Rightarrow> bytes \<Rightarrow> InboxError + inbox" where
  "extract_to_inbox io inbox msg_id filename data =
     (case safe_attachment_name filename of
        Inl e \<Rightarrow> Inl e
      | Inr _ \<Rightarrow>
         (case safe_attachment_name msg_id of
            Inl e \<Rightarrow> Inl e
          | Inr _ \<Rightarrow>
             (case io of
                Some e \<Rightarrow> Inl e
              | None \<Rightarrow>
                  if inbox (msg_id, filename) \<noteq> None then Inl AlreadyExists
                  else Inr (inbox((msg_id, filename) \<mapsto> data)))))"

text \<open>
  \<open>staged\<close> is the staging area of the adapters (path to bytes). What the environment adds: the file-system
  failure and the text of an error.
\<close>

record FileIo =
  fio_staged :: "ustring \<Rightarrow> bytes option"
  fio_fail :: "InboxError option"
  fio_err_text :: "InboxError \<Rightarrow> ustring"
  fio_read_err :: ustring

definition copy_staged_into_inbox ::
  "FileIo \<Rightarrow> inbox \<Rightarrow> ustring \<Rightarrow> ustring \<Rightarrow> ustring \<Rightarrow> ustring + inbox" where
  "copy_staged_into_inbox io inbox msg_id filename path =
     (case fio_staged io path of
        None \<Rightarrow> Inl (lit ''read staged file: '' @ fio_read_err io)
      | Some data \<Rightarrow>
         (case extract_to_inbox (fio_fail io) inbox msg_id filename data of
            Inr inbox' \<Rightarrow> Inr inbox'
          | Inl AlreadyExists \<Rightarrow> Inr inbox
          | Inl e \<Rightarrow> Inl (lit ''write inbox file: '' @ fio_err_text io e)))"

definition staged_attachment_path :: "InboundEvent \<Rightarrow> ustring option" where
  "staged_attachment_path event =
     Option.bind (json_get (im_content (ev_message event)) (lit ''attachment''))
       (\<lambda>att. Option.bind (json_get att STAGED_PATH_KEY) json_as_str)"

definition msg_component :: "InboundEvent \<Rightarrow> ustring" where
  "msg_component event = sanitize_filename (Some (im_id (ev_message event))) (lit ''message'')"

definition attachment_name :: "json \<Rightarrow> ustring" where
  "attachment_name att =
     sanitize_filename
       (Some (case Option.bind (json_get att (lit ''filename'')) json_as_str of Some n \<Rightarrow> n | None \<Rightarrow> []))
       FALLBACK_FILENAME"

definition materialized_content :: "FileIo \<Rightarrow> InboundEvent \<Rightarrow> inbox \<Rightarrow> json \<times> inbox" where
  "materialized_content io event inbox =
     (let content = im_content (ev_message event)
      in case json_get content (lit ''attachment'') of
           None \<Rightarrow> (content, inbox)
         | Some att \<Rightarrow>
             if \<not> json_is_object att then (content, inbox)
             else
               (case Option.bind (json_get att STAGED_PATH_KEY) json_as_str of
                  None \<Rightarrow> (content, inbox)
                | Some path \<Rightarrow>
                    (let att = json_remove att STAGED_PATH_KEY;
                         msg = msg_component event;
                         safe = attachment_name att
                     in case copy_staged_into_inbox io inbox msg safe path of
                          Inr inbox' \<Rightarrow>
                            (json_insert content (lit ''attachment'')
                               (json_insert (json_insert att (lit ''filename'') (JString safe)) ATTACHMENT_PATH_KEY
                                 (JString (container_inbox_path msg safe))), inbox')
                        | Inl err \<Rightarrow>
                            (json_insert content (lit ''attachment'')
                               (json_insert att (lit ''error'') (JString (lit ''attachment file unavailable: '' @ err))),
                             inbox))))"

section \<open>Lemmas\<close>

lemma filename_char_safe:
  "filename_char c \<Longrightarrow> c < 128 \<and> c \<noteq> 47 \<and> c \<noteq> 92 \<and> c \<noteq> 0 \<and> \<not> is_control c"
  by (auto simp: filename_char_def is_ascii_alphanumeric_def is_ascii_digit_def is_control_def)

lemma byte_len_ascii: "\<forall>c \<in> set s. c < 128 \<Longrightarrow> byte_len s = length s"
  by (simp add: byte_len_def as_bytes_ascii list_all_iff)

definition safe_name :: "ustring \<Rightarrow> bool" where
  "safe_name n \<longleftrightarrow> n \<noteq> [] \<and> length n \<le> 255 \<and> hd n \<notin> {46} \<and> (\<forall>c \<in> set n. filename_char c)"

lemma safe_name_accepted: "safe_name n \<Longrightarrow> safe_attachment_name n = Inr ()"
  using filename_char_safe byte_len_ascii [of n]
  by (cases n) (auto simp: safe_name_def safe_attachment_name_def list_ex_iff MAX_FILENAME_LEN_def lit_def)

definition clean_name :: "ustring option \<Rightarrow> ustring" where
  "clean_name name =
     dropWhile (\<lambda>c. c = 46 \<or> c = 95)
       (map (\<lambda>c. if filename_char c then c else 95) (trim (case name of Some n \<Rightarrow> n | None \<Rightarrow> [])))"

lemma clean_name_chars: "c \<in> set (clean_name name) \<Longrightarrow> filename_char c"
  by (auto simp: clean_name_def filename_char_def dest!: set_dropWhileD split: if_splits)

lemma sanitize_eq:
  "sanitize_filename name fallback = (if clean_name name = [] then fallback else take 255 (clean_name name))"
proof -
  have "byte_len (clean_name name) = length (clean_name name)"
    using clean_name_chars filename_char_safe by (intro byte_len_ascii) blast
  moreover have "trim (case name of Some n \<Rightarrow> n | None \<Rightarrow> []) = [] \<Longrightarrow> clean_name name = []"
    by (simp add: clean_name_def)
  ultimately show ?thesis
    unfolding sanitize_filename_def Let_def clean_name_def [symmetric] MAX_INBOUND_FILENAME_LEN_def by auto
qed

lemma sanitize_safe:
  assumes "safe_name fallback"
  shows "safe_name (sanitize_filename name fallback)"
proof (cases "clean_name name = []")
  case False
  then have "hd (clean_name name) \<noteq> 46"
    using hd_dropWhile [of "\<lambda>c. c = 46 \<or> c = 95"] unfolding clean_name_def by blast
  then show ?thesis
    using False clean_name_chars by (auto simp: sanitize_eq safe_name_def hd_take dest: in_set_takeD)
qed (simp add: sanitize_eq assms)

lemma fallbacks_safe: "safe_name FALLBACK_FILENAME" "safe_name (lit ''message'')"
  by (auto simp: safe_name_def FALLBACK_FILENAME_def lit_def filename_char_def is_ascii_alphanumeric_def is_ascii_digit_def)

section \<open>Properties of inbound attachments\<close>

text \<open>
  C38: Whatever a sender supplies as a message id and a file name, the two path components the router uses are
  single safe components: never empty, at most 255 bytes, no separator, control character or leading dot,
  and the hardened writer, which checks again, never refuses them for their name.
\<close>

theorem inbox_components_safe:
  "safe_name (sanitize_filename name FALLBACK_FILENAME) \<and> safe_name (sanitize_filename mid (lit ''message'')) \<and>
   safe_attachment_name (sanitize_filename name FALLBACK_FILENAME) = Inr () \<and>
   safe_attachment_name (sanitize_filename mid (lit ''message'')) = Inr () \<and>
   set (sanitize_filename name FALLBACK_FILENAME) \<inter> {0, 47, 92} = {}"
  using sanitize_safe [OF fallbacks_safe(1)] sanitize_safe [OF fallbacks_safe(2)] safe_name_accepted filename_char_safe
  by (fastforce simp: safe_name_def)

lemma attachment_keys_distinct [simp]:
  "STAGED_PATH_KEY \<noteq> lit ''filename''" "STAGED_PATH_KEY \<noteq> ATTACHMENT_PATH_KEY" "STAGED_PATH_KEY \<noteq> lit ''error''"
  "ATTACHMENT_PATH_KEY \<noteq> lit ''error''" "ATTACHMENT_PATH_KEY \<noteq> STAGED_PATH_KEY" "ATTACHMENT_PATH_KEY \<noteq> lit ''filename''"
  "lit ''error'' \<noteq> ATTACHMENT_PATH_KEY" "lit ''filename'' \<noteq> ATTACHMENT_PATH_KEY" "lit ''filename'' \<noteq> STAGED_PATH_KEY"
  by (simp_all add: STAGED_PATH_KEY_def ATTACHMENT_PATH_KEY_def)

text \<open>
  The two shapes of a materialized event: untouched without a staged attachment; otherwise the attachment
  rewritten, with a path on success and an error otherwise.
\<close>

lemma materialized_untouched:
  "staged_attachment_path event = None \<Longrightarrow> materialized_content io event inbox = (im_content (ev_message event), inbox)"
  by (auto simp: materialized_content_def staged_attachment_path_def Let_def split: option.splits)

lemma staged_is_object:
  assumes "staged_attachment_path event = Some path"
  obtains att where "json_get (im_content (ev_message event)) (lit ''attachment'') = Some att" "json_is_object att"
    "Option.bind (json_get att STAGED_PATH_KEY) json_as_str = Some path" "json_is_object (im_content (ev_message event))"
proof -
  from assms obtain att where att: "json_get (im_content (ev_message event)) (lit ''attachment'') = Some att"
    "Option.bind (json_get att STAGED_PATH_KEY) json_as_str = Some path"
    by (auto simp: staged_attachment_path_def bind_eq_Some_conv)
  moreover have "json_is_object att"
    using att(2) by (auto simp: json_is_object_def json_get_def bind_eq_Some_conv split: json.splits)
  moreover have "json_is_object (im_content (ev_message event))"
    using att(1) by (auto simp: json_is_object_def json_get_def split: json.splits)
  ultimately show ?thesis
    using that by blast
qed

text \<open>
  A staged attachment never leaks its host path and never blocks its message: the stored content has an
  attachment without the staging path, with either the container path of the stored file or an error note,
  and every other key of the message is kept. On success the inbox holds a file at that path, unless the
  file system reports an existing entry in the place of the message's directory. A message without a staged attachment is stored as it came.
\<close>

theorem materialization_contract:
  assumes "materialized_content io event inbox = (content, inbox')" and "fio_fail io \<noteq> Some AlreadyExists"
  shows "staged_attachment_path event = None \<and> content = im_content (ev_message event) \<and> inbox' = inbox \<or>
    (\<exists>path att. staged_attachment_path event = Some path \<and> json_get content (lit ''attachment'') = Some att \<and>
       json_get att STAGED_PATH_KEY = None \<and>
       (\<forall>k. k \<noteq> lit ''attachment'' \<longrightarrow> json_get content k = json_get (im_content (ev_message event)) k) \<and>
       ((\<exists>m n. json_get att ATTACHMENT_PATH_KEY = Some (JString (container_inbox_path m n)) \<and>
           safe_name m \<and> safe_name n \<and> inbox' (m, n) \<noteq> None) \<or>
        (\<exists>e. json_get att (lit ''error'') = Some (JString e) \<and> inbox' = inbox)))"
proof (cases "staged_attachment_path event")
  case None
  with assms(1) show ?thesis by (simp add: materialized_untouched)
next
  case (Some path)
  then obtain att where att: "json_get (im_content (ev_message event)) (lit ''attachment'') = Some att" "json_is_object att"
    "Option.bind (json_get att STAGED_PATH_KEY) json_as_str = Some path" "json_is_object (im_content (ev_message event))"
    by (rule staged_is_object)
  let ?m = "msg_component event" and ?n = "attachment_name (json_remove att STAGED_PATH_KEY)"
  have safe: "safe_name ?m" "safe_name ?n"
    by (simp_all add: msg_component_def attachment_name_def sanitize_safe fallbacks_safe)
  show ?thesis
  proof (cases "copy_staged_into_inbox io inbox ?m ?n path")
    case (Inl err)
    then have c: "content = json_insert (im_content (ev_message event)) (lit ''attachment'')
        (json_insert (json_remove att STAGED_PATH_KEY) (lit ''error'') (JString (lit ''attachment file unavailable: '' @ err)))"
      "inbox' = inbox"
      using assms(1) att by (simp_all add: materialized_content_def Let_def)
    then show ?thesis
      using att Some by (intro disjI2 exI [of _ path]) auto
  next
    case (Inr stored)
    then have c: "content = json_insert (im_content (ev_message event)) (lit ''attachment'')
        (json_insert (json_insert (json_remove att STAGED_PATH_KEY) (lit ''filename'') (JString ?n)) ATTACHMENT_PATH_KEY
          (JString (container_inbox_path ?m ?n)))" "inbox' = stored"
      using assms(1) att by (simp_all add: materialized_content_def Let_def)
    have "stored (?m, ?n) \<noteq> None"
      using Inr assms(2) safe [THEN safe_name_accepted]
      by (auto simp: copy_staged_into_inbox_def extract_to_inbox_def split: option.splits InboxError.splits if_splits)
    then show ?thesis
      using att Some c safe by (intro disjI2 exI [of _ path]) auto
  qed
qed

definition file_event :: "ustring \<Rightarrow> ustring \<Rightarrow> InboundEvent" where
  "file_event chat path =
     \<lparr>ev_channel_type = lit ''telegram'', ev_platform_id = chat, ev_thread_id = None,
      ev_message = \<lparr>im_id = lit ''7'', im_kind = Chat,
        im_content = JObject [(lit ''attachment'', JObject [(lit ''filename'', JString (lit ''a'')), (STAGED_PATH_KEY, JString path)])],
        im_timestamp = 0, im_is_mention = None, im_is_group = None\<rparr>,
      ev_reply_to = None, ev_sender = None\<rparr>"

definition two_staged :: FileIo where
  "two_staged = \<lparr>fio_staged = [lit ''p1'' \<mapsto> [1], lit ''p2'' \<mapsto> [2]], fio_fail = None, fio_err_text = (\<lambda>_. []), fio_read_err = []\<rparr>"

lemma sanitize_safe_id:
  assumes "safe_name n" and "hd n \<noteq> 95"
  shows "sanitize_filename (Some n) fallback = n"
proof -
  have "\<forall>c \<in> set n. \<not> is_whitespace c"
    using assms(1) by (auto simp: safe_name_def filename_char_def is_ascii_alphanumeric_def is_ascii_digit_def is_whitespace_def)
  then have "trim n = n"
    by (rule trim_no_whitespace)
  moreover have "map (\<lambda>c. if filename_char c then c else 95) n = n"
    using assms(1) by (simp add: safe_name_def map_idI)
  ultimately have "clean_name (Some n) = n"
    using assms by (cases n) (auto simp: clean_name_def safe_name_def)
  then show ?thesis
    using assms(1) by (simp add: sanitize_eq safe_name_def)
qed

lemma sample_names:
  "sanitize_filename (Some (lit ''7'')) f = lit ''7''" "sanitize_filename (Some (lit ''a'')) f = lit ''a''"
  "safe_attachment_name (lit ''7'') = Inr ()" "safe_attachment_name (lit ''a'') = Inr ()"
proof -
  have "safe_name (lit ''7'')" "safe_name (lit ''a'')" "hd (lit ''7'') \<noteq> 95" "hd (lit ''a'') \<noteq> 95"
    by (simp_all add: safe_name_def lit_def filename_char_def is_ascii_alphanumeric_def is_ascii_digit_def)
  then show "sanitize_filename (Some (lit ''7'')) f = lit ''7''" "sanitize_filename (Some (lit ''a'')) f = lit ''a''"
    "safe_attachment_name (lit ''7'') = Inr ()" "safe_attachment_name (lit ''a'') = Inr ()"
    by (simp_all add: sanitize_safe_id safe_name_accepted)
qed

lemma file_event_materialized:
  assumes "fio_staged two_staged path = Some data"
  shows "materialized_content two_staged (file_event chat path) inbox =
    (JObject [(lit ''attachment'', JObject [(lit ''filename'', JString (lit ''a'')),
       (ATTACHMENT_PATH_KEY, JString (container_inbox_path (lit ''7'') (lit ''a'')))])],
     if inbox (lit ''7'', lit ''a'') = None then inbox((lit ''7'', lit ''a'') \<mapsto> data) else inbox)"
  using assms
  by (simp add: materialized_content_def file_event_def json_get_def json_as_str_def json_remove_def json_insert_def
      json_is_object_def msg_component_def attachment_name_def sample_names copy_staged_into_inbox_def
      extract_to_inbox_def two_staged_def Let_def STAGED_PATH_KEY_def ATTACHMENT_PATH_KEY_def)

theorem materialization_contract_witness:
  "json_get (fst (materialized_content two_staged (file_event (lit ''c1'') (lit ''p1'')) (\<lambda>_. None))) (lit ''attachment'') \<noteq> None"
proof -
  have "fio_fail two_staged \<noteq> Some AlreadyExists" "staged_attachment_path (file_event (lit ''c1'') (lit ''p1'')) \<noteq> None"
    by (simp_all add: two_staged_def staged_attachment_path_def file_event_def json_get_def json_as_str_def STAGED_PATH_KEY_def)
  then show ?thesis
    using materialization_contract [of two_staged "file_event (lit ''c1'') (lit ''p1'')" "\<lambda>_. None"]
    by (metis option.distinct(1) prod.collapse)
qed

text \<open>
  Two chats that share a session can be served each other's file: platform message ids are unique only
  within a chat, the inbox is keyed by message id and file name, and an existing file counts as stored.
  After message 7 of one chat, message 7 of another chat with an attachment of the same name is stored with
  the path of the first one's bytes.
\<close>

theorem inbox_collision:
  "let (c1, inbox1) = materialized_content two_staged (file_event (lit ''chat1'') (lit ''p1'')) (\<lambda>_. None);
       (c2, inbox2) = materialized_content two_staged (file_event (lit ''chat2'') (lit ''p2'')) inbox1
   in c1 = c2 \<and> inbox2 (lit ''7'', lit ''a'') = Some [1] \<and> fio_staged two_staged (lit ''p2'') = Some [2]"
  by (simp add: file_event_materialized two_staged_def [THEN arg_cong [where f = fio_staged]])

end
