(* ===== verification/Router.thy ===== *)
theory Router
  imports Route_Gates Inbound_Files Session_Db "HOL-Library.Sublist"
begin

text \<open>
  The inbound router (\<open>copperclaw-host-router/src/route.rs\<close> with \<open>error.rs\<close>, \<open>session.rs\<close> and the in-flight
  set of \<open>debounce.rs\<close>): debouncing, group and gate resolution, the fan-out over the wirings of a chat, session
  resolution, host-answered commands and the write of the inbound row. The state holds the central tables the
  router touches, one store per session (its two queues, its routing row, its inbox and its working directory),
  the staged downloads, and the counters it bumps. What the outside decides is an argument: the clock, fresh ids,
  and for every call that can fail in the environment whether it fails there. Hooks are functions; what an
  installed hook does to state of its own is outside.
\<close>

section \<open>Types\<close>

datatype RouterError =
  RDb DbError | HookPanicked ustring | SessionCreate ustring | NoMessagingGroupError | InvalidWiring ustring | RIo ustring

record DeliveredTo =
  dl_agent_group :: AgentGroupId
  dl_session :: SessionId
  dl_message :: MessageId
  dl_seq :: int

datatype DropReason =
  NoMessagingGroup | NoAgents | AccessDenied ustring | InterceptorDropped ustring | Debounced | ReentryGuard | MentionGated

datatype PendingReason = SenderUnregistered | ChannelRequestPending ustring | ApprovalHandled

datatype RouteOutcome =
  Delivered "DeliveredTo list" | Answered "DeliveredTo list" | Dropped DropReason | Pending PendingReason

datatype FanoutOutcome =
  FDelivered DeliveredTo | FAnswered DeliveredTo | FDropped DropReason | FPending PendingReason

record TargetSession =
  ts_agent_group :: AgentGroupId
  ts_id :: SessionId

record SessionStore =
  st_in :: "MessageInRow list"
  st_out :: "MessageOutRow list"
  st_routing :: "SessionRouting option"
  st_inbox :: inbox
  st_entries :: "dir_entry list"
  st_shell :: "ustring option"

datatype RouteMetric = SlashCommandMetric ustring ChannelType | ControlRowMetric ustring | InboundMetric ChannelType

type_synonym StoreKey = "AgentGroupId \<times> SessionId"

record RouterState =
  ro_debounce :: Debouncer
  ro_groups :: "MessagingGroup list"
  ro_wirings :: "MessagingGroupAgent list"
  ro_sessions :: "Session list"
  ro_agent_names :: "AgentGroupId \<Rightarrow> ustring option"
  ro_unregistered :: "UnregisteredSender list"
  ro_dropped :: "DroppedMessage list"
  ro_stores :: "StoreKey \<Rightarrow> SessionStore"
  ro_staged :: "ustring \<Rightarrow> bytes option"
  ro_inflight :: "SessionId set"
  ro_wakes :: nat
  ro_fanout :: int
  ro_metrics :: "RouteMetric list"

text \<open>The construction-time configuration, with the regular expression engine.\<close>

record RouterConfig =
  rc_hooks :: HookChain
  rc_mention_gate :: MentionGate
  rc_regex :: "ustring \<Rightarrow> ustring \<Rightarrow> bool option"

text \<open>The calls of the pipeline that can fail in the environment.\<close>

datatype RoutePoint =
  AtGetGroup | AtListWirings | AtRecordDrop | AtUpsertSender | AtFindSession | AtCreateSession | AtSessionDir |
  AtInboundPool | AtOutboundPool | AtWriteRouting | AtGetSession | AtGetAgentGroup | AtCountDue | AtWorkspaceDir |
  AtShellState | AtInsertIn | AtInsertOut

record FanEnv =
  fe_now :: instant
  fe_session_id :: SessionId
  fe_message_id :: MessageId
  fe_clear_id :: MessageId
  fe_fail :: "RoutePoint \<Rightarrow> RouterError option"
  fe_dir_readable :: bool
  fe_file_io :: FileIo
  fe_db_text :: "DbError \<Rightarrow> ustring"
  fe_rfc3339 :: "instant \<Rightarrow> ustring"

type_synonym 'a router = "(RouterState, RouterError, 'a) stateful"

section \<open>Primitive steps\<close>

definition check_at :: "FanEnv \<Rightarrow> RoutePoint \<Rightarrow> unit router" where
  "check_at env p = (case fe_fail env p of Some e \<Rightarrow> throw e | None \<Rightarrow> ret ())"

definition update_store :: "StoreKey \<Rightarrow> (SessionStore \<Rightarrow> SessionStore) \<Rightarrow> RouterState \<Rightarrow> RouterState" where
  "update_store k f r = r\<lparr>ro_stores := (ro_stores r)(k := f (ro_stores r k))\<rparr>"

definition target_key :: "TargetSession \<Rightarrow> StoreKey" where
  "target_key s = (ts_agent_group s, ts_id s)"

definition bump_metric :: "RouteMetric \<Rightarrow> unit router" where
  "bump_metric m = modify (\<lambda>r. r\<lparr>ro_metrics := ro_metrics r @ [m]\<rparr>)"

definition notify_wake :: "unit router" where
  "notify_wake = modify (\<lambda>r. r\<lparr>ro_wakes := ro_wakes r + 1\<rparr>)"

definition store_insert_in :: "FanEnv \<Rightarrow> TargetSession \<Rightarrow> WriteInbound \<Rightarrow> int router" where
  "store_insert_in env s write =
     and_then (check_at env AtInsertIn) (\<lambda>_. reading (\<lambda>r.
       case insert_in (st_in (ro_stores r (target_key s))) write of
         Inl e \<Rightarrow> throw (RDb e)
       | Inr (seq, t) \<Rightarrow>
           and_then (modify (update_store (target_key s) (\<lambda>st. st\<lparr>st_in := t\<rparr>))) (\<lambda>_. ret seq)))"

definition store_insert_out :: "FanEnv \<Rightarrow> TargetSession \<Rightarrow> WriteOutbound \<Rightarrow> int router" where
  "store_insert_out env s write =
     and_then (check_at env AtInsertOut) (\<lambda>_. reading (\<lambda>r.
       case insert_out (st_out (ro_stores r (target_key s))) write of
         Inl e \<Rightarrow> throw (RDb e)
       | Inr (seq, t) \<Rightarrow>
           and_then (modify (update_store (target_key s) (\<lambda>st. st\<lparr>st_out := t\<rparr>))) (\<lambda>_. ret seq)))"

section \<open>Labels and projections of an event\<close>

fun drop_reason_label :: "DropReason \<Rightarrow> ustring" where
  "drop_reason_label NoMessagingGroup = lit ''no_messaging_group''"
| "drop_reason_label NoAgents = lit ''no_agents''"
| "drop_reason_label (AccessDenied r) = lit ''access_denied:'' @ r"
| "drop_reason_label (InterceptorDropped r) = lit ''interceptor_drop:'' @ r"
| "drop_reason_label Debounced = lit ''debounced''"
| "drop_reason_label ReentryGuard = lit ''reentry_guard''"
| "drop_reason_label MentionGated = lit ''mention_gated''"

definition sender_scope_reason :: "SenderScopeDecision option \<Rightarrow> ustring" where
  "sender_scope_reason decision =
     (case decision of
        Some (SDeny r) \<Rightarrow> lit ''scope_deny:'' @ r
      | Some (SPending r) \<Rightarrow> lit ''scope_pending:'' @ r
      | Some SAllow \<Rightarrow> lit ''scope_allow''
      | Some SDefer \<Rightarrow> lit ''unknown_sender''
      | None \<Rightarrow> lit ''unknown_sender'')"

definition approval_callback_data :: "InboundEvent \<Rightarrow> ustring option" where
  "approval_callback_data event =
     (case json_get (im_content (ev_message event)) (lit ''callback'') of
        None \<Rightarrow> None
      | Some cb \<Rightarrow>
          Option.bind (case json_get cb (lit ''data'') of Some d \<Rightarrow> Some d | None \<Rightarrow> json_get cb (lit ''value''))
            json_as_str)"

definition source_session_for :: "InboundEvent \<Rightarrow> ustring option" where
  "source_session_for event =
     (if im_kind (ev_message event) \<noteq> Agent then None
      else Option.bind (json_get (im_content (ev_message event)) (lit ''source_session_id'')) json_as_str)"

definition render_status :: "(instant \<Rightarrow> ustring) \<Rightarrow> ustring \<Rightarrow> Session \<Rightarrow> nat \<Rightarrow> ustring" where
  "render_status rfc3339 name session queued =
     lit ''Agent status'' @ [10] @ lit ''- agent group: '' @ name @ [10] @
     lit ''- session: '' @ se_id session @ [10] @
     lit ''- session state: '' @ session_status_as_str (se_status session) @
     lit '' (container '' @ container_status_as_str (container_status session) @ lit '')'' @ [10] @
     lit ''- queued messages: '' @ show_nat queued @ [10] @
     lit ''- last active: '' @ rfc3339 (last_active session) @ [10] @
     lit ''- created: '' @ rfc3339 (se_created_at session)"

section \<open>Gates of one wiring\<close>

definition scope_decision ::
  "RouterConfig \<Rightarrow> InboundEvent \<Rightarrow> MessagingGroupId \<Rightarrow> MessagingGroupAgent \<Rightarrow> UserId option \<Rightarrow>
     SenderScopeDecision option" where
  "scope_decision cfg event mg w user =
     run_sender_scope_gate (rc_hooks cfg)
       \<lparr>sc_sender = ev_sender event, sc_messaging_group = Some mg, sc_agent_group = wi_agent_group w, sc_user = user\<rparr>"

definition access_decision ::
  "RouterConfig \<Rightarrow> MessagingGroupId \<Rightarrow> MessagingGroupAgent \<Rightarrow> UserId option \<Rightarrow> GateDecision" where
  "access_decision cfg mg w user =
     resolve_access_gate (rc_hooks cfg)
       \<lparr>gc_user = user, gc_agent_group = Some (wi_agent_group w), gc_messaging_group = Some mg,
        gc_op = lit ''deliver_message''\<rparr>"

definition note_unregistered ::
  "FanEnv \<Rightarrow> InboundEvent \<Rightarrow> MessagingGroupId \<Rightarrow> MessagingGroupAgent \<Rightarrow> UserId option \<Rightarrow>
     SenderScopeDecision option \<Rightarrow> unit router" where
  "note_unregistered env event mg w user decision =
     (case (user, ev_sender event) of
        (None, Some sender) \<Rightarrow>
          and_then (check_at env AtUpsertSender) (\<lambda>_. modify (\<lambda>r.
            r\<lparr>ro_unregistered := upsert_unregistered (ro_unregistered r)
                \<lparr>uu_channel_type = si_channel_type sender, uu_platform_id = si_identity sender, uu_user = None,
                 uu_name = si_display_name sender, uu_reason = sender_scope_reason decision,
                 uu_messaging_group = Some mg, uu_agent_group = Some (wi_agent_group w)\<rparr> (fe_now env)\<rparr>))
      | _ \<Rightarrow> ret ())"

definition approval_handled ::
  "RouterConfig \<Rightarrow> InboundEvent \<Rightarrow> MessagingGroupId \<Rightarrow> MessagingGroupAgent \<Rightarrow> UserId option \<Rightarrow> bool" where
  "approval_handled cfg event mg w user =
     (case approval_callback_data event of
        None \<Rightarrow> False
      | Some callback_data \<Rightarrow>
          run_approval_interceptor (rc_hooks cfg)
            \<lparr>ai_callback_data = callback_data, ai_sender = ev_sender event, ai_user = user,
             ai_agent_group = wi_agent_group w, ai_messaging_group = Some mg,
             ai_channel_type = ev_channel_type event, ai_platform_id = ev_platform_id event,
             ai_thread_id = ev_thread_id event\<rparr> = Some Handled)"

definition mention_decision ::
  "RouterConfig \<Rightarrow> InboundEvent \<Rightarrow> bool \<Rightarrow> MessagingGroupAgent \<Rightarrow> MentionDecision" where
  "mention_decision cfg event in_group w =
     decide (rc_regex cfg) (rc_mention_gate cfg) event
       (in_group \<or> im_is_group (ev_message event) = Some True) (engage_mode w) (engage_pattern w)"

text \<open>\<open>admit\<close>: the gates in their order; nothing when the wiring admits the event.\<close>

definition admit ::
  "RouterConfig \<Rightarrow> FanEnv \<Rightarrow> InboundEvent \<Rightarrow> MessagingGroupId \<Rightarrow> bool \<Rightarrow> MessagingGroupAgent \<Rightarrow> UserId option \<Rightarrow>
     ParsedCommand option \<Rightarrow> FanoutOutcome option router" where
  "admit cfg env event mg in_group w user command =
     (case access_decision cfg mg w user of
        GDeny reason \<Rightarrow> ret (Some (FDropped (AccessDenied reason)))
      | _ \<Rightarrow>
          (let decision = scope_decision cfg event mg w user
           in and_then (note_unregistered env event mg w user decision) (\<lambda>_.
                case decision of
                  Some (SDeny reason) \<Rightarrow> ret (Some (FDropped (AccessDenied reason)))
                | Some (SPending _) \<Rightarrow> ret (Some (FPending SenderUnregistered))
                | _ \<Rightarrow>
                    if approval_handled cfg event mg w user then ret (Some (FPending ApprovalHandled))
                    else if command = None \<and> mention_decision cfg event in_group w = DropUnmentioned
                    then ret (Some (FDropped MentionGated))
                    else ret None)))"

section \<open>Sessions\<close>

definition session_key ::
  "InboundEvent \<Rightarrow> MessagingGroupId \<Rightarrow> MessagingGroupAgent \<Rightarrow> MessagingGroupId option \<times> ustring option" where
  "session_key event mg w =
     (case session_mode w of
        Shared \<Rightarrow> (Some mg, None)
      | PerThread \<Rightarrow> (Some mg, ev_thread_id event)
      | AgentShared \<Rightarrow> (None, None))"

definition seed_routing :: "InboundEvent \<Rightarrow> SessionRouting" where
  "seed_routing event =
     \<lparr>sr_channel_type = Some (ev_channel_type event), sr_platform_id = Some (ev_platform_id event),
      sr_thread_id = ev_thread_id event\<rparr>"

definition new_session :: "FanEnv \<Rightarrow> InboundEvent \<Rightarrow> CreateSession \<Rightarrow> TargetSession router" where
  "new_session env event req =
     and_then (check_at env AtCreateSession) (\<lambda>_. reading (\<lambda>r.
       case create_session (ro_sessions r) req (fe_session_id env) (fe_now env) of
         Inl e \<Rightarrow> throw (SessionCreate (lit ''create session: '' @ fe_db_text env e))
       | Inr (s, t) \<Rightarrow>
           and_then (modify (\<lambda>r. r\<lparr>ro_sessions := t\<rparr>)) (\<lambda>_.
           and_then (check_at env AtSessionDir) (\<lambda>_.
           and_then (check_at env AtInboundPool) (\<lambda>_.
           and_then (check_at env AtWriteRouting) (\<lambda>_.
           and_then (modify (update_store (se_agent_group s, se_id s)
               (\<lambda>st. st\<lparr>st_routing := write_routing (st_routing st) (seed_routing event)\<rparr>))) (\<lambda>_.
           ret \<lparr>ts_agent_group = se_agent_group s, ts_id = se_id s\<rparr>)))))))"

definition resolve_session ::
  "FanEnv \<Rightarrow> InboundEvent \<Rightarrow> MessagingGroupId \<Rightarrow> MessagingGroupAgent \<Rightarrow> TargetSession router" where
  "resolve_session env event mg w =
     (let (search_mg, search_thread) = session_key event mg w
      in and_then (check_at env AtFindSession) (\<lambda>_. reading (\<lambda>r.
           case find_for_agent (ro_sessions r) (wi_agent_group w) search_mg search_thread of
             Some s \<Rightarrow>
               and_then (check_at env AtSessionDir) (\<lambda>_.
                 ret \<lparr>ts_agent_group = se_agent_group s, ts_id = se_id s\<rparr>)
           | None \<Rightarrow>
               new_session env event
                 \<lparr>cs_agent_group = wi_agent_group w, cs_messaging_group = search_mg, cs_thread = search_thread,
                  cs_provider = None, cs_source = None\<rparr>)))"

section \<open>Host-answered commands\<close>

definition reply_row :: "FanEnv \<Rightarrow> InboundEvent \<Rightarrow> ustring \<Rightarrow> WriteOutbound" where
  "reply_row env event txt =
     \<lparr>o_id = fe_message_id env, o_in_reply_to = None, o_timestamp = fe_now env, o_deliver_after = None,
      o_recurrence = None, o_kind = Chat, o_platform_id = Some (ev_platform_id event),
      o_channel_type = Some (ev_channel_type event), o_thread_id = ev_thread_id event,
      o_content = JObject [(lit ''text'', JString txt)]\<rparr>"

definition write_host_reply :: "FanEnv \<Rightarrow> InboundEvent \<Rightarrow> TargetSession \<Rightarrow> ustring \<Rightarrow> FanoutOutcome router" where
  "write_host_reply env event s txt =
     and_then (check_at env AtOutboundPool) (\<lambda>_.
     and_then (store_insert_out env s (reply_row env event txt)) (\<lambda>seq.
     ret (FAnswered \<lparr>dl_agent_group = ts_agent_group s, dl_session = ts_id s,
       dl_message = fe_message_id env, dl_seq = seq\<rparr>)))"

definition answer_status :: "FanEnv \<Rightarrow> InboundEvent \<Rightarrow> TargetSession \<Rightarrow> FanoutOutcome router" where
  "answer_status env event s =
     and_then (check_at env AtGetSession) (\<lambda>_. reading (\<lambda>r.
       case get_session (ro_sessions r) (ts_id s) of
         Inl e \<Rightarrow> throw (RDb e)
       | Inr full \<Rightarrow>
           and_then (check_at env AtGetAgentGroup) (\<lambda>_.
             case ro_agent_names r (ts_agent_group s) of
               None \<Rightarrow> throw (RDb NotFound)
             | Some name \<Rightarrow>
                 and_then (check_at env AtInboundPool) (\<lambda>_.
                 and_then (check_at env AtCountDue) (\<lambda>_.
                 write_host_reply env event s
                   (render_status (fe_rfc3339 env) name full
                      (count_due (st_in (ro_stores r (target_key s))) (fe_now env))))))))"

definition answer_projects :: "FanEnv \<Rightarrow> InboundEvent \<Rightarrow> TargetSession \<Rightarrow> FanoutOutcome router" where
  "answer_projects env event s =
     and_then (check_at env AtSessionDir) (\<lambda>_. reading (\<lambda>r.
       let st = ro_stores r (target_key s)
       in write_host_reply env event s
            (render_projects (list_workspaces (if fe_dir_readable env then Some (st_entries st) else None) (st_shell st)))))"

definition clear_row :: "FanEnv \<Rightarrow> InboundEvent \<Rightarrow> WriteInbound" where
  "clear_row env event =
     \<lparr>w_id = fe_clear_id env, w_kind = Chat, w_timestamp = fe_now env,
      w_content = passthrough_content Clear (JObject [(lit ''text'', JString (canonical Clear))]) (canonical Clear),
      w_trigger = True, w_on_wake = False, w_process_after = None, w_recurrence = None, w_series_id = None,
      w_platform_id = Some (ev_platform_id event), w_channel_type = Some (ev_channel_type event),
      w_thread_id = ev_thread_id event, w_source_session_id = None, w_reply_to = None,
      w_is_group = im_is_group (ev_message event)\<rparr>"

definition write_clear_row :: "FanEnv \<Rightarrow> InboundEvent \<Rightarrow> TargetSession \<Rightarrow> unit router" where
  "write_clear_row env event s =
     and_then (check_at env AtInboundPool) (\<lambda>_.
     and_then (store_insert_in env s (clear_row env event)) (\<lambda>_. notify_wake))"

text \<open>
  The working directory of a session: \<open>.shell_state\<close> is a file of it, and can only be written where no
  directory has that name.
\<close>

definition SHELL_STATE_FILE :: ustring where "SHELL_STATE_FILE = lit ''.shell_state''"

definition path_exists :: "SessionStore \<Rightarrow> ustring \<Rightarrow> bool" where
  "path_exists st name \<longleftrightarrow> name \<in> fst ` set (st_entries st) \<or> name = SHELL_STATE_FILE \<and> st_shell st \<noteq> None"

definition make_workspace :: "FanEnv \<Rightarrow> TargetSession \<Rightarrow> ustring \<Rightarrow> bool router" where
  "make_workspace env s name =
     reading (\<lambda>r.
       if path_exists (ro_stores r (target_key s)) name then ret False
       else and_then (check_at env AtWorkspaceDir) (\<lambda>_.
            and_then (modify (update_store (target_key s) (\<lambda>st. st\<lparr>st_entries := st_entries st @ [(name, True, False)]\<rparr>)))
              (\<lambda>_. ret True)))"

definition write_shell_state :: "FanEnv \<Rightarrow> TargetSession \<Rightarrow> ustring \<Rightarrow> unit router" where
  "write_shell_state env s name =
     and_then (check_at env AtShellState) (\<lambda>_. reading (\<lambda>r.
       if SHELL_STATE_FILE \<in> fst ` set (st_entries (ro_stores r (target_key s)))
       then throw (SessionCreate (lit ''write .shell_state: is a directory''))
       else modify (update_store (target_key s) (\<lambda>st. st\<lparr>st_shell := Some (switch_shell_state name)\<rparr>))))"

fun answer_switch :: "FanEnv \<Rightarrow> InboundEvent \<Rightarrow> TargetSession \<Rightarrow> SwitchTarget \<Rightarrow> FanoutOutcome router" where
  "answer_switch env event s (Invalid raw) = write_host_reply env event s (render_switch_invalid raw)"
| "answer_switch env event s (Valid name) =
     and_then (check_at env AtSessionDir) (\<lambda>_.
     and_then (make_workspace env s name) (\<lambda>created.
     and_then (write_shell_state env s name) (\<lambda>_.
     and_then (write_clear_row env event s) (\<lambda>_.
     write_host_reply env event s (render_switch_ok name created)))))"

section \<open>The inbound row\<close>

definition shape_row :: "InboundEvent \<Rightarrow> ParsedCommand option \<Rightarrow> json \<Rightarrow> MessageKind \<times> json \<times> bool" where
  "shape_row event command event_content =
     (let original_text = (case event_text event of Some t \<Rightarrow> t | None \<Rightarrow> [])
      in case command of
           Some (Bare Stop) \<Rightarrow> (System, control_content Stop original_text, False)
         | Some (Bare Compact) \<Rightarrow>
             (im_kind (ev_message event), passthrough_content Compact event_content original_text, True)
         | Some (Bare Clear) \<Rightarrow>
             (im_kind (ev_message event), passthrough_content Clear event_content original_text, True)
         | _ \<Rightarrow> (im_kind (ev_message event), event_content, True))"

definition delivered_row :: "FanEnv \<Rightarrow> InboundEvent \<Rightarrow> ParsedCommand option \<Rightarrow> json \<Rightarrow> WriteInbound" where
  "delivered_row env event command event_content =
     (let (kind, content, trigger) = shape_row event command event_content
      in \<lparr>w_id = fe_message_id env, w_kind = kind, w_timestamp = im_timestamp (ev_message event), w_content = content,
          w_trigger = (trigger \<and> \<not> is_reaction_content content), w_on_wake = False, w_process_after = None,
          w_recurrence = None, w_series_id = None, w_platform_id = Some (ev_platform_id event),
          w_channel_type = Some (ev_channel_type event), w_thread_id = ev_thread_id event,
          w_source_session_id = source_session_for event,
          w_reply_to = Option.bind (ev_reply_to event) rt_thread_id, w_is_group = im_is_group (ev_message event)\<rparr>)"

text \<open>
  \<open>materialize\<close>: the session directory is only touched when the event carries a staged download.
\<close>

definition materialize :: "FanEnv \<Rightarrow> InboundEvent \<Rightarrow> TargetSession \<Rightarrow> json router" where
  "materialize env event s =
     and_then (if staged_attachment_path event = None then ret () else check_at env AtSessionDir) (\<lambda>_. reading (\<lambda>r.
       let (content, inbox) =
         materialized_content ((fe_file_io env)\<lparr>fio_staged := ro_staged r\<rparr>) event (st_inbox (ro_stores r (target_key s)))
       in and_then (modify (update_store (target_key s) (\<lambda>st. st\<lparr>st_inbox := inbox\<rparr>))) (\<lambda>_. ret content)))"

definition deliver :: "FanEnv \<Rightarrow> InboundEvent \<Rightarrow> TargetSession \<Rightarrow> ParsedCommand option \<Rightarrow> FanoutOutcome router" where
  "deliver env event s command =
     and_then (materialize env event s) (\<lambda>event_content.
     and_then (check_at env AtInboundPool) (\<lambda>_.
     let write = delivered_row env event command event_content
     in and_then (store_insert_in env s write) (\<lambda>seq.
        and_then (if command = Some (Bare Stop) then bump_metric (ControlRowMetric (lit ''stop'')) else ret ()) (\<lambda>_.
        and_then (bump_metric (InboundMetric (ev_channel_type event))) (\<lambda>_.
        and_then (if w_trigger write then notify_wake else ret ()) (\<lambda>_.
        ret (FDelivered \<lparr>dl_agent_group = ts_agent_group s, dl_session = ts_id s,
          dl_message = fe_message_id env, dl_seq = seq\<rparr>)))))))"

section \<open>One wiring\<close>

definition enter_inflight :: "SessionId \<Rightarrow> unit router" where
  "enter_inflight sid =
     reading (\<lambda>r. if sid \<in> ro_inflight r then throw (InvalidWiring (lit ''re-entered in-flight session''))
               else modify (\<lambda>r. r\<lparr>ro_inflight := insert sid (ro_inflight r)\<rparr>))"

text \<open>\<open>guarded\<close>: the guard is dropped when the function returns, with a value or an error.\<close>

definition guarded :: "SessionId \<Rightarrow> 'a router \<Rightarrow> 'a router" where
  "guarded sid m =
     and_then (enter_inflight sid) (\<lambda>_ r. let (x, r') = m r in (x, r'\<lparr>ro_inflight := ro_inflight r' - {sid}\<rparr>))"

definition serve :: "FanEnv \<Rightarrow> InboundEvent \<Rightarrow> TargetSession \<Rightarrow> ParsedCommand option \<Rightarrow> FanoutOutcome router" where
  "serve env event s command =
     and_then (case command of
                 Some cmd \<Rightarrow> bump_metric (SlashCommandMetric (parsed_op cmd) (ev_channel_type event))
               | None \<Rightarrow> ret ()) (\<lambda>_.
     case command of
       Some (Bare Status) \<Rightarrow> answer_status env event s
     | Some (Bare Projects) \<Rightarrow> answer_projects env event s
     | Some (Switch target) \<Rightarrow> answer_switch env event s target
     | _ \<Rightarrow> deliver env event s command)"

definition route_one ::
  "RouterConfig \<Rightarrow> FanEnv \<Rightarrow> InboundEvent \<Rightarrow> MessagingGroupId \<Rightarrow> bool \<Rightarrow> MessagingGroupAgent \<Rightarrow> UserId option \<Rightarrow>
     ParsedCommand option \<Rightarrow> FanoutOutcome router" where
  "route_one cfg env event mg in_group w user command =
     and_then (admit cfg env event mg in_group w user command) (\<lambda>refused.
     case refused of
       Some outcome \<Rightarrow> ret outcome
     | None \<Rightarrow>
         and_then (resolve_session env event mg w) (\<lambda>s.
         if source_session_for event = Some (ts_id s) then ret (FDropped ReentryGuard)
         else guarded (ts_id s) (serve env event s command)))"

section \<open>The pipeline\<close>

definition record_drop ::
  "FanEnv \<Rightarrow> InboundEvent \<Rightarrow> MessagingGroupId option \<Rightarrow> AgentGroupId option \<Rightarrow> ustring \<Rightarrow> unit router" where
  "record_drop env event mg ag reason =
     and_then (check_at env AtRecordDrop) (\<lambda>_. modify (\<lambda>r. r\<lparr>ro_dropped := insert_dropped (ro_dropped r)
       \<lparr>dm_channel_type = ev_channel_type event, dm_platform_id = ev_platform_id event, dm_user = None,
        dm_sender_name = (case ev_sender event of
            Some s \<Rightarrow> (case si_display_name s of Some n \<Rightarrow> Some n | None \<Rightarrow> Some (si_identity s))
          | None \<Rightarrow> None),
        dm_reason = reason, dm_messaging_group = mg, dm_agent_group = ag, dm_created_at = fe_now env\<rparr>\<rparr>))"

fun fanout ::
  "RouterConfig \<Rightarrow> (nat \<Rightarrow> FanEnv) \<Rightarrow> InboundEvent \<Rightarrow> MessagingGroup \<Rightarrow> UserId option \<Rightarrow> ParsedCommand option \<Rightarrow>
     nat \<Rightarrow> MessagingGroupAgent list \<Rightarrow> DeliveredTo list \<Rightarrow> DeliveredTo list \<Rightarrow> PendingReason option \<Rightarrow>
     RouteOutcome router" where
  "fanout cfg envs event mg user command i [] sessions answered last_pending =
     (if sessions \<noteq> [] then ret (Delivered sessions)
      else if answered \<noteq> [] then ret (Answered answered)
      else case last_pending of Some reason \<Rightarrow> ret (Pending reason) | None \<Rightarrow> ret (Dropped NoAgents))"
| "fanout cfg envs event mg user command i (w # ws) sessions answered last_pending =
     and_then (modify (\<lambda>r. r\<lparr>ro_fanout := ro_fanout r + 1\<rparr>)) (\<lambda>_.
     and_then (route_one cfg (envs i) event (mg_id mg) (mg_is_group mg) w user command) (\<lambda>out.
     case out of
       FDelivered d \<Rightarrow> fanout cfg envs event mg user command (Suc i) ws (sessions @ [d]) answered last_pending
     | FAnswered d \<Rightarrow> fanout cfg envs event mg user command (Suc i) ws sessions (answered @ [d]) last_pending
     | FDropped reason \<Rightarrow>
         and_then (record_drop (envs i) event (Some (mg_id mg)) (Some (wi_agent_group w)) (drop_reason_label reason))
           (\<lambda>_. if sessions = [] \<and> answered = [] then ret (Dropped reason)
                else fanout cfg envs event mg user command (Suc i) ws sessions answered last_pending)
     | FPending reason \<Rightarrow>
         fanout cfg envs event mg user command (Suc i) ws sessions answered (Some reason)))"

text \<open>
  The environment of a route: the monotonic clock of the debouncer, the clock and the failures of the steps before
  the fan-out, one environment per wiring, and whether the staged file can be removed (a failure is ignored).
\<close>

record RouteEnv =
  re_instant :: instant
  re_top :: FanEnv
  re_fan :: "nat \<Rightarrow> FanEnv"
  re_unlink_ok :: bool

definition debounce_key :: "InboundEvent \<Rightarrow> DebounceKey" where
  "debounce_key event =
     \<lparr>dk_channel_type = ev_channel_type event, dk_platform_id = ev_platform_id event,
      dk_thread_id = ev_thread_id event, dk_message_id = im_id (ev_message event)\<rparr>"

definition debounce_step :: "RouteEnv \<Rightarrow> InboundEvent \<Rightarrow> bool router" where
  "debounce_step env event =
     reading (\<lambda>r. let (dup, d) = check_and_record (ro_debounce r) (debounce_key event) (re_instant env)
               in and_then (modify (\<lambda>r. r\<lparr>ro_debounce := d\<rparr>)) (\<lambda>_. ret dup))"

definition channel_decision :: "RouterConfig \<Rightarrow> InboundEvent \<Rightarrow> UserId option \<Rightarrow> GateDecision option" where
  "channel_decision cfg event user =
     run_channel_request_gate (rc_hooks cfg)
       \<lparr>cr_channel_type = ev_channel_type event, cr_platform_id = ev_platform_id event,
        cr_thread_id = ev_thread_id event, cr_requester = user, cr_agent_group = None\<rparr>"

definition route_group :: "RouterConfig \<Rightarrow> RouteEnv \<Rightarrow> InboundEvent \<Rightarrow> MessagingGroup \<Rightarrow> RouteOutcome router" where
  "route_group cfg env event mg =
     (let user = run_sender_resolver (rc_hooks cfg) event
      in case channel_decision cfg event user of
           Some (GDeny reason) \<Rightarrow>
             and_then (record_drop (re_top env) event (Some (mg_id mg)) None reason)
               (\<lambda>_. ret (Dropped (AccessDenied reason)))
         | _ \<Rightarrow>
             and_then (check_at (re_top env) AtListWirings) (\<lambda>_. reading (\<lambda>r.
               let wirings = list_for_mg (ro_wirings r) (mg_id mg)
               in if wirings = [] then
                    and_then (record_drop (re_top env) event (Some (mg_id mg)) None (lit ''no_agents''))
                      (\<lambda>_. ret (Dropped NoAgents))
                  else fanout cfg (re_fan env) event mg user (parsed_detect event) 0 wirings [] [] None)))"

definition route_impl :: "RouterConfig \<Rightarrow> RouteEnv \<Rightarrow> InboundEvent \<Rightarrow> RouteOutcome router" where
  "route_impl cfg env event =
     and_then (debounce_step env event) (\<lambda>dup.
     if dup then ret (Dropped Debounced)
     else
       and_then (check_at (re_top env) AtGetGroup) (\<lambda>_. reading (\<lambda>r.
         case get_by_platform (ro_groups r) (ev_channel_type event) (ev_platform_id event) of
           None \<Rightarrow>
             and_then (record_drop (re_top env) event None None (lit ''no_messaging_group''))
               (\<lambda>_. ret (Dropped NoMessagingGroup))
         | Some mg \<Rightarrow> route_group cfg env event mg)))"

definition remove_staged_file :: "bool \<Rightarrow> ustring \<Rightarrow> RouterState \<Rightarrow> RouterState" where
  "remove_staged_file unlink_ok path r = (if unlink_ok then r\<lparr>ro_staged := (ro_staged r)(path := None)\<rparr> else r)"

definition route :: "RouterConfig \<Rightarrow> RouteEnv \<Rightarrow> InboundEvent \<Rightarrow> RouteOutcome router" where
  "route cfg env event r =
     (let (outcome, r') = route_impl cfg env event r
      in (outcome, case staged_attachment_path event of Some path \<Rightarrow> remove_staged_file (re_unlink_ok env) path r' | None \<Rightarrow> r'))"

section \<open>What every run keeps\<close>

text \<open>
  The pipeline changes the state through a few steps only. A relation between the state before and after that is
  reflexive, transitive and closed under these steps holds of every run, returned outcomes and errors alike. The
  first contract covers the bookkeeping around the session; the second also the writes to a session's store, for
  the sessions of \<open>T\<close> and inbound rows of \<open>W\<close>.
\<close>

definition admitted ::
  "RouterConfig \<Rightarrow> InboundEvent \<Rightarrow> MessagingGroupId \<Rightarrow> bool \<Rightarrow> MessagingGroupAgent \<Rightarrow> UserId option \<Rightarrow>
     ParsedCommand option \<Rightarrow> bool" where
  "admitted cfg event mg in_group w user command \<longleftrightarrow>
     (\<forall>reason. access_decision cfg mg w user \<noteq> GDeny reason) \<and>
     (\<forall>reason. scope_decision cfg event mg w user \<noteq> Some (SDeny reason)) \<and>
     (\<forall>reason. scope_decision cfg event mg w user \<noteq> Some (SPending reason)) \<and>
     \<not> approval_handled cfg event mg w user \<and>
     (command = None \<longrightarrow> mention_decision cfg event in_group w = Process)"

lemma admit_None_iff:
  assumes "admit cfg env event mg in_group w user command r = (Inr None, r')"
  shows "admitted cfg event mg in_group w user command"
  using assms
  by (auto simp: admit_def admitted_def and_then_Inr ret_def Let_def
      split: GateDecision.splits option.splits SenderScopeDecision.splits if_splits)
     (metis MentionDecision.exhaust)+

lemma check_at_state [simp]: "snd (check_at env p r) = r"
  by (simp add: check_at_def throw_def ret_def split: option.splits)

lemma find_for_agent_Some:
  "find_for_agent t agent mg thread = Some s \<Longrightarrow>
     s \<in> set t \<and> se_agent_group s = agent \<and> se_messaging_group s = mg \<and> se_thread s = thread"
proof -
  assume "find_for_agent t agent mg thread = Some s"
  then have "s \<in> set (order_by_desc se_created_at
      (filter (\<lambda>s. se_agent_group s = agent \<and> se_messaging_group s = mg \<and> se_thread s = thread) t))"
    by (auto simp: find_for_agent_def first_row_def simp del: set_order_by split: list.splits)
  then show ?thesis by simp
qed

lemma resolve_session_group:
  "resolve_session env event mg w r = (Inr s, r') \<Longrightarrow> ts_agent_group s = wi_agent_group w"
  by (auto simp: resolve_session_def new_session_def and_then_Inr reading_def ret_def throw_def modify_def
      create_session_def Let_def dest!: find_for_agent_Some split: option.splits prod.splits sum.splits if_splits)

locale pipeline_relation = run_relation R for R :: "RouterState \<Rightarrow> RouterState \<Rightarrow> bool" +
  assumes keep_debounce: "R r (r\<lparr>ro_debounce := d\<rparr>)"
    and keep_unregistered: "R r (r\<lparr>ro_unregistered := upsert_unregistered (ro_unregistered r) u now\<rparr>)"
    and keep_dropped: "R r (r\<lparr>ro_dropped := insert_dropped (ro_dropped r) x\<rparr>)"
    and keep_fanout: "R r (r\<lparr>ro_fanout := n\<rparr>)"
    and keep_sessions:
      "find_for_agent (ro_sessions r) (cs_agent_group q) (cs_messaging_group q) (cs_thread q) = None \<Longrightarrow>
       create_session (ro_sessions r) q i now = Inr (s, t) \<Longrightarrow> R r (r\<lparr>ro_sessions := t\<rparr>)"
    and keep_routing: "R r (update_store k (\<lambda>st. st\<lparr>st_routing := routing\<rparr>) r)"
    and keep_guarded: "always R (m :: FanoutOutcome router) \<Longrightarrow> always R (guarded sid m)"
begin

lemma keep_check [always_intros]: "always R (check_at env p)"
  by (simp add: always_def run_refl)

lemma keep_note_unregistered: "always R (note_unregistered env event mg w user decision)"
  unfolding note_unregistered_def
  by (auto split: option.splits intro!: always_intros always_modify keep_unregistered)

lemma keep_admit: "always R (admit cfg env event mg in_group w user command)"
  unfolding admit_def Let_def
  by (auto split: option.splits GateDecision.splits SenderScopeDecision.splits
      intro!: always_intros keep_note_unregistered)

lemma keep_record_drop: "always R (record_drop env event mg ag reason)"
  unfolding record_drop_def by (intro always_intros always_modify keep_dropped)

lemma keep_debounce_step: "always R (debounce_step env event)"
  unfolding debounce_step_def Let_def by (intro always_intros always_modify keep_debounce)

lemma keep_new_session:
  assumes "find_for_agent (ro_sessions r) (cs_agent_group q) (cs_messaging_group q) (cs_thread q) = None"
  shows "R r (snd (new_session env event q r))"
  unfolding new_session_def reading_def
proof (rule run_and_then, goal_cases)
  case (2 u r')
  then have r': "r' = r" by (metis check_at_state snd_conv)
  show ?case
  proof (cases "create_session (ro_sessions r) q (fe_session_id env) (fe_now env)")
    case (Inl e)
    then show ?thesis by (simp add: r' throw_def run_refl)
  next
    case (Inr st)
    obtain s t where st: "st = (s, t)" by fastforce
    have tail: "always R (and_then (check_at env AtSessionDir) (\<lambda>_. and_then (check_at env AtInboundPool) (\<lambda>_.
        and_then (check_at env AtWriteRouting) (\<lambda>_. and_then (modify (update_store (se_agent_group s, se_id s)
          (\<lambda>st. st\<lparr>st_routing := write_routing (st_routing st) (seed_routing event)\<rparr>)))
        (\<lambda>_. ret \<lparr>ts_agent_group = se_agent_group s, ts_id = se_id s\<rparr>)))))" (is "always R ?tail")
      unfolding write_routing_def by (intro always_intros always_modify keep_routing)
    have "R r (r\<lparr>ro_sessions := t\<rparr>)"
      using keep_sessions [OF assms] Inr st by blast
    moreover have "R (r\<lparr>ro_sessions := t\<rparr>) (snd (?tail (r\<lparr>ro_sessions := t\<rparr>)))"
      using tail unfolding always_def by blast
    ultimately have "R r (snd (?tail (r\<lparr>ro_sessions := t\<rparr>)))"
      by (rule run_trans)
    then show ?thesis
      using Inr by (simp add: r' st modify_then)
  qed
qed (simp add: run_refl)

lemma keep_resolve: "always R (resolve_session env event mg w)"
proof -
  obtain a b where key: "session_key event mg w = (a, b)" by fastforce
  have "R r (snd (resolve_session env event mg w r))" for r
    using keep_new_session
    by (auto simp: resolve_session_def key and_then_def reading_def check_at_def throw_def ret_def run_refl
        split: sum.splits option.splits)
  then show ?thesis by (simp add: always_def)
qed

lemma keep_route_one:
  assumes "\<And>s. admitted cfg event mg in_group w user command \<Longrightarrow> ts_agent_group s = wi_agent_group w \<Longrightarrow>
    source_session_for event \<noteq> Some (ts_id s) \<Longrightarrow> always R (serve env event s command)"
  shows "always R (route_one cfg env event mg in_group w user command)"
  unfolding route_one_def
proof (rule always_and_then_result [OF keep_admit], goal_cases)
  case (1 r0 refused r)
  show ?case
  proof (cases refused)
    case None
    then have adm: "admitted cfg event mg in_group w user command"
      using 1 by (auto dest: admit_None_iff)
    have "always R (and_then (resolve_session env event mg w) (\<lambda>s.
        if source_session_for event = Some (ts_id s) then ret (FDropped ReentryGuard)
        else guarded (ts_id s) (serve env event s command)))"
    proof (rule always_and_then_result [OF keep_resolve], goal_cases)
      case (1 r1 s r2)
      then have "ts_agent_group s = wi_agent_group w" by (rule resolve_session_group)
      then show ?case
        using keep_guarded [of "serve env event s command" "ts_id s"] assms [OF adm]
        by (auto simp: always_def ret_def run_refl)
    qed
    then show ?thesis using None by (simp add: always_def)
  qed (simp add: ret_def run_refl)
qed

lemma keep_fanout_loop:
  assumes "\<And>w env s. w \<in> set ws \<Longrightarrow> admitted cfg event (mg_id mg) (mg_is_group mg) w user command \<Longrightarrow>
    ts_agent_group s = wi_agent_group w \<Longrightarrow> source_session_for event \<noteq> Some (ts_id s) \<Longrightarrow>
    always R (serve env event s command)"
  shows "always R (fanout cfg envs event mg user command i ws sessions answered last_pending)"
  using assms
proof (induction ws arbitrary: i sessions answered last_pending)
  case Nil
  then show ?case by (auto split: option.splits intro!: always_intros)
next
  case (Cons w ws)
  have one: "always R (route_one cfg (envs i) event (mg_id mg) (mg_is_group mg) w user command)"
    using Cons.prems by (intro keep_route_one) auto
  have rest: "always R (fanout cfg envs event mg user command j ws ds as lp)" for j ds as lp
    using Cons.prems by (intro Cons.IH) auto
  show ?case
    using one rest
    by (auto split: FanoutOutcome.splits intro!: always_intros always_modify keep_fanout keep_record_drop)
qed

lemma keep_route_group:
  assumes "\<And>env s. source_session_for event \<noteq> Some (ts_id s) \<Longrightarrow>
    always R (serve env event s (parsed_detect event))"
  shows "always R (route_group cfg env event mg)"
  unfolding route_group_def Let_def
  by (auto split: option.splits GateDecision.splits
      intro!: always_intros keep_record_drop keep_fanout_loop assms)

lemma keep_route_impl:
  assumes "\<And>env s. source_session_for event \<noteq> Some (ts_id s) \<Longrightarrow>
    always R (serve env event s (parsed_detect event))"
  shows "always R (route_impl cfg env event)"
  unfolding route_impl_def
  by (intro always_intros keep_debounce_step keep_record_drop keep_route_group assms)

end

locale store_relation = pipeline_relation R for R +
  fixes T :: "StoreKey \<Rightarrow> bool" and W :: "WriteInbound \<Rightarrow> bool"
  assumes rows_delivered: "W (delivered_row env event command content)"
    and rows_clear: "W (clear_row env event)"
    and keep_metrics: "R r (r\<lparr>ro_metrics := m\<rparr>)"
    and keep_wakes: "R r (r\<lparr>ro_wakes := Suc (ro_wakes r)\<rparr>)"
    and keep_in: "T k \<Longrightarrow> W w \<Longrightarrow> insert_in (st_in (ro_stores r k)) w = Inr (seq, t) \<Longrightarrow>
      R r (update_store k (\<lambda>st. st\<lparr>st_in := t\<rparr>) r)"
    and keep_out: "T k \<Longrightarrow> insert_out (st_out (ro_stores r k)) v = Inr (seq', t') \<Longrightarrow>
      R r (update_store k (\<lambda>st. st\<lparr>st_out := t'\<rparr>) r)"
    and keep_inbox: "T k \<Longrightarrow> R r (update_store k (\<lambda>st. st\<lparr>st_inbox := b\<rparr>) r)"
    and keep_entries: "T k \<Longrightarrow> R r (update_store k (\<lambda>st. st\<lparr>st_entries := st_entries st @ es\<rparr>) r)"
    and keep_shell: "T k \<Longrightarrow> R r (update_store k (\<lambda>st. st\<lparr>st_shell := sh\<rparr>) r)"
begin

lemma keep_insert_in: "T (target_key s) \<Longrightarrow> W w \<Longrightarrow> always R (store_insert_in env s w)"
  unfolding store_insert_in_def
  by (intro always_and_then keep_check)
     (auto simp: always_def reading_def throw_def ret_def modify_then run_refl keep_in split: sum.splits)

lemma keep_insert_out: "T (target_key s) \<Longrightarrow> always R (store_insert_out env s w)"
  unfolding store_insert_out_def
  by (intro always_and_then keep_check)
     (auto simp: always_def reading_def throw_def ret_def modify_then run_refl keep_out split: sum.splits)

lemma keep_bump [always_intros]: "always R (bump_metric m)" "always R notify_wake"
  by (simp_all add: bump_metric_def notify_wake_def always_modify keep_metrics keep_wakes)

lemma keep_host_reply: "T (target_key s) \<Longrightarrow> always R (write_host_reply env event s txt)"
  unfolding write_host_reply_def by (intro always_intros keep_insert_out)

lemma keep_clear_row: "T (target_key s) \<Longrightarrow> always R (write_clear_row env event s)"
  unfolding write_clear_row_def by (intro always_intros keep_insert_in rows_clear)

lemma keep_switch: "T (target_key s) \<Longrightarrow> always R (answer_switch env event s target)"
  by (cases target)
     (auto simp: make_workspace_def write_shell_state_def
       intro!: always_intros always_modify keep_entries keep_shell keep_clear_row keep_host_reply)

lemma keep_deliver: "T (target_key s) \<Longrightarrow> always R (deliver env event s command)"
  unfolding deliver_def materialize_def Let_def
  by (intro always_intros always_modify keep_inbox keep_insert_in rows_delivered)

lemma keep_serve:
  assumes "T (target_key s)" shows "always R (serve env event s command)"
  unfolding serve_def answer_status_def answer_projects_def Let_def using assms
  by (auto split: option.splits ParsedCommand.splits SlashCommand.splits
      intro!: always_intros keep_host_reply keep_switch keep_deliver)

end

end
