(* ===== verification/Router_Facts.thy ===== *)
theory Router_Facts
  imports Router
begin

text \<open>
  What the inbound router guarantees. Six relations between the state before and after a route satisfy the contracts of
  theory \<open>Router\<close> (which queues change, conversations keep their sessions, configuration is only read, well-formedness,
  queues only grow, wakes match trigger rows); from them and from the log of rows the theorems follow: gates before
  rows, exact accounting of rows, one session per conversation, no lost and no spurious wake.
\<close>

section \<open>The in-flight guard\<close>

lemma guarded_busy: "sid \<in> ro_inflight r \<Longrightarrow> guarded sid m r = (Inl (InvalidWiring (lit ''re-entered in-flight session'')), r)"
  by (simp add: guarded_def enter_inflight_def and_then_def reading_def throw_def)

lemma guarded_free:
  assumes "sid \<notin> ro_inflight r" and "m (r\<lparr>ro_inflight := insert sid (ro_inflight r)\<rparr>) = (x, r')"
  shows "guarded sid m r = (x, r'\<lparr>ro_inflight := ro_inflight r' - {sid}\<rparr>)"
  using assms by (simp add: guarded_def enter_inflight_def and_then_def reading_def modify_def)

lemma always_guarded:
  assumes "run_relation R" and "\<And>r x. R r (r\<lparr>ro_inflight := x\<rparr>)" and "always R m"
  shows "always R (guarded sid m)"
proof -
  have "R r (snd (guarded sid m r))" for r
  proof (cases "sid \<in> ro_inflight r")
    case True
    then show ?thesis
      using assms(1) by (simp add: guarded_busy run_relation.run_refl)
  next
    case False
    let ?r = "r\<lparr>ro_inflight := insert sid (ro_inflight r)\<rparr>"
    obtain x r' where m: "m ?r = (x, r')" by fastforce
    have "R r ?r" by (rule assms(2))
    moreover have "R ?r r'" using assms(3) m by (metis always_def snd_conv)
    ultimately have "R r (r'\<lparr>ro_inflight := ro_inflight r' - {sid}\<rparr>)"
      using assms(1,2) run_relation.run_trans by metis
    then show ?thesis by (simp add: guarded_free [of sid r m, OF False m])
  qed
  then show ?thesis by (simp add: always_def)
qed

section \<open>Relations of the router\<close>

definition queues :: "RouterState \<Rightarrow> StoreKey \<Rightarrow> MessageInRow list \<times> MessageOutRow list" where
  "queues r k = (st_in (ro_stores r k), st_out (ro_stores r k))"

lemma queues_update_store [simp]:
  "queues (update_store k f r) = (queues r)(k := (st_in (f (ro_stores r k)), st_out (f (ro_stores r k))))"
  by (auto simp: queues_def update_store_def)

text \<open>\<open>only_queues P\<close>: only the queues of the sessions in \<open>P\<close> change.\<close>

definition only_queues :: "(StoreKey \<Rightarrow> bool) \<Rightarrow> RouterState \<Rightarrow> RouterState \<Rightarrow> bool" where
  "only_queues P r r' \<longleftrightarrow> (\<forall>k. \<not> P k \<longrightarrow> queues r' k = queues r k)"

lemma only_queues_run: "run_relation (only_queues P)"
  by unfold_locales (auto simp: only_queues_def)

interpretation queue_frame: store_relation "only_queues P" P "\<lambda>_. True" for P
proof -
  have "queues (r\<lparr>ro_inflight := x\<rparr>) = queues r" for r x
    by (simp add: queues_def fun_eq_iff)
  then have "always (only_queues P) (m :: FanoutOutcome router) \<Longrightarrow> always (only_queues P) (guarded sid m)" for m sid
    by (intro always_guarded only_queues_run) (simp_all add: only_queues_def)
  then show "store_relation (only_queues P) P (\<lambda>_. True)"
    by unfold_locales (auto simp: only_queues_def queues_def update_store_def)
qed

text \<open>\<open>settled\<close>: a conversation that has a session keeps it.\<close>

definition settled :: "RouterState \<Rightarrow> RouterState \<Rightarrow> bool" where
  "settled r r' \<longleftrightarrow> (\<forall>agent mg thread s. find_for_agent (ro_sessions r) agent mg thread = Some s \<longrightarrow>
     find_for_agent (ro_sessions r') agent mg thread = Some s)"

lemma find_for_agent_append:
  "(agent, mg, thread) \<noteq> (se_agent_group s, se_messaging_group s, se_thread s) \<Longrightarrow>
     find_for_agent (t @ [s]) agent mg thread = find_for_agent t agent mg thread"
  by (auto simp: find_for_agent_def)

lemma create_session_settles:
  assumes "create_session t q i now = Inr (s, t')"
  shows "t' = t @ [s]" "se_agent_group s = cs_agent_group q" "se_messaging_group s = cs_messaging_group q"
    "se_thread s = cs_thread q" "se_id s = i" "i \<notin> se_id ` set t"
  using assms by (auto simp: create_session_def Let_def split: if_splits)

lemma settled_run: "run_relation settled"
  by unfold_locales (auto simp: settled_def)

interpretation conversations: store_relation settled "\<lambda>_. True" "\<lambda>_. True"
proof -
  have g: "always settled (m :: FanoutOutcome router) \<Longrightarrow> always settled (guarded sid m)" for m sid
    by (intro always_guarded settled_run) (simp_all add: settled_def)
  have c: "settled r (r\<lparr>ro_sessions := t\<rparr>)"
    if "find_for_agent (ro_sessions r) (cs_agent_group q) (cs_messaging_group q) (cs_thread q) = None"
      and "create_session (ro_sessions r) q i now = Inr (s, t)" for r q i now s t
    unfolding settled_def
  proof (intro allI impI)
    fix agent mg thread x
    assume x: "find_for_agent (ro_sessions r) agent mg thread = Some x"
    note new = create_session_settles [OF that(2)]
    have "(agent, mg, thread) \<noteq> (se_agent_group s, se_messaging_group s, se_thread s)"
      using x that(1) new(2-4) by auto
    then show "find_for_agent (ro_sessions (r\<lparr>ro_sessions := t\<rparr>)) agent mg thread = Some x"
      using x new(1) by (simp add: find_for_agent_append)
  qed
  show "store_relation settled (\<lambda>_. True) (\<lambda>_. True)"
    using g c by unfold_locales (auto simp: settled_def update_store_def)
qed

text \<open>\<open>undisturbed\<close>: the configuration tables and the staged downloads are read only, and the in-flight set is restored.\<close>

definition undisturbed :: "RouterState \<Rightarrow> RouterState \<Rightarrow> bool" where
  "undisturbed r r' \<longleftrightarrow> ro_groups r' = ro_groups r \<and> ro_wirings r' = ro_wirings r \<and>
     ro_agent_names r' = ro_agent_names r \<and> ro_staged r' = ro_staged r \<and> ro_inflight r' = ro_inflight r"

lemma undisturbed_guarded:
  assumes "always undisturbed m" shows "always undisturbed (guarded sid m)"
proof -
  have "undisturbed r (snd (guarded sid m r))" for r
  proof (cases "sid \<in> ro_inflight r")
    case True
    then show ?thesis by (simp add: guarded_busy undisturbed_def)
  next
    case False
    obtain x r' where m: "m (r\<lparr>ro_inflight := insert sid (ro_inflight r)\<rparr>) = (x, r')" by fastforce
    then have "undisturbed (r\<lparr>ro_inflight := insert sid (ro_inflight r)\<rparr>) r'"
      using assms by (metis always_def snd_conv)
    then show ?thesis
      using False by (simp add: guarded_free [of sid r m, OF False m] undisturbed_def)
  qed
  then show ?thesis by (simp add: always_def)
qed

interpretation configuration: store_relation undisturbed "\<lambda>_. True" "\<lambda>_. True"
  by unfold_locales (auto simp: undisturbed_def update_store_def intro: undisturbed_guarded)

text \<open>\<open>router_wf\<close>: what the tables and the queues of every session satisfy.\<close>

definition router_wf :: "RouterState \<Rightarrow> bool" where
  "router_wf r \<longleftrightarrow> distinct (map se_id (ro_sessions r)) \<and> groups_wf (ro_groups r) \<and> wirings_wf (ro_wirings r) \<and>
     (\<forall>k. messages_in_wf (st_in (ro_stores r k)) \<and> messages_out_wf (st_out (ro_stores r k)))"

definition keeps_wf :: "RouterState \<Rightarrow> RouterState \<Rightarrow> bool" where
  "keeps_wf r r' \<longleftrightarrow> (router_wf r \<longrightarrow> router_wf r')"

lemma keeps_wf_run: "run_relation keeps_wf"
  by unfold_locales (auto simp: keeps_wf_def)

interpretation wellformed: store_relation keeps_wf "\<lambda>_. True" "\<lambda>_. True"
proof -
  have g: "always keeps_wf (m :: FanoutOutcome router) \<Longrightarrow> always keeps_wf (guarded sid m)" for m sid
    by (intro always_guarded keeps_wf_run) (simp_all add: keeps_wf_def router_wf_def)
  have c: "keeps_wf r (r\<lparr>ro_sessions := t\<rparr>)" if "create_session (ro_sessions r) q i now = Inr (s, t)" for r q i now s t
    using create_session_settles [OF that] by (auto simp: keeps_wf_def router_wf_def)
  have i: "keeps_wf r (update_store k (\<lambda>st. st\<lparr>st_in := t\<rparr>) r)"
    if "insert_in (st_in (ro_stores r k)) w = Inr (seq, t)" for r k w seq t
    using that by (auto simp: keeps_wf_def router_wf_def update_store_def insert_in_def dest: insert_impl_wf)
  have o: "keeps_wf r (update_store k (\<lambda>st. st\<lparr>st_out := t\<rparr>) r)"
    if "insert_out (st_out (ro_stores r k)) w = Inr (seq, t)" for r k w seq t
    using that by (auto simp: keeps_wf_def router_wf_def update_store_def dest: insert_out_wf)
  show "store_relation keeps_wf (\<lambda>_. True) (\<lambda>_. True)"
    using g c i o by unfold_locales (auto simp: keeps_wf_def router_wf_def update_store_def)
qed

text \<open>\<open>appends\<close>: inbound queues only grow, by rows the next poll serves.\<close>

definition pollable :: "MessageInRow \<Rightarrow> bool" where
  "pollable m \<longleftrightarrow> in_status m = pending \<and> \<not> on_wake m \<and> process_after m = None"

definition appends :: "RouterState \<Rightarrow> RouterState \<Rightarrow> bool" where
  "appends r r' \<longleftrightarrow>
     (\<forall>k. \<exists>new. st_in (ro_stores r' k) = st_in (ro_stores r k) @ new \<and> list_all pollable new)"

lemma appends_refl: "st_in (ro_stores r' k) = st_in (ro_stores r k) \<Longrightarrow>
    \<exists>new. st_in (ro_stores r' k) = st_in (ro_stores r k) @ new \<and> list_all pollable new"
  by simp

lemma appends_same: "(\<And>k. st_in (ro_stores r' k) = st_in (ro_stores r k)) \<Longrightarrow> appends r r'"
  unfolding appends_def by (blast intro: appends_refl)

lemma appends_run: "run_relation appends"
proof
  show "appends s s" for s by (simp add: appends_same)
  fix s t u assume a: "appends s t" "appends t u"
  show "appends s u"
    unfolding appends_def
  proof
    fix k
    obtain new1 new2 where "st_in (ro_stores t k) = st_in (ro_stores s k) @ new1" "list_all pollable new1"
      "st_in (ro_stores u k) = st_in (ro_stores t k) @ new2" "list_all pollable new2"
      using a unfolding appends_def by meson
    then show "\<exists>new. st_in (ro_stores u k) = st_in (ro_stores s k) @ new \<and> list_all pollable new"
      by (intro exI [of _ "new1 @ new2"]) simp
  qed
qed

definition plain_row :: "WriteInbound \<Rightarrow> bool" where
  "plain_row w \<longleftrightarrow> \<not> w_on_wake w \<and> w_process_after w = None"

interpretation appending: store_relation appends "\<lambda>_. True" plain_row
proof -
  have g: "always appends (m :: FanoutOutcome router) \<Longrightarrow> always appends (guarded sid m)" for m sid
    by (intro always_guarded appends_run) (simp_all add: appends_same)
  have rows: "plain_row (delivered_row env event command content)" "plain_row (clear_row env event)" for env event command content
    by (simp_all add: plain_row_def delivered_row_def clear_row_def Let_def split_beta)
  have i: "appends r (update_store k (\<lambda>st. st\<lparr>st_in := t\<rparr>) r)"
    if "plain_row w" "insert_in (st_in (ro_stores r k)) w = Inr (seq, t)" for r k w seq t
  proof -
    have "t = st_in (ro_stores r k) @ [inbound_row w seq]" "pollable (inbound_row w seq)"
      using that by (auto simp: insert_in_def insert_impl_def Let_def plain_row_def pollable_def split: if_splits)
    then show ?thesis by (auto simp: appends_def update_store_def)
  qed
  show "store_relation appends (\<lambda>_. True) plain_row"
    using g rows i appends_run unfolding store_relation_def store_relation_axioms_def pipeline_relation_def pipeline_relation_axioms_def
    by (auto simp: update_store_def intro!: appends_same)
qed

text \<open>\<open>woken\<close>: the container manager is woken exactly when a trigger row was written.\<close>

definition triggers :: "RouterState \<Rightarrow> StoreKey \<Rightarrow> MessageInRow list" where
  "triggers r k = filter in_trigger (st_in (ro_stores r k))"

definition woken :: "RouterState \<Rightarrow> RouterState \<Rightarrow> bool" where
  "woken r r' \<longleftrightarrow> ro_wakes r \<le> ro_wakes r' \<and> (\<forall>k. prefix (triggers r k) (triggers r' k)) \<and>
     (ro_wakes r' = ro_wakes r \<longleftrightarrow> (\<forall>k. triggers r' k = triggers r k))"

lemma woken_run: "run_relation woken"
proof
  show "woken s s" for s by (simp add: woken_def)
  fix s t u assume st: "woken s t" and tu: "woken t u"
  have pre: "prefix (triggers s k) (triggers t k)" "prefix (triggers t k) (triggers u k)" for k
    using st tu unfolding woken_def by blast+
  have "(triggers u k = triggers s k) = (triggers t k = triggers s k \<and> triggers u k = triggers t k)" for k
    using pre [of k] by (metis prefix_order.antisym)
  then have "(\<forall>k. triggers u k = triggers s k) = ((\<forall>k. triggers t k = triggers s k) \<and> (\<forall>k. triggers u k = triggers t k))"
    by blast
  moreover have "(ro_wakes u = ro_wakes s) = (ro_wakes t = ro_wakes s \<and> ro_wakes u = ro_wakes t)"
    using st tu by (auto simp: woken_def)
  ultimately show "woken s u"
    using st tu pre prefix_order.trans unfolding woken_def by (metis le_trans)
qed

lemma woken_same: "ro_wakes r' = ro_wakes r \<Longrightarrow> triggers r' = triggers r \<Longrightarrow> woken r r'"
  by (simp add: woken_def)

lemma store_insert_in_Inr:
  assumes "store_insert_in env s w r = (Inr seq, r')"
  shows "r' = update_store (target_key s) (\<lambda>st. st\<lparr>st_in := st_in st @ [inbound_row w seq]\<rparr>) r"
    and "seq = next_even_seq (st_in (ro_stores r (target_key s)))"
  using assms
  by (auto simp: store_insert_in_def and_then_Inr reading_def throw_def ret_def modify_def insert_in_def insert_impl_def
      Let_def check_at_def update_store_def split: sum.splits if_splits option.splits)

lemma store_insert_out_Inr:
  assumes "store_insert_out env s w r = (Inr seq, r')"
  shows "r' = update_store (target_key s) (\<lambda>st. st\<lparr>st_out := st_out st @ [outbound_row w seq]\<rparr>) r"
    and "seq = next_odd_seq (st_out (ro_stores r (target_key s)))"
  using assms
  by (auto simp: store_insert_out_def and_then_Inr reading_def throw_def ret_def modify_def insert_out_def
      Let_def check_at_def update_store_def split: sum.splits if_splits option.splits)

lemma store_insert_in_Inl: "store_insert_in env s w r = (Inl e, r') \<Longrightarrow> r' = r"
  by (auto simp: store_insert_in_def and_then_def reading_def throw_def ret_def modify_def check_at_def
      split: sum.splits if_splits option.splits prod.splits)

lemma woken_insert:
  assumes "store_insert_in env s w r = (Inr seq, r1)"
    and "ro_stores r2 = ro_stores r1" and "ro_wakes r2 = ro_wakes r1 + (if w_trigger w then 1 else 0)"
  shows "woken r r2"
proof -
  have "triggers r2 k = (if k = target_key s \<and> w_trigger w then triggers r k @ [inbound_row w seq] else triggers r k)" for k
    using assms(2) store_insert_in_Inr(1) [OF assms(1)] by (simp add: triggers_def update_store_def)
  moreover have "ro_wakes r1 = ro_wakes r"
    using store_insert_in_Inr(1) [OF assms(1)] by (simp add: update_store_def)
  ultimately show ?thesis
    using assms(3) unfolding woken_def by (metis (full_types) Suc_eq_plus1 add_0_right append_self_conv
        le_Suc_eq list.distinct(1) n_not_Suc_n nle_le prefixI prefix_order.refl)
qed

interpretation waking: pipeline_relation woken
proof -
  have g: "always woken (m :: FanoutOutcome router) \<Longrightarrow> always woken (guarded sid m)" for m sid
    by (intro always_guarded woken_run) (auto simp: triggers_def fun_eq_iff intro: woken_same)
  show "pipeline_relation woken"
    using woken_run g unfolding pipeline_relation_def pipeline_relation_axioms_def
    by (auto simp: triggers_def fun_eq_iff update_store_def intro!: woken_same)
qed

lemma woken_insert_wake:
  assumes "\<And>seq r. ro_stores (snd (f seq r)) = ro_stores r \<and>
    ro_wakes (snd (f seq r)) = ro_wakes r + (if w_trigger w then 1 else 0)"
  shows "always woken (and_then (store_insert_in env s w) f)"
proof -
  have "woken r (snd (and_then (store_insert_in env s w) f r))" for r
  proof (cases "store_insert_in env s w r")
    case (Pair x r1)
    show ?thesis
    proof (cases x)
      case (Inl e)
      then show ?thesis
        using Pair store_insert_in_Inl [of env s w r e r1]
        by (simp add: and_then_def run_relation.run_refl [OF woken_run])
    next
      case (Inr seq)
      then show ?thesis
        using woken_insert [of env s w r seq r1] Pair assms [of seq r1] by (simp add: and_then_def)
    qed
  qed
  then show ?thesis by (simp add: always_def)
qed

lemmas stateful_defs = and_then_def modify_def ret_def throw_def reading_def bump_metric_def notify_wake_def

lemma woken_clear_row: "always woken (write_clear_row env event s)"
  unfolding write_clear_row_def
  by (intro waking.always_and_then waking.keep_check woken_insert_wake) (simp add: clear_row_def stateful_defs)

lemma woken_store_step [always_intros]:
  assumes "\<And>st. st_in (f st) = st_in st"
  shows "always woken (modify (update_store k f))"
  using assms by (intro waking.always_modify woken_same) (auto simp: update_store_def triggers_def)

lemma woken_deliver: "always woken (deliver env event s command)"
proof -
  have tail: "always woken (and_then (store_insert_in env s w) (\<lambda>seq.
        and_then (if command = Some (Bare Stop) then bump_metric (ControlRowMetric (lit ''stop'')) else ret ()) (\<lambda>_.
        and_then (bump_metric (InboundMetric (ev_channel_type event))) (\<lambda>_.
        and_then (if w_trigger w then notify_wake else ret ()) (\<lambda>_. ret (y seq))))))" for w y
    by (intro woken_insert_wake) (simp add: stateful_defs)
  show ?thesis
    unfolding deliver_def materialize_def Let_def
    by (intro always_intros waking.keep_check tail) simp_all
qed

lemma woken_host_reply: "always woken (write_host_reply env event s txt)"
proof -
  have "always woken (store_insert_out env s w)" for w
    unfolding store_insert_out_def by (intro always_intros waking.keep_check) simp_all
  then show ?thesis
    unfolding write_host_reply_def by (intro always_intros waking.keep_check)
qed

lemma woken_serve: "always woken (serve env event s command)"
proof -
  have bump: "always woken (bump_metric m)" for m
    unfolding bump_metric_def by (intro waking.always_modify woken_same) (auto simp: triggers_def)
  have switch: "always woken (answer_switch env event s target)" for target
    by (cases target) (auto simp: make_workspace_def write_shell_state_def
        intro!: always_intros waking.keep_check woken_clear_row woken_host_reply)
  show ?thesis
    unfolding serve_def answer_status_def answer_projects_def Let_def
    by (auto split: option.splits ParsedCommand.splits SlashCommand.splits
        intro!: always_intros waking.keep_check bump switch woken_host_reply woken_deliver)
qed

section \<open>From the pipeline to a route\<close>

lemma route_state:
  "snd (route cfg env event r) =
     (case staged_attachment_path event of
        Some path \<Rightarrow> remove_staged_file (re_unlink_ok env) path (snd (route_impl cfg env event r))
      | None \<Rightarrow> snd (route_impl cfg env event r))"
  by (simp add: route_def Let_def split_beta)

lemma fst_route: "fst (route cfg env event r) = fst (route_impl cfg env event r)"
  by (simp add: route_def Let_def split_beta)

lemma route_always:
  assumes "run_relation R" and "\<And>r f. R r (r\<lparr>ro_staged := f\<rparr>)" and "always R (route_impl cfg env event)"
  shows "always R (route cfg env event)"
proof -
  have "R r (snd (route_impl cfg env event r))" for r
    using assms(3) by (simp add: always_def)
  then show ?thesis
    using assms(1,2) unfolding always_def route_state
    by (auto simp: remove_staged_file_def split: option.splits intro: run_relation.run_trans)
qed

definition passed_gates :: "RouterConfig \<Rightarrow> RouteEnv \<Rightarrow> InboundEvent \<Rightarrow> RouterState \<Rightarrow> StoreKey \<Rightarrow> bool" where
  "passed_gates cfg env event r k \<longleftrightarrow>
     (let user = run_sender_resolver (rc_hooks cfg) event
      in \<not> fst (check_and_record (ro_debounce r) (debounce_key event) (re_instant env)) \<and>
         (\<forall>reason. channel_decision cfg event user \<noteq> Some (GDeny reason)) \<and>
         source_session_for event \<noteq> Some (snd k) \<and>
         (\<exists>mg w. get_by_platform (ro_groups r) (ev_channel_type event) (ev_platform_id event) = Some mg \<and>
            w \<in> set (list_for_mg (ro_wirings r) (mg_id mg)) \<and> wi_agent_group w = fst k \<and>
            admitted cfg event (mg_id mg) (mg_is_group mg) w user (parsed_detect event)))"

lemma route_group_denied:
  "channel_decision cfg event (run_sender_resolver (rc_hooks cfg) event) = Some (GDeny reason) \<Longrightarrow>
     route_group cfg env event mg =
       and_then (record_drop (re_top env) event (Some (mg_id mg)) None reason) (\<lambda>_. ret (Dropped (AccessDenied reason)))"
  by (simp add: route_group_def)

lemma route_group_open:
  assumes "\<forall>reason. channel_decision cfg event (run_sender_resolver (rc_hooks cfg) event) \<noteq> Some (GDeny reason)"
  shows "route_group cfg env event mg = and_then (check_at (re_top env) AtListWirings) (\<lambda>_. reading (\<lambda>r.
    if list_for_mg (ro_wirings r) (mg_id mg) = [] then
      and_then (record_drop (re_top env) event (Some (mg_id mg)) None (lit ''no_agents'')) (\<lambda>_. ret (Dropped NoAgents))
    else fanout cfg (re_fan env) event mg (run_sender_resolver (rc_hooks cfg) event) (parsed_detect event) 0
           (list_for_mg (ro_wirings r) (mg_id mg)) [] [] None))"
  using assms unfolding route_group_def Let_def by (auto split: option.splits GateDecision.splits)

lemma only_queues_route_group:
  assumes "\<not> fst (check_and_record (ro_debounce r) (debounce_key event) (re_instant env))"
    and "get_by_platform (ro_groups r) (ev_channel_type event) (ev_platform_id event) = Some mg"
    and "ro_wirings r1 = ro_wirings r"
  shows "only_queues (passed_gates cfg env event r) r1 (snd (route_group cfg env event mg r1))"
proof -
  let ?user = "run_sender_resolver (rc_hooks cfg) event"
  have loop: "always (only_queues (passed_gates cfg env event r))
      (fanout cfg (re_fan env) event mg ?user (parsed_detect event) 0 (list_for_mg (ro_wirings r) (mg_id mg)) [] [] None)"
    if "\<forall>reason. channel_decision cfg event ?user \<noteq> Some (GDeny reason)"
    using that assms
    by (intro queue_frame.keep_fanout_loop queue_frame.keep_serve)
       (auto simp: passed_gates_def target_key_def Let_def)
  show ?thesis
  proof (cases "\<exists>reason. channel_decision cfg event ?user = Some (GDeny reason)")
    case True
    moreover have "always (only_queues (passed_gates cfg env event r))
        (and_then (record_drop (re_top env) event (Some (mg_id mg)) None reason) (\<lambda>_. ret (Dropped (AccessDenied reason))))" for reason
      by (intro always_intros queue_frame.keep_record_drop)
    ultimately show ?thesis by (auto simp: route_group_denied always_def)
  next
    case False
    then have "route_group cfg env event mg = and_then (check_at (re_top env) AtListWirings) (\<lambda>_. reading (\<lambda>r.
        if list_for_mg (ro_wirings r) (mg_id mg) = [] then
          and_then (record_drop (re_top env) event (Some (mg_id mg)) None (lit ''no_agents'')) (\<lambda>_. ret (Dropped NoAgents))
        else fanout cfg (re_fan env) event mg ?user (parsed_detect event) 0 (list_for_mg (ro_wirings r) (mg_id mg)) [] [] None))"
      by (intro route_group_open) simp
    moreover have "only_queues (passed_gates cfg env event r) r1 (snd (\<dots> r1))"
    proof (rule queue_frame.run_and_then, goal_cases)
      case (2 u r2)
      then have "r2 = r1" by (metis check_at_state snd_conv)
      moreover have "always (only_queues (passed_gates cfg env event r))
          (and_then (record_drop (re_top env) event (Some (mg_id mg)) None (lit ''no_agents'')) (\<lambda>_. ret (Dropped NoAgents)))"
        by (intro always_intros queue_frame.keep_record_drop)
      ultimately show ?case
        using loop False assms(3) by (simp add: reading_def always_def)
    qed (simp add: queue_frame.run_refl)
    ultimately show ?thesis by simp
  qed
qed

lemma only_queues_route_impl: "only_queues (passed_gates cfg env event r) r (snd (route_impl cfg env event r))"
  unfolding route_impl_def
proof (rule queue_frame.run_and_then, goal_cases)
  case 1
  then show ?case using queue_frame.keep_debounce_step by (simp add: always_def)
next
  case (2 dup r1)
  then have dup: "dup = fst (check_and_record (ro_debounce r) (debounce_key event) (re_instant env))"
    and same: "ro_groups r1 = ro_groups r" "ro_wirings r1 = ro_wirings r"
    by (auto simp: debounce_step_def reading_def and_then_def modify_def ret_def Let_def split: prod.splits)
  have drop: "always (only_queues (passed_gates cfg env event r))
      (and_then (record_drop (re_top env) event None None (lit ''no_messaging_group'')) (\<lambda>_. ret (Dropped NoMessagingGroup)))"
    by (intro always_intros queue_frame.keep_record_drop)
  show ?case
  proof (cases dup)
    case True
    then show ?thesis by (simp add: ret_def queue_frame.run_refl)
  next
    case False
    have "only_queues (passed_gates cfg env event r) r1
        (snd (and_then (check_at (re_top env) AtGetGroup) (\<lambda>_. reading (\<lambda>r.
          case get_by_platform (ro_groups r) (ev_channel_type event) (ev_platform_id event) of
            None \<Rightarrow>
              and_then (record_drop (re_top env) event None None (lit ''no_messaging_group''))
                (\<lambda>_. ret (Dropped NoMessagingGroup))
          | Some mg \<Rightarrow> route_group cfg env event mg)) r1))"
    proof (rule queue_frame.run_and_then, goal_cases)
      case (2 u r2)
      then have "r2 = r1" by (metis check_at_state snd_conv)
      then show ?case
        using False dup same drop only_queues_route_group [where cfg = cfg and env = env and event = event and r = r]
        by (simp add: reading_def always_def split: option.splits)
    qed (simp add: queue_frame.run_refl)
    then show ?thesis using False by simp
  qed
qed

section \<open>Who reaches a session\<close>

text \<open>
  C2: No row without the gates. Whatever a route returns, an outcome or an error, a queue of a session changes
  only when the event is not a duplicate, the channel gate does not deny it, and the chat is wired to the
  session's agent group by a wiring that admits it: the access gate does not deny, the sender scope neither
  denies nor defers, no approval handler takes it, and it is a command or passes the mention gate. An event
  that a session produced itself never reaches that session.
\<close>

theorem routed_rows_pass_the_gates:
  assumes "queues (snd (route cfg env event r)) k \<noteq> queues r k"
  shows "passed_gates cfg env event r k"
proof -
  have "queues (snd (route cfg env event r)) = queues (snd (route_impl cfg env event r))"
    by (simp add: route_state remove_staged_file_def queues_def fun_eq_iff split: option.splits)
  then show ?thesis
    using assms only_queues_route_impl unfolding only_queues_def by metis
qed

text \<open>
  C29: The router's tables stay well formed through every route, also one that ends in an error: session ids, chat
  keys and wiring keys stay unique, and every session's inbound queue keeps distinct ids and strictly increasing
  even sequence numbers, its outbound queue odd ones.
\<close>

theorem route_keeps_wf:
  assumes "router_wf r" shows "router_wf (snd (route cfg env event r))"
proof -
  have "always keeps_wf (route cfg env event)"
    by (intro route_always keeps_wf_run wellformed.keep_route_impl wellformed.keep_serve)
       (simp_all add: keeps_wf_def router_wf_def)
  then show ?thesis using assms by (simp add: always_def keeps_wf_def)
qed

text \<open>
  C24: The container manager is woken exactly when there is work: a route bumps the wake handle if and only if it
  wrote a trigger row to some session's inbound queue, also when it ends in an error.
\<close>

theorem wake_iff_trigger_row:
  "ro_wakes (snd (route cfg env event r)) = ro_wakes r \<longleftrightarrow>
     (\<forall>k. triggers (snd (route cfg env event r)) k = triggers r k)"
proof -
  have "woken q (q\<lparr>ro_staged := f\<rparr>)" for q f
    by (rule woken_same) (auto simp: triggers_def)
  then have "always woken (route cfg env event)"
    by (intro route_always woken_run waking.keep_route_impl woken_serve)
  then have "woken r (snd (route cfg env event r))" by (simp add: always_def)
  then show ?thesis unfolding woken_def by blast
qed

text \<open>
  A route is transparent for what it does not own: the chats, the wirings and the agent groups are only read, the
  in-flight set is restored, and the staged download of the event is removed whatever the outcome (when the file can
  be removed) while every other staged download stays.
\<close>

lemma route_frame:
  fixes cfg env event r defines "r' \<equiv> snd (route cfg env event r)"
  shows "ro_groups r' = ro_groups r \<and> ro_wirings r' = ro_wirings r \<and> ro_agent_names r' = ro_agent_names r \<and>
    ro_inflight r' = ro_inflight r \<and>
    ro_staged r' = (case staged_attachment_path event of
       Some path \<Rightarrow> if re_unlink_ok env then (ro_staged r)(path := None) else ro_staged r
     | None \<Rightarrow> ro_staged r)"
proof -
  have "undisturbed r (snd (route_impl cfg env event r))"
    using configuration.keep_route_impl [OF configuration.keep_serve] by (simp add: always_def)
  then show ?thesis
    unfolding r'_def route_state by (auto simp: undisturbed_def remove_staged_file_def split: option.splits)
qed

section \<open>Conversations\<close>

lemma first_row_None: "first_row xs = None \<longleftrightarrow> xs = []"
  by (auto simp: first_row_def split: list.splits)

lemma order_by_desc_Nil: "order_by_desc f xs = [] \<longleftrightarrow> xs = []"
  by (metis set_empty set_order_by(2))

lemma resolve_session_finds:
  assumes "resolve_session env event mg w r = (Inr s, r')"
  shows "\<exists>row. find_for_agent (ro_sessions r') (wi_agent_group w) (fst (session_key event mg w)) (snd (session_key event mg w)) =
    Some row \<and> ts_agent_group s = se_agent_group row \<and> ts_id s = se_id row"
proof (cases "find_for_agent (ro_sessions r) (wi_agent_group w) (fst (session_key event mg w)) (snd (session_key event mg w))")
  case (Some row)
  then show ?thesis
    using assms by (auto simp: resolve_session_def and_then_Inr reading_def ret_def check_at_def throw_def split_beta
        split: option.splits)
next
  case None
  let ?q = "\<lparr>cs_agent_group = wi_agent_group w, cs_messaging_group = fst (session_key event mg w),
    cs_thread = snd (session_key event mg w), cs_provider = None, cs_source = None\<rparr>"
  obtain r1 where r1: "new_session env event ?q r1 = (Inr s, r')" "r1 = r"
    using assms None by (auto simp: resolve_session_def and_then_Inr reading_def check_at_def ret_def throw_def split_beta
        split: option.splits)
  then obtain row where row: "create_session (ro_sessions r) ?q (fe_session_id env) (fe_now env) = Inr (row, ro_sessions r')"
    "ts_agent_group s = se_agent_group row" "ts_id s = se_id row"
    by (auto simp: new_session_def and_then_Inr reading_def check_at_def ret_def throw_def modify_def update_store_def
        split: option.splits sum.splits)
  have none: "filter (\<lambda>x. se_agent_group x = wi_agent_group w \<and> se_messaging_group x = fst (session_key event mg w) \<and>
      se_thread x = snd (session_key event mg w)) (ro_sessions r) = []"
    using None by (simp add: find_for_agent_def first_row_None order_by_desc_Nil)
  note new = create_session_settles [OF row(1)]
  show ?thesis
    using none new row(2,3) by (simp add: find_for_agent_def first_row_def order_by_desc_def)
qed

definition route_all :: "RouterConfig \<Rightarrow> (RouteEnv \<times> InboundEvent) list \<Rightarrow> RouterState \<Rightarrow> RouterState" where
  "route_all cfg events r = fold (\<lambda>(env, event) r. snd (route cfg env event r)) events r"

lemma route_all_settled: "settled r (route_all cfg events r)"
proof (induction events arbitrary: r)
  case (Cons x events)
  obtain env event where x: "x = (env, event)" by fastforce
  have "always settled (route cfg env event)"
    by (intro route_always settled_run conversations.keep_route_impl conversations.keep_serve) (simp_all add: settled_def)
  then have "settled r (snd (route cfg env event r))" by (simp add: always_def)
  moreover have "settled (snd (route cfg env event r)) (route_all cfg events (snd (route cfg env event r)))"
    by (rule Cons.IH)
  ultimately show ?case
    by (simp add: route_all_def x) (rule conversations.run_trans)
qed (simp add: route_all_def settled_def)

lemma route_all_wf: "router_wf r \<Longrightarrow> router_wf (route_all cfg events r)"
  unfolding route_all_def
proof (induction events arbitrary: r)
  case (Cons x events)
  have "keeps_wf r (snd (route cfg (fst x) (snd x) r))"
    using route_always [OF keeps_wf_run _ wellformed.keep_route_impl [OF wellformed.keep_serve]]
    by (simp add: always_def keeps_wf_def router_wf_def)
  then show ?case using Cons by (simp add: keeps_wf_def split_beta)
qed simp

text \<open>
  C20: Conversations and sessions correspond: take a session an event resolves to, route any events in between, and
  resolve a second event. Both get the same session if and only if they have the same agent group and the same
  conversation key of their session modes (the chat, the chat and its thread, or the agent alone). So a
  conversation keeps its session, and two conversations never share one.
\<close>

theorem same_conversation_same_session:
  assumes "router_wf r1" and first: "resolve_session env1 e1 mg1 w1 r = (Inr s1, r1)"
    and "r2 = route_all cfg events r1" and second: "resolve_session env2 e2 mg2 w2 r2 = (Inr s2, r3)"
  shows "s1 = s2 \<longleftrightarrow>
    (wi_agent_group w1, session_key e1 mg1 w1) = (wi_agent_group w2, session_key e2 mg2 w2)"
proof -
  obtain row1 where row1: "find_for_agent (ro_sessions r1) (wi_agent_group w1) (fst (session_key e1 mg1 w1))
      (snd (session_key e1 mg1 w1)) = Some row1" "ts_agent_group s1 = se_agent_group row1" "ts_id s1 = se_id row1"
    using resolve_session_finds [OF first] by blast
  obtain row2 where row2: "find_for_agent (ro_sessions r3) (wi_agent_group w2) (fst (session_key e2 mg2 w2))
      (snd (session_key e2 mg2 w2)) = Some row2" "ts_agent_group s2 = se_agent_group row2" "ts_id s2 = se_id row2"
    using resolve_session_finds [OF second] by blast
  have "settled r2 r3" and "keeps_wf r2 r3"
    using conversations.keep_resolve wellformed.keep_resolve second by (metis always_def snd_conv)+
  then have "settled r1 r3" and wf: "router_wf r3"
    using assms(1,3) route_all_settled route_all_wf conversations.run_trans unfolding keeps_wf_def by metis+
  then have row1': "find_for_agent (ro_sessions r3) (wi_agent_group w1) (fst (session_key e1 mg1 w1))
      (snd (session_key e1 mg1 w1)) = Some row1"
    using row1(1) unfolding settled_def by blast
  note key1 = find_for_agent_Some [OF row1'] and key2 = find_for_agent_Some [OF row2(1)]
  show ?thesis
  proof
    assume "s1 = s2"
    then have "se_id row1 = se_id row2" using row1(3) row2(3) by simp
    then have "row1 = row2"
      using key1 key2 wf by (metis router_wf_def distinct_map inj_onD)
    with key1 key2 show "(wi_agent_group w1, session_key e1 mg1 w1) = (wi_agent_group w2, session_key e2 mg2 w2)"
      by (metis prod.collapse)
  next
    assume "(wi_agent_group w1, session_key e1 mg1 w1) = (wi_agent_group w2, session_key e2 mg2 w2)"
    then have "row1 = row2" using row1' row2(1) by simp
    then show "s1 = s2" using row1(2,3) row2(2,3) by simp
  qed
qed

section \<open>Accounting\<close>

text \<open>The log of a queue: the ids and sequence numbers of its rows, in the order of insertion.\<close>

definition log_in :: "RouterState \<Rightarrow> StoreKey \<Rightarrow> (MessageId \<times> int) list" where
  "log_in r k = map (\<lambda>m. (in_id m, in_seq m)) (st_in (ro_stores r k))"

definition log_out :: "RouterState \<Rightarrow> StoreKey \<Rightarrow> (MessageId \<times> int) list" where
  "log_out r k = map (\<lambda>m. (out_id m, out_seq m)) (st_out (ro_stores r k))"

definition entries :: "DeliveredTo list \<Rightarrow> StoreKey \<Rightarrow> (MessageId \<times> int) list" where
  "entries ds k = map (\<lambda>d. (dl_message d, dl_seq d)) (filter (\<lambda>d. (dl_agent_group d, dl_session d) = k) ds)"

fun delivered_to :: "FanoutOutcome \<Rightarrow> DeliveredTo list" where
  "delivered_to (FDelivered d) = [d]"
| "delivered_to _ = []"

fun answered_by :: "FanoutOutcome \<Rightarrow> DeliveredTo list" where
  "answered_by (FAnswered d) = [d]"
| "answered_by _ = []"

definition logged :: "RouterState \<Rightarrow> DeliveredTo list \<Rightarrow> DeliveredTo list \<Rightarrow> RouterState \<Rightarrow> bool" where
  "logged r ds as r' \<longleftrightarrow>
     (\<forall>k. log_in r' k = log_in r k @ entries ds k \<and> log_out r' k = log_out r k @ entries as k)"

definition host_answered :: "ParsedCommand option \<Rightarrow> bool" where
  "host_answered command \<longleftrightarrow>
     command = Some (Bare Status) \<or> command = Some (Bare Projects) \<or> (\<exists>t. command = Some (Switch t))"

definition valid_switch :: "ParsedCommand option \<Rightarrow> bool" where
  "valid_switch command \<longleftrightarrow> (\<exists>name. command = Some (Switch (Valid name)))"

lemma entries_simps [simp]:
  "entries [] k = []" "entries (ds @ as) k = entries ds k @ entries as k"
  by (simp_all add: entries_def)

lemma logged_queues: "queues r' = queues r \<Longrightarrow> logged r [] [] r'"
  by (auto simp: logged_def log_in_def log_out_def queues_def fun_eq_iff)

lemma logged_only: "only_queues (\<lambda>_. False) r r' \<Longrightarrow> logged r [] [] r'"
  by (intro logged_queues) (auto simp: only_queues_def)

lemma logged_trans: "logged r ds as r1 \<Longrightarrow> logged r1 ds' as' r' \<Longrightarrow> logged r (ds @ ds') (as @ as') r'"
  by (simp add: logged_def)

lemma logged_Nil: "logged r [] [] r1 \<Longrightarrow> logged r1 ds as r' \<Longrightarrow> logged r ds as r'"
  using logged_trans [of r "[]" "[]" r1 ds as r'] by simp

lemma logged_insert_in:
  assumes "store_insert_in env s w r = (Inr seq, r1)" and "ro_stores r' = ro_stores r1"
  shows "logged r [\<lparr>dl_agent_group = ts_agent_group s, dl_session = ts_id s, dl_message = w_id w, dl_seq = seq\<rparr>] [] r'"
  using assms(2) store_insert_in_Inr(1) [OF assms(1)]
  by (auto simp: logged_def log_in_def log_out_def entries_def update_store_def target_key_def)

lemma logged_insert_out:
  assumes "store_insert_out env s w r = (Inr seq, r')"
  shows "logged r [] [\<lparr>dl_agent_group = ts_agent_group s, dl_session = ts_id s, dl_message = o_id w, dl_seq = seq\<rparr>] r'"
  using store_insert_out_Inr(1) [OF assms]
  by (auto simp: logged_def log_in_def log_out_def entries_def update_store_def target_key_def outbound_row_def)

lemma check_at_Inr: "check_at env p r = (Inr x, r') \<Longrightarrow> r' = r"
  by (metis check_at_state snd_conv)

lemma materialize_log:
  assumes "materialize env event s r = (Inr content, r')" shows "logged r [] [] r'"
proof -
  have "\<exists>inbox. r' = update_store (target_key s) (\<lambda>st. st\<lparr>st_inbox := inbox\<rparr>) r"
    using assms by (auto simp: materialize_def and_then_Inr reading_def modify_def ret_def Let_def split_beta
        dest!: check_at_Inr split: if_splits)
  then show ?thesis by (intro logged_queues) (auto simp: queues_def update_store_def fun_eq_iff)
qed

lemma deliver_log:
  assumes "deliver env event s command r = (Inr out, r')"
  shows "(\<exists>d. out = FDelivered d) \<and> logged r (delivered_to out) (answered_by out) r'"
proof -
  obtain content r1 seq r2 where
    m: "materialize env event s r = (Inr content, r1)" and
    i: "store_insert_in env s (delivered_row env event command content) r1 = (Inr seq, r2)" and
    o: "out = FDelivered \<lparr>dl_agent_group = ts_agent_group s, dl_session = ts_id s, dl_message = fe_message_id env, dl_seq = seq\<rparr>" and
    st: "ro_stores r' = ro_stores r2"
    using assms
    by (auto simp: deliver_def and_then_Inr Let_def bump_metric_def notify_wake_def modify_def ret_def
        dest!: check_at_Inr split: if_splits)
  have "w_id (delivered_row env event command content) = fe_message_id env"
    by (simp add: delivered_row_def split_beta Let_def)
  then show ?thesis
    using logged_Nil [OF materialize_log [OF m] logged_insert_in [OF i st]] o by simp
qed

lemma host_reply_log:
  assumes "write_host_reply env event s txt r = (Inr out, r')"
  shows "(\<exists>d. out = FAnswered d) \<and> logged r (delivered_to out) (answered_by out) r'"
  using assms
  by (auto simp: write_host_reply_def and_then_Inr ret_def reply_row_def dest!: check_at_Inr logged_insert_out)

lemma answer_status_reply:
  assumes "answer_status env event s r = (Inr out, r')"
  shows "\<exists>txt. write_host_reply env event s txt r = (Inr out, r')"
proof (cases "get_session (ro_sessions r) (ts_id s)")
  case (Inr full)
  with assms show ?thesis
    by (cases "ro_agent_names r (ts_agent_group s)")
       (auto simp: answer_status_def and_then_Inr reading_def throw_def dest!: check_at_Inr)
qed (use assms in \<open>auto simp: answer_status_def and_then_Inr reading_def throw_def dest!: check_at_Inr\<close>)

lemma answer_projects_reply:
  "answer_projects env event s r = (Inr out, r') \<Longrightarrow> \<exists>txt. write_host_reply env event s txt r = (Inr out, r')"
  by (auto simp: answer_projects_def and_then_Inr reading_def Let_def dest!: check_at_Inr)

lemma answer_switch_reply:
  "answer_switch env event s target r = (Inr out, r') \<Longrightarrow> \<not> valid_switch (Some (Switch target)) \<Longrightarrow>
     \<exists>txt. write_host_reply env event s txt r = (Inr out, r')"
  by (cases target) (auto simp: valid_switch_def)

lemma serve_log:
  assumes "serve env event s command r = (Inr out, r')" and "\<not> valid_switch command"
  shows "(if host_answered command then \<exists>d. out = FAnswered d else \<exists>d. out = FDelivered d) \<and>
    logged r (delivered_to out) (answered_by out) r'"
proof -
  define body where "body = (case command of
       Some (Bare Status) \<Rightarrow> answer_status env event s
     | Some (Bare Projects) \<Rightarrow> answer_projects env event s
     | Some (Switch target) \<Rightarrow> answer_switch env event s target
     | _ \<Rightarrow> deliver env event s command)"
  define pre :: "unit router" where "pre = (case command of
       Some cmd \<Rightarrow> bump_metric (SlashCommandMetric (parsed_op cmd) (ev_channel_type event)) | None \<Rightarrow> ret ())"
  have "serve env event s command = and_then pre (\<lambda>_. body)"
    by (simp add: serve_def pre_def body_def)
  then obtain x r1 where pre: "pre r = (Inr x, r1)" and run: "body r1 = (Inr out, r')"
    using assms(1) by (auto simp: and_then_Inr)
  have r1: "ro_stores r1 = ro_stores r"
    using pre by (auto simp: pre_def bump_metric_def modify_def ret_def split: option.splits)
  have "(if host_answered command then \<exists>d. out = FAnswered d else \<exists>d. out = FDelivered d) \<and>
      logged r1 (delivered_to out) (answered_by out) r'"
    using run assms(2) unfolding body_def
    by (auto simp: host_answered_def split: option.splits ParsedCommand.splits SlashCommand.splits
        dest!: answer_status_reply answer_projects_reply answer_switch_reply dest: host_reply_log deliver_log)
  moreover have "logged r [] [] r1"
    using r1 by (intro logged_queues) (simp add: queues_def fun_eq_iff)
  ultimately show ?thesis using logged_Nil by blast
qed

lemma only_none:
  assumes "always (only_queues (\<lambda>_. False)) m" and "m r = (x, r')" shows "logged r [] [] r'"
  using assms by (metis always_def logged_only snd_conv)

lemma guarded_log:
  assumes "guarded sid m r = (Inr out, r')"
    and "\<And>r r'. m r = (Inr out, r') \<Longrightarrow> P out \<and> logged r ds as r'"
  shows "P out \<and> logged r ds as r'"
proof -
  have free: "sid \<notin> ro_inflight r"
    using assms(1) guarded_busy [of sid r m] by auto
  obtain x r1 where m: "m (r\<lparr>ro_inflight := insert sid (ro_inflight r)\<rparr>) = (x, r1)" by fastforce
  then have "x = Inr out" and r': "r' = r1\<lparr>ro_inflight := ro_inflight r1 - {sid}\<rparr>"
    using assms(1) guarded_free [of sid r m, OF free m] by auto
  then have "P out \<and> logged (r\<lparr>ro_inflight := insert sid (ro_inflight r)\<rparr>) ds as r1"
    using assms(2) m by simp
  then show ?thesis
    by (simp add: r' logged_def log_in_def log_out_def)
qed

lemma admit_outcome:
  "admit cfg env event mg in_group w user command r = (Inr (Some out), r') \<Longrightarrow>
     delivered_to out = [] \<and> answered_by out = []"
  by (auto simp: admit_def and_then_Inr ret_def Let_def
      split: GateDecision.splits option.splits SenderScopeDecision.splits if_splits)

lemma route_one_log:
  assumes "route_one cfg env event mg in_group w user command r = (Inr out, r')" and "\<not> valid_switch command"
  shows "(if host_answered command then delivered_to out = [] else answered_by out = []) \<and>
    logged r (delivered_to out) (answered_by out) r'"
proof -
  obtain refused r1 where adm: "admit cfg env event mg in_group w user command r = (Inr refused, r1)"
    and rest: "(case refused of Some outcome \<Rightarrow> ret outcome | None \<Rightarrow>
         and_then (resolve_session env event mg w) (\<lambda>s.
         if source_session_for event = Some (ts_id s) then ret (FDropped ReentryGuard)
         else guarded (ts_id s) (serve env event s command))) r1 = (Inr out, r')"
    using assms(1) by (auto simp: route_one_def and_then_Inr)
  have log1: "logged r [] [] r1" by (rule only_none [OF queue_frame.keep_admit adm])
  show ?thesis
  proof (cases refused)
    case (Some outcome)
    then show ?thesis using rest adm log1 admit_outcome [of cfg env event mg in_group w user command r outcome r1] by (auto simp: ret_def)
  next
    case None
    then obtain s r2 where res: "resolve_session env event mg w r1 = (Inr s, r2)"
      and tail: "(if source_session_for event = Some (ts_id s) then ret (FDropped ReentryGuard)
         else guarded (ts_id s) (serve env event s command)) r2 = (Inr out, r')"
      using rest by (auto simp: and_then_Inr)
    have log2: "logged r [] [] r2"
      using logged_Nil [OF log1 only_none [OF queue_frame.keep_resolve res]] .
    show ?thesis
    proof (cases "source_session_for event = Some (ts_id s)")
      case True
      then show ?thesis using tail log2 by (auto simp: ret_def)
    next
      case False
      then have "guarded (ts_id s) (serve env event s command) r2 = (Inr out, r')" using tail by simp
      then have "(if host_answered command then \<exists>d. out = FAnswered d else \<exists>d. out = FDelivered d) \<and>
          logged r2 (delivered_to out) (answered_by out) r'"
        by (rule guarded_log) (rule serve_log [OF _ assms(2)])
      then show ?thesis
        using logged_Nil [OF log2] by (auto split: if_splits)
    qed
  qed
qed

fun outcome_of ::
  "DeliveredTo list \<Rightarrow> DeliveredTo list \<Rightarrow> RouteOutcome \<Rightarrow> bool" where
  "outcome_of ds as (Delivered ds') \<longleftrightarrow> ds \<noteq> [] \<and> ds' = ds"
| "outcome_of ds as (Answered as') \<longleftrightarrow> ds = [] \<and> as \<noteq> [] \<and> as' = as"
| "outcome_of ds as _ \<longleftrightarrow> ds = [] \<and> as = []"

lemma fanout_log:
  assumes "fanout cfg envs event mg user command i ws sessions answered lp r = (Inr outcome, r')"
    and "\<not> valid_switch command"
  shows "\<exists>ds as. (if host_answered command then ds = [] else as = []) \<and>
    outcome_of (sessions @ ds) (answered @ as) outcome \<and> logged r ds as r'"
  using assms(1)
proof (induction ws arbitrary: i sessions answered lp r)
  case Nil
  then have "outcome_of sessions answered outcome" and "r' = r"
    by (auto simp: ret_def split: if_splits option.splits)
  then show ?case
    by (intro exI [of _ "[]"]) (simp add: logged_queues)
next
  case (Cons w ws)
  let ?r0 = "r\<lparr>ro_fanout := ro_fanout r + 1\<rparr>"
  obtain out r1 where one: "route_one cfg (envs i) event (mg_id mg) (mg_is_group mg) w user command ?r0 = (Inr out, r1)"
    and rest: "(case out of
       FDelivered d \<Rightarrow> fanout cfg envs event mg user command (Suc i) ws (sessions @ [d]) answered lp
     | FAnswered d \<Rightarrow> fanout cfg envs event mg user command (Suc i) ws sessions (answered @ [d]) lp
     | FDropped reason \<Rightarrow>
         and_then (record_drop (envs i) event (Some (mg_id mg)) (Some (wi_agent_group w)) (drop_reason_label reason))
           (\<lambda>_. if sessions = [] \<and> answered = [] then ret (Dropped reason)
                else fanout cfg envs event mg user command (Suc i) ws sessions answered lp)
     | FPending reason \<Rightarrow> fanout cfg envs event mg user command (Suc i) ws sessions answered (Some reason)) r1 = (Inr outcome, r')"
    using Cons.prems by (auto simp: and_then_Inr modify_def)
  have kind: "if host_answered command then delivered_to out = [] else answered_by out = []"
    and log: "logged r (delivered_to out) (answered_by out) r1"
    using route_one_log [OF one assms(2)] logged_queues [of ?r0 r] logged_Nil [of r ?r0]
    by (auto simp: queues_def fun_eq_iff)
  have finish: ?case
    if run: "fanout cfg envs event mg user command j ws (sessions @ delivered_to out) (answered @ answered_by out) lp' r2 =
        (Inr outcome, r')"
      and before: "logged r (delivered_to out) (answered_by out) r2" for j lp' r2
  proof -
    obtain ds as where "if host_answered command then ds = [] else as = []"
      and "outcome_of ((sessions @ delivered_to out) @ ds) ((answered @ answered_by out) @ as) outcome"
      and "logged r2 ds as r'"
      using Cons.IH [OF run] by blast
    then show ?thesis
      using kind logged_trans [OF before]
      by (intro exI [of _ "delivered_to out @ ds"] exI [of _ "answered_by out @ as"]) auto
  qed
  show ?case
  proof (cases out)
    case (FDropped reason)
    then obtain u r2 where drop: "record_drop (envs i) event (Some (mg_id mg)) (Some (wi_agent_group w))
        (drop_reason_label reason) r1 = (Inr u, r2)"
      and tail: "(if sessions = [] \<and> answered = [] then ret (Dropped reason)
        else fanout cfg envs event mg user command (Suc i) ws sessions answered lp) r2 = (Inr outcome, r')"
      using rest by (auto simp: and_then_Inr)
    have log2: "logged r [] [] r2"
      using log FDropped logged_Nil [OF _ only_none [OF queue_frame.keep_record_drop drop]] by simp
    show ?thesis
    proof (cases "sessions = [] \<and> answered = []")
      case True
      then show ?thesis using tail log2 by (intro exI [of _ "[]"]) (auto simp: ret_def)
    next
      case False
      then have "fanout cfg envs event mg user command (Suc i) ws sessions answered lp r2 = (Inr outcome, r')"
        using tail by (simp only: if_False)
      then show ?thesis
        using finish [of "Suc i" lp r2] log2 FDropped by (simp only: delivered_to.simps answered_by.simps append_Nil2)
    qed
  qed (use finish rest log in auto)
qed

definition accounted :: "RouterState \<Rightarrow> RouteOutcome \<Rightarrow> RouterState \<Rightarrow> bool" where
  "accounted r outcome r' \<longleftrightarrow>
     logged r (case outcome of Delivered ds \<Rightarrow> ds | _ \<Rightarrow> []) (case outcome of Answered as \<Rightarrow> as | _ \<Rightarrow> []) r'"

lemma fanout_accounted:
  assumes "fanout cfg envs event mg user command i ws [] [] None r = (Inr outcome, r')" and "\<not> valid_switch command"
  shows "accounted r outcome r'"
  using fanout_log [OF assms] by (cases outcome) (auto simp: accounted_def split: if_splits)

lemma accounted_Nil: "logged r [] [] r1 \<Longrightarrow> accounted r1 outcome r' \<Longrightarrow> accounted r outcome r'"
  unfolding accounted_def by (rule logged_Nil)

lemma dropped_accounted: "logged r [] [] r' \<Longrightarrow> accounted r (Dropped reason) r'"
  by (simp add: accounted_def)

lemma route_group_accounted:
  assumes run: "route_group cfg env event mg r = (Inr outcome, r')" and "\<not> valid_switch (parsed_detect event)"
  shows "accounted r outcome r'"
proof -
  let ?user = "run_sender_resolver (rc_hooks cfg) event"
  have drop: "accounted r1 outcome r'"
    if "and_then (record_drop (re_top env) event a b c) (\<lambda>_. ret (Dropped reason)) r1 = (Inr outcome, r')" for a b c reason r1
    using that only_none [OF queue_frame.keep_record_drop, of "re_top env" event a b c r1]
    by (auto simp: and_then_Inr ret_def intro: dropped_accounted)
  show ?thesis
  proof (cases "\<exists>reason. channel_decision cfg event ?user = Some (GDeny reason)")
    case True
    then show ?thesis using run by (auto simp: route_group_denied intro: drop)
  next
    case False
    then show ?thesis
      using run assms(2)
      by (auto simp: route_group_open and_then_Inr [of "check_at _ _"] reading_def dest!: check_at_Inr split: if_splits
          intro: drop fanout_accounted)
  qed
qed

lemma route_accounted:
  assumes "route cfg env event r = (Inr outcome, r')" and "\<not> valid_switch (parsed_detect event)"
  shows "accounted r outcome r'"
proof -
  obtain r1 where run: "route_impl cfg env event r = (Inr outcome, r1)" and st: "ro_stores r' = ro_stores r1"
    using assms(1) by (auto simp: route_def Let_def remove_staged_file_def split: prod.splits option.splits if_splits)
  obtain dup r2 where deb: "debounce_step env event r = (Inr dup, r2)"
    and rest: "(if dup then ret (Dropped Debounced) else
       and_then (check_at (re_top env) AtGetGroup) (\<lambda>_. reading (\<lambda>r.
         case get_by_platform (ro_groups r) (ev_channel_type event) (ev_platform_id event) of
           None \<Rightarrow> and_then (record_drop (re_top env) event None None (lit ''no_messaging_group''))
               (\<lambda>_. ret (Dropped NoMessagingGroup))
         | Some mg \<Rightarrow> route_group cfg env event mg))) r2 = (Inr outcome, r1)"
    using run by (auto simp: route_impl_def and_then_Inr)
  have log: "logged r [] [] r2" by (rule only_none [OF queue_frame.keep_debounce_step deb])
  have "accounted r2 outcome r1"
  proof (cases dup)
    case True
    then show ?thesis using rest by (auto simp: ret_def intro: dropped_accounted logged_queues)
  next
    case False
    then have "(case get_by_platform (ro_groups r2) (ev_channel_type event) (ev_platform_id event) of
           None \<Rightarrow> and_then (record_drop (re_top env) event None None (lit ''no_messaging_group''))
               (\<lambda>_. ret (Dropped NoMessagingGroup))
         | Some mg \<Rightarrow> route_group cfg env event mg) r2 = (Inr outcome, r1)"
      using rest by (auto simp: and_then_Inr reading_def dest!: check_at_Inr)
    then show ?thesis
      using assms(2) only_none [OF queue_frame.keep_record_drop, of "re_top env" event None None _ r2]
      by (auto simp: and_then_Inr ret_def split: option.splits intro: dropped_accounted route_group_accounted)
  qed
  then have "accounted r outcome r1" by (rule accounted_Nil [OF log])
  then show ?thesis
    using st by (simp add: accounted_def logged_def log_in_def log_out_def)
qed

text \<open>
  C4: The outcome accounts for every row. When a route returns, each session's inbound log has grown by exactly the
  ids and sequence numbers that a delivered outcome lists for it, in that order, and its outbound log by exactly
  those an answered outcome lists; a dropped, debounced or pending event wrote no row anywhere. (A \<open>/switch\<close> to a
  valid name also enqueues its reset row and is left out.)
\<close>

theorem route_accounts_for_every_row:
  assumes "route cfg env event r = (Inr outcome, r')" and "\<not> valid_switch (parsed_detect event)"
  shows "log_in r' k = log_in r k @ (case outcome of Delivered ds \<Rightarrow> entries ds k | _ \<Rightarrow> []) \<and>
    log_out r' k = log_out r k @ (case outcome of Answered as \<Rightarrow> entries as k | _ \<Rightarrow> [])"
  using route_accounted [OF assms]
  by (cases outcome; cases k) (simp_all add: accounted_def logged_def)

section \<open>What the runner sees\<close>

lemma route_appends: "appends r (snd (route cfg env event r))"
proof -
  have "always appends (route cfg env event)"
    by (intro route_always appends_run appending.keep_route_impl appending.keep_serve) (simp_all add: appends_same)
  then show ?thesis by (simp add: always_def)
qed


definition quiet_event :: "InboundEvent \<Rightarrow> bool" where
  "quiet_event event \<longleftrightarrow> parsed_detect event = Some (Bare Stop) \<or>
     parsed_detect event = None \<and> is_reaction_content (im_content (ev_message event))"

lemma materialized_reaction:
  "is_reaction_content (fst (materialized_content io event inbox)) = is_reaction_content (im_content (ev_message event))"
proof -
  have key: "REACTION_KEY \<noteq> lit ''attachment''" by (simp add: REACTION_KEY_def)
  have "json_get (json_insert v (lit ''attachment'') x) REACTION_KEY = json_get v REACTION_KEY" for v x
    using key by (cases v) (auto simp: json_insert_def json_get_def update_conv')
  then show ?thesis
    by (auto simp: materialized_content_def is_reaction_content_def Let_def split: option.splits sum.splits)
qed

lemma quiet_delivered_row:
  assumes "quiet_event event"
  shows "\<not> w_trigger (delivered_row env event (parsed_detect event) (fst (materialized_content io event inbox)))"
  using assms by (auto simp: quiet_event_def delivered_row_def shape_row_def Let_def materialized_reaction)

definition calm :: "RouterState \<Rightarrow> RouterState \<Rightarrow> bool" where
  "calm r r' \<longleftrightarrow> triggers r' = triggers r"

interpretation calming: pipeline_relation calm
proof -
  have run: "run_relation calm" by unfold_locales (auto simp: calm_def)
  have "always calm (m :: FanoutOutcome router) \<Longrightarrow> always calm (guarded sid m)" for m sid
    by (intro always_guarded run) (auto simp: calm_def triggers_def fun_eq_iff)
  then show "pipeline_relation calm"
    using run unfolding pipeline_relation_def pipeline_relation_axioms_def
    by (auto simp: calm_def triggers_def update_store_def fun_eq_iff)
qed

lemma calm_serve:
  assumes "quiet_event event" shows "always calm (serve env event s (parsed_detect event))"
proof -
  have other: "always calm m" if "\<And>r. ro_stores (snd (m r)) = ro_stores r" for m :: "'a router"
    using that by (auto simp: always_def calm_def triggers_def fun_eq_iff)
  have insert: "calm r (snd (store_insert_in env s w r))" if "\<not> w_trigger w" for w r
  proof (cases "store_insert_in env s w r")
    case (Pair x r')
    then show ?thesis
      using that store_insert_in_Inl [of env s w r _ r'] store_insert_in_Inr(1) [of env s w r _ r']
      by (cases x) (auto simp: calm_def triggers_def update_store_def fun_eq_iff)
  qed
  have mat: "always calm (materialize env event s)"
    unfolding materialize_def Let_def
    by (intro always_intros calming.keep_check calming.always_modify)
       (auto simp: calm_def triggers_def update_store_def fun_eq_iff)
  have "always calm (deliver env event s (parsed_detect event))"
    unfolding deliver_def Let_def
  proof (rule calming.always_and_then_result [OF mat], goal_cases)
    case (1 r0 content r)
    then have "\<exists>io inbox. content = fst (materialized_content io event inbox)"
      by (auto simp: materialize_def and_then_Inr reading_def modify_def ret_def Let_def split_beta)
    then have quiet: "\<not> w_trigger (delivered_row env event (parsed_detect event) content)"
      using quiet_delivered_row [OF assms] by metis
    have ins: "always calm (store_insert_in env s (delivered_row env event (parsed_detect event) content))"
      using insert quiet by (simp add: always_def)
    have "always calm (and_then (check_at env AtInboundPool) (\<lambda>_.
        and_then (store_insert_in env s (delivered_row env event (parsed_detect event) content)) (\<lambda>seq.
        and_then (if parsed_detect event = Some (Bare Stop) then bump_metric (ControlRowMetric (lit ''stop'')) else ret ()) (\<lambda>_.
        and_then (bump_metric (InboundMetric (ev_channel_type event))) (\<lambda>_.
        and_then (if w_trigger (delivered_row env event (parsed_detect event) content) then notify_wake else ret ()) (\<lambda>_.
        ret (FDelivered \<lparr>dl_agent_group = ts_agent_group s, dl_session = ts_id s,
          dl_message = fe_message_id env, dl_seq = seq\<rparr>)))))))"
      using quiet by (intro calming.always_and_then calming.keep_check ins other) (auto simp: stateful_defs)
    then show ?case by (simp add: always_def)
  qed
  moreover have "serve env event s (parsed_detect event) =
      and_then (case parsed_detect event of
          Some cmd \<Rightarrow> bump_metric (SlashCommandMetric (parsed_op cmd) (ev_channel_type event)) | None \<Rightarrow> ret ())
        (\<lambda>_. deliver env event s (parsed_detect event))"
    using assms by (auto simp: serve_def quiet_event_def)
  moreover have "always calm (case parsed_detect event of
      Some cmd \<Rightarrow> bump_metric (SlashCommandMetric (parsed_op cmd) (ev_channel_type event)) | None \<Rightarrow> ret ())"
    by (rule other) (auto simp: stateful_defs split: option.splits)
  ultimately show ?thesis by (simp add: calming.always_and_then)
qed

text \<open>
  A \<open>/stop\<close> command or a reaction never starts work: routing one, whatever it returns, wakes nobody and leaves the
  number of due messages of every session unchanged at every time.
\<close>

theorem control_rows_never_wake:
  assumes "quiet_event event"
  shows "ro_wakes (snd (route cfg env event r)) = ro_wakes r \<and>
    count_due (st_in (ro_stores (snd (route cfg env event r)) k)) now = count_due (st_in (ro_stores r k)) now"
proof -
  have "always calm (route cfg env event)"
    using calm_serve [OF assms]
    by (intro route_always calming.keep_route_impl calming.run_relation_axioms) (auto simp: calm_def triggers_def fun_eq_iff)
  then have same: "triggers (snd (route cfg env event r)) = triggers r"
    by (simp add: always_def calm_def)
  have due: "count_due t now = length (filter (\<lambda>m. in_status m = pending \<and> is_due (process_after m) now) (filter in_trigger t))" for t
    by (simp add: count_due_def conj_ac)
  have "always woken (route cfg env event)"
    by (intro route_always woken_run waking.keep_route_impl woken_serve woken_same) (auto simp: triggers_def)
  then have "woken r (snd (route cfg env event r))" by (simp add: always_def)
  then have "ro_wakes (snd (route cfg env event r)) = ro_wakes r"
    using same unfolding woken_def by simp
  moreover have "filter in_trigger (st_in (ro_stores (snd (route cfg env event r)) k)) = filter in_trigger (st_in (ro_stores r k))"
    using fun_cong [OF same, of k] by (simp add: triggers_def)
  ultimately show ?thesis by (simp add: due)
qed

section \<open>A concrete chat\<close>

text \<open>A chat wired to one or two agents, with no hooks installed, on which the theorems are instantiated.\<close>

definition demo_hooks :: HookChain where
  "demo_hooks = \<lparr>sender_resolver = None, access_gate = None, sender_scope_gate = None, channel_request_gate = None,
     approval_interceptor = None\<rparr>"

definition demo_config :: RouterConfig where
  "demo_config = \<lparr>rc_hooks = demo_hooks, rc_mention_gate = default_mention_gate, rc_regex = (\<lambda>pat txt. Some (starts_with txt pat))\<rparr>"

definition demo_fan :: "nat \<Rightarrow> FanEnv" where
  "demo_fan i = \<lparr>fe_now = int i, fe_session_id = [i], fe_message_id = i, fe_clear_id = i + 100, fe_fail = (\<lambda>_. None),
     fe_dir_readable = True,
     fe_file_io = \<lparr>fio_staged = (\<lambda>_. None), fio_fail = None, fio_err_text = (\<lambda>_. []), fio_read_err = []\<rparr>,
     fe_db_text = (\<lambda>_. []), fe_rfc3339 = (\<lambda>_. [])\<rparr>"

definition demo_env :: "nat \<Rightarrow> RouteEnv" where
  "demo_env i = \<lparr>re_instant = int (1000 * i), re_top = demo_fan i, re_fan = (\<lambda>j. demo_fan (i + j)), re_unlink_ok = True\<rparr>"

definition demo_event :: "nat \<Rightarrow> ustring \<Rightarrow> InboundEvent" where
  "demo_event i txt = \<lparr>ev_channel_type = [1], ev_platform_id = [2], ev_thread_id = None,
     ev_message = \<lparr>im_id = [i], im_kind = Chat, im_content = JObject [(lit ''text'', JString txt)], im_timestamp = 0,
       im_is_mention = None, im_is_group = None\<rparr>, ev_reply_to = None, ev_sender = None\<rparr>"

definition demo_wiring :: "nat \<Rightarrow> EngageMode \<Rightarrow> MessagingGroupAgent" where
  "demo_wiring agent mode = \<lparr>wi_id = agent, wi_messaging_group = 7, wi_agent_group = agent, engage_mode = mode,
     engage_pattern = Some [104], sender_scope = [], ignored_message_policy = [], session_mode = Shared, priority = 0,
     wi_created_at = 0\<rparr>"

definition demo_state :: "bool \<Rightarrow> MessagingGroupAgent list \<Rightarrow> RouterState" where
  "demo_state in_group ws = \<lparr>ro_debounce = (\<lambda>_. None),
     ro_groups = [\<lparr>mg_id = 7, mg_channel_type = [1], mg_platform_id = [2], mg_name = None, mg_is_group = in_group,
       unknown_sender_policy = [], denied_at = None, mg_created_at = 0\<rparr>],
     ro_wirings = ws, ro_sessions = [], ro_agent_names = (\<lambda>_. None), ro_unregistered = [], ro_dropped = [],
     ro_stores = (\<lambda>_. \<lparr>st_in = [], st_out = [], st_routing = None, st_inbox = (\<lambda>_. None), st_entries = [], st_shell = None\<rparr>),
     ro_staged = (\<lambda>_. None), ro_inflight = {}, ro_wakes = 0, ro_fanout = 0, ro_metrics = []\<rparr>"



lemma demo_event_simps [simp]:
  "ev_channel_type (demo_event i t) = [1]" "ev_platform_id (demo_event i t) = [2]" "ev_thread_id (demo_event i t) = None"
  "ev_reply_to (demo_event i t) = None" "ev_sender (demo_event i t) = None"
  "im_id (ev_message (demo_event i t)) = [i]" "im_kind (ev_message (demo_event i t)) = Chat"
  "json_get (im_content (ev_message (demo_event i t))) k = (if k = lit ''text'' then Some (JString t) else None)"
  "json_has_key (im_content (ev_message (demo_event i t))) k = (k = lit ''text'')"
  "im_is_mention (ev_message (demo_event i t)) = None" "im_is_group (ev_message (demo_event i t)) = None"
  by (simp_all add: demo_event_def json_get_def json_has_key_def)

lemma demo_quiet: "parsed_detect (demo_event i [104,105]) = None"
  by (simp add: parsed_detect_def event_text_def demo_event_def json_get_def json_as_str_def parsed_parse_def trim_def trim_start_def trim_end_def is_whitespace_def lit_def)

lemmas demo_defs = demo_config_def demo_hooks_def demo_fan_def demo_env_def demo_wiring_def demo_state_def
lemmas route_defs = route_def route_impl_def route_group_def debounce_step_def check_and_record_def check_at_def record_drop_def
  route_one_def admit_def access_decision_def scope_decision_def note_unregistered_def approval_handled_def
  mention_decision_def resolve_session_def session_key_def new_session_def create_session_def guarded_def enter_inflight_def
  serve_def deliver_def materialize_def store_insert_in_def update_store_def target_key_def
  resolve_access_gate_def run_access_gate_def run_sender_scope_gate_def run_approval_interceptor_def run_channel_request_gate_def
  run_sender_resolver_def channel_decision_def get_by_platform_def list_for_mg_def order_by_def order_by_desc_def find_for_agent_def first_row_def
  op_is_privileged_def permission_op_parse_def decide_def gates_venue_def default_mention_gate_def approval_callback_data_def
  source_session_for_def staged_attachment_path_def materialized_content_def delivered_row_def shape_row_def insert_in_def insert_impl_def
  next_even_seq_def sql_max_def debounce_key_def
lemma demo_run: "fst (route demo_config (demo_env 1) (demo_event 1 [104,105]) (demo_state False [demo_wiring 10 Mention])) =
  Inr (Delivered [\<lparr>dl_agent_group = 10, dl_session = [1], dl_message = 1, dl_seq = 2\<rparr>])"
  by (simp add: route_defs stateful_defs demo_defs demo_quiet Let_def)

abbreviation demo_one :: RouterState where
  "demo_one \<equiv> demo_state False [demo_wiring 10 Mention]"

abbreviation demo_after :: RouterState where
  "demo_after \<equiv> snd (route demo_config (demo_env 1) (demo_event 1 [104, 105]) demo_one)"

lemma demo_route:
  "route demo_config (demo_env 1) (demo_event 1 [104, 105]) demo_one =
     (Inr (Delivered [\<lparr>dl_agent_group = 10, dl_session = [1], dl_message = 1, dl_seq = 2\<rparr>]), demo_after)"
  using demo_run by (metis prod.collapse)

lemma demo_wf: "router_wf demo_one"
  by (simp add: router_wf_def demo_state_def two_key_wf_def messages_in_wf_Nil messages_out_wf_Nil)

theorem route_keeps_wf_witness: "router_wf demo_one \<and> router_wf demo_after"
  using route_keeps_wf [OF demo_wf] demo_wf by simp

theorem route_accounts_for_every_row_witness:
  "log_in demo_one (10, [1]) = [] \<and> log_in demo_after (10, [1]) = [(1, 2)] \<and> log_out demo_after (10, [1]) = []"
  using route_accounts_for_every_row [OF demo_route, of "(10, [1])"]
  by (simp add: valid_switch_def demo_quiet entries_def log_in_def log_out_def demo_state_def)

theorem routed_rows_pass_the_gates_witness:
  "queues demo_after (10, [1]) \<noteq> queues demo_one (10, [1]) \<and>
     passed_gates demo_config (demo_env 1) (demo_event 1 [104, 105]) demo_one (10, [1])"
proof -
  have "log_in demo_after (10, [1]) \<noteq> log_in demo_one (10, [1])"
    using route_accounted [OF demo_route]
    by (simp add: valid_switch_def demo_quiet accounted_def logged_def entries_def)
  then have "queues demo_after (10, [1]) \<noteq> queues demo_one (10, [1])"
    by (auto simp: log_in_def queues_def)
  with routed_rows_pass_the_gates show ?thesis by blast
qed


lemma demo_stop: "parsed_detect (demo_event i (lit ''/stop'')) = Some (Bare Stop)"
  by (simp add: parsed_detect_def event_text_def json_as_str_def parsed_parse_def trim_def trim_start_def trim_end_def
      is_whitespace_def lit_def slash_parse_def Let_def before_char_def split_whitespace_def ascii_lower_def)

theorem control_rows_never_wake_witness:
  "quiet_event (demo_event 2 (lit ''/stop'')) \<and>
     ro_wakes (snd (route demo_config (demo_env 2) (demo_event 2 (lit ''/stop'')) demo_after)) = ro_wakes demo_after"
  using control_rows_never_wake [of "demo_event 2 (lit ''/stop'')"] by (simp add: quiet_event_def demo_stop)

definition demo_resolved :: RouterState where
  "demo_resolved = snd (resolve_session (demo_fan 1) (demo_event 1 []) 7 (demo_wiring 10 Mention) demo_one)"

lemma demo_resolves:
  "resolve_session (demo_fan 1) (demo_event 1 []) 7 (demo_wiring 10 Mention) demo_one =
     (Inr \<lparr>ts_agent_group = 10, ts_id = [1]\<rparr>, demo_resolved)"
  unfolding demo_resolved_def by (simp add: route_defs stateful_defs demo_defs Let_def)

lemma demo_resolved_wf: "router_wf demo_resolved"
  using wellformed.keep_resolve [of "demo_fan 1" "demo_event 1 []" 7 "demo_wiring 10 Mention"] demo_wf
  by (simp add: always_def keeps_wf_def demo_resolved_def)

theorem same_conversation_same_session_witness:
  "\<exists>s r'. resolve_session (demo_fan 5) (demo_event 5 []) 7 (demo_wiring 10 Mention)
     (route_all demo_config [(demo_env 2, demo_event 2 [104, 105])] demo_resolved) = (Inr s, r') \<and>
     s = \<lparr>ts_agent_group = 10, ts_id = [1]\<rparr>"
proof -
  let ?r2 = "route_all demo_config [(demo_env 2, demo_event 2 [104, 105])] demo_resolved"
  let ?key = "find_for_agent (ro_sessions ?r2) 10 (Some 7) None"
  have "find_for_agent (ro_sessions demo_resolved) 10 (Some 7) None \<noteq> None"
    using resolve_session_finds [OF demo_resolves] by (auto simp: demo_wiring_def session_key_def)
  then have "?key \<noteq> None"
    using route_all_settled [of demo_resolved] by (fastforce simp: settled_def)
  then obtain s r' where run: "resolve_session (demo_fan 5) (demo_event 5 []) 7 (demo_wiring 10 Mention) ?r2 = (Inr s, r')"
    by (auto simp: resolve_session_def session_key_def demo_wiring_def demo_fan_def check_at_def stateful_defs)
  have "\<lparr>ts_agent_group = 10, ts_id = [1]\<rparr> = s \<longleftrightarrow>
      (wi_agent_group (demo_wiring 10 Mention), session_key (demo_event 1 []) 7 (demo_wiring 10 Mention)) =
      (wi_agent_group (demo_wiring 10 Mention), session_key (demo_event 5 []) 7 (demo_wiring 10 Mention))"
    by (rule same_conversation_same_session [OF demo_resolved_wf demo_resolves refl run])
  then have "s = \<lparr>ts_agent_group = 10, ts_id = [1]\<rparr>"
    by (simp add: session_key_def demo_wiring_def)
  with run show ?thesis by blast
qed

text \<open>
  A drop hides the wirings after it. In a group chat with two agents the first wiring, which engages on mentions,
  drops an unmentioned message, and the route ends there: the second wiring, whose pattern matches the message, is never
  tried, although the same chat with the wirings in the other order delivers to it.
\<close>

theorem first_drop_hides_later_wirings:
  "fst (route demo_config (demo_env 1) (demo_event 1 [104, 105])
     (demo_state True [demo_wiring 10 Mention, demo_wiring 11 Pattern])) = Inr (Dropped MentionGated) \<and>
   fst (route demo_config (demo_env 1) (demo_event 1 [104, 105])
     (demo_state True [demo_wiring 11 Pattern, demo_wiring 10 Mention])) =
     Inr (Delivered [\<lparr>dl_agent_group = 11, dl_session = [1], dl_message = 1, dl_seq = 2\<rparr>])"
  by (simp add: route_defs stateful_defs demo_defs demo_quiet Let_def pattern_matches_def event_text_def json_as_str_def
      is_interaction_payload_def REACTION_KEY_def)

end
