(* ===== verification/Session_Acks.thy ===== *)
theory Session_Acks
  imports Session_Db
begin

text \<open>
  The two ledgers beside the session queues (\<open>copperclaw-db/src/tables/delivered.rs\<close> and
  \<open>processing_ack.rs\<close>). \<open>delivered\<close> is written by the host when it has delivered (or given up on) an
  outbound row; the active loop and the sweep loop of the delivery service write it concurrently,
  each from its own stale snapshot, so the contract they need, \<open>delivery_ledger\<close>, is that the first
  recorded outcome of a row stays. \<open>processing_ack\<close> holds the container's claims on inbound rows.
\<close>

section \<open>delivered\<close>

record Delivered =
  message_out_id :: MessageId
  platform_message_id :: "ustring option"
  del_status :: ustring
  delivered_at :: instant

text \<open>\<open>INSERT ... ON CONFLICT(message_out_id) DO NOTHING\<close>; the flag says that a row was added.\<close>

definition insert_delivered ::
  "Delivered list \<Rightarrow> MessageId \<Rightarrow> ustring option \<Rightarrow> ustring \<Rightarrow> instant \<Rightarrow> bool \<times> Delivered list" where
  "insert_delivered t i pid st now =
     (if i \<in> message_out_id ` set t then (False, t)
      else (True, t @ [\<lparr>message_out_id = i, platform_message_id = pid, del_status = st,
                        delivered_at = now\<rparr>]))"

definition get_delivered_ids :: "Delivered list \<Rightarrow> MessageId set" where
  "get_delivered_ids t = set (map message_out_id t)"

definition list_delivered :: "Delivered list \<Rightarrow> Delivered list" where
  "list_delivered t = order_by delivered_at t"

definition delivered_wf :: "Delivered list \<Rightarrow> bool" where
  "delivered_wf t \<longleftrightarrow> distinct (map message_out_id t)"

text \<open>
  The contract of the ledger: \<open>record_outcome\<close> writes an outcome for an id, \<open>outcome\<close> reads it. A
  write for an id without an outcome is read back; a write for any id changes no outcome that is
  already there.
\<close>

locale delivery_ledger =
  fixes record_outcome :: "'id \<times> 'o \<Rightarrow> 't \<Rightarrow> 't"
    and outcome :: "'t \<Rightarrow> 'id \<Rightarrow> 'o option"
  assumes outcome_record:
    "outcome (record_outcome (i, r) t) j =
       (if j = i \<and> outcome t j = None then Some r else outcome t j)"
begin

lemma first_outcome_wins:
  "outcome (fold record_outcome ws t) i =
     (case outcome t i of Some r \<Rightarrow> Some r | None \<Rightarrow> map_of ws i)"
  by (induction ws arbitrary: t) (auto simp: outcome_record split: option.splits)

lemma outcome_stays: "outcome t i = Some r \<Longrightarrow> outcome (fold record_outcome ws t) i = Some r"
  by (simp add: first_outcome_wins)

lemma every_attempt_settles:
  "i \<in> fst ` set ws \<Longrightarrow> outcome (fold record_outcome ws t) i \<noteq> None"
  by (cases "map_of ws i") (auto simp: first_outcome_wins map_of_eq_None_iff split: option.splits)

end

text \<open>The outcome of a delivery: the platform's id for the message, the status, the time.\<close>

type_synonym delivery_outcome = "ustring option \<times> ustring \<times> instant"

definition record_outcome :: "MessageId \<times> delivery_outcome \<Rightarrow> Delivered list \<Rightarrow> Delivered list" where
  "record_outcome w t =
     (case w of (i, pid, st, now) \<Rightarrow> snd (insert_delivered t i pid st now))"

definition outcome :: "Delivered list \<Rightarrow> MessageId \<Rightarrow> delivery_outcome option" where
  "outcome t i =
     map_option (\<lambda>r. (platform_message_id r, del_status r, delivered_at r))
       (find (\<lambda>r. message_out_id r = i) t)"

lemma outcome_None_iff: "outcome t i = None \<longleftrightarrow> i \<notin> message_out_id ` set t"
  by (auto simp: outcome_def find_None_iff)

interpretation delivered: delivery_ledger record_outcome outcome
proof
  fix i j t and r :: delivery_outcome
  obtain pid st now where r: "r = (pid, st, now)"
    by (cases r)
  show "outcome (record_outcome (i, r) t) j =
      (if j = i \<and> outcome t j = None then Some r else outcome t j)"
  proof (cases "i \<in> message_out_id ` set t")
    case True
    then have "record_outcome (i, r) t = t"
      by (simp add: record_outcome_def r insert_delivered_def)
    moreover have "outcome t i \<noteq> None"
      using True by (simp add: outcome_None_iff)
    ultimately show ?thesis by auto
  next
    case False
    then have "find (\<lambda>r. message_out_id r = i) t = None"
      by (auto simp: find_None_iff)
    with False show ?thesis
      by (auto simp: record_outcome_def r insert_delivered_def outcome_def find_append
          split: option.splits)
  qed
qed

interpretation delivered_key: primary_key delivered_wf message_out_id
  by unfold_locales (simp add: delivered_wf_def)

lemma record_outcome_wf: "delivered_wf t \<Longrightarrow> delivered_wf (record_outcome w t)"
  by (cases w) (auto simp: record_outcome_def insert_delivered_def delivered_wf_def)

lemma record_outcome_ids:
  "get_delivered_ids (record_outcome w t) = insert (fst w) (get_delivered_ids t)"
  by (cases w) (auto simp: record_outcome_def insert_delivered_def get_delivered_ids_def)

lemma fold_record_wf: "delivered_wf t \<Longrightarrow> delivered_wf (fold record_outcome ws t)"
  by (induction ws arbitrary: t) (simp_all add: record_outcome_wf)

lemma fold_record_ids:
  "get_delivered_ids (fold record_outcome ws t) = get_delivered_ids t \<union> fst ` set ws"
  by (induction ws arbitrary: t) (auto simp: record_outcome_ids)

section \<open>processing_ack\<close>

datatype ProcessingStatus = Processing | Done | Failed

fun ack_as_str :: "ProcessingStatus \<Rightarrow> ustring" where
  "ack_as_str Processing = lit ''processing''"
| "ack_as_str Done = lit ''done''"
| "ack_as_str Failed = lit ''failed''"

definition ack_parse :: "ustring \<Rightarrow> ProcessingStatus option" where
  "ack_parse s =
     (if s = lit ''processing'' then Some Processing
      else if s = lit ''done'' then Some Done
      else if s = lit ''failed'' then Some Failed
      else None)"

interpretation processing_status: wire_enum ack_as_str ack_parse
proof
  show "ack_parse (ack_as_str e) = Some e" for e
    by (cases e) (simp_all add: ack_parse_def)
  show "ack_as_str e = s" if "ack_parse s = Some e" for s e
    using that by (auto simp: ack_parse_def split: if_splits)
qed

text \<open>A row of the table; the status column holds the text.\<close>

record AckRow =
  ack_id :: MessageId
  ack_status :: ustring
  ack_changed :: instant

record ProcessingClaim =
  claim_id :: MessageId
  claim_status :: ProcessingStatus
  claim_changed :: instant

definition row_to_claim :: "AckRow \<Rightarrow> DbError + ProcessingClaim" where
  "row_to_claim r =
     (case ack_parse (ack_status r) of
        None \<Rightarrow> Inl ConstraintViolation
      | Some s \<Rightarrow> Inr \<lparr>claim_id = ack_id r, claim_status = s, claim_changed = ack_changed r\<rparr>)"

fun collect_rows :: "('e + 'a) list \<Rightarrow> 'e + 'a list" where
  "collect_rows [] = Inr []"
| "collect_rows (Inl e # rs) = Inl e"
| "collect_rows (Inr x # rs) = (case collect_rows rs of Inl e \<Rightarrow> Inl e | Inr xs \<Rightarrow> Inr (x # xs))"

definition insert_ack ::
  "AckRow list \<Rightarrow> MessageId \<Rightarrow> ProcessingStatus \<Rightarrow> instant \<Rightarrow> DbError + AckRow list" where
  "insert_ack t i st now =
     (if i \<in> ack_id ` set t then Inl ConstraintViolation
      else Inr (t @ [\<lparr>ack_id = i, ack_status = ack_as_str st, ack_changed = now\<rparr>]))"

definition update_ack ::
  "AckRow list \<Rightarrow> MessageId \<Rightarrow> ProcessingStatus \<Rightarrow> instant \<Rightarrow> DbError + AckRow list" where
  "update_ack t i st now =
     (let (n, t') = sql_update (\<lambda>r. ack_id r = i)
        (\<lambda>r. r\<lparr>ack_status := ack_as_str st, ack_changed := now\<rparr>) t
      in if n = 0 then Inl NotFound else Inr t')"

definition get_all_acks :: "AckRow list \<Rightarrow> DbError + ProcessingClaim list" where
  "get_all_acks t = collect_rows (map row_to_claim (order_by ack_changed t))"

definition get_ack :: "AckRow list \<Rightarrow> MessageId \<Rightarrow> DbError + ProcessingClaim option" where
  "get_ack t i =
     (case find (\<lambda>r. ack_id r = i) t of
        None \<Rightarrow> Inr None
      | Some r \<Rightarrow> (case row_to_claim r of Inl e \<Rightarrow> Inl e | Inr c \<Rightarrow> Inr (Some c)))"

definition delete_ack :: "AckRow list \<Rightarrow> MessageId \<Rightarrow> DbError + AckRow list" where
  "delete_ack t i =
     (let (n, t') = sql_delete (\<lambda>r. ack_id r = i) t
      in if n = 0 then Inl NotFound else Inr t')"

definition acks_wf :: "AckRow list \<Rightarrow> bool" where
  "acks_wf t \<longleftrightarrow> distinct (map ack_id t) \<and> (\<forall>r \<in> set t. ack_status r \<in> range ack_as_str)"

interpretation ack_key: primary_key acks_wf ack_id
  by unfold_locales (simp add: acks_wf_def)

inductive ack_step :: "AckRow list \<Rightarrow> AckRow list \<Rightarrow> bool" where
  claim: "insert_ack t i st now = Inr t' \<Longrightarrow> ack_step t t'"
| update: "update_ack t i st now = Inr t' \<Longrightarrow> ack_step t t'"
| delete: "delete_ack t i = Inr t' \<Longrightarrow> ack_step t t'"

inductive ack_reachable :: "AckRow list \<Rightarrow> bool" where
  start: "ack_reachable []"
| step: "ack_reachable t \<Longrightarrow> ack_step t t' \<Longrightarrow> ack_reachable t'"

lemma update_ack_wf: "acks_wf t \<Longrightarrow> update_ack t i st now = Inr t' \<Longrightarrow> acks_wf t'"
  by (auto simp: update_ack_def acks_wf_def sql_update_def comp_def if_distrib
      cong: if_cong split: if_splits)

lemma delete_ack_wf: "acks_wf t \<Longrightarrow> delete_ack t i = Inr t' \<Longrightarrow> acks_wf t'"
  by (auto simp: delete_ack_def acks_wf_def sql_delete_def distinct_map_filter split: if_splits)

lemma ack_step_wf: "ack_step t t' \<Longrightarrow> acks_wf t \<Longrightarrow> acks_wf t'"
proof (induction rule: ack_step.induct)
  case (claim t i st now t')
  then show ?case by (auto simp: insert_ack_def acks_wf_def split: if_splits)
qed (auto intro: update_ack_wf delete_ack_wf)

lemma ack_reachable_wf: "ack_reachable t \<Longrightarrow> acks_wf t"
proof (induction rule: ack_reachable.induct)
  case start
  then show ?case by (simp add: acks_wf_def)
qed (blast intro: ack_step_wf)

lemma collect_rows_Inr: "(\<And>r. r \<in> set rs \<Longrightarrow> \<exists>x. r = Inr x) \<Longrightarrow> \<exists>xs. collect_rows rs = Inr xs"
proof (induction rs)
  case (Cons r rs)
  then obtain x xs where "r = Inr x" "collect_rows rs = Inr xs"
    by (metis list.set_intros(1,2))
  then show ?case by simp
qed simp

lemma row_to_claim_total: "acks_wf t \<Longrightarrow> r \<in> set t \<Longrightarrow> \<exists>c. row_to_claim r = Inr c"
  by (auto simp: acks_wf_def row_to_claim_def processing_status.parse_as_str dest!: bspec)

lemma get_all_acks_total: "acks_wf t \<Longrightarrow> \<exists>cs. get_all_acks t = Inr cs"
  unfolding get_all_acks_def by (rule collect_rows_Inr) (auto dest: row_to_claim_total)

lemma get_update_ack:
  assumes "update_ack t i st now = Inr t'"
  shows "get_ack t' j =
    (if j = i then Inr (Some \<lparr>claim_id = i, claim_status = st, claim_changed = now\<rparr>) else get_ack t j)"
proof -
  have t': "t' = map (\<lambda>r. if ack_id r = i then r\<lparr>ack_status := ack_as_str st, ack_changed := now\<rparr> else r) t"
    and "i \<in> ack_id ` set t"
    using assms by (auto simp: update_ack_def sql_update_def filter_empty_conv split: if_splits)
  then obtain r where "find (\<lambda>r. ack_id r = i) t = Some r"
    by (cases "find (\<lambda>r. ack_id r = i) t") (auto simp: find_None_iff)
  moreover from this have "ack_id r = i"
    by (auto simp: find_Some_iff)
  ultimately show ?thesis
    by (simp add: t' get_ack_def find_update row_to_claim_def processing_status.parse_as_str)
qed

lemma collect_rows_map:
  "(\<And>r. r \<in> set rs \<Longrightarrow> f r = Inr (g r)) \<Longrightarrow> collect_rows (map f rs) = Inr (map g rs)"
  by (induction rs) auto

definition read_claim :: "AckRow \<Rightarrow> ProcessingClaim" where
  "read_claim r =
     \<lparr>claim_id = ack_id r, claim_status = the (ack_parse (ack_status r)), claim_changed = ack_changed r\<rparr>"

lemma row_to_claim_read: "acks_wf t \<Longrightarrow> r \<in> set t \<Longrightarrow> row_to_claim r = Inr (read_claim r)"
  by (auto simp: acks_wf_def row_to_claim_def read_claim_def processing_status.parse_as_str dest!: bspec)

lemma get_all_acks_eq: "acks_wf t \<Longrightarrow> get_all_acks t = Inr (map read_claim (order_by ack_changed t))"
  unfolding get_all_acks_def by (rule collect_rows_map) (simp add: row_to_claim_read)

section \<open>Properties of the ledgers\<close>

text \<open>
  The first recorded outcome of an outbound message stays, however the record attempts of
  concurrent delivery passes interleave: after any sequence of attempts on any ledger, the outcome of
  a message is the one it had, or else the first attempt's; every attempted id is then reported
  delivered, no other is, and no attempt can break the uniqueness of ids.
\<close>

theorem first_delivery_outcome_stays:
  "outcome (fold record_outcome ws t) i =
     (case outcome t i of Some r \<Rightarrow> Some r | None \<Rightarrow> map_of ws i) \<and>
   get_delivered_ids (fold record_outcome ws t) = get_delivered_ids t \<union> fst ` set ws \<and>
   delivered_wf (fold record_outcome ws [])"
  by (simp add: delivered.first_outcome_wins fold_record_ids fold_record_wf delivered_wf_def [of "[]"])

text \<open>
  Every table of claims that the operations can produce is readable: \<open>get_all\<close> never fails on a
  status text, and it returns each claim once, ordered by the time of its last change.
\<close>

theorem claims_always_readable:
  assumes "ack_reachable t"
  shows "\<exists>cs. get_all_acks t = Inr cs \<and> mset (map claim_id cs) = mset (map ack_id t) \<and>
    sorted (map claim_changed cs) \<and> distinct (map claim_id cs)"
proof -
  let ?cs = "map read_claim (order_by ack_changed t)"
  have wf: "acks_wf t" using assms by (rule ack_reachable_wf)
  have ids: "mset (map claim_id ?cs) = mset (map ack_id t)"
    by (simp add: read_claim_def comp_def order_by_def)
  moreover have "distinct (map claim_id ?cs)"
    using mset_eq_imp_distinct_iff [OF ids] ack_key.wf_distinct [OF wf] by simp
  moreover have "sorted (map claim_changed ?cs)"
    by (simp add: read_claim_def comp_def order_by_def)
  ultimately show ?thesis using get_all_acks_eq [OF wf] by blast
qed

definition ack_row :: "nat \<Rightarrow> ProcessingStatus \<Rightarrow> instant \<Rightarrow> AckRow" where
  "ack_row i st now = \<lparr>ack_id = i, ack_status = ack_as_str st, ack_changed = now\<rparr>"

theorem claims_always_readable_witness:
  "\<exists>cs. get_all_acks [ack_row 7 Done 5] = Inr cs \<and> map claim_id cs = [7]"
proof -
  have "insert_ack [] 7 Processing 1 = Inr [ack_row 7 Processing 1]"
    by (simp add: insert_ack_def ack_row_def)
  then have "ack_reachable [ack_row 7 Processing 1]"
    by (blast intro: ack_reachable.intros ack_step.intros)
  moreover have "update_ack [ack_row 7 Processing 1] 7 Done 5 = Inr [ack_row 7 Done 5]"
    by (simp add: update_ack_def sql_update_def ack_row_def)
  ultimately have "ack_reachable [ack_row 7 Done 5]"
    by (blast intro: ack_reachable.intros ack_step.intros)
  from claims_always_readable [OF this] obtain cs
    where "get_all_acks [ack_row 7 Done 5] = Inr cs" and "mset (map claim_id cs) = mset [7]"
    by (auto simp: ack_row_def)
  moreover from this(2) have "map claim_id cs = [7]"
    by (metis mset_eq_length mset_eq_setD length_Suc_conv length_0_conv list.set_intros(1) list.set(1,2)
        singletonD list.size(3))
  ultimately show ?thesis by (intro exI [of _ cs] conjI)
qed

end
