(* ===== verification/Fence.thy ===== *)
theory Fence
  imports Prelude
begin

text \<open>
  The fence scanner of the chat-text splitter
  (\<open>copperclaw-channels/core/src/markdown/fence.rs\<close>): one state machine over the characters of a text
  that finds backtick fences and HTML \<open>pre\<close> blocks. The interface the splitter needs of it is the
  locale \<open>fence_scanner\<close>: spans are non-empty, inside the text, and in order without overlap.
\<close>

section \<open>Spans\<close>

datatype FenceKind = Backtick ustring | Pre ustring

fun closer :: "FenceKind \<Rightarrow> ustring" where
  "closer (Backtick opener) = [10, 96, 96, 96]"
| "closer (Pre opener) = lit ''</pre>''"

fun reopen_text :: "FenceKind \<Rightarrow> ustring" where
  "reopen_text (Backtick opener) = opener @ [10]"
| "reopen_text (Pre opener) = opener"

fun kind_label :: "FenceKind \<Rightarrow> ustring" where
  "kind_label (Backtick opener) = lit ''backtick''"
| "kind_label (Pre opener) = lit ''pre''"

record FenceSpan =
  span_start :: nat
  span_end :: nat
  span_kind :: FenceKind
  span_closed :: bool

section \<open>Lines and tags\<close>

definition slice :: "'a list \<Rightarrow> nat \<Rightarrow> nat \<Rightarrow> 'a list" where
  "slice xs i j = take (j - i) (drop i xs)"

definition line_end :: "ustring \<Rightarrow> nat \<Rightarrow> nat" where
  "line_end chars i = i + length (takeWhile (\<lambda>c. c \<noteq> 10) (drop i chars))"

definition backtick_run :: "ustring \<Rightarrow> nat \<Rightarrow> nat \<Rightarrow> nat option" where
  "backtick_run chars ls le =
     (let line = slice chars ls le;
          spaces = length (takeWhile (\<lambda>c. c = 32) (take 3 line));
          run = length (takeWhile (\<lambda>c. c = 96) (drop spaces line))
      in if run \<ge> 3 then Some (ls + spaces + run) else None)"

definition is_backtick_close :: "ustring \<Rightarrow> nat \<Rightarrow> nat \<Rightarrow> bool" where
  "is_backtick_close chars ls le =
     (case backtick_run chars ls le of
        Some after \<Rightarrow> list_all is_whitespace (slice chars after le)
      | None \<Rightarrow> False)"

definition matches_ci :: "ustring \<Rightarrow> nat \<Rightarrow> ustring \<Rightarrow> bool" where
  "matches_ci chars i pat =
     (if i + length pat > length chars then False
      else list_all2 (\<lambda>a b. ascii_lower a = ascii_lower b) (slice chars i (i + length pat)) pat)"

definition pre_open_end :: "ustring \<Rightarrow> nat \<Rightarrow> nat option" where
  "pre_open_end chars i =
     (if \<not> matches_ci chars i (lit ''<pre'') then None
      else if i + 4 \<ge> length chars then None
      else if chars ! (i + 4) = 62 then Some (i + 4)
      else if is_whitespace (chars ! (i + 4)) \<and> chars ! (i + 4) \<noteq> 10 then
        (let j = i + 5 + length (takeWhile (\<lambda>c. c \<noteq> 10 \<and> c \<noteq> 62) (drop (i + 5) chars))
         in if j < length chars \<and> chars ! j = 62 then Some j else None)
      else None)"

lemma line_end_ge: "i \<le> line_end chars i"
  by (simp add: line_end_def)

lemma pre_open_end_gt: "pre_open_end chars i = Some j \<Longrightarrow> i < j \<and> j < length chars"
  by (auto simp: pre_open_end_def Let_def split: if_splits)

section \<open>The scanner\<close>

function scan_loop ::
  "ustring \<Rightarrow> nat \<Rightarrow> (nat \<times> FenceKind) option \<Rightarrow> FenceSpan list \<Rightarrow> FenceSpan list" where
  "scan_loop chars i opened spans =
     (if i \<ge> length chars then
        (case opened of
           Some (start, kind) \<Rightarrow>
             spans @ [\<lparr>span_start = start, span_end = length chars, span_kind = kind, span_closed = False\<rparr>]
         | None \<Rightarrow> spans)
      else
        (case opened of
           None \<Rightarrow>
             (let le = line_end chars i
              in if (i = 0 \<or> chars ! (i - 1) = 10) \<and> backtick_run chars i le \<noteq> None
                 then scan_loop chars (le + 1) (Some (i, Backtick (trim_end (slice chars i le)))) spans
                 else
                   (case pre_open_end chars i of
                      Some gt \<Rightarrow> scan_loop chars (gt + 1) (Some (i, Pre (slice chars i (gt + 1)))) spans
                    | None \<Rightarrow> scan_loop chars (i + 1) None spans))
         | Some (start, Backtick opener) \<Rightarrow>
             (let le = line_end chars i
              in if is_backtick_close chars i le
                 then scan_loop chars (le + 1) None
                   (spans @ [\<lparr>span_start = start, span_end = le, span_kind = Backtick opener,
                             span_closed = True\<rparr>])
                 else scan_loop chars (le + 1) (Some (start, Backtick opener)) spans)
         | Some (start, Pre opener) \<Rightarrow>
             if matches_ci chars i (lit ''</pre>'')
             then scan_loop chars (i + 6) None
               (spans @ [\<lparr>span_start = start, span_end = i + 6, span_kind = Pre opener,
                         span_closed = True\<rparr>])
             else scan_loop chars (i + 1) (Some (start, Pre opener)) spans))"
  by pat_completeness auto

termination
  by (relation "measure (\<lambda>(chars, i, opened, spans). length chars - i)")
    (auto simp: less_Suc_eq_le line_end_ge intro!: diff_less_mono2 dest: pre_open_end_gt)

declare scan_loop.simps [simp del]

definition scan_fence_spans :: "ustring \<Rightarrow> FenceSpan list" where
  "scan_fence_spans chars = scan_loop chars 0 None []"

definition is_balanced :: "ustring \<Rightarrow> bool" where
  "is_balanced text = list_all span_closed (scan_fence_spans text)"

section \<open>What the splitter relies on\<close>

definition spans_ok :: "nat \<Rightarrow> FenceSpan list \<Rightarrow> bool" where
  "spans_ok n spans \<longleftrightarrow>
     (\<forall>s \<in> set spans. span_start s < span_end s \<and> span_end s \<le> n) \<and>
     sorted_wrt (\<lambda>s t. span_end s \<le> span_start t) spans"

locale fence_scanner =
  fixes scan :: "ustring \<Rightarrow> FenceSpan list"
  assumes scan_ok: "spans_ok (length chars) (scan chars)"
begin

lemma span_bounds:
  "s \<in> set (scan chars) \<Longrightarrow> span_start s < span_end s \<and> span_end s \<le> length chars"
  using scan_ok by (auto simp: spans_ok_def)

text \<open>At most one span contains a given pos, so the splitter's \<open>find\<close> has no choice.\<close>

lemma unique_span_at:
  assumes "s \<in> set (scan chars)" and "t \<in> set (scan chars)"
    and "span_start s < pos" "pos < span_end s" "span_start t < pos" "pos < span_end t"
  shows "s = t"
proof (rule ccontr)
  assume "s \<noteq> t"
  then obtain i j where ij: "i < length (scan chars)" "j < length (scan chars)" "i \<noteq> j"
    "scan chars ! i = s" "scan chars ! j = t"
    using assms(1,2) by (metis in_set_conv_nth)
  then have "span_end s \<le> span_start t \<or> span_end t \<le> span_start s"
    using scan_ok [of chars] unfolding spans_ok_def sorted_wrt_iff_nth_less
    by (metis linorder_neqE_nat)
  with assms(3-6) show False by linarith
qed

end

text \<open>Every span found so far ends at or before the position, and an open fence started before it.\<close>

definition scan_inv :: "nat \<Rightarrow> nat \<Rightarrow> (nat \<times> FenceKind) option \<Rightarrow> FenceSpan list \<Rightarrow> bool" where
  "scan_inv n i opened spans \<longleftrightarrow>
     spans_ok n spans \<and>
     (\<forall>s \<in> set spans. span_end s \<le> (case opened of Some (start, _) \<Rightarrow> start | None \<Rightarrow> i)) \<and>
     (case opened of Some (start, _) \<Rightarrow> start < i \<and> start < n | None \<Rightarrow> True)"

lemma spans_ok_snoc:
  "spans_ok n spans \<Longrightarrow> (\<And>s. s \<in> set spans \<Longrightarrow> span_end s \<le> a) \<Longrightarrow> a < b \<Longrightarrow> b \<le> n \<Longrightarrow>
     spans_ok n (spans @ [\<lparr>span_start = a, span_end = b, span_kind = k, span_closed = c\<rparr>])"
  by (auto simp: spans_ok_def sorted_wrt_append)

lemma line_end_le: "i \<le> length chars \<Longrightarrow> line_end chars i \<le> length chars"
  using length_takeWhile_le [of "\<lambda>c. c \<noteq> 10" "drop i chars"] by (simp add: line_end_def)

lemma matches_ci_le: "matches_ci chars i pat \<Longrightarrow> i + length pat \<le> length chars"
  by (simp add: matches_ci_def split: if_splits)

lemma scan_loop_ok: "scan_inv (length chars) i opened spans \<Longrightarrow> spans_ok (length chars) (scan_loop chars i opened spans)"
proof (induction chars i opened spans rule: scan_loop.induct)
  case (1 chars i opened spans)
  note inv = "1.prems"
  show ?case
  proof (cases "i \<ge> length chars")
    case True
    then show ?thesis
      using inv by (subst scan_loop.simps)
        (auto simp: scan_inv_def split: option.splits prod.splits intro!: spans_ok_snoc)
  next
    case False
    then have i: "\<not> length chars \<le> i" "i < length chars" by simp_all
    have le: "i \<le> line_end chars i" "line_end chars i \<le> length chars"
      using i by (simp_all add: line_end_ge line_end_le)
    show ?thesis
    proof (cases opened)
      case None
      have "scan_inv (length chars) (line_end chars i + 1) (Some (i, k)) spans"
        "scan_inv (length chars) (i + 1) None spans" for k
        using inv None i le by (auto simp: scan_inv_def)
      moreover have "pre_open_end chars i = Some gt \<Longrightarrow>
          scan_inv (length chars) (gt + 1) (Some (i, k)) spans" for gt k
        using inv None i by (auto simp: scan_inv_def dest: pre_open_end_gt)
      ultimately show ?thesis
        using "1.IH"(1-3) [OF i(1) None] None i
        by (subst scan_loop.simps) (auto simp: Let_def split: option.splits)
    next
      case (Some ok)
      obtain start kind where ok: "ok = (start, kind)" by (cases ok)
      have st: "start < i" "start < length chars" "spans_ok (length chars) spans"
        "\<And>s. s \<in> set spans \<Longrightarrow> span_end s \<le> start"
        using inv Some ok by (auto simp: scan_inv_def)
      show ?thesis
      proof (cases kind)
        case (Backtick opener)
        have "scan_inv (length chars) (line_end chars i + 1) (Some (start, k)) spans" for k
          using st le by (auto simp: scan_inv_def)
        moreover have "scan_inv (length chars) (line_end chars i + 1) None
            (spans @ [\<lparr>span_start = start, span_end = line_end chars i, span_kind = k, span_closed = True\<rparr>])" for k
          using st le spans_ok_snoc [OF st(3,4), of "line_end chars i"]
          by (fastforce simp: scan_inv_def)
        ultimately show ?thesis
          using "1.IH"(4,5) [OF i(1) Some ok [symmetric] Backtick refl] Some ok Backtick i
          by (subst scan_loop.simps) (simp add: Let_def)
      next
        case (Pre opener)
        have "scan_inv (length chars) (i + 1) (Some (start, k)) spans" for k
          using st by (auto simp: scan_inv_def)
        moreover have "matches_ci chars i (lit ''</pre>'') \<Longrightarrow> scan_inv (length chars) (i + 6) None
            (spans @ [\<lparr>span_start = start, span_end = i + 6, span_kind = k, span_closed = True\<rparr>])" for k
          using st spans_ok_snoc [OF st(3,4), of "i + 6"] matches_ci_le [of chars i "lit ''</pre>''"]
          by (fastforce simp: scan_inv_def lit_def)
        ultimately show ?thesis
          using "1.IH"(6,7) [OF i(1) Some ok [symmetric] Pre] Some ok Pre i
          by (subst scan_loop.simps) simp
      qed
    qed
  qed
qed

interpretation fence: fence_scanner scan_fence_spans
proof
  show "spans_ok (length chars) (scan_fence_spans chars)" for chars
    unfolding scan_fence_spans_def by (rule scan_loop_ok) (simp add: scan_inv_def spans_ok_def)
qed

end
