(* ===== verification/Splitter.thy ===== *)
theory Splitter
  imports Fence "HOL-Library.Sublist"
begin

text \<open>
  The fence-aware splitter of long replies (\<open>copperclaw-channels/core/src/markdown/split.rs\<close>). The main
  loop may run forever (it does for a cap of zero), so it is a partial function whose value is \<open>None\<close>
  when it does not return; that it returns for every positive cap is proved. The second component of
  a result are the metric labels the code counts.
\<close>

section \<open>Cutting\<close>

text \<open>The three downward loops of \<open>find_cut\<close>: the largest index above \<open>lo\<close>, from \<open>i\<close> down, that satisfies \<open>p\<close>.\<close>

fun find_down :: "(nat \<Rightarrow> bool) \<Rightarrow> nat \<Rightarrow> nat \<Rightarrow> nat option" where
  "find_down p lo i = (if i \<le> lo then None else if p i then Some i else find_down p lo (i - 1))"

declare find_down.simps [simp del]

definition find_cut :: "ustring \<Rightarrow> nat \<Rightarrow> nat \<Rightarrow> nat" where
  "find_cut chars lo hi =
     (case find_down (\<lambda>i. chars ! (i - 1) = 10 \<and> chars ! i = 10) (lo + 1) (hi - 1) of
        Some i \<Rightarrow> i + 1
      | None \<Rightarrow>
         (case find_down (\<lambda>i. chars ! i \<in> {12290, 65281, 65311} \<or>
                 i + 1 < length chars \<and> chars ! i \<in> {46, 33, 63} \<and> chars ! (i + 1) = 32) lo (hi - 1) of
            Some i \<Rightarrow> i + 1
          | None \<Rightarrow>
             (case find_down (\<lambda>i. chars ! i = 32 \<or> chars ! i = 10) lo (hi - 1) of
                Some i \<Rightarrow> i
              | None \<Rightarrow> hi)))"

text \<open>The whitespace skip after a plain cut.\<close>

definition skip_blank :: "ustring \<Rightarrow> nat \<Rightarrow> nat" where
  "skip_blank chars i = i + length (takeWhile (\<lambda>c. c = 32 \<or> c = 10 \<or> c = 9) (drop i chars))"

text \<open>
  One iteration on a window that does not hold the rest: the chunk, the next start, the reopen line for
  the next chunk, and the fence metric.
\<close>

definition plain_cut ::
  "ustring \<Rightarrow> nat \<Rightarrow> ustring \<Rightarrow> nat \<Rightarrow> ustring \<times> nat \<times> ustring option \<times> ustring list" where
  "plain_cut chars start lead pos =
     (lead @ trim_end (slice chars start pos), skip_blank chars pos, None, [])"

definition split_step ::
  "ustring \<Rightarrow> FenceSpan list \<Rightarrow> nat \<Rightarrow> ustring \<Rightarrow> nat \<Rightarrow>
     ustring \<times> nat \<times> ustring option \<times> ustring list" where
  "split_step chars spans start lead budget =
     (let window_end = start + budget;
          pos = find_cut chars start window_end
      in case find (\<lambda>s. span_start s < pos \<and> pos < span_end s) spans of
           None \<Rightarrow> plain_cut chars start lead pos
         | Some span \<Rightarrow>
             if span_end span \<le> window_end then plain_cut chars start lead (span_end span)
             else if span_start span > start then plain_cut chars start lead (span_start span)
             else
               (let c = closer (span_kind span)
                in if budget > length c then
                     (let content_end = start + (budget - length c);
                          (body_end, next_start) =
                            (case find_down (\<lambda>j. chars ! j = 10) start content_end of
                               Some j \<Rightarrow> (j, j + 1)
                             | None \<Rightarrow> (content_end, content_end))
                      in (lead @ slice chars start body_end @ c, next_start,
                          Some (reopen_text (span_kind span)), [kind_label (span_kind span)]))
                   else plain_cut chars start lead pos))"

partial_function (option) split_loop ::
  "ustring \<Rightarrow> FenceSpan list \<Rightarrow> nat \<Rightarrow> nat \<Rightarrow> ustring option \<Rightarrow> ustring list \<Rightarrow> ustring list \<Rightarrow>
     (ustring list \<times> ustring list) option" where
  "split_loop chars spans limit start reopen out ms =
     (if start \<ge> length chars then Some (out, ms)
      else
        let lead = (case reopen of Some p \<Rightarrow> p | None \<Rightarrow> []);
            budget = limit - length lead
        in if budget = 0 then split_loop chars spans limit start None (out @ [lead]) ms
           else if length chars - start \<le> budget then Some (out @ [lead @ drop start chars], ms)
           else
             (case split_step chars spans start lead budget of
                (chunk, next_start, reopen', ms') \<Rightarrow>
                  split_loop chars spans limit next_start reopen' (out @ [chunk]) (ms @ ms')))"

definition retain_nonempty :: "ustring list \<Rightarrow> ustring list" where
  "retain_nonempty out =
     (let kept = filter (\<lambda>s. s \<noteq> []) out in if kept = [] then [[]] else kept)"

declare split_loop.simps [code]

definition split_into_chunks :: "ustring \<Rightarrow> nat \<Rightarrow> (ustring list \<times> ustring list) option" where
  "split_into_chunks chars limit =
     (let spans = scan_fence_spans chars;
          ms0 = (if list_ex (\<lambda>s. \<not> span_closed s) spans then [lit ''unbalanced_input''] else [])
      in map_option (\<lambda>(out, ms). (retain_nonempty out, ms0 @ ms)) (split_loop chars spans limit 0 None [] []))"

section \<open>Byte caps\<close>

definition BYTE_SPLIT_DEPTH :: nat where "BYTE_SPLIT_DEPTH = 8"

definition next_cap :: "ustring \<Rightarrow> nat \<Rightarrow> nat \<Rightarrow> nat" where
  "next_cap chunk cap_chars max_bytes =
     (let est = max (length chunk * max_bytes div byte_len chunk) 1
      in max (min est (cap_chars - 1)) 1)"

fun enforce_byte_cap :: "ustring \<Rightarrow> nat \<Rightarrow> nat \<Rightarrow> nat \<Rightarrow> ustring list option" where
  "enforce_byte_cap chunk cap_chars max_bytes 0 = Some [chunk]"
| "enforce_byte_cap chunk cap_chars max_bytes (Suc depth) =
     (if byte_len chunk \<le> max_bytes \<or> cap_chars \<le> 1 then Some [chunk]
      else
        (case split_into_chunks chunk (next_cap chunk cap_chars max_bytes) of
           None \<Rightarrow> None
         | Some (pieces, _) \<Rightarrow>
             if length pieces \<le> 1 then Some pieces
             else map_option concat
               (those (map (\<lambda>p. enforce_byte_cap p (next_cap chunk cap_chars max_bytes) max_bytes depth) pieces))))"

definition split_into_chunks_within_bytes ::
  "ustring \<Rightarrow> nat \<Rightarrow> nat option \<Rightarrow> ustring list option" where
  "split_into_chunks_within_bytes chars max_chars max_bytes =
     (case split_into_chunks chars max_chars of
        None \<Rightarrow> None
      | Some (pieces, _) \<Rightarrow>
         (case max_bytes of
            None \<Rightarrow> Some pieces
          | Some b \<Rightarrow>
              if b > 0
              then map_option concat (those (map (\<lambda>c. enforce_byte_cap c max_chars b BYTE_SPLIT_DEPTH) pieces))
              else Some pieces))"

definition RENDER_HEADROOM_PERCENT :: nat where "RENDER_HEADROOM_PERCENT = 90"

definition effective_max :: "nat option \<Rightarrow> nat option" where
  "effective_max m =
     map_option (\<lambda>m. max ((m div 100) * RENDER_HEADROOM_PERCENT + (m mod 100) * RENDER_HEADROOM_PERCENT div 100) 1) m"

section \<open>Bounds of a cut\<close>

lemma find_down_SomeD: "find_down p lo i = Some j \<Longrightarrow> lo < j \<and> j \<le> i \<and> p j"
proof (induction p lo i rule: find_down.induct)
  case (1 p lo i)
  then show ?case
    by (subst (asm) find_down.simps) (force split: if_splits)
qed

lemma find_cut_bounds: "lo < hi \<Longrightarrow> lo < find_cut chars lo hi \<and> find_cut chars lo hi \<le> hi"
  by (auto simp: find_cut_def dest!: find_down_SomeD split: option.splits)

lemma slice_drop: "i \<le> j \<Longrightarrow> j \<le> length xs \<Longrightarrow> slice xs i j @ drop j xs = drop i xs"
  by (metis append_take_drop_id drop_drop le_add_diff_inverse2 slice_def)

lemma length_slice: "j \<le> length xs \<Longrightarrow> length (slice xs i j) = j - i"
  by (auto simp: slice_def)

lemma skip_blank_bounds: "i \<le> length chars \<Longrightarrow> i \<le> skip_blank chars i \<and> skip_blank chars i \<le> length chars"
  using length_takeWhile_le [of "\<lambda>c. c = 32 \<or> c = 10 \<or> c = 9" "drop i chars"] by (simp add: skip_blank_def)

lemma drop_skip_blank:
  "drop (skip_blank chars i) chars = dropWhile (\<lambda>c. c = 32 \<or> c = 10 \<or> c = 9) (drop i chars)"
  by (simp add: skip_blank_def dropWhile_eq_drop add.commute)

text \<open>
  What one iteration does, with \<open>spans\<close> inside the text: it advances, keeps within its budget, and the
  visible characters it passes are in its chunk, in order.
\<close>

abbreviation visible :: "ustring \<Rightarrow> ustring" where
  "visible \<equiv> filter (\<lambda>c. \<not> is_whitespace c)"

definition step_ok :: "ustring \<Rightarrow> nat \<Rightarrow> ustring \<Rightarrow> nat \<Rightarrow> ustring \<times> nat \<times> ustring option \<times> ustring list \<Rightarrow> bool" where
  "step_ok chars start lead budget r \<longleftrightarrow>
     (case r of (chunk, next_start, reopen, ms) \<Rightarrow>
        start < next_start \<and> next_start \<le> length chars \<and> length chunk \<le> length lead + budget \<and>
        (\<exists>body suffix. chunk = lead @ body @ suffix \<and>
           visible (drop start chars) = visible body @ visible (drop next_start chars) \<and>
           (reopen = None \<longrightarrow> suffix = [])))"

lemma visible_trim_end: "visible (trim_end s) = visible s"
  by (rule filter_trim_end) simp

lemma visible_dropWhile:
  "(\<And>c. p c \<Longrightarrow> is_whitespace c) \<Longrightarrow> visible (dropWhile p s) = visible s"
  by (induction s) auto

lemma plain_cut_ok:
  assumes "start < pos" and "pos \<le> start + budget" and "start + budget \<le> length chars"
  shows "step_ok chars start lead budget (plain_cut chars start lead pos)"
proof -
  have "visible (drop start chars) = visible (slice chars start pos) @ visible (drop pos chars)"
    using assms slice_drop [of start pos chars] by (metis filter_append le_trans less_imp_le)
  moreover have "visible (drop (skip_blank chars pos) chars) = visible (drop pos chars)"
    unfolding drop_skip_blank by (rule visible_dropWhile) (auto simp: is_whitespace_def)
  moreover have "length (trim_end (slice chars start pos)) \<le> budget"
    using length_trim_end [of "slice chars start pos"] assms length_slice [of pos chars start] by linarith
  moreover have "start < skip_blank chars pos \<and> skip_blank chars pos \<le> length chars"
    using assms skip_blank_bounds [of pos chars] by linarith
  ultimately show ?thesis
    by (auto simp: step_ok_def plain_cut_def visible_trim_end
        intro!: exI [of _ "trim_end (slice chars start pos)"])
qed

lemma fence_cut_ok:
  assumes "0 < n" and "start + n + length c \<le> start + budget" and "start + budget \<le> length chars"
    and "start < j" "j \<le> start + n" and "k = j \<or> k = j + 1 \<and> chars ! j = 10"
    and "k \<le> length chars"
  shows "step_ok chars start lead budget (lead @ slice chars start j @ c, k, Some r, ms)"
proof -
  have j: "j \<le> length chars"
    using assms by linarith
  have "visible (drop j chars) = visible (drop k chars)"
  proof (cases "k = j")
    case False
    then have "k = j + 1" "chars ! j = 10" "j < length chars"
      using assms(6,7) by auto
    then show ?thesis
      by (subst Cons_nth_drop_Suc [symmetric]) (auto simp: is_whitespace_def)
  qed simp
  then have "visible (drop start chars) = visible (slice chars start j) @ visible (drop k chars)"
    using slice_drop [of start j chars] assms(4) j by (metis filter_append less_imp_le)
  moreover have "length (slice chars start j) \<le> n"
    using length_slice [OF j, of start] assms(5) by linarith
  ultimately show ?thesis
    using assms by (auto simp: step_ok_def)
qed

lemma split_step_ok:
  assumes spans: "\<And>s. s \<in> set spans \<Longrightarrow> span_start s < span_end s \<and> span_end s \<le> length chars"
    and budget: "0 < budget" "start + budget < length chars"
  shows "step_ok chars start lead budget (split_step chars spans start lead budget)"
proof -
  let ?w = "start + budget" and ?pos = "find_cut chars start (start + budget)"
  have pos: "start < ?pos" "?pos \<le> ?w"
    using find_cut_bounds [of start ?w chars] budget by simp_all
  have w: "?w \<le> length chars"
    using budget by simp
  note plain = plain_cut_ok [OF pos w]
  show ?thesis
  proof (cases "find (\<lambda>s. span_start s < ?pos \<and> ?pos < span_end s) spans")
    case None
    then show ?thesis using plain by (simp add: split_step_def Let_def)
  next
    case (Some span)
    then have in_span: "span_start span < ?pos" "?pos < span_end span"
      by (auto dest: find_Some_in)
    consider (fits) "span_end span \<le> ?w" | (before) "\<not> span_end span \<le> ?w" "span_start span > start"
      | (close) "\<not> span_end span \<le> ?w" "\<not> span_start span > start"
      by blast
    then show ?thesis
    proof cases
      case fits
      then have "step_ok chars start lead budget (plain_cut chars start lead (span_end span))"
        using in_span pos by (intro plain_cut_ok [OF _ _ w]) linarith+
      with fits Some show ?thesis by (simp add: split_step_def Let_def)
    next
      case before
      then have "step_ok chars start lead budget (plain_cut chars start lead (span_start span))"
        using in_span pos by (intro plain_cut_ok [OF _ _ w]) linarith+
      with before Some show ?thesis by (simp add: split_step_def Let_def)
    next
      case close
      let ?c = "closer (span_kind span)"
      show ?thesis
      proof (cases "length ?c < budget")
        case True
        let ?n = "budget - length ?c"
        have n: "0 < ?n" "start + ?n + length ?c \<le> start + budget"
          using True by simp_all
        have "step_ok chars start lead budget
            (lead @ slice chars start j @ ?c, k, Some r, ms)"
          if "start < j" "j \<le> start + ?n" "k = j \<or> k = j + 1 \<and> chars ! j = 10" for j k r ms
        proof -
          have "k \<le> length chars"
            using that budget(2) by auto
          with that show ?thesis by (intro fence_cut_ok [OF n w])
        qed
        then have "find_down (\<lambda>j. chars ! j = 10) start (start + ?n) = Some j \<Longrightarrow>
            step_ok chars start lead budget (lead @ slice chars start j @ ?c, j + 1, Some r, ms)"
          and "step_ok chars start lead budget
            (lead @ slice chars start (start + ?n) @ ?c, start + ?n, Some r, ms)" for j r ms
          using n by (auto dest!: find_down_SomeD)
        with True close Some show ?thesis
          by (simp add: split_step_def Let_def split: option.split)
      next
        case False
        with close Some plain show ?thesis by (simp add: split_step_def Let_def)
      qed
    qed
  qed
qed

section \<open>The loop\<close>

definition reopen_lines :: "FenceSpan list \<Rightarrow> ustring set" where
  "reopen_lines spans = (\<lambda>s. reopen_text (span_kind s)) ` set spans"

lemma split_step_reopen:
  "split_step chars spans start lead budget = (chunk, next_start, Some p, ms) \<Longrightarrow> p \<in> reopen_lines spans"
  by (auto simp: split_step_def plain_cut_def reopen_lines_def Let_def dest!: find_Some_in
      split: option.splits if_splits prod.splits)

text \<open>
  What a run of the loop owes: it returns, every chunk is within the cap or is a bare reopen line, and
  the visible characters still to come are in the chunks, in order; without fences nothing else is.
\<close>

definition run_ok ::
  "ustring \<Rightarrow> FenceSpan list \<Rightarrow> nat \<Rightarrow> nat \<Rightarrow> ustring list \<Rightarrow> bool" where
  "run_ok chars spans limit start out \<longleftrightarrow>
     (\<forall>c \<in> set out. length c \<le> limit \<or> c \<in> reopen_lines spans) \<and>
     subseq (visible (drop start chars)) (visible (concat out)) \<and>
     (spans = [] \<longrightarrow> visible (concat out) = visible (drop start chars))"

lemma run_ok_step:
  assumes "step_ok chars start lead budget (chunk, next_start, reopen', ms)"
    and "run_ok chars spans limit next_start out" and "length lead + budget \<le> limit"
    and "spans = [] \<longrightarrow> lead = [] \<and> reopen' = None"
  shows "run_ok chars spans limit start (chunk # out)"
proof -
  obtain body suffix where b: "chunk = lead @ body @ suffix"
    "visible (drop start chars) = visible body @ visible (drop next_start chars)"
    "reopen' = None \<longrightarrow> suffix = []"
    using assms(1) by (auto simp: step_ok_def)
  have "subseq (visible body @ visible (drop next_start chars)) (visible chunk @ visible (concat out))"
    using assms(2) unfolding b(1) run_ok_def filter_append
    by (intro list_emb_append_mono) (auto intro: list_emb_append2 list_emb_append_mono [of _ _ _ _ "[]", simplified]
        subseq_rev_drop_many subseq_drop_many)
  moreover have "spans = [] \<longrightarrow> visible (concat (chunk # out)) = visible (drop start chars)"
    using assms(2,4) b by (auto simp: run_ok_def)
  moreover have "length chunk \<le> limit"
    using assms(1,3) by (auto simp: step_ok_def)
  ultimately show ?thesis
    using assms(2) b(2) by (simp add: run_ok_def)
qed

lemma split_loop_total:
  assumes "0 < limit"
    and spans: "\<And>s. s \<in> set spans \<Longrightarrow> span_start s < span_end s \<and> span_end s \<le> length chars"
    and "start \<le> length chars" and "\<And>p. reopen = Some p \<Longrightarrow> p \<in> reopen_lines spans"
  shows "\<exists>new ms'. split_loop chars spans limit start reopen out ms = Some (out @ new, ms') \<and>
    run_ok chars spans limit start new"
  using assms(3,4)
proof (induction "2 * (length chars - start) + of_bool (reopen \<noteq> None)" arbitrary: start reopen out ms
    rule: less_induct)
  case less
  let ?lead = "case reopen of Some p \<Rightarrow> p | None \<Rightarrow> []"
  let ?budget = "limit - length ?lead"
  consider (over) "length chars \<le> start"
    | (bare) "start < length chars" "?budget = 0"
    | (tail) "start < length chars" "0 < ?budget" "length chars - start \<le> ?budget"
    | (step) "start < length chars" "0 < ?budget" "\<not> length chars - start \<le> ?budget"
    by linarith
  then show ?case
  proof cases
    case over
    then show ?thesis
      by (subst split_loop.simps) (simp add: run_ok_def)
  next
    case bare
    then obtain p where p: "reopen = Some p" "p \<in> reopen_lines spans"
      using assms(1) less.prems(2) by (cases reopen) auto
    obtain new ms' where new: "split_loop chars spans limit start None (out @ [p]) ms = Some (out @ [p] @ new, ms')"
      "run_ok chars spans limit start new"
      using less.hyps [of start None "out @ [p]" ms] less.prems(1) p by auto
    have "run_ok chars spans limit start (p # new)"
      using new(2) p(2) by (auto simp: run_ok_def reopen_lines_def intro: subseq_drop_many)
    moreover have "split_loop chars spans limit start reopen out ms = Some (out @ p # new, ms')"
      using bare p new(1) by (subst split_loop.simps) (simp add: Let_def)
    ultimately show ?thesis by blast
  next
    case tail
    then have "split_loop chars spans limit start reopen out ms = Some (out @ [?lead @ drop start chars], ms)"
      by (subst split_loop.simps) (simp add: Let_def)
    moreover have "run_ok chars spans limit start [?lead @ drop start chars]"
      using tail less.prems(2) by (auto simp: run_ok_def reopen_lines_def intro: subseq_drop_many split: option.splits)
    ultimately show ?thesis by blast
  next
    case step
    obtain chunk next_start reopen' ms1
      where st: "split_step chars spans start ?lead ?budget = (chunk, next_start, reopen', ms1)"
      by (metis prod_cases4)
    have ok: "step_ok chars start ?lead ?budget (chunk, next_start, reopen', ms1)"
      using split_step_ok [of spans chars ?budget start ?lead] spans step by (simp add: st)
    then have next_start: "start < next_start" "next_start \<le> length chars"
      by (auto simp: step_ok_def)
    have re: "\<And>p. reopen' = Some p \<Longrightarrow> p \<in> reopen_lines spans"
      using split_step_reopen st by blast
    have "2 * (length chars - next_start) + of_bool (reopen' \<noteq> None) <
        2 * (length chars - start) + of_bool (reopen \<noteq> None)"
      using next_start by (auto simp: of_bool_def)
    from less.hyps [OF this next_start(2) re, of "out @ [chunk]" "ms @ ms1"]
    obtain new ms' where new:
      "split_loop chars spans limit next_start reopen' (out @ [chunk]) (ms @ ms1) = Some (out @ [chunk] @ new, ms')"
      "run_ok chars spans limit next_start new"
      by auto
    have "spans = [] \<longrightarrow> ?lead = [] \<and> reopen' = None"
      using re less.prems(2) by (cases reopen; cases reopen') (auto simp: reopen_lines_def)
    moreover have "length ?lead + ?budget \<le> limit"
      using step(2) by simp
    ultimately have "run_ok chars spans limit start (chunk # new)"
      using run_ok_step [OF ok new(2)] by simp
    moreover have "split_loop chars spans limit start reopen out ms = Some (out @ chunk # new, ms')"
      using step st new(1) by (subst split_loop.simps) (simp add: Let_def)
    ultimately show ?thesis by blast
  qed
qed

lemma concat_retain: "concat (retain_nonempty out) = concat out"
proof -
  have "concat (filter (\<lambda>s. s \<noteq> []) out) = concat out"
    by (induction out) auto
  then show ?thesis
    by (auto simp: retain_nonempty_def Let_def)
qed

lemma split_into_chunks_spec:
  assumes "0 < limit"
  shows "\<exists>cs ms. split_into_chunks chars limit = Some (cs, ms) \<and> cs \<noteq> [] \<and> (cs = [[]] \<or> [] \<notin> set cs) \<and>
    (\<forall>c \<in> set cs. length c \<le> limit \<or> c \<in> reopen_lines (scan_fence_spans chars)) \<and>
    subseq (visible chars) (visible (concat cs)) \<and>
    (scan_fence_spans chars = [] \<longrightarrow> visible (concat cs) = visible chars)"
proof -
  obtain out ms where out: "split_loop chars (scan_fence_spans chars) limit 0 None [] [] = Some (out, ms)"
    "run_ok chars (scan_fence_spans chars) limit 0 out"
    using split_loop_total [of limit "scan_fence_spans chars" chars 0 None "[]" "[]"] fence.span_bounds assms
    by auto
  have "retain_nonempty out \<noteq> [] \<and> (retain_nonempty out = [[]] \<or> [] \<notin> set (retain_nonempty out)) \<and>
      (\<forall>c \<in> set (retain_nonempty out). length c \<le> limit \<or> c \<in> reopen_lines (scan_fence_spans chars))"
    using out(2) by (auto simp: retain_nonempty_def Let_def run_ok_def)
  then show ?thesis
    using out by (simp add: split_into_chunks_def Let_def concat_retain run_ok_def)
qed

section \<open>Byte caps keep the content\<close>

lemma those_map_Some:
  "(\<And>x. x \<in> set xs \<Longrightarrow> \<exists>y. f x = Some y \<and> P x y) \<Longrightarrow> \<exists>ys. those (map f xs) = Some ys \<and> list_all2 P xs ys"
proof (induction xs)
  case (Cons x xs)
  obtain y where "f x = Some y" "P x y"
    using Cons.prems [of x] by auto
  moreover obtain ys where "those (map f xs) = Some ys" "list_all2 P xs ys"
    using Cons by (metis list.set_intros(2))
  ultimately show ?case by auto
qed simp

lemma visible_concat: "visible (concat xss) = concat (map visible xss)"
  by (induction xss) auto

lemma subseq_concat:
  "list_all2 (\<lambda>x y. subseq (visible x) (visible (concat y))) xs yss \<Longrightarrow>
     subseq (visible (concat xs)) (visible (concat (concat yss)))"
  by (induction rule: list_all2_induct) (auto intro: list_emb_append_mono)

lemma next_cap_pos: "0 < next_cap chunk cap b"
  by (simp add: next_cap_def Let_def)

lemma enforce_byte_cap_total:
  "\<exists>r. enforce_byte_cap chunk cap b depth = Some r \<and> subseq (visible chunk) (visible (concat r))"
proof (induction depth arbitrary: chunk cap)
  case (Suc depth)
  show ?case
  proof (cases "byte_len chunk \<le> b \<or> cap \<le> 1")
    case False
    obtain cs ms where cs: "split_into_chunks chunk (next_cap chunk cap b) = Some (cs, ms)"
      "subseq (visible chunk) (visible (concat cs))"
      using split_into_chunks_spec [OF next_cap_pos] by blast
    obtain yss where yss: "those (map (\<lambda>p. enforce_byte_cap p (next_cap chunk cap b) b depth) cs) = Some yss"
      "list_all2 (\<lambda>x y. subseq (visible x) (visible (concat y))) cs yss"
      using those_map_Some [of cs "\<lambda>p. enforce_byte_cap p (next_cap chunk cap b) b depth"
          "\<lambda>x y. subseq (visible x) (visible (concat y))"] Suc.IH by blast
    then show ?thesis
      using False cs subseq_order.order_trans [OF cs(2) subseq_concat [OF yss(2)]] by auto
  qed simp
qed simp

text \<open>Evaluation of the splitter on a literal text.\<close>

lemmas eval_split = split_into_chunks_def split_loop.simps scan_fence_spans_def scan_loop.simps line_end_def
  backtick_run_def slice_def pre_open_end_def matches_ci_def split_step_def find_cut_def find_down.simps
  plain_cut_def skip_blank_def is_whitespace_def retain_nonempty_def is_backtick_close_def is_balanced_def
  trim_end_def Let_def lit_def ascii_lower_def

section \<open>Properties of the splitter\<close>

text \<open>
  The fence scanner returns well-formed regions: every span is non-empty and inside the text, spans
  are in order and never overlap, so at most one contains a given position.
\<close>

theorem fence_spans_well_formed:
  "spans_ok (length chars) (scan_fence_spans chars) \<and>
   (\<forall>s \<in> set (scan_fence_spans chars). \<forall>t \<in> set (scan_fence_spans chars). \<forall>i.
      span_start s < i \<and> i < span_end s \<and> span_start t < i \<and> i < span_end t \<longrightarrow> s = t)"
  using fence.scan_ok fence.unique_span_at by blast

theorem fence_spans_well_formed_witness:
  "\<forall>s \<in> set (scan_fence_spans (lit ''<pre>x</pre>'')). \<forall>t \<in> set (scan_fence_spans (lit ''<pre>x</pre>'')).
     span_start s < 3 \<and> 3 < span_end s \<and> span_start t < 3 \<and> 3 < span_end t \<longrightarrow> s = t"
  using fence_spans_well_formed [of "lit ''<pre>x</pre>''"] by blast

text \<open>
  C36: For every positive cap the splitter returns, with at least one chunk and no empty chunk beside
  another, and no chunk exceeds the cap except a bare reopen line of a fence that is itself at least as long
  as the cap.
\<close>

theorem split_returns_within_cap:
  assumes "0 < limit"
  shows "\<exists>cs ms. split_into_chunks chars limit = Some (cs, ms) \<and> cs \<noteq> [] \<and> (cs = [[]] \<or> [] \<notin> set cs) \<and>
    (\<forall>c \<in> set cs. length c \<le> limit \<or> (\<exists>s \<in> set (scan_fence_spans chars). c = reopen_text (span_kind s)))"
  using split_into_chunks_spec [OF assms, of chars] by (auto simp: reopen_lines_def image_iff)

theorem split_returns_within_cap_witness:
  "\<exists>cs ms. split_into_chunks (lit ''one. two'') 5 = Some (cs, ms) \<and> cs \<noteq> []"
  using split_returns_within_cap [of 5 "lit ''one. two''"] by auto

text \<open>
  C35: Splitting loses no content: the visible (non-whitespace) characters of the text appear in the chunks
  in their order, and when the text has no fence the chunks contain nothing else.
\<close>

theorem split_preserves_content:
  assumes "0 < limit" and "split_into_chunks chars limit = Some (cs, ms)"
  shows "subseq (visible chars) (visible (concat cs)) \<and>
    (scan_fence_spans chars = [] \<longrightarrow> visible (concat cs) = visible chars)"
  using split_into_chunks_spec [OF assms(1), of chars] assms(2) by auto

theorem split_preserves_content_witness:
  "subseq (visible [97, 98, 32, 99, 100]) (visible (concat [[97, 98], [99, 100]]))"
proof -
  have "split_into_chunks [97, 98, 32, 99, 100] 4 = Some ([[97, 98], [99, 100]], [])"
    by (simp add: eval_split)
  from split_preserves_content [OF _ this] show ?thesis by simp
qed

text \<open>
  The byte-capped splitter always returns for a positive character cap and loses no visible
  character, however often chunks are split again; without a byte cap it is the plain splitter.
\<close>

theorem byte_split_preserves_content:
  assumes "0 < max_chars"
  shows "\<exists>r. split_into_chunks_within_bytes chars max_chars max_bytes = Some r \<and>
    subseq (visible chars) (visible (concat r)) \<and>
    (max_bytes = None \<or> max_bytes = Some 0 \<longrightarrow> map_option fst (split_into_chunks chars max_chars) = Some r)"
proof -
  obtain cs ms where cs: "split_into_chunks chars max_chars = Some (cs, ms)"
    "subseq (visible chars) (visible (concat cs))"
    using split_into_chunks_spec [OF assms, of chars] by blast
  show ?thesis
  proof (cases "\<exists>b > 0. max_bytes = Some b")
    case True
    then obtain b where b: "0 < b" "max_bytes = Some b" by blast
    obtain yss where yss: "those (map (\<lambda>c. enforce_byte_cap c max_chars b BYTE_SPLIT_DEPTH) cs) = Some yss"
      "list_all2 (\<lambda>x y. subseq (visible x) (visible (concat y))) cs yss"
      using those_map_Some [of cs "\<lambda>c. enforce_byte_cap c max_chars b BYTE_SPLIT_DEPTH"
          "\<lambda>x y. subseq (visible x) (visible (concat y))"] enforce_byte_cap_total by blast
    have "subseq (visible chars) (visible (concat (concat yss)))"
      using subseq_order.order_trans [OF cs(2) subseq_concat [OF yss(2)]] .
    then show ?thesis
      using cs(1) yss(1) b by (simp add: split_into_chunks_within_bytes_def)
  next
    case False
    then have "max_bytes = None \<or> max_bytes = Some 0"
      by (cases max_bytes) auto
    with cs show ?thesis
      by (auto simp: split_into_chunks_within_bytes_def)
  qed
qed

theorem byte_split_preserves_content_witness:
  "\<exists>r. split_into_chunks_within_bytes [26085, 26412] 4 (Some 3) = Some r \<and>
     subseq (visible [26085, 26412]) (visible (concat r))"
  using byte_split_preserves_content [of 4 "[26085, 26412]" "Some 3"] by auto

text \<open>
  The effective cap is nine tenths of the declared one, rounded down, computed without a product
  larger than the cap; it is never zero, and never above a positive cap. A channel without a cap stays
  without one.
\<close>

theorem effective_max_is_ninety_percent:
  "effective_max None = None \<and>
   effective_max (Some m) = Some (max (m * 90 div 100) 1) \<and>
   (m div 100) * RENDER_HEADROOM_PERCENT \<le> m \<and> (m mod 100) * RENDER_HEADROOM_PERCENT < 9000 \<and>
   max (m * 90 div 100) 1 \<le> max m 1"
proof -
  have "m * 90 = (m mod 100) * 90 + ((m div 100) * 90) * 100"
    using div_mult_mod_eq [of m 100] by linarith
  then have "m * 90 div 100 = (m div 100) * 90 + (m mod 100) * 90 div 100"
    by (simp del: mult_div_mod_eq)
  moreover have "(m div 100) * 90 \<le> m"
    by linarith
  ultimately show ?thesis
    by (auto simp: effective_max_def RENDER_HEADROOM_PERCENT_def)
qed

text \<open>
  Not every chunk is balanced: backticks in the middle of a line, which open no fence, can be moved to
  the start of a chunk by a cut, where they open one that is never closed (the text is \<open>aaa ```b\<close>, cut at 4).
\<close>

theorem split_can_unbalance:
  "is_balanced [97, 97, 97, 32, 96, 96, 96, 98] \<and>
   split_into_chunks [97, 97, 97, 32, 96, 96, 96, 98] 4 = Some ([[97, 97, 97], [96, 96, 96, 98]], []) \<and>
   \<not> is_balanced [96, 96, 96, 98]"
  by (simp add: eval_split)

end
