(* ===== verification/Error_Card.thy ===== *)
theory Error_Card
  imports Prelude
begin

text \<open>
  Error cards (\<open>copperclaw-channels/core/src/error_card.rs\<close>), the receipts the host sends into a chat when
  something failed for good: the record, its caps, its plain-text rendering, and its JSON form as the derived
  serialiser writes and reads it.
\<close>

section \<open>The card\<close>

definition MAX_TITLE_CHARS :: nat where "MAX_TITLE_CHARS = 120"
definition MAX_SUMMARY_CHARS :: nat where "MAX_SUMMARY_CHARS = 500"
definition MAX_DETAILS_CHARS :: nat where "MAX_DETAILS_CHARS = 2000"

datatype ErrorCardKind = ECInternal | ECProvider | ECDelivery

fun error_kind_as_str :: "ErrorCardKind \<Rightarrow> ustring" where
  "error_kind_as_str ECInternal = lit ''internal''"
| "error_kind_as_str ECProvider = lit ''provider''"
| "error_kind_as_str ECDelivery = lit ''delivery''"

definition error_kind_parse_str :: "ustring \<Rightarrow> ErrorCardKind option" where
  "error_kind_parse_str s =
     (if s = lit ''internal'' then Some ECInternal
      else if s = lit ''provider'' then Some ECProvider
      else if s = lit ''delivery'' then Some ECDelivery
      else None)"

interpretation error_kind: wire_enum error_kind_as_str error_kind_parse_str
proof
  show "error_kind_parse_str (error_kind_as_str e) = Some e" for e
    by (cases e) (simp_all add: error_kind_parse_str_def)
  show "error_kind_parse_str s = Some e \<Longrightarrow> error_kind_as_str e = s" for s e
    by (auto simp: error_kind_parse_str_def split: if_splits)
qed

fun error_kind_label :: "ErrorCardKind \<Rightarrow> ustring" where
  "error_kind_label ECInternal = lit ''tool''"
| "error_kind_label ECProvider = lit ''provider''"
| "error_kind_label ECDelivery = lit ''delivery''"

record ErrorCard =
  ec_title :: ustring
  ec_summary :: ustring
  ec_kind :: ErrorCardKind
  ec_details :: "ustring option"
  ec_retryable :: bool

datatype ErrorCardError =
    EmptyTitle
  | TitleTooLong nat nat
  | EmptySummary
  | SummaryTooLong nat nat
  | DetailsTooLong nat nat

definition new_error_card :: "ErrorCardKind \<Rightarrow> ustring \<Rightarrow> ErrorCard" where
  "new_error_card k summary =
     \<lparr>ec_title = lit ''Something went wrong'', ec_summary = summary, ec_kind = k, ec_details = None, ec_retryable = False\<rparr>"

definition with_title :: "ErrorCard \<Rightarrow> ustring \<Rightarrow> ErrorCard" where
  "with_title c title = c\<lparr>ec_title := title\<rparr>"

definition with_details :: "ErrorCard \<Rightarrow> ustring \<Rightarrow> ErrorCard" where
  "with_details c details = c\<lparr>ec_details := Some details\<rparr>"

definition mark_retryable :: "ErrorCard \<Rightarrow> ErrorCard" where
  "mark_retryable c = c\<lparr>ec_retryable := True\<rparr>"

definition validate_error_card :: "ErrorCard \<Rightarrow> ErrorCardError + unit" where
  "validate_error_card c =
     (if trim (ec_title c) = [] then Inl EmptyTitle
      else if length (ec_title c) > MAX_TITLE_CHARS then Inl (TitleTooLong (length (ec_title c)) MAX_TITLE_CHARS)
      else if trim (ec_summary c) = [] then Inl EmptySummary
      else if length (ec_summary c) > MAX_SUMMARY_CHARS
      then Inl (SummaryTooLong (length (ec_summary c)) MAX_SUMMARY_CHARS)
      else
        (case ec_details c of
           Some d \<Rightarrow>
             if length d > MAX_DETAILS_CHARS then Inl (DetailsTooLong (length d) MAX_DETAILS_CHARS) else Inr ()
         | None \<Rightarrow> Inr ()))"

text \<open>
  The text form: every line of the details is quoted, and the line feed after the last one is taken off again.
\<close>

definition pop_newline :: "ustring \<Rightarrow> ustring" where
  "pop_newline s = (if s \<noteq> [] \<and> last s = 10 then butlast s else s)"

definition error_text_fallback :: "ErrorCard \<Rightarrow> ustring" where
  "error_text_fallback c =
     (let head = lit ''[ERROR: '' @ error_kind_label (ec_kind c) @ lit ''] '' @ trim (ec_title c) @ [10] @ trim (ec_summary c);
          body =
            (case ec_details c of
               Some d \<Rightarrow>
                 let d = trim d in
                 if d \<noteq> []
                 then pop_newline (head @ [10] @ concat (map (\<lambda>l. lit ''> '' @ l @ [10]) (str_lines d)))
                 else head
             | None \<Rightarrow> head)
      in if ec_retryable c then body @ [10] @ lit ''(will retry automatically)'' else body)"

section \<open>The JSON form\<close>

text \<open>
  The derived serialiser: the fields in their order, \<open>details\<close> left out when it is absent. Reading requires every
  field except \<open>details\<close>, whose absence and whose \<open>null\<close> both mean none.
\<close>

definition error_card_to_json :: "ErrorCard \<Rightarrow> json" where
  "error_card_to_json c =
     JObject
       ([(lit ''title'', JString (ec_title c)), (lit ''summary'', JString (ec_summary c)),
         (lit ''kind'', JString (error_kind_as_str (ec_kind c)))] @
        (case ec_details c of Some d \<Rightarrow> [(lit ''details'', JString d)] | None \<Rightarrow> []) @
        [(lit ''retryable'', JBool (ec_retryable c))])"

definition read_details :: "json \<Rightarrow> ustring option option" where
  "read_details v =
     (case json_get v (lit ''details'') of
        None \<Rightarrow> Some None
      | Some JNull \<Rightarrow> Some None
      | Some (JString d) \<Rightarrow> Some (Some d)
      | Some _ \<Rightarrow> None)"

definition error_card_from_json :: "json \<Rightarrow> ErrorCard option" where
  "error_card_from_json v =
     (case (json_get v (lit ''title''), json_get v (lit ''summary''), json_get v (lit ''kind''),
            json_get v (lit ''retryable''), read_details v) of
        (Some (JString t), Some (JString s), Some (JString k), Some (JBool r), Some d) \<Rightarrow>
          (case error_kind_parse_str k of
             Some k \<Rightarrow> Some \<lparr>ec_title = t, ec_summary = s, ec_kind = k, ec_details = d, ec_retryable = r\<rparr>
           | None \<Rightarrow> None)
      | _ \<Rightarrow> None)"

lemma error_card_json_roundtrip: "error_card_from_json (error_card_to_json c) = Some c"
  by (cases "ec_details c")
    (simp_all add: error_card_from_json_def error_card_to_json_def read_details_def json_get_def
      error_kind.parse_as_str)

section \<open>The receipt of a failed delivery\<close>

text \<open>The part of \<open>emit_delivery_failure_error_card\<close> that builds the card.\<close>

definition delivery_failure_card :: "ustring \<Rightarrow> ErrorCard" where
  "delivery_failure_card reason =
     (let trimmed = trim reason;
          summary =
            (if trimmed = [] then lit ''delivery failed after exhausting the retry budget''
             else lit ''delivery failed after exhausting the retry budget: '' @ take 400 trimmed)
      in with_title (new_error_card ECDelivery summary) (lit ''Could not deliver message''))"

lemma trim_not_Nil: "c \<in> set s \<Longrightarrow> \<not> is_whitespace c \<Longrightarrow> trim s \<noteq> []"
  by (auto simp: trim_Nil_iff trim_start_Nil_iff)

text \<open>
  Whatever the reason of a failure, the receipt of a failed delivery respects the caps of an error card.
\<close>

theorem delivery_failure_card_valid: "validate_error_card (delivery_failure_card reason) = Inr ()"
proof -
  have "trim (lit ''Could not deliver message'') \<noteq> []"
    by (rule trim_not_Nil [of 67]) (simp_all add: lit_def is_whitespace_def)
  moreover have "trim (lit ''delivery failed after exhausting the retry budget'') \<noteq> []"
    by (rule trim_not_Nil [of 100]) (simp_all add: lit_def is_whitespace_def)
  moreover have "trim (lit ''delivery failed after exhausting the retry budget: '' @ x) \<noteq> []" for x
    by (rule trim_not_Nil [of 100]) (simp_all add: lit_def is_whitespace_def)
  moreover have "length (take 400 x) \<le> 400" for x :: ustring
    by simp
  ultimately show ?thesis
    by (simp add: validate_error_card_def delivery_failure_card_def new_error_card_def with_title_def Let_def
        MAX_TITLE_CHARS_def MAX_SUMMARY_CHARS_def lit_def)
qed

end
