(* ===== verification/Delivery.thy ===== *)
theory Delivery
  imports Session_Acks Splitter Central_Tables Error_Card
begin

text \<open>
  The outbound delivery service (\<open>copperclaw-host-delivery/src/service.rs\<close>, \<open>error.rs\<close>, \<open>loops.rs\<close>, and the table
  \<open>outbound_dropped_messages\<close>). A pass over one session reads the due rows of its outbound queue, skips what the
  ledger of outcomes already holds and what is still backing off, claims each remaining row, sends it through the
  adapter of its channel, and records the outcome; failures are retried with a persisted budget or dead-lettered.

  The state of one session is \<open>DeliveryState\<close>. A channel adapter is a parameter: an oracle that answers the n-th call
  of the service. The arms of \<open>System\<close> and \<open>TodoList\<close> rows, the handler of agent messages, the decoding of rich
  payloads and their text renderings are parameters too (\<open>DeliveryConfig\<close>). Clock readings, fresh ids and failing
  database writes are arguments (\<open>RowEnv\<close>, \<open>PassEnv\<close>). Monotonic instants are milliseconds; wall-clock instants are
  seconds, and every delay the service computes is a whole number of seconds.
\<close>

section \<open>Errors\<close>

type_synonym u64 = "64 word"

datatype AdapterError =
    Io ustring
  | Transport ustring
  | Auth ustring
  | Rate "u64 option"
  | BadRequest ustring
  | NotImplemented
  | Unsupported ustring

datatype DeliveryError =
    Db DbError
  | Adapter AdapterError
  | NoAdapter ChannelType
  | NoRoute SessionId
  | SystemAction ustring

definition retry_after_secs :: "DeliveryError \<Rightarrow> u64 option" where
  "retry_after_secs e = (case e of Adapter (Rate retry_after) \<Rightarrow> retry_after | _ \<Rightarrow> None)"

definition delivery_is_retryable :: "DeliveryError \<Rightarrow> bool" where
  "delivery_is_retryable e =
     (case e of
        Adapter err \<Rightarrow> (case err of Rate _ \<Rightarrow> True | Transport _ \<Rightarrow> True | Io _ \<Rightarrow> True | _ \<Rightarrow> False)
      | _ \<Rightarrow> False)"

fun adapter_error_display :: "AdapterError \<Rightarrow> ustring" where
  "adapter_error_display (Io m) = lit ''io: '' @ m"
| "adapter_error_display (Transport m) = lit ''transport: '' @ m"
| "adapter_error_display (Auth m) = lit ''auth: '' @ m"
| "adapter_error_display (Rate r) =
     lit ''rate limited'' @ (case r of None \<Rightarrow> [] | Some s \<Rightarrow> lit '' (retry after '' @ show_nat (unat s) @ lit ''s)'')"
| "adapter_error_display (BadRequest m) = lit ''bad request: '' @ m"
| "adapter_error_display NotImplemented = lit ''not implemented''"
| "adapter_error_display (Unsupported m) = lit ''unsupported: '' @ m"

text \<open>The display of a \<open>DbError\<close> depends on texts of the database library: \<open>db_text\<close>.\<close>

fun delivery_error_display :: "(DbError \<Rightarrow> ustring) \<Rightarrow> DeliveryError \<Rightarrow> ustring" where
  "delivery_error_display db_text (Db d) = lit ''db: '' @ db_text d"
| "delivery_error_display db_text (Adapter a) = lit ''adapter: '' @ adapter_error_display a"
| "delivery_error_display db_text (NoAdapter ct) = lit ''no adapter registered for channel `'' @ ct @ lit ''`''"
| "delivery_error_display db_text (NoRoute i) = lit ''no routing target for session '' @ i"
| "delivery_error_display db_text (SystemAction m) = lit ''system action error: '' @ m"

section \<open>Constants and delays\<close>

definition ABSOLUTE_CEILING_MS :: u64 where "ABSOLUTE_CEILING_MS = 1800000"
definition MAX_DELIVERY_ATTEMPTS :: u32 where "MAX_DELIVERY_ATTEMPTS = 3"
definition BACKOFF_BASE_MS :: u64 where "BACKOFF_BASE_MS = 5000"
definition TOO_LONG_RETRY_FALLBACK_CAP :: nat where "TOO_LONG_RETRY_FALLBACK_CAP = 4096"
definition NO_ADAPTER_MAX_AGE_HOURS :: int where "NO_ADAPTER_MAX_AGE_HOURS = 24"
definition NO_ADAPTER_DROP_REASON :: ustring where "NO_ADAPTER_DROP_REASON = lit ''no_adapter''"
definition NO_ROUTE_DROP_REASON :: ustring where "NO_ROUTE_DROP_REASON = lit ''no_route''"

text \<open>\<open>u64::saturating_mul\<close> and \<open>u32::saturating_sub\<close>.\<close>

definition saturating_mul64 :: "u64 \<Rightarrow> u64 \<Rightarrow> u64" where
  "saturating_mul64 a b = (if unat a * unat b < 2 ^ 64 then a * b else - 1)"

definition saturating_sub32 :: "u32 \<Rightarrow> u32 \<Rightarrow> u32" where
  "saturating_sub32 a b = (if a < b then 0 else a - b)"

definition backoff_delay_ms :: "u32 \<Rightarrow> u64" where
  "backoff_delay_ms tries =
     (let exp = min (saturating_sub32 tries 1) 31;
          scaled = saturating_mul64 BACKOFF_BASE_MS (push_bit (unat exp) 1)
      in min scaled ABSOLUTE_CEILING_MS)"

text \<open>The delay after a retryable failure: the platform's hint if it gave one, the schedule otherwise.\<close>

definition retry_delay_ms :: "u64 option \<Rightarrow> u32 \<Rightarrow> u64" where
  "retry_delay_ms hint tries =
     (case hint of
        Some s \<Rightarrow> min (saturating_mul64 s 1000) ABSOLUTE_CEILING_MS
      | None \<Rightarrow> backoff_delay_ms tries)"

definition no_adapter_expired :: "instant \<Rightarrow> instant \<Rightarrow> bool" where
  "no_adapter_expired row_timestamp now \<longleftrightarrow> now - row_timestamp \<ge> NO_ADAPTER_MAX_AGE_HOURS * 3600"

section \<open>Rejections by a platform\<close>

definition is_formatting_bad_request :: "ustring \<Rightarrow> bool" where
  "is_formatting_bad_request msg =
     (let m = map ascii_lower msg in
      contains m (lit ''parse entities'') \<or> contains m (lit ''rich text'') \<or> contains m (lit ''blocks'') \<or>
      contains m (lit ''block_kit'') \<or> contains m (lit ''block kit'') \<or> contains m (lit ''embed'') \<or>
      contains m (lit ''embeds'') \<or> contains m (lit ''format'') \<or> contains m (lit ''formatting''))"

definition is_too_long_bad_request :: "ustring \<Rightarrow> bool" where
  "is_too_long_bad_request msg =
     (let m = map ascii_lower msg in contains m (lit ''too long'') \<or> contains m (lit ''too_long''))"

definition is_stale_edit_target :: "ustring \<Rightarrow> bool" where
  "is_stale_edit_target msg =
     (let m = map ascii_lower msg in
      contains m (lit ''message to edit not found'') \<or> contains m (lit ''message can't be edited'') \<or>
      contains m (lit ''message cant be edited'') \<or> contains m (lit ''message_id_invalid'') \<or>
      contains m (lit ''message_not_found'') \<or> contains m (lit ''cant_update_message'') \<or>
      contains m (lit ''unknown message''))"

section \<open>Splitting a chat body\<close>

text \<open>\<open>usize::MAX\<close> on the 64-bit targets of the program.\<close>

definition usize_max :: nat where "usize_max = 2 ^ 64 - 1"

definition positive :: "nat option \<Rightarrow> nat option" where
  "positive m = (case m of Some n \<Rightarrow> if n > 0 then Some n else None | None \<Rightarrow> None)"

text \<open>\<open>None\<close> stands for a splitter that does not return; \<open>split_chat_content_returns\<close> excludes it.\<close>

definition split_chat_content_if_needed :: "json \<Rightarrow> nat option \<Rightarrow> nat option \<Rightarrow> json list option" where
  "split_chat_content_if_needed content max_chars max_bytes =
     (let eff_chars = positive (effective_max max_chars);
          eff_bytes = positive (effective_max max_bytes)
      in if eff_chars = None \<and> eff_bytes = None then Some [content]
         else
           (case Option.bind (json_get content (lit ''text'')) json_as_str of
              None \<Rightarrow> Some [content]
            | Some body \<Rightarrow>
                if (case eff_chars of None \<Rightarrow> True | Some m \<Rightarrow> length body \<le> m) \<and>
                   (case eff_bytes of None \<Rightarrow> True | Some b \<Rightarrow> byte_len body \<le> b)
                then Some [content]
                else
                  map_option (map (\<lambda>chunk. json_insert content (lit ''text'') (JString chunk)))
                    (split_into_chunks_within_bytes body
                       (case eff_chars of None \<Rightarrow> usize_max | Some m \<Rightarrow> m) eff_bytes)))"

definition chat_parts :: "json \<Rightarrow> nat option \<Rightarrow> nat option \<Rightarrow> json list" where
  "chat_parts content max_chars max_bytes =
     (case split_chat_content_if_needed content max_chars max_bytes of Some parts \<Rightarrow> parts | None \<Rightarrow> [])"

definition chat_text_is_empty :: "json \<Rightarrow> bool" where
  "chat_text_is_empty content =
     (case Option.bind (json_get content (lit ''text'')) json_as_str of
        Some t \<Rightarrow> trim t = []
      | None \<Rightarrow> True)"

text \<open>The body of a collapsed message on a channel that cannot collapse (\<open>render_collapsible_text_fallback\<close>).\<close>

definition render_collapsible_text_fallback :: "ustring \<Rightarrow> ustring \<Rightarrow> ustring list \<Rightarrow> ustring" where
  "render_collapsible_text_fallback body summary preview_lines =
     (let remaining_lines = length (str_lines body) - length preview_lines;
          preview = (if preview_lines \<noteq> [] then [10] @ concat (map (\<lambda>l. l @ [10]) (butlast preview_lines)) @ last preview_lines
                     else []);
          rest = (if remaining_lines > 0
                  then [10, 8230] @ lit ''('' @ show_nat remaining_lines @ lit '' more lines, '' @
                       show_nat (length body) @ lit '' chars total)''
                  else [])
      in summary @ preview @ rest)"

section \<open>State\<close>

record OutboundMessage =
  om_kind :: MessageKind
  om_content :: json
  om_files :: "(ustring \<times> u8 list) list"

record DispatchTarget =
  dt_channel_type :: "ChannelType option"
  dt_platform_id :: "ustring option"
  dt_thread_id :: "ustring option"
  dt_agent_group :: "AgentGroupId option"

text \<open>
  The calls of a channel adapter. A rich payload is handed over as the JSON value it was decoded from, together with
  the extra arguments of its hook: the recipient hint of a card, the message to edit of a breadcrumb.
\<close>

datatype AdapterCall =
    SetTyping
  | Deliver OutboundMessage
  | DeliverCollapsible ustring ustring "ustring list"
  | DeliverCard json "ustring option"
  | DeliverBreadcrumb json "ustring option"
  | DeliverError json
  | DeliverThinking json
  | DeliverDiff json

record ChannelAdapter =
  ad_channel_type :: ChannelType
  max_message_chars :: "nat option"
  max_message_bytes :: "nat option"
  plain_text_fallback :: "OutboundMessage \<Rightarrow> OutboundMessage option"
  ad_answer :: "nat \<Rightarrow> ustring \<Rightarrow> ustring option \<Rightarrow> AdapterCall \<Rightarrow> AdapterError + ustring option"

text \<open>What reached a channel: the row it was sent for, the address, the call and the platform's answer.\<close>

record AdapterEvent =
  ev_row :: MessageId
  ev_channel :: ChannelType
  ev_platform :: ustring
  ev_thread :: "ustring option"
  ev_call :: AdapterCall
  ev_answer :: "AdapterError + ustring option"

record RetryState =
  rt_tries :: u32
  rt_not_before :: int
  rt_chunks_sent :: u32
  rt_first_chunk_pid :: "ustring option"

record OutboundDroppedMessage =
  od_id :: nat
  od_session :: SessionId
  od_agent_group :: AgentGroupId
  od_message_out :: MessageId
  od_channel_type :: "ChannelType option"
  od_platform_id :: "ustring option"
  od_thread_id :: "ustring option"
  od_kind :: MessageKind
  od_content :: json
  od_last_error :: ustring
  od_dropped_at :: instant

text \<open>
  The state of the service that concerns one session: its two databases, the in-memory maps restricted to its keys,
  the central table of dead letters, the calls made to adapters, the metrics, and \<open>dv_attempts\<close>, the history of the
  attempts (a row and what \<open>process_row\<close> returned for it).
\<close>

record DeliveryState =
  dv_out :: "MessageOutRow list"
  dv_delivered :: "Delivered list"
  dv_routing :: "SessionRouting option"
  dv_retries :: "MessageId \<Rightarrow> RetryState option"
  dv_primed :: bool
  dv_inflight :: "MessageId \<Rightarrow> int option"
  dv_dead :: "OutboundDroppedMessage list"
  dv_backlog :: "nat option"
  dv_events :: "AdapterEvent list"
  dv_metrics :: "(ustring \<times> ustring) list"
  dv_attempts :: "(MessageId \<times> (DeliveryError + unit)) list"

type_synonym 'a delivery = "(DeliveryState, DeliveryError, 'a) stateful"

record DeliveryConfig =
  dc_adapters :: "ChannelType \<Rightarrow> ChannelAdapter option"
  dc_agent_dispatch :: "(MessageOutRow \<Rightarrow> DispatchTarget \<Rightarrow> ustring + unit) option"
  dc_system :: "MessageOutRow \<Rightarrow> DispatchTarget option \<Rightarrow> unit delivery"
  dc_todo :: "MessageOutRow \<Rightarrow> DispatchTarget \<Rightarrow> unit delivery"
  dc_decode :: "MessageKind \<Rightarrow> json \<Rightarrow> ustring option"
  dc_text_fallback :: "MessageKind \<Rightarrow> json \<Rightarrow> ustring"
  dc_db_text :: "DbError \<Rightarrow> ustring"

text \<open>
  What the work on one row reads from outside: the monotonic clock (milliseconds) and the wall clock when it needs
  them, the fresh ids, and which of its database writes fail.
\<close>

record RowEnv =
  rv_now :: int
  rv_wall :: instant
  rv_dropped_id :: nat
  rv_card_id :: MessageId
  rv_ledger_error :: "DbError option"
  rv_record_error :: "DbError option"
  rv_dead_error :: "DbError option"
  rv_retry_error :: bool
  rv_card_error :: bool

section \<open>Elementary effects\<close>

definition metric :: "string \<Rightarrow> ustring \<Rightarrow> unit delivery" where
  "metric name label = modify (\<lambda>s. s\<lparr>dv_metrics := dv_metrics s @ [(lit name, label)]\<rparr>)"

text \<open>\<open>inbound_pool.connect()?\<close> followed by \<open>delivered::insert(...)?\<close>.\<close>

definition ledger_insert ::
  "DbError option \<Rightarrow> instant \<Rightarrow> MessageId \<Rightarrow> ustring option \<Rightarrow> ustring \<Rightarrow> unit delivery" where
  "ledger_insert err now i pid st =
     (case err of
        Some e \<Rightarrow> throw (Db e)
      | None \<Rightarrow> modify (\<lambda>s. s\<lparr>dv_delivered := record_outcome (i, pid, st, now) (dv_delivered s)\<rparr>))"

definition adapter_call ::
  "MessageId \<Rightarrow> ChannelAdapter \<Rightarrow> ustring \<Rightarrow> ustring option \<Rightarrow> AdapterCall \<Rightarrow>
     (AdapterError + ustring option) delivery" where
  "adapter_call i a p t c =
     (\<lambda>s. let r = ad_answer a (length (dv_events s)) p t c
          in (Inr r, s\<lparr>dv_events := dv_events s @
                [\<lparr>ev_row = i, ev_channel = ad_channel_type a, ev_platform = p, ev_thread = t, ev_call = c, ev_answer = r\<rparr>]\<rparr>))"

section \<open>Calling an adapter\<close>

definition call_adapter_once ::
  "MessageId \<Rightarrow> ChannelAdapter \<Rightarrow> ustring \<Rightarrow> ustring option \<Rightarrow> OutboundMessage \<Rightarrow> ustring option delivery" where
  "call_adapter_once i a p t message =
     and_then (adapter_call i a p t (Deliver message)) (\<lambda>r.
       case r of
         Inr pid \<Rightarrow> ret pid
       | Inl (BadRequest msg) \<Rightarrow>
           if is_formatting_bad_request msg then
             (case plain_text_fallback a message of
                None \<Rightarrow> throw (Adapter (BadRequest msg))
              | Some fallback_msg \<Rightarrow>
                  and_then (adapter_call i a p t (Deliver fallback_msg)) (\<lambda>r'.
                    case r' of
                      Inr pid \<Rightarrow>
                        and_then (metric ''delivery_formatting_fallback'' (ad_channel_type a)) (\<lambda>_. ret pid)
                    | Inl _ \<Rightarrow> throw (Adapter (BadRequest msg))))
           else throw (Adapter (BadRequest msg))
       | Inl e \<Rightarrow> throw (Adapter e))"

text \<open>The loop of \<open>deliver_parts\<close> from part \<open>k\<close> on, with the id of the first part.\<close>

fun deliver_parts_from ::
  "MessageId \<Rightarrow> ChannelAdapter \<Rightarrow> ustring \<Rightarrow> ustring option \<Rightarrow> OutboundMessage \<Rightarrow> nat \<Rightarrow> json list \<Rightarrow>
     ustring option \<Rightarrow> ustring option delivery" where
  "deliver_parts_from i a p t message k [] first = ret first"
| "deliver_parts_from i a p t message k (content # parts) first =
     and_then
       (call_adapter_once i a p t
          \<lparr>om_kind = om_kind message, om_content = content, om_files = (if k = 0 then om_files message else [])\<rparr>)
       (\<lambda>pid. deliver_parts_from i a p t message (Suc k) parts (if k = 0 then pid else first))"

definition deliver_parts ::
  "MessageId \<Rightarrow> ChannelAdapter \<Rightarrow> ustring \<Rightarrow> ustring option \<Rightarrow> OutboundMessage \<Rightarrow> json list \<Rightarrow> ustring option delivery" where
  "deliver_parts i a p t message parts =
     and_then (metric ''delivery_chat_split'' (ad_channel_type a))
       (\<lambda>_. deliver_parts_from i a p t message 0 parts None)"

definition call_adapter ::
  "MessageId \<Rightarrow> ChannelAdapter \<Rightarrow> ustring \<Rightarrow> ustring option \<Rightarrow> OutboundMessage \<Rightarrow> ustring option delivery" where
  "call_adapter i a p t message =
     (let parts = (if om_kind message = Chat
                   then chat_parts (om_content message) (max_message_chars a) (max_message_bytes a)
                   else [om_content message])
      in if length parts > 1 then deliver_parts i a p t message parts
         else
           with_result (call_adapter_once i a p t message) (\<lambda>r.
             case r of
               Inr pid \<Rightarrow> ret pid
             | Inl (Adapter (BadRequest msg)) \<Rightarrow>
                 if om_kind message = Chat \<and> is_too_long_bad_request msg then
                   let declared = (case max_message_chars a of Some m \<Rightarrow> m | None \<Rightarrow> TOO_LONG_RETRY_FALLBACK_CAP);
                       retry_parts = chat_parts (om_content message) (Some (max (declared div 2) 1))
                         (map_option (\<lambda>b. max (b div 2) 1) (max_message_bytes a))
                   in if length retry_parts \<le> 1 then throw (Adapter (BadRequest msg))
                      else deliver_parts i a p t message retry_parts
                 else throw (Adapter (BadRequest msg))
             | Inl e \<Rightarrow> throw e))"

section \<open>Dispatching a row\<close>

definition nil_session :: SessionId where
  "nil_session = lit ''00000000-0000-0000-0000-000000000000''"

definition or_else :: "'a option \<Rightarrow> 'a option \<Rightarrow> 'a option" where
  "or_else x y = (case x of None \<Rightarrow> y | Some _ \<Rightarrow> x)"

definition resolve_target :: "MessageOutRow \<Rightarrow> SessionRouting option \<Rightarrow> DispatchTarget option" where
  "resolve_target row routing =
     (let ct = or_else (out_channel_type row) (Option.bind routing sr_channel_type);
          p = or_else (out_platform_id row) (Option.bind routing sr_platform_id);
          t = or_else (out_thread_id row) (Option.bind routing sr_thread_id);
          target = \<lparr>dt_channel_type = ct, dt_platform_id = p, dt_thread_id = t, dt_agent_group = None\<rparr>
      in if out_kind row = Agent then Some target
         else if ct \<noteq> None \<and> p \<noteq> None then Some target
         else None)"

text \<open>The opening of every dispatch: a channel, an address and a live adapter, or the matching error.\<close>

definition with_adapter :: "DeliveryConfig \<Rightarrow> DispatchTarget \<Rightarrow> (ChannelAdapter \<Rightarrow> ustring \<Rightarrow> 'a delivery) \<Rightarrow> 'a delivery" where
  "with_adapter cfg target k =
     (case dt_channel_type target of
        None \<Rightarrow> throw (NoRoute nil_session)
      | Some ct \<Rightarrow>
          (case dt_platform_id target of
             None \<Rightarrow> throw (NoRoute nil_session)
           | Some p \<Rightarrow>
               (case dc_adapters cfg ct of
                  None \<Rightarrow> throw (NoAdapter ct)
                | Some a \<Rightarrow> k a p)))"

definition set_typing :: "MessageId \<Rightarrow> ChannelAdapter \<Rightarrow> ustring \<Rightarrow> ustring option \<Rightarrow> unit delivery" where
  "set_typing i a p t = and_then (adapter_call i a p t SetTyping) (\<lambda>_. ret ())"

definition chat_message :: "ustring \<Rightarrow> OutboundMessage" where
  "chat_message body = \<lparr>om_kind = Chat, om_content = JObject [(lit ''text'', JString body)], om_files = []\<rparr>"

definition preview_strings :: "json \<Rightarrow> ustring list" where
  "preview_strings expander =
     (case json_get expander (lit ''preview_lines'') of
        Some (JArray vs) \<Rightarrow> List.map_filter json_as_str vs
      | _ \<Rightarrow> [])"

text \<open>\<open>v.get(key).and_then(as_str)\<close>.\<close>

definition json_str_at :: "json \<Rightarrow> string \<Rightarrow> ustring option" where
  "json_str_at v key = Option.bind (json_get v (lit key)) json_as_str"

definition dispatch_collapsible ::
  "RowEnv \<Rightarrow> MessageOutRow \<Rightarrow> DispatchTarget \<Rightarrow> ChannelAdapter \<Rightarrow> ustring \<Rightarrow> json \<Rightarrow> unit delivery" where
  "dispatch_collapsible env row target a p expander =
     (let i = out_id row;
          t = dt_thread_id target;
          body = (case json_str_at (out_content row) ''text'' of Some b \<Rightarrow> b | None \<Rightarrow> []);
          summary = (case json_str_at expander ''summary'' of Some b \<Rightarrow> b | None \<Rightarrow> lit ''(long output)'');
          preview_lines = preview_strings expander
      in and_then (adapter_call i a p t (DeliverCollapsible body summary preview_lines)) (\<lambda>r.
           and_then
             (case r of
                Inr pid \<Rightarrow> ret pid
              | Inl (Unsupported reason) \<Rightarrow>
                  call_adapter i a p t (chat_message (render_collapsible_text_fallback body summary preview_lines))
              | Inl e \<Rightarrow> throw (Adapter e))
             (\<lambda>pid. ledger_insert (rv_ledger_error env) (rv_wall env) i pid (lit ''ok''))))"

text \<open>The progress of a split row, recorded after chunk \<open>k\<close> was delivered.\<close>

definition fresh_retry :: "int \<Rightarrow> RetryState" where
  "fresh_retry now = \<lparr>rt_tries = 0, rt_not_before = now, rt_chunks_sent = 0, rt_first_chunk_pid = None\<rparr>"

definition note_chunk :: "MessageId \<Rightarrow> int \<Rightarrow> nat \<Rightarrow> ustring option \<Rightarrow> DeliveryState \<Rightarrow> DeliveryState" where
  "note_chunk i now k first s =
     (let entry = (case dv_retries s i of Some e \<Rightarrow> e | None \<Rightarrow> fresh_retry now);
          next_count = saturating_succ32 (if k < 2 ^ 32 then of_nat k else - 1);
          entry = entry\<lparr>rt_chunks_sent := next_count\<rparr>;
          entry = (if k = 0 then entry\<lparr>rt_first_chunk_pid := first\<rparr> else entry)
      in s\<lparr>dv_retries := (dv_retries s)(i \<mapsto> entry)\<rparr>)"

fun send_chunks ::
  "MessageId \<Rightarrow> ChannelAdapter \<Rightarrow> ustring \<Rightarrow> ustring option \<Rightarrow> MessageKind \<Rightarrow> int \<Rightarrow> nat \<Rightarrow> nat \<Rightarrow> json list \<Rightarrow>
     ustring option \<Rightarrow> ustring option delivery" where
  "send_chunks i a p t kind now total_parts k [] first = ret first"
| "send_chunks i a p t kind now total_parts k (content # parts) first =
     and_then (call_adapter i a p t \<lparr>om_kind = kind, om_content = content, om_files = []\<rparr>) (\<lambda>pid.
       let first' = (if k = 0 then pid else first) in
       and_then (if total_parts > 1 then modify (note_chunk i now k first') else ret ())
         (\<lambda>_. send_chunks i a p t kind now total_parts (Suc k) parts first'))"

definition chunk_progress :: "DeliveryState \<Rightarrow> MessageId \<Rightarrow> nat \<times> ustring option" where
  "chunk_progress s i =
     (case dv_retries s i of None \<Rightarrow> (0, None) | Some st \<Rightarrow> (unat (rt_chunks_sent st), rt_first_chunk_pid st))"

definition dispatch_chat :: "DeliveryConfig \<Rightarrow> RowEnv \<Rightarrow> MessageOutRow \<Rightarrow> DispatchTarget \<Rightarrow> unit delivery" where
  "dispatch_chat cfg env row target =
     with_adapter cfg target (\<lambda>a p.
       let i = out_id row; t = dt_thread_id target in
       and_then (set_typing i a p t) (\<lambda>_.
         case json_get (out_content row) (lit ''expander'') of
           Some expander \<Rightarrow> dispatch_collapsible env row target a p expander
         | None \<Rightarrow>
             if out_kind row = Chat \<and> chat_text_is_empty (out_content row)
             then ledger_insert (rv_ledger_error env) (rv_wall env) i None (lit ''ok'')
             else
               let parts = chat_parts (out_content row) (max_message_chars a) (max_message_bytes a) in
               reading (\<lambda>s.
                 let (start_index, first) = chunk_progress s i in
                 and_then
                   (send_chunks i a p t (out_kind row) (rv_now env) (length parts) start_index (drop start_index parts) first)
                   (\<lambda>first.
                     and_then (if length parts > 1 then metric ''delivery_chat_split'' (ad_channel_type a) else ret ())
                       (\<lambda>_. ledger_insert (rv_ledger_error env) (rv_wall env) i first (lit ''ok''))))))"

text \<open>
  The rich kinds share their shape: find the payload, decode it (a failure is a system-action error, never retried),
  hand it to the hook of the adapter, and fall back to the text form when the platform does not support it.
\<close>

definition rich_payload :: "DeliveryConfig \<Rightarrow> MessageOutRow \<Rightarrow> MessageKind \<Rightarrow> string \<Rightarrow> string \<Rightarrow> string \<Rightarrow> json delivery" where
  "rich_payload cfg row kind key missing garbled =
     (case json_get (out_content row) (lit key) of
        None \<Rightarrow> throw (SystemAction (lit missing))
      | Some v \<Rightarrow>
          (case dc_decode cfg kind v of
             Some e \<Rightarrow> throw (SystemAction (lit garbled @ e))
           | None \<Rightarrow> ret v))"

definition send_rich ::
  "DeliveryConfig \<Rightarrow> MessageId \<Rightarrow> ChannelAdapter \<Rightarrow> ustring \<Rightarrow> ustring option \<Rightarrow> MessageKind \<Rightarrow> json \<Rightarrow> AdapterCall \<Rightarrow>
     ustring option delivery" where
  "send_rich cfg i a p t kind v call =
     and_then (adapter_call i a p t call) (\<lambda>r.
       case r of
         Inr pid \<Rightarrow> ret pid
       | Inl (Unsupported reason) \<Rightarrow> call_adapter i a p t (chat_message (dc_text_fallback cfg kind v))
       | Inl e \<Rightarrow> throw (Adapter e))"

definition record_sent :: "RowEnv \<Rightarrow> MessageOutRow \<Rightarrow> ustring option \<Rightarrow> unit delivery" where
  "record_sent env row pid = ledger_insert (rv_ledger_error env) (rv_wall env) (out_id row) pid (lit ''ok'')"

definition dispatch_card :: "DeliveryConfig \<Rightarrow> RowEnv \<Rightarrow> MessageOutRow \<Rightarrow> DispatchTarget \<Rightarrow> unit delivery" where
  "dispatch_card cfg env row target =
     with_adapter cfg target (\<lambda>a p.
       and_then (rich_payload cfg row Card ''card'' ''card row missing content.card''
                   ''card row content.card failed to deserialise into Card: '') (\<lambda>v.
       let to = json_get (out_content row) (lit ''to'');
           to_hint = or_else (Option.bind to (\<lambda>x. json_str_at x ''id'')) (Option.bind to (\<lambda>x. json_str_at x ''session_id''))
       in and_then (set_typing (out_id row) a p (dt_thread_id target)) (\<lambda>_.
          and_then (send_rich cfg (out_id row) a p (dt_thread_id target) Card v (DeliverCard v to_hint))
            (record_sent env row))))"

definition dispatch_breadcrumb ::
  "DeliveryConfig \<Rightarrow> RowEnv \<Rightarrow> MessageOutRow \<Rightarrow> DispatchTarget \<Rightarrow> ustring option \<Rightarrow> unit delivery" where
  "dispatch_breadcrumb cfg env row target existing =
     with_adapter cfg target (\<lambda>a p.
       let i = out_id row; t = dt_thread_id target in
       and_then (rich_payload cfg row Breadcrumb ''breadcrumb'' ''breadcrumb row missing content.breadcrumb''
                   ''breadcrumb row content.breadcrumb failed to deserialise: '') (\<lambda>v.
       and_then
         (and_then (adapter_call i a p t (DeliverBreadcrumb v existing)) (\<lambda>r.
            case r of
              Inr pid \<Rightarrow> ret pid
            | Inl (Unsupported reason) \<Rightarrow> call_adapter i a p t (chat_message (dc_text_fallback cfg Breadcrumb v))
            | Inl (BadRequest msg) \<Rightarrow>
                if existing \<noteq> None \<and> is_stale_edit_target msg then
                  and_then (adapter_call i a p t (DeliverBreadcrumb v None)) (\<lambda>r'.
                    case r' of Inr pid \<Rightarrow> ret pid | Inl e \<Rightarrow> throw (Adapter e))
                else throw (Adapter (BadRequest msg))
            | Inl e \<Rightarrow> throw (Adapter e)))
         (record_sent env row)))"

definition dispatch_error :: "DeliveryConfig \<Rightarrow> RowEnv \<Rightarrow> MessageOutRow \<Rightarrow> DispatchTarget \<Rightarrow> unit delivery" where
  "dispatch_error cfg env row target =
     with_adapter cfg target (\<lambda>a p.
       and_then (rich_payload cfg row Error ''error'' ''error row missing content.error''
                   ''error row content.error failed to deserialise into ErrorCard: '') (\<lambda>v.
       and_then (send_rich cfg (out_id row) a p (dt_thread_id target) Error v (DeliverError v)) (record_sent env row)))"

definition dispatch_thinking :: "DeliveryConfig \<Rightarrow> RowEnv \<Rightarrow> MessageOutRow \<Rightarrow> DispatchTarget \<Rightarrow> unit delivery" where
  "dispatch_thinking cfg env row target =
     with_adapter cfg target (\<lambda>a p.
       and_then (rich_payload cfg row Thinking ''thinking'' ''thinking row missing content.thinking''
                   ''thinking row content.thinking failed to deserialise: '') (\<lambda>v.
       and_then (send_rich cfg (out_id row) a p (dt_thread_id target) Thinking v (DeliverThinking v)) (record_sent env row)))"

definition dispatch_diff :: "DeliveryConfig \<Rightarrow> RowEnv \<Rightarrow> MessageOutRow \<Rightarrow> DispatchTarget \<Rightarrow> unit delivery" where
  "dispatch_diff cfg env row target =
     with_adapter cfg target (\<lambda>a p.
       and_then (rich_payload cfg row Diff ''diff'' ''diff row missing content.diff''
                   ''diff row content.diff failed to deserialise: '') (\<lambda>v.
       and_then (send_rich cfg (out_id row) a p (dt_thread_id target) Diff v (DeliverDiff v)) (record_sent env row)))"

definition process_row ::
  "DeliveryConfig \<Rightarrow> RowEnv \<Rightarrow> SessionId \<Rightarrow> MessageOutRow \<Rightarrow> SessionRouting option \<Rightarrow> unit delivery" where
  "process_row cfg env sess row routing =
     (let resolved = resolve_target row routing in
      if out_kind row = System then dc_system cfg row resolved
      else
        (case resolved of
           None \<Rightarrow> throw (NoRoute sess)
         | Some target \<Rightarrow>
             (case out_kind row of
                System \<Rightarrow> ret ()
              | Agent \<Rightarrow>
                  and_then
                    (case dc_agent_dispatch cfg of
                       None \<Rightarrow> ret ()
                     | Some handler \<Rightarrow> (case handler row target of Inl e \<Rightarrow> throw (SystemAction e) | Inr _ \<Rightarrow> ret ()))
                    (\<lambda>_. record_sent env row None)
              | Card \<Rightarrow> dispatch_card cfg env row target
              | Breadcrumb \<Rightarrow> dispatch_breadcrumb cfg env row target None
              | Diff \<Rightarrow> dispatch_diff cfg env row target
              | TodoList \<Rightarrow> dc_todo cfg row target
              | Error \<Rightarrow> dispatch_error cfg env row target
              | Thinking \<Rightarrow> dispatch_thinking cfg env row target
              | _ \<Rightarrow> dispatch_chat cfg env row target)))"

section \<open>outbound_dropped_messages\<close>

record InsertOutboundDropped =
  iod_session :: SessionId
  iod_agent_group :: AgentGroupId
  iod_message_out :: MessageId
  iod_channel_type :: "ChannelType option"
  iod_platform_id :: "ustring option"
  iod_thread_id :: "ustring option"
  iod_kind :: MessageKind
  iod_content :: json
  iod_last_error :: ustring

definition insert_outbound_dropped ::
  "OutboundDroppedMessage list \<Rightarrow> InsertOutboundDropped \<Rightarrow> nat \<Rightarrow> instant \<Rightarrow>
     DbError + (OutboundDroppedMessage \<times> OutboundDroppedMessage list)" where
  "insert_outbound_dropped t req fresh now =
     (let r = \<lparr>od_id = fresh, od_session = iod_session req, od_agent_group = iod_agent_group req,
               od_message_out = iod_message_out req, od_channel_type = iod_channel_type req,
               od_platform_id = iod_platform_id req, od_thread_id = iod_thread_id req, od_kind = iod_kind req,
               od_content = iod_content req, od_last_error = iod_last_error req, od_dropped_at = now\<rparr>
      in if fresh \<in> od_id ` set t then Inl ConstraintViolation else Inr (r, t @ [r]))"

text \<open>Reading a row back accepts six kinds only; any other makes the whole query fail.\<close>

definition replayable_kind :: "MessageKind \<Rightarrow> bool" where
  "replayable_kind k \<longleftrightarrow> k \<in> {Chat, Task, Webhook, System, Agent, Card}"

definition row_to_record :: "OutboundDroppedMessage \<Rightarrow> DbError + OutboundDroppedMessage" where
  "row_to_record r =
     (if replayable_kind (od_kind r) then Inr r
      else Inl (Invariant (lit ''unknown message kind: '' @ kind_as_str (od_kind r))))"

definition get_outbound_dropped :: "OutboundDroppedMessage list \<Rightarrow> nat \<Rightarrow> DbError + OutboundDroppedMessage" where
  "get_outbound_dropped t i =
     (case find (\<lambda>r. od_id r = i) t of Some r \<Rightarrow> row_to_record r | None \<Rightarrow> Inl NotFound)"

definition list_outbound_dropped ::
  "OutboundDroppedMessage list \<Rightarrow> instant option \<Rightarrow> int option \<Rightarrow> DbError + OutboundDroppedMessage list" where
  "list_outbound_dropped t since limit =
     (let kept = (case since of Some ts \<Rightarrow> filter (\<lambda>r. ts \<le> od_dropped_at r) t | None \<Rightarrow> t)
      in collect_rows (map row_to_record
           (sql_limit (case limit of Some n \<Rightarrow> n | None \<Rightarrow> 2 ^ 63 - 1) (order_by_desc od_dropped_at kept))))"

definition delete_outbound_dropped ::
  "OutboundDroppedMessage list \<Rightarrow> nat \<Rightarrow> bool \<times> OutboundDroppedMessage list" where
  "delete_outbound_dropped t i = (case sql_delete (\<lambda>r. od_id r = i) t of (n, t') \<Rightarrow> (n > 0, t'))"

section \<open>Failures\<close>

datatype DeferOutcome = Defer | Fail

definition retry_entry :: "DeliveryState \<Rightarrow> MessageId \<Rightarrow> int \<Rightarrow> RetryState" where
  "retry_entry s i now = (case dv_retries s i of Some e \<Rightarrow> e | None \<Rightarrow> fresh_retry now)"

definition bump_retry :: "RowEnv \<Rightarrow> MessageId \<Rightarrow> u64 option \<Rightarrow> DeferOutcome delivery" where
  "bump_retry env i hint =
     (\<lambda>s. let entry = retry_entry s i (rv_now env);
              tries = rt_tries entry + 1;
              (entry', delay_ms, outcome) =
                (if tries \<ge> MAX_DELIVERY_ATTEMPTS then (entry\<lparr>rt_tries := tries\<rparr>, None, Fail)
                 else
                   let delay = retry_delay_ms hint tries
                   in (entry\<lparr>rt_tries := tries, rt_not_before := rv_now env + uint delay\<rparr>, Some delay, Defer));
              wall_not_before = map_option (\<lambda>ms. rv_wall env + uint ms div 1000) delay_ms
          in (Inr outcome,
              s\<lparr>dv_retries := (dv_retries s)(i \<mapsto> entry'),
                dv_out := (if rv_retry_error env then dv_out s
                           else set_retry_state (dv_out s) i (uint tries) wall_not_before)\<rparr>))"

definition forget_retry :: "MessageId \<Rightarrow> unit delivery" where
  "forget_retry i = modify (\<lambda>s. s\<lparr>dv_retries := (dv_retries s)(i := None)\<rparr>)"

definition channel_label :: "MessageOutRow \<Rightarrow> ustring" where
  "channel_label row = (case out_channel_type row of Some ct \<Rightarrow> ct | None \<Rightarrow> lit ''unknown'')"

text \<open>\<open>delivered{status = failed}\<close>, the retry entry forgotten, the failure counted.\<close>

definition record_failed :: "RowEnv \<Rightarrow> MessageOutRow \<Rightarrow> ustring \<Rightarrow> unit delivery" where
  "record_failed env row label =
     and_then (ledger_insert (rv_record_error env) (rv_wall env) (out_id row) None failed) (\<lambda>_.
       and_then (forget_retry (out_id row)) (\<lambda>_. metric ''delivery_failed'' label))"

definition failure_card_row :: "RowEnv \<Rightarrow> MessageOutRow \<Rightarrow> ChannelType \<Rightarrow> ustring \<Rightarrow> ustring \<Rightarrow> WriteOutbound" where
  "failure_card_row env row ct p reason =
     \<lparr>o_id = rv_card_id env, o_in_reply_to = in_reply_to row, o_timestamp = rv_wall env, o_deliver_after = None,
      o_recurrence = None, o_kind = Error, o_platform_id = Some p, o_channel_type = Some ct,
      o_thread_id = out_thread_id row,
      o_content = JObject [(lit ''error'', error_card_to_json (delivery_failure_card reason))]\<rparr>"

text \<open>Best effort: a failing write leaves the state as it is.\<close>

definition emit_delivery_failure_error_card :: "RowEnv \<Rightarrow> MessageOutRow \<Rightarrow> ustring \<Rightarrow> DeliveryState \<Rightarrow> DeliveryState" where
  "emit_delivery_failure_error_card env row reason s =
     (case (out_channel_type row, out_platform_id row) of
        (Some ct, Some p) \<Rightarrow>
          if rv_card_error env then s
          else
            (case insert_out (dv_out s) (failure_card_row env row ct p reason) of
               Inl _ \<Rightarrow> s
             | Inr (_, t) \<Rightarrow> s\<lparr>dv_out := t\<rparr>)
      | _ \<Rightarrow> s)"

definition record_exhausted_row :: "RowEnv \<Rightarrow> MessageOutRow \<Rightarrow> ustring \<Rightarrow> unit delivery" where
  "record_exhausted_row env row reason =
     and_then (record_failed env row (channel_label row)) (\<lambda>_.
       and_then (metric ''delivery_dead_letter'' (lit ''retry_exhausted''))
         (\<lambda>_. modify (emit_delivery_failure_error_card env row reason)))"

text \<open>The dead letter of a row, written before its terminal record.\<close>

definition dead_letter :: "RowEnv \<Rightarrow> InsertOutboundDropped \<Rightarrow> unit delivery" where
  "dead_letter env req =
     (case rv_dead_error env of
        Some e \<Rightarrow> throw (Db e)
      | None \<Rightarrow>
          reading (\<lambda>s.
            case insert_outbound_dropped (dv_dead s) req (rv_dropped_id env) (rv_wall env) of
              Inl e \<Rightarrow> throw (Db e)
            | Inr (_, t) \<Rightarrow> modify (\<lambda>s. s\<lparr>dv_dead := t\<rparr>)))"

definition dropped_request ::
  "Session \<Rightarrow> MessageOutRow \<Rightarrow> SessionRouting option \<Rightarrow> ChannelType option \<Rightarrow> ustring \<Rightarrow> InsertOutboundDropped" where
  "dropped_request sess row routing ct last_error =
     \<lparr>iod_session = se_id sess, iod_agent_group = se_agent_group sess, iod_message_out = out_id row,
      iod_channel_type = ct,
      iod_platform_id = or_else (out_platform_id row) (Option.bind routing sr_platform_id),
      iod_thread_id = or_else (out_thread_id row) (Option.bind routing sr_thread_id),
      iod_kind = out_kind row, iod_content = out_content row, iod_last_error = last_error\<rparr>"

definition record_no_route :: "RowEnv \<Rightarrow> Session \<Rightarrow> MessageOutRow \<Rightarrow> SessionRouting option \<Rightarrow> unit delivery" where
  "record_no_route env sess row routing =
     and_then
       (if replayable_kind (out_kind row)
        then dead_letter env
          (dropped_request sess row routing (or_else (out_channel_type row) (Option.bind routing sr_channel_type))
             (NO_ROUTE_DROP_REASON @ lit '': no dispatch target resolvable (row and session_routing carry no channel + platform pair); replay with `cclaw dropped-messages replay` once the session has routing''))
        else ret ())
       (\<lambda>_. and_then (record_failed env row (channel_label row))
          (\<lambda>_. metric ''delivery_dead_letter'' (lit ''no_route'')))"

definition record_no_adapter_expired ::
  "RowEnv \<Rightarrow> Session \<Rightarrow> MessageOutRow \<Rightarrow> ChannelType \<Rightarrow> SessionRouting option \<Rightarrow> unit delivery" where
  "record_no_adapter_expired env sess row ct routing =
     and_then
       (if replayable_kind (out_kind row)
        then dead_letter env
          (dropped_request sess row routing (Some ct)
             (NO_ADAPTER_DROP_REASON @ lit '': no live adapter for channel '' @ [39] @ ct @ [39] @
              lit '' for over 24h; replay with `cclaw dropped-messages replay` once the channel is configured''))
        else ret ())
       (\<lambda>_. and_then (record_failed env row ct)
          (\<lambda>_. metric ''delivery_dead_letter'' (lit ''no_adapter'')))"

section \<open>A pass over a session\<close>

record PassEnv =
  pv_open_error :: "DeliveryError option"
  pv_due :: instant
  pv_prime_error :: "DbError option"
  pv_prime_now :: int
  pv_prime_wall :: instant
  pv_now :: int
  pv_row :: "MessageId \<Rightarrow> RowEnv"

definition primed_window :: "int \<Rightarrow> instant \<Rightarrow> instant option \<Rightarrow> int" where
  "primed_window now now_wall nb =
     (case nb of
        Some t \<Rightarrow> if t > now_wall then now + min ((t - now_wall) * 1000) (uint ABSOLUTE_CEILING_MS) else now
      | None \<Rightarrow> now)"

definition prime_entry :: "MessageId set \<Rightarrow> int \<Rightarrow> instant \<Rightarrow> PersistedRetryState \<Rightarrow> DeliveryState \<Rightarrow> DeliveryState" where
  "prime_entry delivered_ids now now_wall st s =
     (if rs_id st \<in> delivered_ids then s
      else
        (case dv_retries s (rs_id st) of
           Some _ \<Rightarrow> s
         | None \<Rightarrow>
             s\<lparr>dv_retries := (dv_retries s)(rs_id st \<mapsto>
                 \<lparr>rt_tries = word_of_int (rs_tries st), rt_not_before = primed_window now now_wall (rs_not_before st),
                  rt_chunks_sent = 0, rt_first_chunk_pid = None\<rparr>),
               dv_metrics := (if rs_tries st > 0 then dv_metrics s @ [(lit ''delivery_retry_resumed'', [])]
                              else dv_metrics s)\<rparr>))"

definition prime_retry_cache :: "PassEnv \<Rightarrow> MessageId set \<Rightarrow> unit delivery" where
  "prime_retry_cache pe delivered_ids =
     reading (\<lambda>s.
       if dv_primed s then ret ()
       else
         (case pv_prime_error pe of
            Some e \<Rightarrow> throw (Db e)
          | None \<Rightarrow>
              modify (\<lambda>s. (fold (prime_entry delivered_ids (pv_prime_now pe) (pv_prime_wall pe))
                             (list_retry_state (dv_out s)) s)\<lparr>dv_primed := True\<rparr>)))"

record DeliveryReport =
  rp_delivered :: nat
  rp_failed :: nat
  rp_deferred :: nat

definition report_total :: "DeliveryReport \<Rightarrow> nat" where
  "report_total r = rp_delivered r + rp_failed r + rp_deferred r"

text \<open>The report so far, with the number of rows waiting for an adapter.\<close>

type_synonym pass_acc = "DeliveryReport \<times> nat"

fun plus_delivered :: "pass_acc \<Rightarrow> pass_acc" where
  "plus_delivered (r, n) = (r\<lparr>rp_delivered := rp_delivered r + 1\<rparr>, n)"

fun plus_failed :: "pass_acc \<Rightarrow> pass_acc" where
  "plus_failed (r, n) = (r\<lparr>rp_failed := rp_failed r + 1\<rparr>, n)"

fun plus_deferred :: "pass_acc \<Rightarrow> pass_acc" where
  "plus_deferred (r, n) = (r\<lparr>rp_deferred := rp_deferred r + 1\<rparr>, n)"

fun plus_waiting :: "pass_acc \<Rightarrow> pass_acc" where
  "plus_waiting (r, n) = (r\<lparr>rp_deferred := rp_deferred r + 1\<rparr>, n + 1)"

text \<open>The re-entry guard: a claim younger than the ceiling blocks the row.\<close>

definition claim_row :: "int \<Rightarrow> MessageId \<Rightarrow> bool delivery" where
  "claim_row now i =
     reading (\<lambda>s.
       case dv_inflight s i of
         Some since \<Rightarrow>
           if now - since < uint ABSOLUTE_CEILING_MS then ret False
           else and_then (modify (\<lambda>s. s\<lparr>dv_inflight := (dv_inflight s)(i \<mapsto> now)\<rparr>)) (\<lambda>_. ret True)
       | None \<Rightarrow> and_then (modify (\<lambda>s. s\<lparr>dv_inflight := (dv_inflight s)(i \<mapsto> now)\<rparr>)) (\<lambda>_. ret True))"

definition release_row :: "MessageId \<Rightarrow> unit delivery" where
  "release_row i = modify (\<lambda>s. s\<lparr>dv_inflight := (dv_inflight s)(i := None)\<rparr>)"

definition log_attempt :: "MessageId \<Rightarrow> DeliveryError + unit \<Rightarrow> unit delivery" where
  "log_attempt i r = modify (\<lambda>s. s\<lparr>dv_attempts := dv_attempts s @ [(i, r)]\<rparr>)"

definition settle ::
  "DeliveryConfig \<Rightarrow> RowEnv \<Rightarrow> Session \<Rightarrow> MessageOutRow \<Rightarrow> SessionRouting option \<Rightarrow> pass_acc \<Rightarrow>
     DeliveryError + unit \<Rightarrow> pass_acc delivery" where
  "settle cfg env sess row routing acc result =
     (let i = out_id row in
      case result of
        Inr _ \<Rightarrow>
          and_then (forget_retry i) (\<lambda>_.
            and_then (metric ''messages_outbound'' (channel_label row)) (\<lambda>_. ret (plus_delivered acc)))
      | Inl err \<Rightarrow>
          if delivery_is_retryable err then
            and_then (bump_retry env i (retry_after_secs err)) (\<lambda>outcome.
              case outcome of
                Defer \<Rightarrow> ret (plus_deferred acc)
              | Fail \<Rightarrow>
                  and_then (record_exhausted_row env row (delivery_error_display (dc_db_text cfg) err))
                    (\<lambda>_. ret (plus_failed acc)))
          else
            (case err of
               NoAdapter ct \<Rightarrow>
                 if no_adapter_expired (out_timestamp row) (rv_wall env)
                 then and_then (record_no_adapter_expired env sess row ct routing) (\<lambda>_. ret (plus_failed acc))
                 else ret (plus_waiting acc)
             | NoRoute _ \<Rightarrow> and_then (record_no_route env sess row routing) (\<lambda>_. ret (plus_failed acc))
             | _ \<Rightarrow> and_then (record_failed env row (channel_label row)) (\<lambda>_. ret (plus_failed acc))))"

definition attempt_row ::
  "DeliveryConfig \<Rightarrow> RowEnv \<Rightarrow> Session \<Rightarrow> SessionRouting option \<Rightarrow> MessageOutRow \<Rightarrow> pass_acc \<Rightarrow> pass_acc delivery" where
  "attempt_row cfg env sess routing row acc =
     with_result (process_row cfg env (se_id sess) row routing) (\<lambda>result.
       and_then (release_row (out_id row)) (\<lambda>_.
         and_then (log_attempt (out_id row) result) (\<lambda>_.
           settle cfg env sess row routing acc result)))"

definition deliver_row ::
  "DeliveryConfig \<Rightarrow> PassEnv \<Rightarrow> Session \<Rightarrow> MessageId set \<Rightarrow> SessionRouting option \<Rightarrow> MessageOutRow \<Rightarrow> pass_acc \<Rightarrow>
     pass_acc delivery" where
  "deliver_row cfg pe sess delivered_ids routing row acc =
     (let i = out_id row; env = pv_row pe i in
      if i \<in> delivered_ids then ret acc
      else
        reading (\<lambda>s.
          if (case dv_retries s i of Some st \<Rightarrow> pv_now pe < rt_not_before st | None \<Rightarrow> False)
          then ret (plus_deferred acc)
          else
            and_then (claim_row (pv_now pe) i) (\<lambda>claimed.
              if \<not> claimed then ret acc
              else
                reading (\<lambda>s.
                  if (case dv_retries s i of Some st \<Rightarrow> rt_tries st \<ge> MAX_DELIVERY_ATTEMPTS | None \<Rightarrow> False)
                  then
                    and_then (release_row i) (\<lambda>_.
                      and_then (record_exhausted_row env row (lit ''retry budget exhausted before a host restart''))
                        (\<lambda>_. ret (plus_failed acc)))
                  else attempt_row cfg env sess routing row acc))))"

fun deliver_rows ::
  "DeliveryConfig \<Rightarrow> PassEnv \<Rightarrow> Session \<Rightarrow> MessageId set \<Rightarrow> SessionRouting option \<Rightarrow> MessageOutRow list \<Rightarrow> pass_acc \<Rightarrow>
     pass_acc delivery" where
  "deliver_rows cfg pe sess delivered_ids routing [] acc = ret acc"
| "deliver_rows cfg pe sess delivered_ids routing (row # rows) acc =
     and_then (deliver_row cfg pe sess delivered_ids routing row acc)
       (deliver_rows cfg pe sess delivered_ids routing rows)"

text \<open>
  The drain of external tool calls that follows in the code works on other tables and is modelled by theory
  \<open>Mcp_Relay\<close>.
\<close>

definition process_session_once :: "DeliveryConfig \<Rightarrow> PassEnv \<Rightarrow> Session \<Rightarrow> DeliveryReport delivery" where
  "process_session_once cfg pe sess =
     (case pv_open_error pe of
        Some e \<Rightarrow> throw e
      | None \<Rightarrow>
          reading (\<lambda>s.
            let rows = list_due (dv_out s) (pv_due pe);
                delivered_ids = get_delivered_ids (dv_delivered s);
                routing = read_routing (dv_routing s)
            in and_then (prime_retry_cache pe delivered_ids) (\<lambda>_.
               and_then (deliver_rows cfg pe sess delivered_ids routing rows
                           (\<lparr>rp_delivered = 0, rp_failed = 0, rp_deferred = 0\<rparr>, 0)) (\<lambda>(report, no_adapter_pending).
               and_then (modify (\<lambda>s. s\<lparr>dv_backlog := (if no_adapter_pending > 0 then Some no_adapter_pending else None)\<rparr>))
                 (\<lambda>_. ret report)))))"

text \<open>
  A restart of the host forgets the maps in memory; the databases stay. The runner appends rows to the outbound queue.
\<close>

definition restart :: "DeliveryState \<Rightarrow> DeliveryState" where
  "restart s = s\<lparr>dv_retries := (\<lambda>_. None), dv_primed := False, dv_inflight := (\<lambda>_. None), dv_backlog := None\<rparr>"

definition enqueue :: "WriteOutbound \<Rightarrow> DeliveryState \<Rightarrow> DeliveryState" where
  "enqueue w s = (case insert_out (dv_out s) w of Inl _ \<Rightarrow> s | Inr (_, t) \<Rightarrow> s\<lparr>dv_out := t\<rparr>)"

end
