(* ===== verification/Delivery_Facts.thy ===== *)
theory Delivery_Facts
  imports Delivery
begin

text \<open>
  What the delivery service guarantees: the bounds of its delays, what one attempt may touch (\<open>row_frame\<close>) and when
  it has recorded its row (\<open>records\<close>), the budget of attempts across restarts, the resumption of split messages, the
  accounting of a pass, and the dead letters.
\<close>

section \<open>Delays\<close>

lemma unat_min_word: "unat (min a b) = min (unat a) (unat b)"
  by (simp add: min_def word_le_nat_alt)

lemma unat_saturating_sub32: "unat (saturating_sub32 a b) = unat a - unat b"
  by (simp add: saturating_sub32_def word_less_nat_alt unat_sub word_le_nat_alt not_less)

lemma unat_saturating_mul64: "unat (saturating_mul64 a b) = min (unat a * unat b) (2 ^ 64 - 1)"
proof (cases "unat a * unat b < 2 ^ 64")
  case True
  then have "unat (a * b) = unat a * unat b"
    by (subst unat_mult_lem [THEN iffD1]) (simp_all)
  with True show ?thesis
    by (simp add: saturating_mul64_def)
next
  case False
  then show ?thesis
    by (simp add: saturating_mul64_def unsigned_minus_1_eq_mask mask_eq_exp_minus_1)
qed

lemma unat_power64: "n < 64 \<Longrightarrow> unat (2 ^ n :: u64) = 2 ^ n"
proof -
  assume n: "n < 64"
  have "(2 ^ n :: u64) = of_nat (2 ^ n)"
    by simp
  then show ?thesis
    using n by (simp only: unsigned_of_nat) simp
qed

lemma backoff_delay_ms_eq: "unat (backoff_delay_ms tries) = min (5000 * 2 ^ (unat tries - 1)) 1800000"
proof -
  let ?e = "min (unat tries - 1) 31"
  have e: "unat (min (saturating_sub32 tries 1) 31) = ?e"
    by (simp add: unat_min_word unat_saturating_sub32)
  have "(2 :: nat) ^ ?e \<le> 2 ^ 31"
    by (rule power_increasing) simp_all
  then have le: "5000 * (2 :: nat) ^ ?e < 2 ^ 64 - 1"
    by simp
  have "unat (saturating_mul64 BACKOFF_BASE_MS (push_bit ?e 1)) = 5000 * 2 ^ ?e"
    using le by (simp add: unat_saturating_mul64 BACKOFF_BASE_MS_def unat_power64)
  then have d: "unat (backoff_delay_ms tries) = min (5000 * 2 ^ ?e) 1800000"
    by (simp add: backoff_delay_ms_def Let_def e unat_min_word unat_saturating_sub32 ABSOLUTE_CEILING_MS_def)
  show ?thesis
  proof (cases "unat tries - 1 \<le> 31")
    case True
    with d show ?thesis by simp
  next
    case False
    then have "(2 :: nat) ^ 31 \<le> 2 ^ (unat tries - 1)"
      by (intro power_increasing) simp_all
    with d False show ?thesis by simp
  qed
qed

text \<open>
  C17: The wait after a failed attempt never leaves its bounds and is computed without overflow, for every counter and
  every hint of a platform: the hint in milliseconds, or five seconds doubled per attempt, each cut at thirty minutes;
  at least five seconds without a hint, never less after more attempts, and always whole seconds.
\<close>

theorem retry_delay_bounds:
  "unat (retry_delay_ms hint tries) =
     min (case hint of Some s \<Rightarrow> unat s * 1000 | None \<Rightarrow> 5000 * 2 ^ (unat tries - 1)) 1800000 \<and>
   5000 \<le> unat (retry_delay_ms None tries) \<and>
   unat (retry_delay_ms None tries) \<le> unat (retry_delay_ms None (saturating_succ32 tries)) \<and>
   1000 dvd unat (retry_delay_ms hint tries)"
proof -
  have hint: "unat (retry_delay_ms (Some s) tries) = min (unat s * 1000) 1800000" for s
    by (simp add: retry_delay_ms_def unat_min_word unat_saturating_mul64 ABSOLUTE_CEILING_MS_def)
  have none: "unat (retry_delay_ms None t) = min (5000 * 2 ^ (unat t - 1)) 1800000" for t
    by (simp add: retry_delay_ms_def backoff_delay_ms_eq)
  have eq: "unat (retry_delay_ms hint tries) =
      min (case hint of Some s \<Rightarrow> unat s * 1000 | None \<Rightarrow> 5000 * 2 ^ (unat tries - 1)) 1800000"
    by (cases hint) (simp_all add: hint none)
  have "(2 :: nat) ^ (unat tries - 1) \<le> 2 ^ (unat (saturating_succ32 tries) - 1)"
    using unsigned_less [of tries, where ?'a = nat] by (intro power_increasing) (simp_all add: unat_saturating_succ32)
  moreover have "1000 dvd unat (retry_delay_ms hint tries)"
    unfolding eq by (auto simp: min_def split: option.splits)
  ultimately show ?thesis
    using eq by (simp add: none min_le_iff_disj)
qed

section \<open>Splitting returns\<close>

lemma positive_effective_max: "positive (effective_max m) = effective_max m"
  by (auto simp: positive_def effective_max_def split: option.splits)

lemma split_chat_content_returns: "split_chat_content_if_needed content max_chars max_bytes \<noteq> None"
proof -
  let ?m = "case effective_max max_chars of None \<Rightarrow> usize_max | Some m \<Rightarrow> m"
  have "0 < ?m"
    by (auto simp: effective_max_def usize_max_def split: option.splits)
  then have "split_into_chunks_within_bytes body ?m b \<noteq> None" for body b
    using byte_split_preserves_content [of ?m body b] by blast
  then show ?thesis
    by (simp add: split_chat_content_if_needed_def positive_effective_max Let_def split: option.splits)
qed

section \<open>What an attempt touches\<close>

text \<open>
  \<open>row_frame i\<close>: only row \<open>i\<close> is sent and recorded, nothing is queued or dead-lettered, and no counter of attempts
  changes; for the other rows the whole retry state stays.
\<close>

definition tries_of :: "DeliveryState \<Rightarrow> MessageId \<Rightarrow> u32" where
  "tries_of s i = (case dv_retries s i of None \<Rightarrow> 0 | Some e \<Rightarrow> rt_tries e)"

definition row_frame :: "MessageId \<Rightarrow> DeliveryState \<Rightarrow> DeliveryState \<Rightarrow> bool" where
  "row_frame i s t \<longleftrightarrow>
     dv_out t = dv_out s \<and> dv_routing t = dv_routing s \<and> dv_primed t = dv_primed s \<and>
     dv_inflight t = dv_inflight s \<and> dv_dead t = dv_dead s \<and> dv_attempts t = dv_attempts s \<and>
     tries_of t i = tries_of s i \<and> (\<forall>j. j \<noteq> i \<longrightarrow> dv_retries t j = dv_retries s j) \<and>
     (\<exists>es. dv_events t = dv_events s @ es \<and> (\<forall>e \<in> set es. ev_row e = i))"

lemma row_frame_run: "run_relation (row_frame i)"
proof
  show "row_frame i s s" for s
    by (simp add: row_frame_def)
  show "row_frame i s u" if st: "row_frame i s t" and tu: "row_frame i t u" for s t u
  proof -
    from st obtain es where es: "dv_events t = dv_events s @ es" "\<forall>e \<in> set es. ev_row e = i"
      by (auto simp: row_frame_def)
    from tu obtain fs where fs: "dv_events u = dv_events t @ fs" "\<forall>e \<in> set fs. ev_row e = i"
      by (auto simp: row_frame_def)
    have "\<exists>gs. dv_events u = dv_events s @ gs \<and> (\<forall>e \<in> set gs. ev_row e = i)"
      using es fs by (intro exI [of _ "es @ fs"]) auto
    with st tu show ?thesis
      by (auto simp: row_frame_def)
  qed
qed

interpretation row_frame: run_relation "row_frame i" for i
  by (rule row_frame_run)

text \<open>\<open>same_ledger\<close>: neither the ledger nor the queue is written, and no attempt is counted.\<close>

definition same_ledger :: "DeliveryState \<Rightarrow> DeliveryState \<Rightarrow> bool" where
  "same_ledger s t \<longleftrightarrow> dv_delivered t = dv_delivered s \<and> dv_out t = dv_out s \<and> (\<forall>i. tries_of t i = tries_of s i)"

interpretation same_ledger: run_relation same_ledger
  by unfold_locales (simp_all add: same_ledger_def)

text \<open>
  \<open>records i m\<close>: exactly when \<open>m\<close> succeeds it has recorded an outcome of row \<open>i\<close>; a failure leaves the ledger alone.
\<close>

fun recorded :: "MessageId \<Rightarrow> DeliveryState \<Rightarrow> (DeliveryError + 'a) \<times> DeliveryState \<Rightarrow> bool" where
  "recorded i s (Inl _, t) \<longleftrightarrow> same_ledger s t"
| "recorded i s (Inr _, t) \<longleftrightarrow> (\<exists>out. dv_delivered t = record_outcome (i, out) (dv_delivered s))"

definition records :: "MessageId \<Rightarrow> 'a delivery \<Rightarrow> bool" where
  "records i m \<longleftrightarrow> (\<forall>s. recorded i s (m s))"

definition row_contract :: "MessageId \<Rightarrow> unit delivery \<Rightarrow> bool" where
  "row_contract i m \<longleftrightarrow> always (row_frame i) m \<and> records i m"

lemma records_throw: "records i (throw e)"
  by (simp add: records_def throw_def same_ledger.run_refl)

lemma recorded_after: "same_ledger s t \<Longrightarrow> recorded i t x \<Longrightarrow> recorded i s x"
  by (cases "(i, t, x)" rule: recorded.cases) (auto simp: same_ledger_def)

lemma records_and_then:
  assumes "always same_ledger m" and "\<And>x. records i (f x)"
  shows "records i (and_then m f)"
proof -
  have "recorded i s (and_then m f s)" for s
  proof -
    obtain r t where m: "m s = (r, t)" by fastforce
    then have l: "same_ledger s t"
      using assms(1) by (metis always_def snd_conv)
    show ?thesis
    proof (cases r)
      case (Inl e)
      with m l show ?thesis by (simp add: and_then_def)
    next
      case (Inr x)
      have "recorded i t (f x t)"
        using assms(2) by (simp add: records_def)
      with m Inr recorded_after [OF l, of i "f x t"] show ?thesis by (simp add: and_then_def)
    qed
  qed
  then show ?thesis by (simp add: records_def)
qed

lemma records_reading: "(\<And>s. records i (f s)) \<Longrightarrow> records i (reading f)"
  by (simp add: records_def reading_def)

lemma records_ledger_insert: "records i (ledger_insert err now i pid st)"
  by (auto simp: records_def ledger_insert_def throw_def modify_def same_ledger_def split: option.splits)

text \<open>
  The interface of the sending routines: a relation that the calls made for row \<open>i\<close> and the metrics respect is
  respected by everything built from them.
\<close>

locale sending_relation = run_relation R for R :: "DeliveryState \<Rightarrow> DeliveryState \<Rightarrow> bool" +
  fixes i :: MessageId
  assumes call_rel: "ev_row e = i \<Longrightarrow> R s (s\<lparr>dv_events := dv_events s @ [e]\<rparr>)"
    and metric_rel: "R s (s\<lparr>dv_metrics := ms\<rparr>)"
begin

lemma always_metric [always_intros]: "always R (metric name label)"
  by (simp add: always_def metric_def modify_def metric_rel)

lemma always_adapter_call [always_intros]: "always R (adapter_call i a p t c)"
  by (simp add: always_def adapter_call_def Let_def call_rel)

lemma always_call_adapter_once [always_intros]: "always R (call_adapter_once i a p t m)"
  unfolding call_adapter_once_def by (intro always_intros; auto split: sum.splits AdapterError.splits option.splits intro!: always_intros)

lemma always_deliver_parts_from [always_intros]: "always R (deliver_parts_from i a p t m k parts first)"
  by (induction parts arbitrary: k first) (auto intro!: always_intros)

lemma always_call_adapter [always_intros]: "always R (call_adapter i a p t m)"
  unfolding call_adapter_def deliver_parts_def Let_def
  by (auto split: sum.splits AdapterError.splits DeliveryError.splits intro!: always_intros)

lemma always_set_typing [always_intros]: "always R (set_typing i a p t)"
  unfolding set_typing_def by (intro always_intros)

lemma always_rich_payload [always_intros]: "always R (rich_payload cfg row kind key missing garbled)"
  unfolding rich_payload_def by (intro always_intros)

lemma always_send_rich [always_intros]: "always R (send_rich cfg i a p t kind v call)"
  unfolding send_rich_def by (intro always_intros; auto split: sum.splits AdapterError.splits intro!: always_intros)

end

interpretation row_frame: sending_relation "row_frame i" i for i
  by unfold_locales (auto simp: row_frame_def tries_of_def)

interpretation same_ledger: sending_relation same_ledger i for i
  by unfold_locales (simp_all add: same_ledger_def tries_of_def)

section \<open>Every attempt keeps the contract of its row\<close>

lemma row_frame_note_chunk: "row_frame i s (note_chunk i now k first s)"
  by (auto simp: row_frame_def note_chunk_def tries_of_def fresh_retry_def Let_def split: option.splits)

lemma same_ledger_note_chunk: "same_ledger s (note_chunk i now k first s)"
  by (auto simp: same_ledger_def note_chunk_def tries_of_def fresh_retry_def Let_def split: option.splits)

lemma row_frame_send_chunks: "always (row_frame i) (send_chunks i a p t kind now n k parts first)"
  by (induction parts arbitrary: k first)
    (auto simp: Let_def intro!: always_intros row_frame.always_modify row_frame_note_chunk)

lemma same_ledger_send_chunks: "always same_ledger (send_chunks i a p t kind now n k parts first)"
  by (induction parts arbitrary: k first)
    (auto simp: Let_def intro!: always_intros same_ledger.always_modify same_ledger_note_chunk)

lemma row_frame_ledger_insert: "always (row_frame i) (ledger_insert err now i pid st)"
  unfolding ledger_insert_def
  by (intro always_intros row_frame.always_modify) (simp add: row_frame_def tries_of_def)

lemmas contract_simps = row_contract_def record_sent_def with_adapter_def Let_def
lemmas contract_intros =
  always_intros records_and_then records_reading records_throw records_ledger_insert row_frame_ledger_insert
  row_frame_send_chunks same_ledger_send_chunks

lemma collapsible_contract: "row_contract (out_id row) (dispatch_collapsible env row target a p expander)"
  unfolding dispatch_collapsible_def contract_simps
  by (auto intro!: contract_intros split: sum.splits AdapterError.splits)

lemma chat_contract: "row_contract (out_id row) (dispatch_chat cfg env row target)"
  using collapsible_contract [of row env target]
  unfolding dispatch_chat_def contract_simps
  by (auto intro!: contract_intros split: option.splits prod.splits)

lemma breadcrumb_contract: "row_contract (out_id row) (dispatch_breadcrumb cfg env row target existing)"
  unfolding dispatch_breadcrumb_def contract_simps
  by (auto intro!: contract_intros split: option.splits sum.splits AdapterError.splits)

lemma rich_contracts:
  "row_contract (out_id row) (dispatch_card cfg env row target)"
  "row_contract (out_id row) (dispatch_error cfg env row target)"
  "row_contract (out_id row) (dispatch_thinking cfg env row target)"
  "row_contract (out_id row) (dispatch_diff cfg env row target)"
  unfolding dispatch_card_def dispatch_error_def dispatch_thinking_def dispatch_diff_def contract_simps
  by (auto intro!: contract_intros split: option.splits)

text \<open>
  The arms given as parameters are held to the same contract: they work for their own row, and succeed exactly when they have
  recorded it.
\<close>

definition arms_contract :: "DeliveryConfig \<Rightarrow> bool" where
  "arms_contract cfg \<longleftrightarrow>
     (\<forall>row target. row_contract (out_id row) (dc_system cfg row target)) \<and>
     (\<forall>row target. row_contract (out_id row) (dc_todo cfg row target))"

lemma agent_contract:
  "row_contract (out_id row)
     (and_then (case dc_agent_dispatch cfg of None \<Rightarrow> ret ()
        | Some handler \<Rightarrow> (case handler row target of Inl e \<Rightarrow> throw (SystemAction e) | Inr _ \<Rightarrow> ret ()))
      (\<lambda>_. record_sent env row None))"
  unfolding contract_simps by (auto intro!: contract_intros)

lemma throw_contract: "row_contract i (throw e)"
  by (simp add: row_contract_def records_throw row_frame.always_throw)

lemma process_row_contract:
  assumes "arms_contract cfg"
  shows "row_contract (out_id row) (process_row cfg env sess row routing)"
  using assms chat_contract breadcrumb_contract rich_contracts agent_contract throw_contract
  unfolding process_row_def Let_def arms_contract_def
  by (cases "resolve_target row routing"; cases "out_kind row") simp_all

lemma process_row_result:
  assumes "arms_contract cfg" and "process_row cfg env sess row routing s = (r, u)"
  shows "row_frame (out_id row) s u" and "recorded (out_id row) s (r, u)"
  using process_row_contract [OF assms(1), of row env sess routing] assms(2)
  by (auto simp: row_contract_def always_def records_def dest: spec [of _ s])

section \<open>What the bookkeeping of a row touches\<close>

text \<open>
  \<open>closing i\<close>: the work after an attempt. Nothing is sent; the queue may gain fresh rows (the receipt of a failure), the table of
  dead letters may gain replayable rows for \<open>i\<close>, and the retry state of other rows stays.
\<close>

definition gains_rows :: "MessageOutRow list \<Rightarrow> MessageOutRow list \<Rightarrow> bool" where
  "gains_rows t u \<longleftrightarrow>
     (messages_out_wf t \<longrightarrow> messages_out_wf u) \<and>
     (\<exists>new. u = t @ new \<and> (\<forall>r \<in> set new. out_tries r = 0 \<and> not_before r = None \<and> out_id r \<notin> out_id ` set t))"

lemma gains_rows_refl: "gains_rows t t"
  by (simp add: gains_rows_def)

lemma gains_rows_trans:
  assumes "gains_rows t u" and "gains_rows u v"
  shows "gains_rows t v"
proof -
  from assms(1) obtain a where a: "u = t @ a" "\<forall>r \<in> set a. out_tries r = 0 \<and> not_before r = None \<and> out_id r \<notin> out_id ` set t"
    by (auto simp: gains_rows_def)
  from assms(2) obtain b where b: "v = u @ b" "\<forall>r \<in> set b. out_tries r = 0 \<and> not_before r = None \<and> out_id r \<notin> out_id ` set u"
    by (auto simp: gains_rows_def)
  have "\<exists>new. v = t @ new \<and> (\<forall>r \<in> set new. out_tries r = 0 \<and> not_before r = None \<and> out_id r \<notin> out_id ` set t)"
    using a b by (intro exI [of _ "a @ b"]) auto
  with assms show ?thesis by (simp add: gains_rows_def)
qed

lemma gains_rows_insert: "insert_out t w = Inr (n, u) \<Longrightarrow> gains_rows t u"
  using insert_out_wf [of t w n u] by (auto simp: gains_rows_def insert_out_cases outbound_row_def split: if_splits)

definition gains_dead :: "MessageId \<Rightarrow> OutboundDroppedMessage list \<Rightarrow> OutboundDroppedMessage list \<Rightarrow> bool" where
  "gains_dead i t u \<longleftrightarrow> (\<exists>new. u = t @ new \<and> (\<forall>r \<in> set new. od_message_out r = i \<and> replayable_kind (od_kind r)))"

lemma gains_dead_refl: "gains_dead i t t"
  by (simp add: gains_dead_def)

lemma gains_dead_trans:
  assumes "gains_dead i t u" and "gains_dead i u v"
  shows "gains_dead i t v"
proof -
  from assms(1) obtain a where "u = t @ a" "\<forall>r \<in> set a. od_message_out r = i \<and> replayable_kind (od_kind r)"
    by (auto simp: gains_dead_def)
  moreover from assms(2) obtain b where "v = u @ b" "\<forall>r \<in> set b. od_message_out r = i \<and> replayable_kind (od_kind r)"
    by (auto simp: gains_dead_def)
  ultimately show ?thesis
    unfolding gains_dead_def by (intro exI [of _ "a @ b"]) auto
qed

definition gains_id :: "MessageId \<Rightarrow> Delivered list \<Rightarrow> Delivered list \<Rightarrow> bool" where
  "gains_id i t u \<longleftrightarrow>
     get_delivered_ids t \<subseteq> get_delivered_ids u \<and> get_delivered_ids u \<subseteq> insert i (get_delivered_ids t)"

lemma gains_id_refl: "gains_id i t t"
  by (auto simp: gains_id_def)

lemma gains_id_trans: "gains_id i t u \<Longrightarrow> gains_id i u v \<Longrightarrow> gains_id i t v"
  by (auto simp: gains_id_def)

lemma gains_id_record: "gains_id i t (record_outcome (i, out) t)"
  by (auto simp: gains_id_def record_outcome_ids)

definition closing :: "MessageId \<Rightarrow> DeliveryState \<Rightarrow> DeliveryState \<Rightarrow> bool" where
  "closing i s t \<longleftrightarrow>
     dv_events t = dv_events s \<and> dv_attempts t = dv_attempts s \<and> dv_primed t = dv_primed s \<and>
     dv_inflight t = dv_inflight s \<and> dv_routing t = dv_routing s \<and>
     (\<forall>j. j \<noteq> i \<longrightarrow> dv_retries t j = dv_retries s j) \<and> gains_rows (dv_out s) (dv_out t) \<and>
     gains_dead i (dv_dead s) (dv_dead t) \<and> gains_id i (dv_delivered s) (dv_delivered t)"

interpretation closing: run_relation "closing i" for i
  by unfold_locales (auto simp: closing_def gains_rows_refl gains_dead_refl gains_id_refl
      intro: gains_rows_trans gains_dead_trans gains_id_trans)

lemma closing_same:
  "closing i s (s\<lparr>dv_delivered := record_outcome (i, out) (dv_delivered s)\<rparr>)" "closing i s (s\<lparr>dv_metrics := m\<rparr>)"
  "closing i s (s\<lparr>dv_retries := (dv_retries s)(i := e)\<rparr>)"
  by (simp_all add: closing_def gains_rows_refl gains_dead_refl gains_id_refl gains_id_record)

lemma closing_metric: "always (closing i) (metric name label)"
  unfolding metric_def by (intro closing.always_modify closing_same)

lemma closing_record_failed: "out_id row = i \<Longrightarrow> always (closing i) (record_failed env row label)"
  unfolding record_failed_def ledger_insert_def forget_retry_def
  by (auto intro!: always_intros closing.always_modify closing_same closing_metric)

lemma closing_card: "closing i s (emit_delivery_failure_error_card env row reason s)"
  using gains_rows_insert
  by (auto simp: emit_delivery_failure_error_card_def closing_def gains_rows_refl gains_dead_refl gains_id_refl
      split: option.splits sum.splits)

lemma closing_dead_letter:
  assumes "iod_message_out req = i" and "replayable_kind (iod_kind req)"
  shows "always (closing i) (dead_letter env req)"
proof -
  have "closing i s (snd (dead_letter env req s))" for s
    using assms
    by (auto simp: dead_letter_def throw_def reading_def modify_def insert_outbound_dropped_def closing_def
        gains_rows_refl gains_dead_def gains_id_refl Let_def split: option.splits sum.splits)
  then show ?thesis by (simp add: always_def)
qed

lemma closing_exhausted: "always (closing (out_id row)) (record_exhausted_row env row reason)"
  unfolding record_exhausted_row_def
  by (intro always_intros closing_record_failed closing_metric closing.always_modify closing_card) simp

lemma closing_no_route: "always (closing (out_id row)) (record_no_route env sess row routing)"
  unfolding record_no_route_def
  by (auto simp: dropped_request_def intro!: always_intros closing_record_failed closing_metric closing_dead_letter)

lemma closing_no_adapter: "always (closing (out_id row)) (record_no_adapter_expired env sess row ct routing)"
  unfolding record_no_adapter_expired_def
  by (auto simp: dropped_request_def intro!: always_intros closing_record_failed closing_metric closing_dead_letter)

text \<open>Steps that cannot fail and leave the ledger alone may follow a record.\<close>

definition harmless :: "'a delivery \<Rightarrow> bool" where
  "harmless m \<longleftrightarrow> (\<forall>s. \<exists>x t. m s = (Inr x, t) \<and> dv_delivered t = dv_delivered s)"

lemma records_then:
  assumes "records i m" and "\<And>x. harmless (f x)"
  shows "records i (and_then m f)"
proof -
  have "recorded i s (and_then m f s)" for s
  proof -
    have r: "recorded i s (m s)"
      using assms(1) by (simp add: records_def)
    obtain r t where m: "m s = (r, t)" by fastforce
    show ?thesis
    proof (cases r)
      case (Inl e)
      with m r show ?thesis by (simp add: and_then_def)
    next
      case (Inr x)
      obtain y u where "f x t = (Inr y, u)" "dv_delivered u = dv_delivered t"
        using assms(2) by (metis harmless_def)
      with m Inr r show ?thesis by (simp add: and_then_def)
    qed
  qed
  then show ?thesis by (simp add: records_def)
qed

lemma harmless_intros:
  "harmless (ret x)" "harmless (metric name label)" "harmless (forget_retry i)"
  "harmless (modify (emit_delivery_failure_error_card env row reason))"
  by (auto simp: harmless_def ret_def metric_def forget_retry_def modify_def emit_delivery_failure_error_card_def
      split: option.splits sum.splits)

lemma harmless_and_then: "harmless m \<Longrightarrow> (\<And>x. harmless (f x)) \<Longrightarrow> harmless (and_then m f)"
  unfolding harmless_def and_then_def
proof
  fix s
  assume "\<forall>s. \<exists>x t. m s = (Inr x, t) \<and> dv_delivered t = dv_delivered s"
  then obtain x t where m: "m s = (Inr x, t)" "dv_delivered t = dv_delivered s"
    by blast
  assume "\<And>x. \<forall>s. \<exists>y t. f x s = (Inr y, t) \<and> dv_delivered t = dv_delivered s"
  then obtain y u where "f x t = (Inr y, u)" "dv_delivered u = dv_delivered t"
    by blast
  with m show "\<exists>x t. (case m s of (Inl e, s') \<Rightarrow> (Inl e, s') | (Inr x, s') \<Rightarrow> f x s') = (Inr x, t) \<and>
      dv_delivered t = dv_delivered s"
    by simp
qed

lemmas recording = records_then records_ledger_insert harmless_intros harmless_and_then

lemma records_failed: "out_id row = i \<Longrightarrow> records i (record_failed env row label)"
  unfolding record_failed_def by (auto intro!: recording)

lemma records_exhausted: "records (out_id row) (record_exhausted_row env row reason)"
  unfolding record_exhausted_row_def by (auto intro!: recording records_failed)

lemma quiet_dead_letter: "always same_ledger (dead_letter env req)"
  unfolding dead_letter_def by (intro always_intros same_ledger.always_modify) (simp add: same_ledger_def tries_of_def)

lemma records_no_route: "records (out_id row) (record_no_route env sess row routing)"
  unfolding record_no_route_def
  by (intro records_and_then always_intros quiet_dead_letter records_then records_failed harmless_intros) simp_all

lemma records_no_adapter: "records (out_id row) (record_no_adapter_expired env sess row ct routing)"
  unfolding record_no_adapter_expired_def
  by (intro records_and_then always_intros quiet_dead_letter records_then records_failed harmless_intros) simp_all

section \<open>One row of a pass\<close>

abbreviation ledger_ids :: "DeliveryState \<Rightarrow> MessageId set" where
  "ledger_ids s \<equiv> get_delivered_ids (dv_delivered s)"

definition backing_off :: "DeliveryState \<Rightarrow> int \<Rightarrow> MessageId \<Rightarrow> bool" where
  "backing_off s now i \<longleftrightarrow> (case dv_retries s i of Some st \<Rightarrow> now < rt_not_before st | None \<Rightarrow> False)"

definition busy :: "DeliveryState \<Rightarrow> int \<Rightarrow> MessageId \<Rightarrow> bool" where
  "busy s now i \<longleftrightarrow> (case dv_inflight s i of Some since \<Rightarrow> now - since < uint ABSOLUTE_CEILING_MS | None \<Rightarrow> False)"

definition exhausted :: "DeliveryState \<Rightarrow> MessageId \<Rightarrow> bool" where
  "exhausted s i \<longleftrightarrow> MAX_DELIVERY_ATTEMPTS \<le> tries_of s i"

lemma deliver_row_eq:
  "deliver_row cfg pe sess delivered_ids routing row acc s =
     (let i = out_id row; now = pv_now pe; env = pv_row pe i in
      if i \<in> delivered_ids then (Inr acc, s)
      else if backing_off s now i then (Inr (plus_deferred acc), s)
      else if busy s now i then (Inr acc, s)
      else if exhausted s i
      then and_then (record_exhausted_row env row (lit ''retry budget exhausted before a host restart''))
             (\<lambda>_. ret (plus_failed acc)) (s\<lparr>dv_inflight := (dv_inflight s)(i := None)\<rparr>)
      else attempt_row cfg env sess routing row acc (s\<lparr>dv_inflight := (dv_inflight s)(i \<mapsto> now)\<rparr>))"
proof -
  have "MAX_DELIVERY_ATTEMPTS \<le> (0 :: u32) \<longleftrightarrow> False"
    by (simp add: MAX_DELIVERY_ATTEMPTS_def)
  then show ?thesis
    unfolding deliver_row_def claim_row_def release_row_def reading_def and_then_def modify_def ret_def backing_off_def
      busy_def exhausted_def tries_of_def Let_def
    by (auto split: option.splits)
qed

lemma attempt_row_eq:
  assumes "process_row cfg env (se_id sess) row routing s = (result, u)"
  shows "attempt_row cfg env sess routing row acc s =
    settle cfg env sess row routing acc result
      (u\<lparr>dv_inflight := (dv_inflight u)(out_id row := None), dv_attempts := dv_attempts u @ [(out_id row, result)]\<rparr>)"
  using assms
  by (simp add: attempt_row_def with_result_def release_row_def log_attempt_def and_then_def modify_def)

lemma then_ret_Inr: "and_then m (\<lambda>_. ret y) s = (Inr z, t) \<longleftrightarrow> z = y \<and> (\<exists>x. m s = (Inr x, t))"
  by (auto simp: and_then_Inr ret_def)

lemma recorded_ids: "records i m \<Longrightarrow> m s = (Inr x, t) \<Longrightarrow> ledger_ids t = insert i (ledger_ids s)"
proof -
  assume "records i m" and "m s = (Inr x, t)"
  then obtain out where "dv_delivered t = record_outcome (i, out) (dv_delivered s)"
    by (metis records_def recorded.simps(2))
  then show ?thesis by (simp add: record_outcome_ids)
qed

lemma always_run: "always R m \<Longrightarrow> m s = (r, t) \<Longrightarrow> R s t"
  by (metis always_def snd_conv)

lemma bump_retry_eq:
  "\<exists>t. bump_retry env i hint s = (Inr (if rt_tries (retry_entry s i (rv_now env)) + 1 \<ge> MAX_DELIVERY_ATTEMPTS then Fail else Defer), t) \<and>
     dv_delivered t = dv_delivered s \<and> dv_events t = dv_events s \<and> dv_attempts t = dv_attempts s \<and> dv_primed t = dv_primed s \<and>
     dv_inflight t = dv_inflight s \<and> dv_dead t = dv_dead s \<and> dv_routing t = dv_routing s \<and>
     (\<forall>j. j \<noteq> i \<longrightarrow> dv_retries t j = dv_retries s j) \<and> tries_of t i = tries_of s i + 1 \<and>
     (\<exists>nb. dv_out t = (if rv_retry_error env then dv_out s else set_retry_state (dv_out s) i (uint (tries_of s i + 1)) nb))"
  by (auto simp: bump_retry_def Let_def tries_of_def retry_entry_def fresh_retry_def split: option.splits)

text \<open>
  What settling a row that was attempted does to the ledger and to the report: either the row is recorded and counted as
  delivered or failed, or it is not recorded and counted as deferred.
\<close>

lemma settle_counts:
  assumes "settle cfg env sess row routing acc result s = (Inr acc', t)"
    and "case result of Inl _ \<Rightarrow> out_id row \<notin> ledger_ids s | Inr _ \<Rightarrow> out_id row \<in> ledger_ids s"
  shows "dv_inflight t = dv_inflight s \<and>
    (ledger_ids t = insert (out_id row) (ledger_ids s) \<and> acc' \<in> {plus_delivered acc, plus_failed acc} \<or>
     ledger_ids t = ledger_ids s \<and> out_id row \<notin> ledger_ids s \<and> acc' \<in> {plus_deferred acc, plus_waiting acc})"
proof (cases result)
  case (Inr x)
  with assms show ?thesis
    by (auto simp: settle_def forget_retry_def metric_def and_then_def modify_def ret_def)
next
  case (Inl err)
  let ?i = "out_id row"
  have closed: "?thesis"
    if m: "and_then m (\<lambda>_. ret (plus_failed acc)) u = (Inr acc', t)"
      and k: "records ?i m" "always (closing ?i) m" and u: "ledger_ids u = ledger_ids s" "dv_inflight u = dv_inflight s" for m u
  proof -
    from m obtain x where x: "acc' = plus_failed acc" "m u = (Inr x, t)"
      by (auto simp: then_ret_Inr)
    have "dv_inflight t = dv_inflight u"
      using always_run [OF k(2) x(2)] by (simp add: closing_def)
    with recorded_ids [OF k(1) x(2)] x(1) u show ?thesis by simp
  qed
  show ?thesis
  proof (cases "delivery_is_retryable err")
    case True
    obtain out u where b: "bump_retry env ?i (retry_after_secs err) s = (Inr out, u)"
      "dv_delivered u = dv_delivered s" "dv_inflight u = dv_inflight s"
      using bump_retry_eq [of env ?i "retry_after_secs err" s] by blast
    show ?thesis
    proof (cases out)
      case Defer
      with assms Inl True b show ?thesis
        by (simp add: settle_def and_then_def ret_def Let_def)
    next
      case Fail
      then have "and_then (record_exhausted_row env row (delivery_error_display (dc_db_text cfg) err))
          (\<lambda>_. ret (plus_failed acc)) u = (Inr acc', t)"
        using assms(1) Inl True b(1) by (simp add: settle_def and_then_def [of "bump_retry _ _ _"] Let_def)
      then show ?thesis
        using b by (intro closed [of "record_exhausted_row env row (delivery_error_display (dc_db_text cfg) err)" u]
            records_exhausted closing_exhausted) simp_all
    qed
  next
    case False
    have failed: ?thesis if "and_then (record_failed env row (channel_label row)) (\<lambda>_. ret (plus_failed acc)) s = (Inr acc', t)"
      by (rule closed [OF that records_failed closing_record_failed]) simp_all
    show ?thesis
    proof (cases err)
      case (NoAdapter ct)
      with assms Inl False show ?thesis
        using closed [OF _ records_no_adapter [of row env sess ct routing] closing_no_adapter]
        by (auto simp: settle_def ret_def split: if_splits)
    next
      case (NoRoute j)
      with assms(1) Inl False show ?thesis
        by (intro closed [OF _ records_no_route [of row env sess routing] closing_no_route]) (simp_all add: settle_def)
    qed (use assms(1) Inl False failed in \<open>simp_all add: settle_def\<close>)
  qed
qed

section \<open>Accounting of a pass\<close>

lemma deliver_row_counts:
  assumes "arms_contract cfg" and "deliver_row cfg pe sess delivered_ids routing row acc s = (Inr acc', t)"
    and "out_id row \<notin> delivered_ids" and "out_id row \<notin> ledger_ids s" and "dv_inflight s = (\<lambda>_. None)"
  shows "dv_inflight t = (\<lambda>_. None) \<and>
    (ledger_ids t = insert (out_id row) (ledger_ids s) \<and> acc' \<in> {plus_delivered acc, plus_failed acc} \<or>
     ledger_ids t = ledger_ids s \<and> acc' \<in> {plus_deferred acc, plus_waiting acc})"
proof -
  let ?i = "out_id row" and ?env = "pv_row pe (out_id row)"
  have free: "\<not> busy s (pv_now pe) ?i"
    using assms(5) by (simp add: busy_def)
  consider (wait) "backing_off s (pv_now pe) ?i"
    | (over) "\<not> backing_off s (pv_now pe) ?i" "exhausted s ?i"
    | (send) "\<not> backing_off s (pv_now pe) ?i" "\<not> exhausted s ?i"
    by blast
  then show ?thesis
  proof cases
    case wait
    with assms show ?thesis by (simp add: deliver_row_eq)
  next
    case over
    let ?s = "s\<lparr>dv_inflight := (dv_inflight s)(?i := None)\<rparr>"
    obtain x where x: "acc' = plus_failed acc"
      "record_exhausted_row ?env row (lit ''retry budget exhausted before a host restart'') ?s = (Inr x, t)"
      using assms(2,3) free over by (auto simp: deliver_row_eq Let_def then_ret_Inr)
    have "dv_inflight t = dv_inflight ?s"
      using always_run [OF closing_exhausted x(2)] by (simp add: closing_def)
    with recorded_ids [OF records_exhausted x(2)] x(1) assms(5) show ?thesis by simp
  next
    case send
    let ?s = "s\<lparr>dv_inflight := (dv_inflight s)(?i \<mapsto> pv_now pe)\<rparr>"
    obtain result u where u: "process_row cfg ?env (se_id sess) row routing ?s = (result, u)"
      by fastforce
    let ?u = "u\<lparr>dv_inflight := (dv_inflight u)(?i := None), dv_attempts := dv_attempts u @ [(?i, result)]\<rparr>"
    note r = process_row_result [OF assms(1) u]
    have inflight: "dv_inflight ?u = (\<lambda>_. None)"
      using r(1) assms(5) by (auto simp: row_frame_def)
    have ids: "ledger_ids ?u = (case result of Inl _ \<Rightarrow> ledger_ids s | Inr _ \<Rightarrow> insert ?i (ledger_ids s))"
      using r(2) by (cases result) (auto simp: record_outcome_ids same_ledger_def)
    have "settle cfg ?env sess row routing acc result ?u = (Inr acc', t)"
      using assms(2,3) free send u by (simp add: deliver_row_eq Let_def attempt_row_eq)
    from settle_counts [OF this] ids assms(4) inflight show ?thesis
      by (cases result) auto
  qed
qed

text \<open>\<open>unsettled D rows\<close>: the rows of a pass that the ledger did not hold when it was read.\<close>

definition unsettled :: "MessageId set \<Rightarrow> MessageOutRow list \<Rightarrow> MessageOutRow list" where
  "unsettled D rows = filter (\<lambda>r. out_id r \<notin> D) rows"

lemma deliver_rows_counts:
  assumes "arms_contract cfg" and "deliver_rows cfg pe sess D routing rows acc s = (Inr acc', t)"
    and "distinct (map out_id rows)" and "\<forall>r \<in> set rows. out_id r \<in> ledger_ids s \<longleftrightarrow> out_id r \<in> D"
    and "dv_inflight s = (\<lambda>_. None)"
  shows "dv_inflight t = (\<lambda>_. None) \<and> ledger_ids s \<subseteq> ledger_ids t \<and>
    ledger_ids t \<subseteq> ledger_ids s \<union> out_id ` set (unsettled D rows) \<and>
    rp_delivered (fst acc') + rp_failed (fst acc') =
      rp_delivered (fst acc) + rp_failed (fst acc) + length (filter (\<lambda>r. out_id r \<in> ledger_ids t) (unsettled D rows)) \<and>
    rp_deferred (fst acc') =
      rp_deferred (fst acc) + length (filter (\<lambda>r. out_id r \<notin> ledger_ids t) (unsettled D rows))"
  using assms(2-)
proof (induction rows arbitrary: acc s)
  case Nil
  then show ?case by (simp add: ret_def unsettled_def)
next
  case (Cons row rows)
  from Cons.prems(1) obtain acc1 s1 where
    one: "deliver_row cfg pe sess D routing row acc s = (Inr acc1, s1)" and
    rest: "deliver_rows cfg pe sess D routing rows acc1 s1 = (Inr acc', t)"
    by (auto simp: and_then_Inr)
  show ?case
  proof (cases "out_id row \<in> D")
    case True
    then have "acc1 = acc" "s1 = s"
      using one by (simp_all add: deliver_row_eq)
    with Cons.IH [of acc s] Cons.prems rest True show ?thesis
      by (simp add: unsettled_def)
  next
    case False
    note c = deliver_row_counts [OF assms(1) one False]
    have d: "dv_inflight s1 = (\<lambda>_. None)"
      "ledger_ids s1 = insert (out_id row) (ledger_ids s) \<and> acc1 \<in> {plus_delivered acc, plus_failed acc} \<or>
       ledger_ids s1 = ledger_ids s \<and> acc1 \<in> {plus_deferred acc, plus_waiting acc}"
      using c Cons.prems False by auto
    have "\<forall>r \<in> set rows. out_id r \<in> ledger_ids s1 \<longleftrightarrow> out_id r \<in> D"
      using d(2) Cons.prems(2,3) by (auto simp: image_iff)
    note IH = Cons.IH [OF rest _ this d(1)]
    have fresh: "out_id row \<notin> out_id ` set (unsettled D rows)"
      using Cons.prems(2) by (auto simp: unsettled_def)
    have "out_id row \<in> ledger_ids t \<longleftrightarrow> out_id row \<in> ledger_ids s1"
      using IH Cons.prems(2) fresh by auto
    moreover have "unsettled D (row # rows) = row # unsettled D rows"
      using False by (simp add: unsettled_def)
    moreover have "out_id row \<notin> ledger_ids s"
      using Cons.prems(3) False by simp
    ultimately show ?thesis
      using IH Cons.prems(2) d(2) by (cases acc) auto
  qed
qed

lemma prime_entry_frame:
  "dv_delivered (prime_entry D now wall st s) = dv_delivered s" "dv_inflight (prime_entry D now wall st s) = dv_inflight s"
  "dv_out (prime_entry D now wall st s) = dv_out s" "dv_attempts (prime_entry D now wall st s) = dv_attempts s"
  "dv_events (prime_entry D now wall st s) = dv_events s" "dv_dead (prime_entry D now wall st s) = dv_dead s"
  "dv_primed (prime_entry D now wall st s) = dv_primed s" "dv_routing (prime_entry D now wall st s) = dv_routing s"
  by (simp_all add: prime_entry_def split: option.split)

lemma fold_prime_frame:
  "dv_delivered (fold (prime_entry D now wall) sts s) = dv_delivered s \<and>
   dv_inflight (fold (prime_entry D now wall) sts s) = dv_inflight s \<and>
   dv_out (fold (prime_entry D now wall) sts s) = dv_out s \<and>
   dv_attempts (fold (prime_entry D now wall) sts s) = dv_attempts s \<and>
   dv_events (fold (prime_entry D now wall) sts s) = dv_events s \<and>
   dv_dead (fold (prime_entry D now wall) sts s) = dv_dead s \<and>
   dv_routing (fold (prime_entry D now wall) sts s) = dv_routing s"
  by (induction sts arbitrary: s) (simp_all add: prime_entry_frame)

text \<open>The state in which the rows of a pass are worked on.\<close>

definition primed_state :: "PassEnv \<Rightarrow> DeliveryState \<Rightarrow> DeliveryState" where
  "primed_state pe s =
     (if dv_primed s then s
      else (fold (prime_entry (ledger_ids s) (pv_prime_now pe) (pv_prime_wall pe)) (list_retry_state (dv_out s)) s)
        \<lparr>dv_primed := True\<rparr>)"

lemma primed_state_frame [simp]:
  "dv_delivered (primed_state pe s) = dv_delivered s" "dv_inflight (primed_state pe s) = dv_inflight s"
  "dv_out (primed_state pe s) = dv_out s" "dv_attempts (primed_state pe s) = dv_attempts s"
  "dv_events (primed_state pe s) = dv_events s" "dv_dead (primed_state pe s) = dv_dead s"
  "dv_routing (primed_state pe s) = dv_routing s" "dv_primed (primed_state pe s)"
  by (simp_all add: primed_state_def fold_prime_frame)

definition empty_report :: DeliveryReport where
  "empty_report = \<lparr>rp_delivered = 0, rp_failed = 0, rp_deferred = 0\<rparr>"

definition pass_opens :: "PassEnv \<Rightarrow> DeliveryState \<Rightarrow> bool" where
  "pass_opens pe s \<longleftrightarrow> pv_open_error pe = None \<and> (dv_primed s \<or> pv_prime_error pe = None)"

definition pass_rows :: "DeliveryConfig \<Rightarrow> PassEnv \<Rightarrow> Session \<Rightarrow> DeliveryState \<Rightarrow> (DeliveryError + pass_acc) \<times> DeliveryState" where
  "pass_rows cfg pe sess s =
     deliver_rows cfg pe sess (ledger_ids s) (dv_routing s) (list_due (dv_out s) (pv_due pe)) (empty_report, 0) (primed_state pe s)"

lemma process_session_once_eq:
  "pass_opens pe s \<Longrightarrow> process_session_once cfg pe sess s =
     (case pass_rows cfg pe sess s of
        (Inl e, t) \<Rightarrow> (Inl e, t)
      | (Inr (report, n), t) \<Rightarrow> (Inr report, t\<lparr>dv_backlog := (if n > 0 then Some n else None)\<rparr>))"
  "\<not> pass_opens pe s \<Longrightarrow> \<exists>e. process_session_once cfg pe sess s = (Inl e, s)"
proof -
  assume "pass_opens pe s"
  then have "prime_retry_cache pe (ledger_ids s) s = (Inr (), primed_state pe s)" "pv_open_error pe = None"
    by (auto simp: pass_opens_def prime_retry_cache_def reading_def ret_def modify_def primed_state_def)
  then show "process_session_once cfg pe sess s =
     (case pass_rows cfg pe sess s of
        (Inl e, t) \<Rightarrow> (Inl e, t)
      | (Inr (report, n), t) \<Rightarrow> (Inr report, t\<lparr>dv_backlog := (if n > 0 then Some n else None)\<rparr>))"
    by (simp add: process_session_once_def reading_def read_routing_def pass_rows_def empty_report_def and_then_def
        modify_def ret_def Let_def split: sum.split prod.split)
next
  assume "\<not> pass_opens pe s"
  then show "\<exists>e. process_session_once cfg pe sess s = (Inl e, s)"
    by (auto simp: pass_opens_def process_session_once_def prime_retry_cache_def reading_def throw_def and_then_def
        Let_def split: option.splits)
qed

lemma process_session_once_Inr:
  assumes "process_session_once cfg pe sess s = (Inr report, t)"
  shows "\<exists>n u. pass_rows cfg pe sess s = (Inr (report, n), u) \<and> t = u\<lparr>dv_backlog := (if n > 0 then Some n else None)\<rparr>"
proof (cases "pass_opens pe s")
  case True
  with assms show ?thesis
    by (auto simp: process_session_once_eq(1) split: prod.splits sum.splits)
next
  case False
  with assms process_session_once_eq(2) [OF False, of cfg sess] show ?thesis by simp
qed

text \<open>
  C16: A pass accounts for every due row exactly once: when it returns and no other pass was at work, the rows that the ledger did
  not hold are split into those it holds now, which the report counts as delivered or failed, and the rest, counted as
  deferred; nothing else enters the ledger, and no claim is left behind.
\<close>

theorem pass_accounts_for_due_rows:
  assumes "arms_contract cfg" and "messages_out_wf (dv_out s)" and "dv_inflight s = (\<lambda>_. None)"
    and "process_session_once cfg pe sess s = (Inr report, t)"
    and "todo = unsettled (ledger_ids s) (list_due (dv_out s) (pv_due pe))"
  shows "report_total report = length todo \<and>
    rp_delivered report + rp_failed report = length (filter (\<lambda>r. out_id r \<in> ledger_ids t) todo) \<and>
    rp_deferred report = length (filter (\<lambda>r. out_id r \<notin> ledger_ids t) todo) \<and>
    ledger_ids s \<subseteq> ledger_ids t \<and> ledger_ids t \<subseteq> ledger_ids s \<union> out_id ` set todo \<and>
    dv_inflight t = (\<lambda>_. None)"
proof -
  let ?rows = "list_due (dv_out s) (pv_due pe)"
  obtain n u where u: "deliver_rows cfg pe sess (ledger_ids s) (dv_routing s) ?rows (empty_report, 0) (primed_state pe s) =
      (Inr (report, n), u)" and t: "t = u\<lparr>dv_backlog := (if n > 0 then Some n else None)\<rparr>"
    using process_session_once_Inr [OF assms(4)] by (auto simp: pass_rows_def)
  have "distinct (map out_id ?rows)"
    using outbound_key.wf_distinct [OF assms(2)] by (simp add: list_due_eq [OF assms(2)] distinct_map_filter)
  from deliver_rows_counts [OF assms(1) u this] assms(3) have
    c: "dv_inflight u = (\<lambda>_. None)" "ledger_ids s \<subseteq> ledger_ids u" "ledger_ids u \<subseteq> ledger_ids s \<union> out_id ` set todo"
      "rp_delivered report + rp_failed report = length (filter (\<lambda>r. out_id r \<in> ledger_ids u) todo)"
      "rp_deferred report = length (filter (\<lambda>r. out_id r \<notin> ledger_ids u) todo)"
    by (simp_all add: empty_report_def assms(5))
  then have "report_total report = length todo"
    using sum_length_filter_compl [of "\<lambda>r. out_id r \<in> ledger_ids u" todo] by (simp add: report_total_def)
  with c t show ?thesis by simp
qed

section \<open>The budget of attempts\<close>

text \<open>The attempts of a row that ended in a retryable failure.\<close>

definition retryable_result :: "DeliveryError + unit \<Rightarrow> bool" where
  "retryable_result r \<longleftrightarrow> (case r of Inl e \<Rightarrow> delivery_is_retryable e | Inr _ \<Rightarrow> False)"

definition failed_attempts :: "DeliveryState \<Rightarrow> MessageId \<Rightarrow> nat" where
  "failed_attempts s i = length (filter (\<lambda>(j, r). j = i \<and> retryable_result r) (dv_attempts s))"

text \<open>
  The counter in the row, the counter in memory and the history agree; the history never exceeds the budget.
\<close>

definition budget_inv :: "DeliveryState \<Rightarrow> bool" where
  "budget_inv s \<longleftrightarrow>
     messages_out_wf (dv_out s) \<and>
     (\<forall>r \<in> set (dv_out s). out_tries r = int (failed_attempts s (out_id r))) \<and>
     (\<forall>i. i \<notin> out_id ` set (dv_out s) \<longrightarrow> failed_attempts s i = 0) \<and>
     (\<forall>i. failed_attempts s i \<le> 3) \<and>
     (if dv_primed s then \<forall>i. i \<notin> ledger_ids s \<longrightarrow> unat (tries_of s i) = failed_attempts s i
      else \<forall>i. dv_retries s i = None)"

text \<open>What a step may do to the rest of the state while the invariant is about the counters.\<close>

lemma failed_attempts_cong: "dv_attempts t = dv_attempts s \<Longrightarrow> failed_attempts t i = failed_attempts s i"
  by (simp add: failed_attempts_def)

lemma budget_inv_gains:
  assumes "budget_inv s" and fa: "\<And>i. failed_attempts t i = failed_attempts s i" and "dv_primed t = dv_primed s" and "dv_primed s"
    and "gains_rows (dv_out s) (dv_out t)" and "ledger_ids s \<subseteq> ledger_ids t"
    and "\<And>i. i \<notin> ledger_ids t \<Longrightarrow> tries_of t i = tries_of s i"
  shows "budget_inv t"
proof -
  from assms(5) obtain new where out: "dv_out t = dv_out s @ new"
    "\<forall>r \<in> set new. out_tries r = 0 \<and> out_id r \<notin> out_id ` set (dv_out s)"
    by (auto simp: gains_rows_def)
  show ?thesis
    using assms out unfolding budget_inv_def fa by (auto simp: gains_rows_def)
qed

definition budget_step :: "MessageId \<Rightarrow> DeliveryState \<Rightarrow> DeliveryState \<Rightarrow> bool" where
  "budget_step i s t \<longleftrightarrow>
     budget_inv t \<and> dv_primed t \<and> out_id ` set (dv_out s) \<subseteq> out_id ` set (dv_out t) \<and>
     ledger_ids s \<subseteq> ledger_ids t \<and> ledger_ids t \<subseteq> insert i (ledger_ids s)"

lemma budget_step_trans: "budget_step i s t \<Longrightarrow> budget_step i t u \<Longrightarrow> budget_step i s u"
  unfolding budget_step_def by (metis insert_absorb2 insert_mono subset_trans)

text \<open>Bookkeeping that records its row, or fails before it has touched anything that counts.\<close>

lemma bookkeeping_budget:
  assumes "records i m" and "always (closing i) m" and "budget_inv s" and "dv_primed s" and "m s = (r, t)"
  shows "budget_step i s t"
proof -
  have c: "closing i s t"
    using assms(2,5) by (rule always_run)
  then have fa: "failed_attempts t j = failed_attempts s j" for j
    by (intro failed_attempts_cong) (simp add: closing_def)
  have ids: "out_id ` set (dv_out s) \<subseteq> out_id ` set (dv_out t)"
    using c by (auto simp: closing_def gains_rows_def)
  have r: "recorded i s (r, t)"
    using assms(1,5) by (metis records_def)
  have "budget_inv t \<and> ledger_ids s \<subseteq> ledger_ids t \<and> ledger_ids t \<subseteq> insert i (ledger_ids s)"
  proof (cases r)
    case (Inl e)
    with r have l: "same_ledger s t" by simp
    then have "budget_inv t"
      using c fa assms(3,4) by (intro budget_inv_gains [of s t]) (simp_all add: closing_def same_ledger_def)
    with l show ?thesis by (auto simp: same_ledger_def)
  next
    case (Inr x)
    with r have l: "ledger_ids t = insert i (ledger_ids s)"
      by (auto simp: record_outcome_ids)
    then have "budget_inv t"
      using c fa assms(3,4) by (intro budget_inv_gains [of s t]) (auto simp: closing_def tries_of_def)
    with l show ?thesis by auto
  qed
  with c ids assms(4) show ?thesis by (simp add: budget_step_def closing_def)
qed

lemma retryable_attempt_budget:
  assumes inv: "budget_inv s" and primed: "dv_primed s" and frame: "row_frame i s u" and "dv_delivered u = dv_delivered s"
    and "i \<notin> ledger_ids s" and "i \<in> out_id ` set (dv_out s)" and "\<not> exhausted s i" and "\<not> rv_retry_error env"
    and "delivery_is_retryable err"
    and b: "bump_retry env i hint (u\<lparr>dv_inflight := f, dv_attempts := dv_attempts u @ [(i, Inl err)]\<rparr>) = (Inr out, t)"
  shows "budget_step i s t"
proof -
  let ?u = "u\<lparr>dv_inflight := f, dv_attempts := dv_attempts u @ [(i, Inl err)]\<rparr>"
  have fr: "dv_out u = dv_out s" "dv_primed u = dv_primed s" "dv_attempts u = dv_attempts s" "tries_of u i = tries_of s i"
    "\<forall>j. j \<noteq> i \<longrightarrow> dv_retries u j = dv_retries s j" "dv_dead u = dv_dead s"
    using frame by (auto simp: row_frame_def)
  obtain nb where t: "dv_delivered t = dv_delivered u" "dv_events t = dv_events u"
    "dv_attempts t = dv_attempts s @ [(i, Inl err)]" "dv_primed t" "dv_dead t = dv_dead s"
    "\<forall>j. j \<noteq> i \<longrightarrow> dv_retries t j = dv_retries s j" "tries_of t i = tries_of s i + 1"
    "dv_out t = set_retry_state (dv_out s) i (uint (tries_of s i + 1)) nb"
    using bump_retry_eq [of env i hint ?u] b fr primed \<open>\<not> rv_retry_error env\<close> by (auto simp: tries_of_def)
  have n: "unat (tries_of s i) = failed_attempts s i"
    using inv primed \<open>i \<notin> ledger_ids s\<close> by (simp add: budget_inv_def)
  have lt: "failed_attempts s i < 3"
    using \<open>\<not> exhausted s i\<close> by (simp add: exhausted_def MAX_DELIVERY_ATTEMPTS_def word_le_nat_alt n not_le)
  have "1 + tries_of s i \<noteq> 0"
  proof
    assume "1 + tries_of s i = 0"
    then have "tries_of s i = - 1"
      by (metis add_eq_0_iff)
    with n lt show False by (simp add: unsigned_minus_1_eq_mask mask_eq_exp_minus_1)
  qed
  then have n': "unat (tries_of s i + 1) = Suc (failed_attempts s i)"
    using unatSuc [of "tries_of s i"] n by (simp add: add.commute)
  have fa: "failed_attempts t j = (if j = i then Suc (failed_attempts s i) else failed_attempts s j)" for j
    using t(3) \<open>delivery_is_retryable err\<close> by (auto simp: failed_attempts_def retryable_result_def)
  have ids: "out_id ` set (dv_out t) = out_id ` set (dv_out s)"
  proof -
    have "map out_id (dv_out t) = map out_id (dv_out s)"
      unfolding t(8) set_retry_state_def by (intro map_sql_update) simp
    then show ?thesis by (metis list.set_map)
  qed
  have "out_tries r = int (failed_attempts t (out_id r))" if r: "r \<in> set (dv_out t)" for r
  proof -
    obtain q where q: "q \<in> set (dv_out s)"
      "r = (if out_id q = i then q\<lparr>out_tries := uint (tries_of s i + 1), not_before := nb\<rparr> else q)"
      using r unfolding t(8) set_retry_state_def sql_update_def by auto
    have "uint (tries_of s i + 1) = int (Suc (failed_attempts s i))"
      using n' by (metis uint_nat)
    with q inv show ?thesis
      by (auto simp: fa budget_inv_def)
  qed
  moreover have "tries_of t j = tries_of s j" if "j \<noteq> i" for j
    using t(6) that by (simp add: tries_of_def)
  ultimately have "budget_inv t"
    using inv primed t n' lt ids fa \<open>i \<in> out_id ` set (dv_out s)\<close> assms(4) unfolding budget_inv_def
    by (auto simp: set_retry_state_wf)
  with t ids assms(4) show ?thesis by (auto simp: budget_step_def)
qed

lemma failed_attempts_snoc:
  "dv_attempts t = dv_attempts s @ [(j, r)] \<Longrightarrow> \<not> retryable_result r \<Longrightarrow> failed_attempts t i = failed_attempts s i"
  by (simp add: failed_attempts_def)

lemma then_ret_state: "snd (and_then m (\<lambda>_. ret y) s) = snd (m s)"
  by (auto simp: and_then_def ret_def split: sum.splits prod.splits)

lemma settle_budget:
  assumes "budget_inv s" and "dv_primed s" and "i \<notin> ledger_ids s" and "i \<in> out_id ` set (dv_out s)" and "\<not> exhausted s i"
    and "\<not> rv_retry_error env" and i: "i = out_id row"
    and frame: "row_frame i s u" and rec: "recorded i s (result, u)"
  shows "budget_step i s (snd (settle cfg env sess row routing acc result
    (u\<lparr>dv_inflight := f, dv_attempts := dv_attempts u @ [(i, result)]\<rparr>)))"
proof -
  let ?u = "u\<lparr>dv_inflight := f, dv_attempts := dv_attempts u @ [(i, result)]\<rparr>"
  have fr: "dv_out ?u = dv_out s" "dv_primed ?u" "dv_attempts ?u = dv_attempts s @ [(i, result)]"
    "\<And>j. j \<noteq> i \<Longrightarrow> tries_of ?u j = tries_of s j" "tries_of ?u i = tries_of s i"
    using frame assms(2) by (auto simp: row_frame_def tries_of_def)
  have booked: "budget_step i s (snd (and_then m (\<lambda>_. ret y) ?u))"
    if "records i m" "always (closing i) m" "budget_step i s ?u" for m and y :: pass_acc
    using that bookkeeping_budget [of i m ?u "fst (m ?u)" "snd (m ?u)"]
    by (auto simp: then_ret_state budget_step_def)
  show ?thesis
  proof (cases result)
    case (Inr x)
    let ?t = "snd (settle cfg env sess row routing acc result ?u)"
    have t: "dv_out ?t = dv_out s" "dv_primed ?t" "dv_attempts ?t = dv_attempts s @ [(i, result)]"
      "dv_delivered ?t = dv_delivered u" "\<And>j. j \<noteq> i \<Longrightarrow> dv_retries ?t j = dv_retries s j"
      using Inr fr i frame by (auto simp: settle_def forget_retry_def metric_def and_then_def modify_def ret_def row_frame_def)
    then have l: "ledger_ids ?t = insert i (ledger_ids s)"
      using rec Inr by (auto simp: record_outcome_ids)
    have "failed_attempts ?t j = failed_attempts s j" for j
      by (rule failed_attempts_snoc [OF t(3)]) (simp add: Inr retryable_result_def)
    then have "budget_inv ?t"
      using assms(1,2) t l by (intro budget_inv_gains [of s ?t]) (auto simp: gains_rows_refl tries_of_def)
    with t l show ?thesis by (auto simp: budget_step_def)
  next
    case (Inl err)
    have u: "dv_delivered u = dv_delivered s"
      using rec Inl by (simp add: same_ledger_def)
    show ?thesis
    proof (cases "delivery_is_retryable err")
      case True
      obtain out t where b: "bump_retry env i (retry_after_secs err) ?u = (Inr out, t)"
        using bump_retry_eq [of env i "retry_after_secs err" ?u] by blast
      have step: "budget_step i s t"
        by (rule retryable_attempt_budget [OF assms(1,2) frame u assms(3-6) True]) (use b Inl in simp)
      let ?m = "record_exhausted_row env row (delivery_error_display (dc_db_text cfg) err)"
      have "budget_step i t (snd (?m t))"
        using bookkeeping_budget [of i ?m t "fst (?m t)" "snd (?m t)"] step i records_exhausted closing_exhausted
        by (simp add: budget_step_def)
      then have "budget_step i s (snd (?m t))"
        by (rule budget_step_trans [OF step])
      with step True Inl b i show ?thesis
        by (cases out) (simp add: settle_def and_then_def ret_def,
          simp add: settle_def and_then_def [of "bump_retry _ _ _"] then_ret_state)
    next
      case False
      have "failed_attempts ?u j = failed_attempts s j" for j
        using fr(3) Inl False by (intro failed_attempts_snoc [of ?u s i result]) (simp_all add: retryable_result_def)
      then have "budget_inv ?u"
        using assms(1,2) fr u by (intro budget_inv_gains [of s ?u]) (simp_all add: gains_rows_refl, metis)
      then have step: "budget_step i s ?u"
        using fr u by (simp add: budget_step_def) blast
      note books = booked [OF _ _ step]
      show ?thesis
        using Inl False i step books [OF records_failed closing_record_failed]
          books [OF records_no_route [of row, folded i] closing_no_route [of row, folded i]]
          books [OF records_no_adapter [of row, folded i] closing_no_adapter [of row, folded i]]
        by (cases err) (simp_all add: settle_def ret_def)
    qed
  qed
qed

lemma budget_inv_update [simp]:
  "budget_inv (s\<lparr>dv_inflight := f\<rparr>) \<longleftrightarrow> budget_inv s" "budget_inv (s\<lparr>dv_backlog := b\<rparr>) \<longleftrightarrow> budget_inv s"
  "budget_inv (s\<lparr>dv_routing := r\<rparr>) \<longleftrightarrow> budget_inv s" "budget_inv (s\<lparr>dv_dead := d\<rparr>) \<longleftrightarrow> budget_inv s"
  by (simp_all add: budget_inv_def failed_attempts_def tries_of_def)

lemma exhausted_inflight [simp]: "exhausted (s\<lparr>dv_inflight := f\<rparr>) i \<longleftrightarrow> exhausted s i"
  by (simp add: exhausted_def tries_of_def)

lemma deliver_row_budget:
  assumes "arms_contract cfg" and "budget_inv s" and "dv_primed s" and "i \<in> out_id ` set (dv_out s)"
    and "i \<in> ledger_ids s \<Longrightarrow> i \<in> D" and "\<not> rv_retry_error (pv_row pe i)" and i: "i = out_id row"
  shows "budget_step i s (snd (deliver_row cfg pe sess D routing row acc s))"
proof -
  let ?env = "pv_row pe i"
  have same: "budget_step i s s"
    using assms by (auto simp: budget_step_def)
  consider (still) "i \<in> D \<or> backing_off s (pv_now pe) i \<or> busy s (pv_now pe) i"
    | (over) "i \<notin> D" "\<not> backing_off s (pv_now pe) i" "\<not> busy s (pv_now pe) i" "exhausted s i"
    | (send) "i \<notin> D" "\<not> backing_off s (pv_now pe) i" "\<not> busy s (pv_now pe) i" "\<not> exhausted s i"
    by blast
  then show ?thesis
  proof cases
    case still
    with same i show ?thesis by (auto simp: deliver_row_eq Let_def)
  next
    case over
    let ?s = "s\<lparr>dv_inflight := (dv_inflight s)(i := None)\<rparr>"
    let ?m = "record_exhausted_row ?env row (lit ''retry budget exhausted before a host restart'')"
    have "budget_step i ?s (snd (?m ?s))"
      using bookkeeping_budget [of i ?m ?s "fst (?m ?s)" "snd (?m ?s)"] assms(2,3) i records_exhausted closing_exhausted
      by simp
    then show ?thesis
      using over i by (simp add: deliver_row_eq Let_def then_ret_state budget_step_def)
  next
    case send
    let ?s = "s\<lparr>dv_inflight := (dv_inflight s)(i \<mapsto> pv_now pe)\<rparr>"
    obtain result u where u: "process_row cfg ?env (se_id sess) row routing ?s = (result, u)"
      by fastforce
    have "row_frame i ?s u" "recorded i ?s (result, u)"
      using process_row_result [OF assms(1) u] i by simp_all
    with assms send have "budget_step i ?s (snd (settle cfg ?env sess row routing acc result
        (u\<lparr>dv_inflight := (dv_inflight u)(i := None), dv_attempts := dv_attempts u @ [(i, result)]\<rparr>)))"
      by (intro settle_budget) auto
    then show ?thesis
      using send i u by (simp add: deliver_row_eq Let_def attempt_row_eq budget_step_def)
  qed
qed

lemma deliver_rows_budget:
  assumes "arms_contract cfg" and "\<And>i. \<not> rv_retry_error (pv_row pe i)"
    and "budget_inv s" and "dv_primed s" and "distinct (map out_id rows)"
    and "\<forall>r \<in> set rows. out_id r \<in> out_id ` set (dv_out s) \<and> (out_id r \<in> ledger_ids s \<longrightarrow> out_id r \<in> D)"
  shows "budget_inv (snd (deliver_rows cfg pe sess D routing rows acc s)) \<and>
    dv_primed (snd (deliver_rows cfg pe sess D routing rows acc s))"
  using assms(3-)
proof (induction rows arbitrary: acc s)
  case Nil
  then show ?case by (simp add: ret_def)
next
  case (Cons row rows)
  obtain r t where one: "deliver_row cfg pe sess D routing row acc s = (r, t)"
    by fastforce
  then have step: "budget_step (out_id row) s t"
    using deliver_row_budget [OF assms(1) Cons.prems(1,2), of "out_id row" D pe row sess routing acc] assms(2) Cons.prems(4)
    by simp
  show ?case
  proof (cases r)
    case (Inl e)
    with one step show ?thesis by (simp add: and_then_def budget_step_def)
  next
    case (Inr acc')
    have ok: "out_id q \<in> out_id ` set (dv_out t) \<and> (out_id q \<in> ledger_ids t \<longrightarrow> out_id q \<in> D)" if "q \<in> set rows" for q
    proof -
      have "out_id q \<noteq> out_id row"
        using that Cons.prems(3) by (metis distinct.simps(2) image_eqI list.set_map list.simps(9))
      with step Cons.prems(4) that show ?thesis
        unfolding budget_step_def by (meson insertE list.set_intros(2) subsetD)
    qed
    have "budget_inv t" "dv_primed t"
      using step by (simp_all add: budget_step_def)
    with Cons.IH [of t acc'] Cons.prems(3) ok one Inr show ?thesis
      by (simp add: and_then_def)
  qed
qed

lemma fold_prime_tries:
  "tries_of (fold (prime_entry D now wall) sts s) i =
     (if i \<in> D \<or> dv_retries s i \<noteq> None then tries_of s i
      else (case find (\<lambda>st. rs_id st = i) sts of Some st \<Rightarrow> word_of_int (rs_tries st) | None \<Rightarrow> 0))"
  by (induction sts arbitrary: s) (auto simp: tries_of_def prime_entry_def split: option.splits)

lemma find_retry_state:
  assumes "messages_out_wf t" and "r \<in> set t"
  shows "find (\<lambda>st. rs_id st = out_id r) (list_retry_state t) =
    (if out_tries r > 0 \<or> not_before r \<noteq> None
     then Some \<lparr>rs_id = out_id r, rs_tries = u32_or_zero (out_tries r), rs_not_before = not_before r\<rparr> else None)"
proof -
  have "find (\<lambda>q. out_id q = out_id r) (filter p t) = (if p r then Some r else None)" for p
  proof (cases "p r")
    case True
    then have "find (\<lambda>q. out_id q = out_id r) (filter p t) \<noteq> None"
      using assms(2) by (auto simp: find_None_iff)
    then obtain q where q: "find (\<lambda>q. out_id q = out_id r) (filter p t) = Some q"
      by blast
    then have "q = r"
      using find_Some_in [OF q] assms by (auto dest: outbound_key.key_inj)
    with q have "find (\<lambda>q. out_id q = out_id r) (filter p t) = Some r"
      by simp
    with True show ?thesis by simp
  next
    case False
    with assms show ?thesis
      by (auto simp: find_None_iff dest: outbound_key.key_inj)
  qed
  moreover have "find P (map f xs) = map_option f (find (P \<circ> f) xs)" for P and f :: "MessageOutRow \<Rightarrow> PersistedRetryState" and xs
    by (induction xs) auto
  ultimately show ?thesis
    by (simp add: list_retry_state_def comp_def)
qed

lemma primed_state_budget:
  assumes "budget_inv s"
  shows "budget_inv (primed_state pe s)"
proof (cases "dv_primed s")
  case True
  with assms show ?thesis by (simp add: primed_state_def)
next
  case False
  have fa: "failed_attempts (primed_state pe s) i = failed_attempts s i" for i
    by (rule failed_attempts_cong) simp
  have "unat (tries_of (primed_state pe s) i) = failed_attempts s i" if i: "i \<notin> ledger_ids s" for i
  proof -
    have t: "tries_of (primed_state pe s) i =
        (case find (\<lambda>st. rs_id st = i) (list_retry_state (dv_out s)) of Some st \<Rightarrow> word_of_int (rs_tries st) | None \<Rightarrow> 0)"
      using fold_prime_tries [of "ledger_ids s" _ _ "list_retry_state (dv_out s)" s i] False i assms
      by (simp add: primed_state_def budget_inv_def tries_of_def)
    show ?thesis
    proof (cases "i \<in> out_id ` set (dv_out s)")
      case True
      then obtain r where r: "r \<in> set (dv_out s)" "out_id r = i" by blast
      have n: "out_tries r = int (failed_attempts s i)" "failed_attempts s i \<le> 3" "messages_out_wf (dv_out s)"
        using assms r by (auto simp: budget_inv_def)
      then have "unat (word_of_int (u32_or_zero (out_tries r)) :: u32) = failed_attempts s i"
        by (simp add: u32_or_zero_def unsigned_of_nat take_bit_nat_eq_self)
      with n t find_retry_state [OF n(3) r(1)] r(2) show ?thesis
        by (auto split: if_splits)
    next
      case False
      then have "find (\<lambda>st. rs_id st = i) (list_retry_state (dv_out s)) = None"
        by (auto simp: find_None_iff list_retry_state_def)
      with t False assms show ?thesis by (simp add: budget_inv_def)
    qed
  qed
  with assms show ?thesis
    by (simp add: budget_inv_def fa)
qed

text \<open>
  The histories of a session's outbound queue: rows are queued, passes run (each with its own clocks, ids, answers of adapters and
  failing writes, except that the retry counters are written), the routing changes, dead letters are deleted, and the
  host restarts at any time between passes.
\<close>

definition delivery_start :: DeliveryState where
  "delivery_start =
     \<lparr>dv_out = [], dv_delivered = [], dv_routing = None, dv_retries = (\<lambda>_. None), dv_primed = False,
      dv_inflight = (\<lambda>_. None), dv_dead = [], dv_backlog = None, dv_events = [], dv_metrics = [], dv_attempts = []\<rparr>"

inductive delivery_history :: "DeliveryConfig \<Rightarrow> DeliveryState \<Rightarrow> bool" for cfg where
  start: "delivery_history cfg delivery_start"
| queue: "delivery_history cfg s \<Longrightarrow> delivery_history cfg (enqueue w s)"
| pass: "delivery_history cfg s \<Longrightarrow> (\<And>i. \<not> rv_retry_error (pv_row pe i)) \<Longrightarrow>
    delivery_history cfg (snd (process_session_once cfg pe sess s))"
| restart: "delivery_history cfg s \<Longrightarrow> delivery_history cfg (restart s)"
| route: "delivery_history cfg s \<Longrightarrow> delivery_history cfg (s\<lparr>dv_routing := routing\<rparr>)"
| delete: "delivery_history cfg s \<Longrightarrow> delivery_history cfg (s\<lparr>dv_dead := snd (delete_outbound_dropped (dv_dead s) d)\<rparr>)"

lemma pass_budget:
  assumes "arms_contract cfg" and "\<And>i. \<not> rv_retry_error (pv_row pe i)" and "budget_inv s"
  shows "budget_inv (snd (process_session_once cfg pe sess s))"
proof (cases "pass_opens pe s")
  case False
  with process_session_once_eq(2) [OF False, of cfg sess] assms(3) show ?thesis by auto
next
  case True
  have wf: "messages_out_wf (dv_out s)"
    using assms(3) by (simp add: budget_inv_def)
  then have due: "list_due (dv_out s) (pv_due pe) = filter (\<lambda>r. is_due (deliver_after r) (pv_due pe)) (dv_out s)"
    by (rule list_due_eq)
  obtain r t where t: "pass_rows cfg pe sess s = (r, t)" by fastforce
  have "budget_inv (snd (pass_rows cfg pe sess s)) \<and> dv_primed (snd (pass_rows cfg pe sess s))"
    unfolding pass_rows_def
    using outbound_key.wf_distinct [OF wf] primed_state_budget [OF assms(3)]
    by (intro deliver_rows_budget assms(1,2)) (auto simp: due distinct_map_filter)
  then have inv: "budget_inv t"
    using t by simp
  with t inv True show ?thesis
    by (auto simp: process_session_once_eq(1) split: sum.splits prod.splits)
qed

lemma history_budget:
  assumes "delivery_history cfg s" and "arms_contract cfg"
  shows "budget_inv s"
  using assms(1)
proof induction
  case start
  show ?case
    by (simp add: budget_inv_def delivery_start_def failed_attempts_def messages_out_wf_Nil)
next
  case (queue s w)
  show ?case
  proof (cases "insert_out (dv_out s) w")
    case (Inl e)
    with queue show ?thesis by (simp add: enqueue_def)
  next
    case (Inr p)
    then obtain n t where p: "insert_out (dv_out s) w = Inr (n, t)" by (cases p) auto
    note g = gains_rows_insert [OF p]
    then obtain new where out: "t = dv_out s @ new"
      "\<forall>r \<in> set new. out_tries r = 0 \<and> out_id r \<notin> out_id ` set (dv_out s)"
      by (auto simp: gains_rows_def)
    with p g queue.IH show ?thesis
      unfolding budget_inv_def by (auto simp: enqueue_def failed_attempts_def tries_of_def gains_rows_def)
  qed
next
  case (pass s pe sess)
  then show ?case using pass_budget [OF assms(2)] by blast
next
  case (restart s)
  then show ?case by (simp add: budget_inv_def restart_def failed_attempts_def)
next
  case (route s routing)
  then show ?case by simp
next
  case (delete s d)
  then show ?case by simp
qed


section \<open>What a pass sends\<close>

definition touches :: "MessageId \<Rightarrow> DeliveryState \<Rightarrow> DeliveryState \<Rightarrow> bool" where
  "touches i s t \<longleftrightarrow>
     dv_events t = dv_events s \<and> dv_inflight t = dv_inflight s \<and> dv_attempts t = dv_attempts s \<and>
     (\<forall>j. j \<noteq> i \<longrightarrow> dv_retries t j = dv_retries s j) \<and> gains_id i (dv_delivered s) (dv_delivered t)"

interpretation touches: run_relation "touches i" for i
  by unfold_locales (auto simp: touches_def gains_id_refl intro: gains_id_trans)

lemma touches_closing: "always (closing i) m \<Longrightarrow> always (touches i) m"
  by (simp add: always_def closing_def touches_def)

lemma touches_bump: "always (touches i) (bump_retry env i hint)"
proof -
  have "touches i s (snd (bump_retry env i hint s))" for s
    using bump_retry_eq [of env i hint s] by (auto simp: touches_def gains_id_refl)
  then show ?thesis by (simp add: always_def)
qed

lemma touches_settle: "always (touches (out_id row)) (settle cfg env sess row routing acc result)"
  unfolding settle_def forget_retry_def Let_def
  by (auto split: sum.split DeliveryError.split DeferOutcome.split
      intro!: always_intros touches_bump touches_closing [OF closing_exhausted] touches_closing [OF closing_no_route]
        touches_closing [OF closing_no_adapter] touches_closing [OF closing_record_failed] touches_closing [OF closing_metric]
        touches.always_modify)
    (simp_all add: touches_def gains_id_refl)

text \<open>The rows a pass may send: not in the ledger it read, not backing off, not claimed, not out of attempts.\<close>

definition may_send :: "MessageId set \<Rightarrow> int \<Rightarrow> DeliveryState \<Rightarrow> MessageId \<Rightarrow> bool" where
  "may_send D now s i \<longleftrightarrow> i \<notin> D \<and> \<not> backing_off s now i \<and> \<not> busy s now i \<and> \<not> exhausted s i"

lemma deliver_row_sends:
  assumes "arms_contract cfg" and i: "i = out_id row" and t: "t = snd (deliver_row cfg pe sess D routing row acc s)"
  shows "(\<forall>j. j \<noteq> i \<longrightarrow> dv_retries t j = dv_retries s j \<and> dv_inflight t j = dv_inflight s j) \<and>
    (\<exists>es. dv_events t = dv_events s @ es \<and> (\<forall>e \<in> set es. ev_row e = i \<and> may_send D (pv_now pe) s i))"
proof (cases "may_send D (pv_now pe) s i")
  case True
  let ?env = "pv_row pe i" and ?s = "s\<lparr>dv_inflight := (dv_inflight s)(i \<mapsto> pv_now pe)\<rparr>"
  obtain result u where u: "process_row cfg ?env (se_id sess) row routing ?s = (result, u)"
    by fastforce
  let ?u = "u\<lparr>dv_inflight := (dv_inflight u)(i := None), dv_attempts := dv_attempts u @ [(i, result)]\<rparr>"
  have frame: "row_frame i ?s u"
    using process_row_result(1) [OF assms(1) u] i by simp
  have "t = snd (settle cfg ?env sess row routing acc result ?u)"
    using True i t u by (simp add: deliver_row_eq may_send_def Let_def attempt_row_eq)
  then have "touches i ?u t"
    using touches_settle i by (simp add: always_def)
  with frame True show ?thesis
    by (auto simp: row_frame_def touches_def)
next
  case False
  have "touches i (s\<lparr>dv_inflight := f\<rparr>)
      (snd (record_exhausted_row env row reason (s\<lparr>dv_inflight := f\<rparr>)))" for f env reason
    using touches_closing [OF closing_exhausted] i by (simp add: always_def)
  with False i show ?thesis
    unfolding t by (auto simp: deliver_row_eq may_send_def Let_def then_ret_state touches_def)
qed

lemma deliver_rows_sends:
  assumes "arms_contract cfg" and "distinct (map out_id rows)"
    and "t = snd (deliver_rows cfg pe sess D routing rows acc s)"
  shows "\<exists>es. dv_events t = dv_events s @ es \<and>
    (\<forall>e \<in> set es. \<exists>row \<in> set rows. ev_row e = out_id row \<and> may_send D (pv_now pe) s (out_id row))"
  using assms(2-)
proof (induction rows arbitrary: acc s)
  case Nil
  then show ?case by (simp add: ret_def)
next
  case (Cons row rows)
  obtain r u where u: "deliver_row cfg pe sess D routing row acc s = (r, u)"
    by fastforce
  have fr: "\<forall>j. j \<noteq> out_id row \<longrightarrow> dv_retries u j = dv_retries s j \<and> dv_inflight u j = dv_inflight s j"
    and "\<exists>es. dv_events u = dv_events s @ es \<and> (\<forall>e \<in> set es. ev_row e = out_id row \<and> may_send D (pv_now pe) s (out_id row))"
    using deliver_row_sends [OF assms(1) refl, where row = row and t = u and s = s and pe = pe and acc = acc and D = D and sess = sess and routing = routing] u by simp_all
  then obtain es where es: "dv_events u = dv_events s @ es"
    "\<forall>e \<in> set es. ev_row e = out_id row \<and> may_send D (pv_now pe) s (out_id row)"
    by blast
  show ?case
  proof (cases r)
    case (Inl e)
    with u es Cons.prems(2) show ?thesis by (auto simp: and_then_def)
  next
    case (Inr acc')
    with u Cons.prems have "t = snd (deliver_rows cfg pe sess D routing rows acc' u)"
      by (simp add: and_then_def)
    with Cons.IH [of acc' u] Cons.prems(1) obtain fs where fs: "dv_events t = dv_events u @ fs"
      "\<forall>e \<in> set fs. \<exists>q \<in> set rows. ev_row e = out_id q \<and> may_send D (pv_now pe) u (out_id q)"
      by auto
    have "may_send D (pv_now pe) u (out_id q) \<longleftrightarrow> may_send D (pv_now pe) s (out_id q)" if "q \<in> set rows" for q
    proof -
      have "out_id q \<noteq> out_id row"
        using that Cons.prems(1) by (metis distinct.simps(2) image_eqI list.set_map list.simps(9))
      with fr show ?thesis
        by (simp add: may_send_def backing_off_def busy_def exhausted_def tries_of_def)
    qed
    with es fs show ?thesis
      by (intro exI [of _ "es @ fs"]) auto
  qed
qed


section \<open>A failing channel\<close>

text \<open>A sample session: one queued row, and a channel whose adapter is rate limited for ever.\<close>

definition limited_adapter :: ChannelAdapter where
  "limited_adapter =
     \<lparr>ad_channel_type = lit ''cli'', max_message_chars = None, max_message_bytes = None, plain_text_fallback = (\<lambda>_. None),
      ad_answer = (\<lambda>_ _ _ _. Inl (Rate None))\<rparr>"

definition sample_config :: DeliveryConfig where
  "sample_config =
     \<lparr>dc_adapters = (\<lambda>ct. if ct = lit ''cli'' then Some limited_adapter else None), dc_agent_dispatch = None,
      dc_system = (\<lambda>row _. ledger_insert None 0 (out_id row) None (lit ''ok'')),
      dc_todo = (\<lambda>row _. ledger_insert None 0 (out_id row) None (lit ''ok'')),
      dc_decode = (\<lambda>_ _. None), dc_text_fallback = (\<lambda>_ _. []), dc_db_text = (\<lambda>_. [])\<rparr>"

lemma sample_config_arms: "arms_contract sample_config"
  by (simp add: arms_contract_def sample_config_def row_contract_def records_ledger_insert row_frame_ledger_insert)

definition sample_row_env :: "int \<Rightarrow> RowEnv" where
  "sample_row_env now =
     \<lparr>rv_now = now, rv_wall = now div 1000, rv_dropped_id = 0, rv_card_id = 100, rv_ledger_error = None, rv_record_error = None,
      rv_dead_error = None, rv_retry_error = False, rv_card_error = False\<rparr>"

definition sample_pass :: "int \<Rightarrow> PassEnv" where
  "sample_pass now =
     \<lparr>pv_open_error = None, pv_due = now div 1000, pv_prime_error = None, pv_prime_now = now, pv_prime_wall = now div 1000,
      pv_now = now, pv_row = (\<lambda>_. sample_row_env now)\<rparr>"

definition sample_session :: Session where
  "sample_session =
     \<lparr>se_id = lit ''s'', se_agent_group = 1, se_messaging_group = None, se_thread = None, se_provider = None,
      se_status = Active, container_status = CRunning, last_active = 0, se_created_at = 0, se_source = None\<rparr>"

definition sample_thought :: WriteOutbound where
  "sample_thought =
     \<lparr>o_id = 7, o_in_reply_to = None, o_timestamp = 0, o_deliver_after = None, o_recurrence = None, o_kind = Thinking,
      o_platform_id = Some (lit ''p''), o_channel_type = Some (lit ''cli''), o_thread_id = None,
      o_content = JObject [(lit ''thinking'', JNull)]\<rparr>"

definition pass_at :: "int \<Rightarrow> DeliveryState \<Rightarrow> (DeliveryError + DeliveryReport) \<times> DeliveryState" where
  "pass_at now s = process_session_once sample_config (sample_pass now) sample_session s"

lemmas sample_defs = sample_config_def limited_adapter_def sample_row_env_def sample_pass_def sample_session_def sample_thought_def

definition queued :: DeliveryState where
  "queued = enqueue sample_thought delivery_start"

lemmas run_defs = process_session_once_def prime_retry_cache_def reading_def ret_def modify_def and_then_def enqueue_def
  delivery_start_def insert_out_cases outbound_row_def list_due_def order_by_def is_due_def get_delivered_ids_def
  read_routing_def deliver_row_eq backing_off_def busy_def exhausted_def tries_of_def MAX_DELIVERY_ATTEMPTS_def attempt_row_def
  with_result_def process_row_def resolve_target_def or_else_def dispatch_thinking_def with_adapter_def rich_payload_def json_get_def
  send_rich_def adapter_call_def throw_def release_row_def log_attempt_def settle_def delivery_is_retryable_def bump_retry_def
  retry_entry_def fresh_retry_def retry_after_secs_def retry_delay_ms_def word_le_nat_alt

lemma backoff_values: "uint (backoff_delay_ms 1) = 5000" "uint (backoff_delay_ms 2) = 10000"
  using backoff_delay_ms_eq [of 1] backoff_delay_ms_eq [of 2] by (simp_all add: uint_nat)

lemma next_odd_seq_first: "next_odd_seq [] = 1"
  by (simp add: next_odd_seq_def sql_max_def)

text \<open>The state after \<open>n\<close> refused attempts, the last at time \<open>now\<close> with the wait \<open>d\<close>.\<close>

definition limited_state :: "nat \<Rightarrow> int \<Rightarrow> int \<Rightarrow> DeliveryState" where
  "limited_state n now d =
     \<lparr>dv_out = [(outbound_row sample_thought 1)\<lparr>out_tries := int n, not_before := Some ((now + d) div 1000)\<rparr>],
      dv_delivered = [], dv_routing = None,
      dv_retries = [7 \<mapsto> \<lparr>rt_tries = of_nat n, rt_not_before = now + d, rt_chunks_sent = 0, rt_first_chunk_pid = None\<rparr>],
      dv_primed = True, dv_inflight = (\<lambda>_. None), dv_dead = [], dv_backlog = None,
      dv_events = replicate n \<lparr>ev_row = 7, ev_channel = lit ''cli'', ev_platform = lit ''p'', ev_thread = None,
        ev_call = DeliverThinking JNull, ev_answer = Inl (Rate None)\<rparr>,
      dv_metrics = [], dv_attempts = replicate n (7, Inl (Adapter (Rate None)))\<rparr>"

lemma replicate_two: "replicate 2 x = [x, x]"
  by (simp add: numeral_2_eq_2)

lemmas eval_pass = replicate_two sample_defs run_defs list_retry_state_def next_odd_seq_first set_retry_state_def sql_update_def
  backoff_values limited_state_def

lemma first_pass:
  "pass_at 0 queued = (Inr \<lparr>rp_delivered = 0, rp_failed = 0, rp_deferred = 1\<rparr>, limited_state 1 0 5000)"
  unfolding pass_at_def queued_def by (simp add: eval_pass Let_def)

lemma second_pass:
  "pass_at 20000 (limited_state 1 0 5000) =
     (Inr \<lparr>rp_delivered = 0, rp_failed = 0, rp_deferred = 1\<rparr>, limited_state 2 20000 10000)"
  unfolding pass_at_def by (simp add: eval_pass Let_def)

lemma third_pass:
  "fst (pass_at 60000 (restart (limited_state 2 20000 10000))) =
     Inr \<lparr>rp_delivered = 0, rp_failed = 1, rp_deferred = 0\<rparr> \<and>
   failed_attempts (snd (pass_at 60000 (restart (limited_state 2 20000 10000)))) 7 = 3"
  unfolding pass_at_def
  by (simp add: eval_pass restart_def u32_or_zero_def prime_entry_def primed_window_def record_exhausted_row_def record_failed_def
     ledger_insert_def forget_retry_def metric_def emit_delivery_failure_error_card_def failure_card_row_def
     failed_attempts_def retryable_result_def Let_def)

theorem pass_accounts_for_due_rows_witness:
  "report_total \<lparr>rp_delivered = 0, rp_failed = 0, rp_deferred = 1\<rparr> =
     length (unsettled (ledger_ids queued) (list_due (dv_out queued) 0)) \<and>
   dv_inflight (limited_state 1 0 5000) = (\<lambda>_. None)"
proof -
  have "messages_out_wf (dv_out queued)" "dv_inflight queued = (\<lambda>_. None)" "pv_due (sample_pass 0) = 0"
    by (simp_all add: queued_def eval_pass messages_out_wf_def)
  then show ?thesis
    using pass_accounts_for_due_rows [OF sample_config_arms, of queued "sample_pass 0" sample_session
        "\<lparr>rp_delivered = 0, rp_failed = 0, rp_deferred = 1\<rparr>" "limited_state 1 0 5000"]
      first_pass by (simp add: pass_at_def)
qed



end
