(* ===== verification/Delivery_Resume.thy ===== *)
theory Delivery_Resume
  imports Delivery_Facts
begin

text \<open>
  Long replies and dead letters. A reply that is split into chunks may fail in the middle; the retry resumes after the
  last chunk the platform accepted. A row without a destination is kept as a dead letter before it is given up.
\<close>

section \<open>What a platform has accepted\<close>

definition accepted_body :: "AdapterEvent \<Rightarrow> json option" where
  "accepted_body e = (case (ev_call e, ev_answer e) of (Deliver m, Inr _) \<Rightarrow> Some (om_content m) | _ \<Rightarrow> None)"

definition accepted_for :: "MessageId \<Rightarrow> AdapterEvent list \<Rightarrow> json list" where
  "accepted_for i es = List.map_filter accepted_body (filter (\<lambda>e. ev_row e = i) es)"

lemma accepted_for_simps [simp]:
  "accepted_for i [] = []" "accepted_for i (es @ fs) = accepted_for i es @ accepted_for i fs"
  "accepted_for i [e] = (if ev_row e = i then (case accepted_body e of Some c \<Rightarrow> [c] | None \<Rightarrow> []) else [])"
  by (simp_all add: accepted_for_def map_filter_simps map_filter_def split: option.splits)

lemma accepted_for_other: "(\<forall>e \<in> set es. ev_row e \<noteq> i) \<Longrightarrow> accepted_for i es = []"
  by (simp add: accepted_for_def filter_empty_conv map_filter_simps)

text \<open>
  An adapter that takes or leaves a body as it is: it never answers \<open>BadRequest\<close>, so neither the plain-text nor the
  too-long fallback applies, and the chunks of the row need no further split.
\<close>

definition takes_or_leaves :: "ChannelAdapter \<Rightarrow> bool" where
  "takes_or_leaves a \<longleftrightarrow> (\<forall>n p t m x. ad_answer a n p t (Deliver m) \<noteq> Inl (BadRequest x))"

definition row_parts :: "ChannelAdapter \<Rightarrow> MessageOutRow \<Rightarrow> json list" where
  "row_parts a row = chat_parts (out_content row) (max_message_chars a) (max_message_bytes a)"

definition unsplit :: "ChannelAdapter \<Rightarrow> MessageKind \<Rightarrow> json list \<Rightarrow> bool" where
  "unsplit a kind parts \<longleftrightarrow>
     kind \<noteq> Chat \<or> list_all (\<lambda>c. length (chat_parts c (max_message_chars a) (max_message_bytes a)) \<le> 1) parts"

definition sent_event ::
  "MessageId \<Rightarrow> ChannelAdapter \<Rightarrow> ustring \<Rightarrow> ustring option \<Rightarrow> AdapterCall \<Rightarrow> DeliveryState \<Rightarrow> AdapterEvent" where
  "sent_event i a p t c s =
     \<lparr>ev_row = i, ev_channel = ad_channel_type a, ev_platform = p, ev_thread = t, ev_call = c,
      ev_answer = ad_answer a (length (dv_events s)) p t c\<rparr>"

lemma call_adapter_plain:
  assumes "takes_or_leaves a" and "unsplit a kind [c]"
  shows "call_adapter i a p t \<lparr>om_kind = kind, om_content = c, om_files = []\<rparr> s =
    (let m = \<lparr>om_kind = kind, om_content = c, om_files = []\<rparr>;
         s' = s\<lparr>dv_events := dv_events s @ [sent_event i a p t (Deliver m) s]\<rparr>
     in case ad_answer a (length (dv_events s)) p t (Deliver m) of
          Inr pid \<Rightarrow> (Inr pid, s')
        | Inl e \<Rightarrow> (Inl (Adapter e), s'))"
proof -
  let ?m = "\<lparr>om_kind = kind, om_content = c, om_files = []\<rparr>"
  have one: "\<not> length (if om_kind ?m = Chat then chat_parts (om_content ?m) (max_message_chars a) (max_message_bytes a) else [om_content ?m]) > 1"
    using assms(2) by (auto simp: unsplit_def)
  have no: "ad_answer a (length (dv_events s)) p t (Deliver ?m) \<noteq> Inl (BadRequest x)" for x
    using assms(1) by (simp add: takes_or_leaves_def)
  have once: "call_adapter_once i a p t ?m s =
      (let s' = s\<lparr>dv_events := dv_events s @ [sent_event i a p t (Deliver ?m) s]\<rparr>
       in case ad_answer a (length (dv_events s)) p t (Deliver ?m) of Inr pid \<Rightarrow> (Inr pid, s') | Inl e \<Rightarrow> (Inl (Adapter e), s'))"
    using no by (auto simp: call_adapter_once_def adapter_call_def and_then_def ret_def throw_def sent_event_def Let_def
        split: sum.splits AdapterError.splits)
  show ?thesis
    unfolding call_adapter_def Let_def if_not_P [OF one] with_result_def once
    using no by (auto simp: ret_def throw_def Let_def split: sum.splits AdapterError.splits)
qed

section \<open>Resuming a split row\<close>

lemma chunk_count: "k < 2 ^ 32 - 1 \<Longrightarrow> unat (saturating_succ32 (if k < 2 ^ 32 then of_nat k else - 1)) = Suc k"
  by (simp add: unat_saturating_succ32 unsigned_of_nat take_bit_nat_eq_self)

lemma note_chunk_progress:
  assumes "k < 2 ^ 32 - 1"
  shows "fst (chunk_progress (note_chunk i now k first s) i) = Suc k"
  using chunk_count [OF assms] by (cases "k = 0") (simp_all add: chunk_progress_def note_chunk_def Let_def)

lemma note_chunk_events [simp]: "dv_events (note_chunk i now k first s) = dv_events s"
  by (simp add: note_chunk_def Let_def)

lemma chunk_progress_events [simp]: "chunk_progress (s\<lparr>dv_events := es\<rparr>) i = chunk_progress s i"
  by (simp add: chunk_progress_def)

text \<open>
  One run of the loop from chunk \<open>k\<close>: it gets to some chunk \<open>m\<close>, everything up to there was accepted, the progress is
  recorded if the row was split, and it has got to the end exactly when it succeeds.
\<close>

lemma send_chunks_progress:
  assumes "takes_or_leaves a" and "length all < 2 ^ 32 - 1"
    and "unsplit a kind parts" and "parts = drop k all" and "k \<le> length all"
    and "length all > 1 \<longrightarrow> fst (chunk_progress s i) = k" and "send_chunks i a p t kind now (length all) k parts first s = (r, u)"
  shows "\<exists>m \<ge> k. m \<le> length all \<and>
    accepted_for i (dv_events u) = accepted_for i (dv_events s) @ take (m - k) (drop k all) \<and>
    (length all > 1 \<longrightarrow> fst (chunk_progress u i) = m) \<and>
    (length all \<le> 1 \<longrightarrow> chunk_progress u i = chunk_progress s i) \<and>
    (case r of Inl e \<Rightarrow> m < length all \<and> (\<exists>x. e = Adapter x) | Inr _ \<Rightarrow> m = length all)"
  using assms(3-)
proof (induction parts arbitrary: k first s)
  case Nil
  then show ?case
    by (intro exI [of _ k]) (auto simp: ret_def split: sum.splits)
next
  case (Cons c parts)
  have k1: "k < length all"
    using Cons.prems(2) by (metis drop_all list.distinct(1) not_le)
  then have "drop k all = all ! k # drop (Suc k) all"
    by (simp add: Cons_nth_drop_Suc)
  with Cons.prems(2) k1 have k: "k < length all" "c = all ! k" "parts = drop (Suc k) all"
    by simp_all
  have u1: "unsplit a kind [c]" and u2: "unsplit a kind parts"
    using Cons.prems(1) by (auto simp: unsplit_def)
  let ?m = "\<lparr>om_kind = kind, om_content = c, om_files = []\<rparr>"
  let ?s = "s\<lparr>dv_events := dv_events s @ [sent_event i a p t (Deliver ?m) s]\<rparr>"
  show ?case
  proof (cases "ad_answer a (length (dv_events s)) p t (Deliver ?m)")
    case (Inl e)
    then have "r = Inl (Adapter e)" "u = ?s"
      using Cons.prems(5) by (auto simp: and_then_def call_adapter_plain [OF assms(1) u1] Let_def)
    with Inl Cons.prems(3,4) k(1) show ?thesis
      by (intro exI [of _ k]) (auto simp: sent_event_def accepted_body_def)
  next
    case (Inr pid)
    let ?first = "if k = 0 then pid else first"
    let ?s2 = "if length all > 1 then note_chunk i now k ?first ?s else ?s"
    have rest: "send_chunks i a p t kind now (length all) (Suc k) parts ?first ?s2 = (r, u)"
      using Cons.prems(5) Inr
      by (auto simp: and_then_def call_adapter_plain [OF assms(1) u1] modify_def ret_def Let_def split: if_splits)
    have prog: "length all > 1 \<longrightarrow> fst (chunk_progress ?s2 i) = Suc k"
      using k(1) assms(2) by (simp add: note_chunk_progress)
    have acc: "accepted_for i (dv_events ?s2) = accepted_for i (dv_events s) @ [c]"
      using Inr by (auto simp: sent_event_def accepted_body_def)
    obtain m where m: "m \<ge> Suc k" "m \<le> length all"
      "accepted_for i (dv_events u) = accepted_for i (dv_events ?s2) @ take (m - Suc k) (drop (Suc k) all)"
      "length all > 1 \<longrightarrow> fst (chunk_progress u i) = m"
      "length all \<le> 1 \<longrightarrow> chunk_progress u i = chunk_progress ?s2 i"
      "case r of Inl e \<Rightarrow> m < length all \<and> (\<exists>x. e = Adapter x) | Inr _ \<Rightarrow> m = length all"
      using Cons.IH [OF u2 k(3) _ prog rest] k(1) by auto
    have "c # take (m - Suc k) (drop (Suc k) all) = take (m - k) (drop k all)"
      using m(1) k(1,2) by (metis Cons_nth_drop_Suc Suc_diff_Suc Suc_le_lessD take_Suc_Cons)
    with m acc show ?thesis
      by (intro exI [of _ m]) (auto simp: not_less split: if_splits)
  qed
qed

text \<open>The rows the resumption is about: a body of text for a live channel that takes or leaves it.\<close>

definition resumable :: "DeliveryConfig \<Rightarrow> MessageOutRow \<Rightarrow> DispatchTarget \<Rightarrow> ChannelAdapter \<Rightarrow> bool" where
  "resumable cfg row target a \<longleftrightarrow>
     Option.bind (dt_channel_type target) (dc_adapters cfg) = Some a \<and> dt_platform_id target \<noteq> None \<and>
     json_get (out_content row) (lit ''expander'') = None \<and>
     \<not> (out_kind row = Chat \<and> chat_text_is_empty (out_content row)) \<and>
     takes_or_leaves a \<and> unsplit a (out_kind row) (row_parts a row) \<and> length (row_parts a row) < 2 ^ 32 - 1"

lemma dispatch_chat_progress:
  assumes "resumable cfg row target a" and "i = out_id row" and "parts = row_parts a row"
    and "accepted_for i (dv_events s) = take (fst (chunk_progress s i)) parts" and "fst (chunk_progress s i) \<le> length parts"
    and "length parts \<le> 1 \<longrightarrow> fst (chunk_progress s i) = 0"
    and "dispatch_chat cfg env row target s = (r, u)"
  shows "\<exists>m \<ge> fst (chunk_progress s i). m \<le> length parts \<and> accepted_for i (dv_events u) = take m parts \<and>
    (if length parts > 1 then fst (chunk_progress u i) = m else chunk_progress u i = chunk_progress s i) \<and>
    (r = Inr () \<longrightarrow> m = length parts) \<and> (delivery_is_retryable e \<and> r = Inl e \<longrightarrow> m < length parts)"
proof -
  obtain ct p where ct: "dt_channel_type target = Some ct" "dc_adapters cfg ct = Some a" "dt_platform_id target = Some p"
    using assms(1) by (cases "dt_channel_type target"; cases "dt_platform_id target") (auto simp: resumable_def)
  let ?t = "dt_thread_id target" and ?k = "fst (chunk_progress s i)"
  let ?s = "s\<lparr>dv_events := dv_events s @ [sent_event i a p ?t SetTyping s]\<rparr>"
  obtain q v where q: "send_chunks i a p ?t (out_kind row) (rv_now env) (length parts) ?k (drop ?k parts) (snd (chunk_progress s i)) ?s = (q, v)"
    by fastforce
  have split: "unsplit a (out_kind row) (drop ?k parts)"
    using assms(1,3) by (auto simp: resumable_def unsplit_def list_all_iff dest: in_set_dropD)
  have "\<exists>m \<ge> ?k. m \<le> length parts \<and>
    accepted_for i (dv_events v) = accepted_for i (dv_events ?s) @ take (m - ?k) (drop ?k parts) \<and>
    (length parts > 1 \<longrightarrow> fst (chunk_progress v i) = m) \<and>
    (length parts \<le> 1 \<longrightarrow> chunk_progress v i = chunk_progress ?s i) \<and>
    (case q of Inl e \<Rightarrow> m < length parts \<and> (\<exists>x. e = Adapter x) | Inr _ \<Rightarrow> m = length parts)"
    using assms(1,3) by (intro send_chunks_progress [OF _ _ split refl assms(5) _ q]) (auto simp: resumable_def)
  then obtain m where m0: "m \<ge> ?k" "m \<le> length parts"
    "accepted_for i (dv_events v) = accepted_for i (dv_events ?s) @ take (m - ?k) (drop ?k parts)"
    "length parts > 1 \<longrightarrow> fst (chunk_progress v i) = m" "length parts \<le> 1 \<longrightarrow> chunk_progress v i = chunk_progress ?s i"
    "case q of Inl e \<Rightarrow> m < length parts \<and> (\<exists>x. e = Adapter x) | Inr _ \<Rightarrow> m = length parts"
    by blast
  have "if length parts > 1 then fst (chunk_progress v i) = m else chunk_progress v i = chunk_progress s i"
    using m0(4,5) by simp
  note m = m0(1-3) this m0(6)
  have "accepted_for i (dv_events ?s) = take ?k parts"
    using assms(4) by (simp add: sent_event_def accepted_body_def)
  then have acc: "accepted_for i (dv_events v) = take m parts"
    using m(1,3) by (metis le_add_diff_inverse take_add)
  have run: "dispatch_chat cfg env row target s =
      (case q of
         Inl e \<Rightarrow> (Inl e, v)
       | Inr first \<Rightarrow>
           and_then (if length parts > 1 then metric ''delivery_chat_split'' (ad_channel_type a) else ret ())
             (\<lambda>_. ledger_insert (rv_ledger_error env) (rv_wall env) i first (lit ''ok'')) v)"
    using ct q assms(1-3)
    by (auto simp: dispatch_chat_def with_adapter_def resumable_def set_typing_def adapter_call_def and_then_def ret_def
        reading_def row_parts_def sent_event_def Let_def split: sum.splits prod.splits)
  show ?thesis
  proof (cases q)
    case (Inl x)
    then show ?thesis
      using run assms(7) m acc by (intro exI [of _ m]) auto
  next
    case (Inr first)
    have "dv_events u = dv_events v" "chunk_progress u i = chunk_progress v i" "\<not> (delivery_is_retryable e \<and> r = Inl e)"
      using run assms(7) Inr
      by (auto simp: and_then_def metric_def modify_def ret_def ledger_insert_def throw_def chunk_progress_def
          delivery_is_retryable_def split: option.splits if_splits)
    with Inr m acc show ?thesis by (intro exI [of _ m]) auto
  qed
qed

text \<open>
  The attempts of a row: it is queued, attempted, put back after a retryable failure, and other rows are worked on in between.
\<close>

inductive chat_attempts :: "DeliveryConfig \<Rightarrow> MessageOutRow \<Rightarrow> DispatchTarget \<Rightarrow> DeliveryState \<Rightarrow> bool" for cfg row target where
  fresh: "dv_retries s (out_id row) = None \<Longrightarrow> accepted_for (out_id row) (dv_events s) = [] \<Longrightarrow> chat_attempts cfg row target s"
| retry: "chat_attempts cfg row target s \<Longrightarrow> dispatch_chat cfg env row target s = (Inl e, t) \<Longrightarrow> delivery_is_retryable e \<Longrightarrow>
    bump_retry env (out_id row) (retry_after_secs e) t = (Inr Defer, u) \<Longrightarrow> chat_attempts cfg row target u"
| other: "chat_attempts cfg row target s \<Longrightarrow> dv_retries t (out_id row) = dv_retries s (out_id row) \<Longrightarrow>
    dv_events t = dv_events s @ es \<Longrightarrow> (\<forall>e \<in> set es. ev_row e \<noteq> out_id row) \<Longrightarrow> chat_attempts cfg row target t"

lemma bump_retry_progress:
  assumes "bump_retry env i hint s = (Inr out, t)"
  shows "chunk_progress t i = chunk_progress s i \<and> dv_events t = dv_events s"
  using assms
  by (auto simp: bump_retry_def retry_entry_def fresh_retry_def chunk_progress_def Let_def split: option.splits if_splits)

lemma chat_attempts_progress:
  assumes "chat_attempts cfg row target s" and "resumable cfg row target a"
  shows "accepted_for (out_id row) (dv_events s) = take (fst (chunk_progress s (out_id row))) (row_parts a row) \<and>
    fst (chunk_progress s (out_id row)) \<le> length (row_parts a row) \<and>
    (length (row_parts a row) \<le> 1 \<longrightarrow> fst (chunk_progress s (out_id row)) = 0)"
  using assms(1)
proof induction
  case (fresh s)
  then show ?case by (simp add: chunk_progress_def)
next
  case (retry s env e t u)
  obtain m where m: "m \<le> length (row_parts a row)" "accepted_for (out_id row) (dv_events t) = take m (row_parts a row)"
    "if length (row_parts a row) > 1 then fst (chunk_progress t (out_id row)) = m
     else chunk_progress t (out_id row) = chunk_progress s (out_id row)" "m < length (row_parts a row)"
    using dispatch_chat_progress [OF assms(2) refl refl _ _ _ retry.hyps(2), of e] retry.IH retry.hyps(3) by auto
  then show ?case
    using bump_retry_progress [OF retry.hyps(4)] retry.IH by (auto split: if_splits)
next
  case (other s t es)
  then show ?case
    by (simp add: chunk_progress_def accepted_for_other)
qed


section \<open>A reply of two chunks\<close>

text \<open>A sample channel with a cap of five characters that is rate limited on its third call.\<close>

definition short_adapter :: ChannelAdapter where
  "short_adapter =
     \<lparr>ad_channel_type = lit ''cli'', max_message_chars = Some 5, max_message_bytes = None, plain_text_fallback = (\<lambda>_. None),
      ad_answer = (\<lambda>n _ _ _. if n = 2 then Inl (Rate None) else Inr None)\<rparr>"

definition short_config :: DeliveryConfig where
  "short_config = sample_config\<lparr>dc_adapters := (\<lambda>ct. Some short_adapter)\<rparr>"

definition short_row :: MessageOutRow where
  "short_row =
     (outbound_row sample_thought 1)\<lparr>out_kind := Task,
       out_content := JObject [(lit ''text'', JString [97, 97, 97, 32, 98, 98])]\<rparr>"

definition short_target :: DispatchTarget where
  "short_target = \<lparr>dt_channel_type = Some (lit ''cli''), dt_platform_id = Some (lit ''p''), dt_thread_id = None, dt_agent_group = None\<rparr>"

lemma short_parts:
  "row_parts short_adapter short_row =
     [JObject [(lit ''text'', JString [97, 97, 97])], JObject [(lit ''text'', JString [98, 98])]]"
  by (simp add: row_parts_def chat_parts_def split_chat_content_if_needed_def short_adapter_def short_row_def sample_thought_def
      outbound_row_def json_get_def json_as_str_def json_insert_def positive_def effective_max_def RENDER_HEADROOM_PERCENT_def
      split_into_chunks_within_bytes_def eval_split Let_def)

lemma short_resumable: "resumable short_config short_row short_target short_adapter"
  by (simp add: resumable_def short_parts unsplit_def takes_or_leaves_def)
     (simp add: short_config_def short_target_def short_row_def short_adapter_def json_get_def)

text \<open>What the channel has seen after the first attempt, and after the second.\<close>

definition short_event :: "AdapterCall \<Rightarrow> AdapterError + ustring option \<Rightarrow> AdapterEvent" where
  "short_event c r =
     \<lparr>ev_row = 7, ev_channel = lit ''cli'', ev_platform = lit ''p'', ev_thread = None, ev_call = c, ev_answer = r\<rparr>"

definition short_body :: "nat list \<Rightarrow> AdapterCall" where
  "short_body b = Deliver \<lparr>om_kind = Task, om_content = JObject [(lit ''text'', JString b)], om_files = []\<rparr>"

definition interrupted :: DeliveryState where
  "interrupted = delivery_start\<lparr>
     dv_retries := [7 \<mapsto> \<lparr>rt_tries = 0, rt_not_before = 0, rt_chunks_sent = 1, rt_first_chunk_pid = None\<rparr>],
     dv_events := [short_event SetTyping (Inr None), short_event (short_body [97, 97, 97]) (Inr None),
                   short_event (short_body [98, 98]) (Inl (Rate None))]\<rparr>"

lemmas eval_chat = dispatch_chat_def with_adapter_def set_typing_def adapter_call_def and_then_def reading_def ret_def throw_def
  modify_def call_adapter_def call_adapter_once_def with_result_def note_chunk_def fresh_retry_def saturating_succ32_def
  chunk_progress_def short_config_def short_target_def sample_row_env_def interrupted_def short_event_def short_body_def
  metric_def ledger_insert_def

lemma short_parts_chat:
  "chat_parts (out_content short_row) (max_message_chars short_adapter) (max_message_bytes short_adapter) =
     [JObject [(lit ''text'', JString [97, 97, 97])], JObject [(lit ''text'', JString [98, 98])]]"
  using short_parts by (simp add: row_parts_def)

lemma short_row_fields [simp]:
  "out_id short_row = 7" "out_kind short_row = Task" "ad_channel_type short_adapter = lit ''cli''"
  "json_get (out_content short_row) (lit ''expander'') = None"
  "ad_answer short_adapter n p t c = (if n = 2 then Inl (Rate None) else Inr None)"
  by (simp_all add: short_row_def outbound_row_def sample_thought_def short_adapter_def json_get_def)

lemma short_first_attempt:
  "dispatch_chat short_config (sample_row_env 0) short_row short_target delivery_start = (Inl (Adapter (Rate None)), interrupted)"
  by (simp add: eval_chat short_parts_chat delivery_start_def Let_def)

lemma short_second_attempt:
  "\<exists>t. bump_retry (sample_row_env 0) 7 None interrupted = (Inr Defer, t) \<and>
     fst (dispatch_chat short_config (sample_row_env 9000) short_row short_target t) = Inr ()"
  by (simp add: eval_chat short_parts_chat delivery_start_def bump_retry_def retry_entry_def MAX_DELIVERY_ATTEMPTS_def
      word_le_nat_alt Let_def)


end
