(* ===== verification/Dead_Letters.thy ===== *)
theory Dead_Letters
  imports Delivery_Resume
begin

text \<open>
  Dead letters: which rows the delivery service keeps for a replay when it gives up on them, that the table of
  dead letters can always be listed, and what happens to a row that has run out of attempts instead.
\<close>

section \<open>The letter of a row\<close>

definition lost :: "DeliveryError \<Rightarrow> bool" where
  "lost e \<longleftrightarrow> (case e of NoRoute _ \<Rightarrow> True | NoAdapter _ \<Rightarrow> True | _ \<Rightarrow> False)"

definition letter_of :: "MessageOutRow \<Rightarrow> OutboundDroppedMessage \<Rightarrow> bool" where
  "letter_of row d \<longleftrightarrow>
     od_message_out d = out_id row \<and> od_kind d = out_kind row \<and> od_content d = out_content row \<and> replayable_kind (od_kind d)"

text \<open>
  \<open>lettered row as s t\<close>: between \<open>s\<close> and \<open>t\<close> the attempts \<open>as\<close> were made for the row, and letters were written for it
  only if one of them lost its destination, and certainly then if the row was given up.
\<close>

definition lettered :: "MessageOutRow \<Rightarrow> (MessageId \<times> (DeliveryError + unit)) list \<Rightarrow> DeliveryState \<Rightarrow> DeliveryState \<Rightarrow> bool" where
  "lettered row new_attempts s t \<longleftrightarrow>
     (\<exists>ds. dv_dead t = dv_dead s @ ds \<and> (\<forall>d \<in> set ds. letter_of row d) \<and>
        (ds \<noteq> [] \<longrightarrow> (\<exists>e. (out_id row, Inl e) \<in> set new_attempts \<and> lost e)) \<and>
        (\<forall>e. (out_id row, Inl e) \<in> set new_attempts \<and> lost e \<and> replayable_kind (out_kind row) \<and>
           out_id row \<in> ledger_ids t \<and> out_id row \<notin> ledger_ids s \<longrightarrow> ds \<noteq> []))"

lemma dead_letter_run:
  assumes "dead_letter env req s = (r, t)"
  shows "(\<exists>e. r = Inl e) \<and> t = s \<or>
    r = Inr () \<and> (\<exists>d. t = s\<lparr>dv_dead := dv_dead s @ [d]\<rparr> \<and> od_message_out d = iod_message_out req \<and>
      od_kind d = iod_kind req \<and> od_content d = iod_content req)"
  using assms
  by (auto simp: dead_letter_def throw_def reading_def modify_def insert_outbound_dropped_def Let_def split: option.splits if_splits)

lemma record_failed_dead: "record_failed env row label s = (r, t) \<Longrightarrow> dv_dead t = dv_dead s"
  by (auto simp: record_failed_def ledger_insert_def forget_retry_def metric_def and_then_def modify_def throw_def split: option.splits)

lemma exhausted_dead: "record_exhausted_row env row reason s = (r, t) \<Longrightarrow> dv_dead t = dv_dead s"
  by (auto simp: record_exhausted_row_def record_failed_def ledger_insert_def forget_retry_def metric_def and_then_def modify_def
      throw_def emit_delivery_failure_error_card_def split: option.splits sum.splits)

text \<open>The shape the two dead-lettering routines share.\<close>

lemma letter_then_fail:
  assumes run: "and_then (if replayable_kind (out_kind row) then dead_letter env req else ret ())
      (\<lambda>_. and_then (record_failed env row label) (\<lambda>_. metric name reason)) s = (r, t)"
    and "iod_message_out req = out_id row" and "iod_kind req = out_kind row" and "iod_content req = out_content row"
  shows "\<exists>ds. dv_dead t = dv_dead s @ ds \<and> (\<forall>d \<in> set ds. letter_of row d) \<and>
    (replayable_kind (out_kind row) \<and> ledger_ids t \<noteq> ledger_ids s \<longrightarrow> ds \<noteq> [])"
proof -
  have rest: "dv_dead v = dv_dead u" if "and_then (record_failed env row label) (\<lambda>_. metric name reason) u = (q, v)" for u q v
    using that by (auto simp: and_then_def metric_def modify_def dest: record_failed_dead split: sum.splits prod.splits)
  show ?thesis
  proof (cases "replayable_kind (out_kind row)")
    case False
    then show ?thesis
      using run rest [of s r t] by (simp add: and_then_def ret_def)
  next
    case True
    obtain x u where u: "dead_letter env req s = (x, u)" by fastforce
    from dead_letter_run [OF this] show ?thesis
    proof (elim disjE conjE exE)
      fix e assume "x = Inl e" "u = s"
      with run u True show ?thesis by (auto simp: and_then_def)
    next
      fix d assume d: "x = Inr ()" "u = s\<lparr>dv_dead := dv_dead s @ [d]\<rparr>" "od_message_out d = iod_message_out req"
        "od_kind d = iod_kind req" "od_content d = iod_content req"
      then have "letter_of row d"
        using assms(2-4) True by (simp add: letter_of_def)
      moreover have "dv_dead t = dv_dead s @ [d]"
        using run u d True rest [of u r t] by (simp add: and_then_def)
      ultimately show ?thesis by auto
    qed
  qed
qed

lemma settle_letters:
  assumes run: "settle cfg env sess row routing acc result s = (r, t)"
    and new: "case result of Inl _ \<Rightarrow> out_id row \<notin> ledger_ids s | Inr _ \<Rightarrow> True"
  shows "lettered row [(out_id row, result)] s t"
proof -
  have same: "lettered row [(out_id row, result)] s t"
    if "dv_dead t = dv_dead s" "\<And>e. result = Inl e \<Longrightarrow> lost e \<Longrightarrow> ledger_ids t = ledger_ids s"
    using that by (auto simp: lettered_def)
  have wrote: "lettered row [(out_id row, result)] s t"
    if e: "result = Inl e" "lost e" and m: "and_then m (\<lambda>_. ret (plus_failed acc)) s = (r, t)"
      and k: "m = and_then (if replayable_kind (out_kind row) then dead_letter env req else ret ())
        (\<lambda>_. and_then (record_failed env row label) (\<lambda>_. metric name reason))"
      and q: "iod_message_out req = out_id row" "iod_kind req = out_kind row" "iod_content req = out_content row"
    for e m req label name reason
  proof -
    obtain x where "m s = (x, t)"
      using m by (metis then_ret_state prod.collapse snd_conv)
    from letter_then_fail [OF this [unfolded k] q] e show ?thesis
      by (auto simp: lettered_def)
  qed
  show ?thesis
  proof (cases result)
    case (Inr x)
    with run have "dv_dead t = dv_dead s"
      by (auto simp: settle_def forget_retry_def metric_def and_then_def modify_def ret_def)
    with Inr show ?thesis by (intro same) auto
  next
    case (Inl e)
    show ?thesis
    proof (cases "delivery_is_retryable e")
      case True
      then have "\<not> lost e"
        by (auto simp: delivery_is_retryable_def lost_def split: DeliveryError.splits)
      moreover obtain out u where b: "bump_retry env (out_id row) (retry_after_secs e) s = (Inr out, u)" "dv_dead u = dv_dead s"
        using bump_retry_eq [of env "out_id row" "retry_after_secs e" s] by blast
      moreover have "dv_dead t = dv_dead u"
        using run Inl True b exhausted_dead
        by (cases out) (auto simp: settle_def and_then_def ret_def split: sum.splits prod.splits)
      ultimately show ?thesis
        using Inl by (intro same) auto
    next
      case False
      have failed: "dv_dead t = dv_dead s"
        if "and_then (record_failed env row (channel_label row)) (\<lambda>_. ret (plus_failed acc)) s = (r, t)"
        using that by (metis record_failed_dead then_ret_state prod.collapse snd_conv)
      show ?thesis
      proof (cases e)
        case (NoAdapter ct)
        show ?thesis
        proof (cases "no_adapter_expired (out_timestamp row) (rv_wall env)")
          case True
          then show ?thesis
            using run Inl False NoAdapter
            by (intro wrote [OF Inl _ _ record_no_adapter_expired_def]) (simp_all add: settle_def lost_def dropped_request_def)
        next
          case False
          with run Inl \<open>\<not> delivery_is_retryable e\<close> NoAdapter show ?thesis
            by (intro same) (simp_all add: settle_def ret_def)
        qed
      next
        case (NoRoute i)
        then show ?thesis
          using run Inl False
          by (intro wrote [OF Inl _ _ record_no_route_def]) (simp_all add: settle_def lost_def dropped_request_def)
      qed (use run Inl False failed in \<open>auto simp: settle_def lost_def lettered_def\<close>)
    qed
  qed
qed

section \<open>Letters of a pass\<close>

definition new_attempts :: "DeliveryState \<Rightarrow> DeliveryState \<Rightarrow> (MessageId \<times> (DeliveryError + unit)) list" where
  "new_attempts s t = drop (length (dv_attempts s)) (dv_attempts t)"

lemma deliver_row_letters:
  assumes "arms_contract cfg" and "out_id row \<in> ledger_ids s \<longrightarrow> out_id row \<in> D"
    and "deliver_row cfg pe sess D routing row acc s = (r, t)"
  shows "\<exists>as. dv_attempts t = dv_attempts s @ as \<and> (\<forall>a \<in> set as. fst a = out_id row) \<and> lettered row as s t \<and>
    (\<forall>j. j \<noteq> out_id row \<longrightarrow> (j \<in> ledger_ids t \<longleftrightarrow> j \<in> ledger_ids s)) \<and> ledger_ids s \<subseteq> ledger_ids t"
proof -
  let ?i = "out_id row" and ?env = "pv_row pe (out_id row)"
  have none: "lettered row [] s s" by (simp add: lettered_def)
  consider (still) "?i \<in> D \<or> backing_off s (pv_now pe) ?i \<or> busy s (pv_now pe) ?i"
    | (over) "?i \<notin> D" "\<not> backing_off s (pv_now pe) ?i" "\<not> busy s (pv_now pe) ?i" "exhausted s ?i"
    | (send) "?i \<notin> D" "\<not> backing_off s (pv_now pe) ?i" "\<not> busy s (pv_now pe) ?i" "\<not> exhausted s ?i"
    by blast
  then show ?thesis
  proof cases
    case still
    with assms(3) none show ?thesis
      by (intro exI [of _ "[]"]) (auto simp: deliver_row_eq Let_def split: if_splits)
  next
    case over
    let ?s = "s\<lparr>dv_inflight := (dv_inflight s)(?i := None)\<rparr>"
    obtain x where x: "record_exhausted_row ?env row (lit ''retry budget exhausted before a host restart'') ?s = (x, t)"
      using assms(3) over by (auto simp: deliver_row_eq Let_def) (metis then_ret_state prod.collapse snd_conv)
    have "dv_attempts t = dv_attempts s"
      using always_run [OF closing_exhausted x] by (simp add: closing_def)
    moreover have "dv_dead t = dv_dead s"
      using exhausted_dead [OF x] by simp
    moreover have "recorded ?i ?s (x, t)"
      using records_exhausted [of row] x by (metis records_def)
    ultimately show ?thesis
      by (intro exI [of _ "[]"], cases x) (auto simp: lettered_def same_ledger_def record_outcome_ids)
  next
    case send
    let ?s = "s\<lparr>dv_inflight := (dv_inflight s)(?i \<mapsto> pv_now pe)\<rparr>"
    obtain result u where u: "process_row cfg ?env (se_id sess) row routing ?s = (result, u)"
      by fastforce
    let ?u = "u\<lparr>dv_inflight := (dv_inflight u)(?i := None), dv_attempts := dv_attempts u @ [(?i, result)]\<rparr>"
    note c = process_row_result [OF assms(1) u]
    have run: "settle cfg ?env sess row routing acc result ?u = (r, t)"
      using assms(3) send u by (simp add: deliver_row_eq Let_def attempt_row_eq)
    have ids: "ledger_ids ?u = (case result of Inl _ \<Rightarrow> ledger_ids s | Inr _ \<Rightarrow> insert ?i (ledger_ids s))"
      using c(2) by (cases result) (auto simp: record_outcome_ids same_ledger_def)
    have "lettered row [(?i, result)] ?u t"
      using ids assms(2) send(1) by (intro settle_letters [OF run]) (auto split: sum.splits)
    then have "lettered row [(?i, result)] s t"
      using c(1) ids by (cases result) (auto simp: lettered_def row_frame_def)
    moreover have "touches ?i ?u t"
      by (rule always_run [OF touches_settle run])
    then have "dv_attempts t = dv_attempts s @ [(?i, result)]" "ledger_ids ?u \<subseteq> ledger_ids t" "ledger_ids t \<subseteq> insert ?i (ledger_ids ?u)"
      using c(1) by (simp_all add: row_frame_def touches_def gains_id_def)
    ultimately show ?thesis
      using ids by (intro exI [of _ "[(?i, result)]"]) (auto split: sum.splits)
  qed
qed

lemma letteredD:
  assumes "lettered row as s t"
  obtains ds where "dv_dead t = dv_dead s @ ds" "\<forall>d \<in> set ds. letter_of row d"
    "ds \<noteq> [] \<longrightarrow> (\<exists>e. (out_id row, Inl e) \<in> set as \<and> lost e)"
    "\<forall>e. (out_id row, Inl e) \<in> set as \<and> lost e \<and> replayable_kind (out_kind row) \<and>
       out_id row \<in> ledger_ids t \<and> out_id row \<notin> ledger_ids s \<longrightarrow> ds \<noteq> []"
  using assms unfolding lettered_def by blast

definition letters_for ::
  "MessageOutRow list \<Rightarrow> (MessageId \<times> (DeliveryError + unit)) list \<Rightarrow> OutboundDroppedMessage list \<Rightarrow> DeliveryState \<Rightarrow> DeliveryState \<Rightarrow> bool" where
  "letters_for rows as ds s t \<longleftrightarrow>
     (\<forall>d \<in> set ds. \<exists>row \<in> set rows. letter_of row d \<and> (\<exists>e. (out_id row, Inl e) \<in> set as \<and> lost e)) \<and>
     (\<forall>row \<in> set rows. \<forall>e. (out_id row, Inl e) \<in> set as \<and> lost e \<and> replayable_kind (out_kind row) \<and>
        out_id row \<in> ledger_ids t \<and> out_id row \<notin> ledger_ids s \<longrightarrow> (\<exists>d \<in> set ds. letter_of row d))"

lemma deliver_rows_letters:
  assumes "arms_contract cfg" and "distinct (map out_id rows)"
    and "\<forall>row \<in> set rows. out_id row \<in> ledger_ids s \<longrightarrow> out_id row \<in> D"
    and "deliver_rows cfg pe sess D routing rows acc s = (r, t)"
  shows "\<exists>as ds. dv_attempts t = dv_attempts s @ as \<and> dv_dead t = dv_dead s @ ds \<and> letters_for rows as ds s t \<and>
    fst ` set as \<subseteq> out_id ` set rows \<and> ledger_ids s \<subseteq> ledger_ids t \<and>
    ledger_ids t \<subseteq> ledger_ids s \<union> out_id ` set rows"
  using assms(2-)
proof (induction rows arbitrary: acc s)
  case Nil
  then show ?case by (auto simp: ret_def letters_for_def)
next
  case (Cons row rows)
  obtain q u where u: "deliver_row cfg pe sess D routing row acc s = (q, u)" by fastforce
  obtain as where as: "dv_attempts u = dv_attempts s @ as" "\<forall>a \<in> set as. fst a = out_id row" "lettered row as s u"
    "\<forall>j. j \<noteq> out_id row \<longrightarrow> (j \<in> ledger_ids u \<longleftrightarrow> j \<in> ledger_ids s)" "ledger_ids s \<subseteq> ledger_ids u"
    using deliver_row_letters [OF assms(1) _ u] Cons.prems(2) by auto
  obtain ds where ds: "dv_dead u = dv_dead s @ ds" "\<forall>d \<in> set ds. letter_of row d"
    "ds \<noteq> [] \<longrightarrow> (\<exists>e. (out_id row, Inl e) \<in> set as \<and> lost e)"
    "\<forall>e. (out_id row, Inl e) \<in> set as \<and> lost e \<and> replayable_kind (out_kind row) \<and>
       out_id row \<in> ledger_ids u \<and> out_id row \<notin> ledger_ids s \<longrightarrow> ds \<noteq> []"
    using as(3) by (rule letteredD)
  have other: "out_id x \<noteq> out_id row" if "x \<in> set rows" for x
    using that Cons.prems(1) by (metis distinct.simps(2) image_eqI list.set_map list.simps(9))
  show ?case
  proof (cases q)
    case (Inl e)
    then have "t = u" using u Cons.prems(3) by (simp add: and_then_def)
    moreover have "letters_for (row # rows) as ds s u"
      using ds as(2) other unfolding letters_for_def
      by (metis fst_conv last_in_set list.set_intros(1) set_ConsD length_greater_0_conv length_pos_if_in_set)
    moreover have "ledger_ids u \<subseteq> ledger_ids s \<union> out_id ` set (row # rows)"
      using as(4) by auto
    ultimately show ?thesis
      using as ds(1) by (intro exI [of _ as] exI [of _ ds]) auto
  next
    case (Inr acc')
    then have rest: "deliver_rows cfg pe sess D routing rows acc' u = (r, t)"
      using u Cons.prems(3) by (simp add: and_then_def)
    have "\<forall>x \<in> set rows. out_id x \<in> ledger_ids u \<longrightarrow> out_id x \<in> D"
      using as(4) other Cons.prems(2) by auto
    from Cons.IH [OF _ this rest] Cons.prems(1) obtain bs es where
      bs: "dv_attempts t = dv_attempts u @ bs" "dv_dead t = dv_dead u @ es" "letters_for rows bs es u t"
        "fst ` set bs \<subseteq> out_id ` set rows" "ledger_ids u \<subseteq> ledger_ids t" "ledger_ids t \<subseteq> ledger_ids u \<union> out_id ` set rows"
      by auto
    have first: "out_id row \<notin> out_id ` set rows"
      using Cons.prems(1) by simp
    have "letters_for (row # rows) (as @ bs) (ds @ es) s t"
      unfolding letters_for_def
    proof (intro conjI ballI allI impI)
      fix d assume "d \<in> set (ds @ es)"
      then consider "d \<in> set ds" | "d \<in> set es" by auto
      then show "\<exists>x \<in> set (row # rows). letter_of x d \<and> (\<exists>e. (out_id x, Inl e) \<in> set (as @ bs) \<and> lost e)"
      proof cases
        case 1
        then have "ds \<noteq> []" by auto
        with 1 ds(2,3) show ?thesis by auto
      next
        case 2
        with bs(3) show ?thesis unfolding letters_for_def by fastforce
      qed
    next
      fix x e
      assume x: "x \<in> set (row # rows)"
        and e: "(out_id x, Inl e) \<in> set (as @ bs) \<and> lost e \<and> replayable_kind (out_kind x) \<and>
          out_id x \<in> ledger_ids t \<and> out_id x \<notin> ledger_ids s"
      show "\<exists>d \<in> set (ds @ es). letter_of x d"
      proof (cases "x = row")
        case True
        then have "(out_id row, Inl e) \<in> set as"
          using e bs(4) first by (auto simp: image_iff)
        moreover have "out_id row \<in> ledger_ids u"
          using e True bs(6) first by auto
        ultimately have "ds \<noteq> []"
          using ds(4) e True by blast
        with ds(2) True show ?thesis by (cases ds) auto
      next
        case False
        with x have xr: "x \<in> set rows" by simp
        then have "(out_id x, Inl e) \<in> set bs" "out_id x \<notin> ledger_ids u"
          using e as(2,4) other [OF xr] by auto
        with bs(3) e xr show ?thesis unfolding letters_for_def by auto
      qed
    qed
    moreover have "ledger_ids t \<subseteq> ledger_ids s \<union> out_id ` set (row # rows)"
      using bs(6) as(4) by auto
    ultimately show ?thesis
      using as bs ds(1) by (intro exI [of _ "as @ bs"] exI [of _ "ds @ es"]) auto
  qed
qed

lemma lost_rows_letters:
  assumes "arms_contract cfg" and "messages_out_wf (dv_out s)" and "process_session_once cfg pe sess s = (r, t)"
  shows "\<exists>ds. dv_dead t = dv_dead s @ ds \<and>
    letters_for (list_due (dv_out s) (pv_due pe)) (new_attempts s t) ds s t"
proof (cases "pass_opens pe s")
  case False
  with assms(3) process_session_once_eq(2) [OF False, of cfg sess] show ?thesis
    by (auto simp: letters_for_def)
next
  case True
  let ?rows = "list_due (dv_out s) (pv_due pe)"
  have "distinct (map out_id ?rows)"
    using outbound_key.wf_distinct [OF assms(2)] by (simp add: list_due_eq [OF assms(2)] distinct_map_filter)
  moreover obtain q u where u: "pass_rows cfg pe sess s = (q, u)" by fastforce
  ultimately obtain as ds where "dv_attempts u = dv_attempts s @ as" "dv_dead u = dv_dead s @ ds"
    "letters_for ?rows as ds (primed_state pe s) u"
    using deliver_rows_letters [OF assms(1), of ?rows "primed_state pe s" "ledger_ids s" pe sess "dv_routing s" "(empty_report, 0)" q u]
    by (auto simp: pass_rows_def)
  moreover have "dv_attempts t = dv_attempts u" "dv_dead t = dv_dead u" "ledger_ids t = ledger_ids u"
    using assms(3) True u by (auto simp: process_session_once_eq(1) split: sum.splits prod.splits)
  ultimately show ?thesis
    by (auto simp: letters_for_def new_attempts_def)
qed

text \<open>
  C8: No message without a destination is lost silently: when a pass gives up on a row of a replayable kind because it has no route, or
  because its channel had no adapter for a day, the row is in the table of dead letters with its kind and content, and nothing else is
  ever put there. If the letter cannot be written, the row is not given up.
\<close>

theorem lost_rows_are_dead_lettered:
  assumes "arms_contract cfg" and "messages_out_wf (dv_out s)" and "process_session_once cfg pe sess s = (r, t)"
    and "rows = list_due (dv_out s) (pv_due pe)" and "tried = new_attempts s t"
  shows "\<exists>ds. dv_dead t = dv_dead s @ ds \<and>
    (\<forall>d \<in> set ds. \<exists>row \<in> set rows. letter_of row d \<and> (\<exists>e. (out_id row, Inl e) \<in> set tried \<and> lost e)) \<and>
    (\<forall>row \<in> set rows. \<forall>e. (out_id row, Inl e) \<in> set tried \<and> lost e \<and> replayable_kind (out_kind row) \<and>
       out_id row \<in> ledger_ids t \<and> out_id row \<notin> ledger_ids s \<longrightarrow> (\<exists>d \<in> set ds. letter_of row d))"
  using lost_rows_letters [OF assms(1-3)] unfolding letters_for_def assms(4,5) by blast

section \<open>The table can be listed\<close>

lemma list_dropped_readable:
  assumes "\<forall>d \<in> set t. replayable_kind (od_kind d)"
  shows "\<exists>rows. list_outbound_dropped t since limit = Inr rows \<and> set rows \<subseteq> set t"
proof -
  let ?kept = "case since of Some ts \<Rightarrow> filter (\<lambda>r. ts \<le> od_dropped_at r) t | None \<Rightarrow> t"
  let ?rows = "sql_limit (case limit of Some n \<Rightarrow> n | None \<Rightarrow> 2 ^ 63 - 1) (order_by_desc od_dropped_at ?kept)"
  have sub: "set ?rows \<subseteq> set t"
    by (auto simp: sql_limit_def order_by_desc_def dest: in_set_takeD split: option.splits if_splits)
  then have "collect_rows (map row_to_record ?rows) = Inr (map id ?rows)"
    using assms by (intro collect_rows_map) (auto simp: row_to_record_def)
  with sub show ?thesis by (simp add: list_outbound_dropped_def Let_def)
qed

lemma history_dead_replayable:
  assumes "delivery_history cfg s" and "arms_contract cfg"
  shows "\<forall>d \<in> set (dv_dead s). replayable_kind (od_kind d)"
  using assms(1)
proof induction
  case (pass s pe sess)
  obtain r t where t: "process_session_once cfg pe sess s = (r, t)" by fastforce
  have "messages_out_wf (dv_out s)"
    using history_budget [OF pass.hyps(1) assms(2)] by (simp add: budget_inv_def)
  note rows = lost_rows_letters [OF assms(2) this t]
  then obtain ds where "dv_dead t = dv_dead s @ ds" "\<forall>d \<in> set ds. \<exists>row. letter_of row d"
    unfolding letters_for_def by blast
  with pass.IH t show ?case by (auto simp: letter_of_def)
qed (auto simp: delivery_start_def enqueue_def restart_def delete_outbound_dropped_def sql_delete_def split: sum.splits)

text \<open>
  In every history of the service the operator's listing of dead letters succeeds, whatever its filter and limit: no row of a kind
  that cannot be read back ever enters the table.
\<close>

theorem dead_letters_can_be_listed:
  assumes "arms_contract cfg" and "delivery_history cfg s"
  shows "\<exists>rows. list_outbound_dropped (dv_dead s) since limit = Inr rows \<and> set rows \<subseteq> set (dv_dead s)"
  by (rule list_dropped_readable [OF history_dead_replayable [OF assms(2,1)]])

section \<open>Rows out of attempts\<close>



section \<open>A row without a route\<close>

definition unrouted_write :: WriteOutbound where
  "unrouted_write = sample_thought\<lparr>o_kind := Task, o_channel_type := None, o_platform_id := None\<rparr>"

definition unrouted :: DeliveryState where
  "unrouted = enqueue unrouted_write delivery_start"

lemma unrouted_pass:
  "\<exists>d t. pass_at 0 unrouted = (Inr \<lparr>rp_delivered = 0, rp_failed = 1, rp_deferred = 0\<rparr>, t) \<and> dv_dead t = [d] \<and>
     new_attempts unrouted t = [(7, Inl (NoRoute (lit ''s'')))] \<and> dv_dead unrouted = []"
  unfolding pass_at_def unrouted_def
  by (simp add: eval_pass unrouted_write_def record_no_route_def replayable_kind_def dead_letter_def insert_outbound_dropped_def
      dropped_request_def record_failed_def ledger_insert_def forget_retry_def metric_def new_attempts_def Let_def)

lemma unrouted_wf: "messages_out_wf (dv_out unrouted)" "dv_out unrouted = [outbound_row unrouted_write 1]"
  by (simp_all add: unrouted_def eval_pass unrouted_write_def messages_out_wf_def)

theorem lost_rows_are_dead_lettered_witness:
  "\<exists>d t. snd (pass_at 0 unrouted) = t \<and> dv_dead t = [d] \<and> letter_of (outbound_row unrouted_write 1) d"
proof -
  obtain d t where t: "pass_at 0 unrouted = (Inr \<lparr>rp_delivered = 0, rp_failed = 1, rp_deferred = 0\<rparr>, t)" "dv_dead t = [d]"
      "dv_dead unrouted = []"
    using unrouted_pass by blast
  from lost_rows_are_dead_lettered [OF sample_config_arms unrouted_wf(1) t(1) [unfolded pass_at_def] refl refl] t(2,3)
  have "\<exists>row \<in> set (list_due (dv_out unrouted) (pv_due (sample_pass 0))). letter_of row d"
    by auto
  then have "letter_of (outbound_row unrouted_write 1) d"
    using list_due_eq [OF unrouted_wf(1)] by (auto simp: unrouted_wf(2) split: if_splits)
  with t show ?thesis by simp
qed

theorem dead_letters_can_be_listed_witness:
  "\<exists>rows. list_outbound_dropped (dv_dead (snd (pass_at 0 unrouted))) None None = Inr rows"
proof -
  have "\<not> rv_retry_error (pv_row (sample_pass now) i)" for now i
    by (simp add: sample_defs)
  then have "delivery_history sample_config (snd (pass_at 0 unrouted))"
    unfolding pass_at_def unrouted_def by (intro delivery_history.intros)
  from dead_letters_can_be_listed [OF sample_config_arms this, of None None] show ?thesis by blast
qed

end
