(* ===== verification/Goals.thy ===== *)
theory Goals
  imports Task_Grants Central_Tables
begin

text \<open>
  Long-running objectives (\<open>copperclaw-db/src/tables/goals.rs\<close>): the table \<open>goals\<close> with its lifecycle, the append-only
  log \<open>goal_progress\<close>, and the budget of a goal, which a linked grant of \<open>Task_Grants\<close> decides. The operations map
  the tables to tables and a result, or a \<open>DbError\<close> and no change; the clock is an argument. The ids of the tables a
  row refers to (tasks, grants) are arguments of the insert, whose foreign keys they decide.

  \<open>goal_step\<close> is the relation of all the operations that write; what is proved by rule induction over its runs is
  that a finished goal stays finished and that the spend of a goal is the sum of its log.
\<close>

section \<open>The lifecycle\<close>

datatype GoalStatus = GoalActive | GoalPaused | GoalCompleted | GoalAbandoned

fun goal_status_as_str :: "GoalStatus \<Rightarrow> ustring" where
  "goal_status_as_str GoalActive = lit ''active''"
| "goal_status_as_str GoalPaused = lit ''paused''"
| "goal_status_as_str GoalCompleted = lit ''completed''"
| "goal_status_as_str GoalAbandoned = lit ''abandoned''"

definition goal_status_from_str :: "ustring \<Rightarrow> GoalStatus option" where
  "goal_status_from_str s =
     (if s = lit ''active'' then Some GoalActive else if s = lit ''paused'' then Some GoalPaused
      else if s = lit ''completed'' then Some GoalCompleted else if s = lit ''abandoned'' then Some GoalAbandoned
      else None)"

interpretation goal_status: wire_enum goal_status_as_str goal_status_from_str
proof unfold_locales
  show "goal_status_from_str (goal_status_as_str e) = Some e" for e
    by (cases e) (simp_all add: goal_status_from_str_def)
  show "goal_status_from_str s = Some e \<Longrightarrow> goal_status_as_str e = s" for s e
    by (auto simp: goal_status_from_str_def split: if_splits)
qed

definition is_terminal :: "GoalStatus \<Rightarrow> bool" where
  "is_terminal st = (case st of GoalCompleted \<Rightarrow> True | GoalAbandoned \<Rightarrow> True | _ \<Rightarrow> False)"

definition transition :: "GoalStatus \<Rightarrow> GoalStatus \<Rightarrow> bool" where
  "transition before after =
     (if before = after then \<not> is_terminal before
      else (case (before, after) of
              (GoalActive, GoalPaused) \<Rightarrow> True
            | (GoalPaused, GoalActive) \<Rightarrow> True
            | (GoalActive, GoalCompleted) \<Rightarrow> True
            | (GoalActive, GoalAbandoned) \<Rightarrow> True
            | (GoalPaused, GoalCompleted) \<Rightarrow> True
            | (GoalPaused, GoalAbandoned) \<Rightarrow> True
            | _ \<Rightarrow> False))"

section \<open>The tables\<close>

record Goal =
  go_id :: ustring
  go_agent_group :: AgentGroupId
  go_session :: SessionId
  go_objective :: ustring
  go_status :: GoalStatus
  go_task_id :: "ustring option"
  go_grant_id :: "ustring option"
  go_token_budget :: "int option"
  go_tokens_consumed :: int
  go_checkin_recurrence :: "ustring option"
  go_checkin_prompt :: "ustring option"
  go_next_checkin :: "instant option"
  go_last_checkin_at :: "instant option"
  go_checkin_count :: int
  go_created_at :: instant
  go_updated_at :: instant

record NewGoal =
  ngo_id :: ustring
  ngo_agent_group :: AgentGroupId
  ngo_session :: SessionId
  ngo_objective :: ustring
  ngo_task_id :: "ustring option"
  ngo_grant_id :: "ustring option"
  ngo_token_budget :: "int option"
  ngo_checkin_recurrence :: "ustring option"
  ngo_checkin_prompt :: "ustring option"
  ngo_next_checkin :: "instant option"

record GoalProgress =
  gp_id :: ustring
  gp_goal_id :: ustring
  gp_note :: ustring
  gp_tokens :: "int option"
  gp_created_at :: instant

definition new_goal_row :: "NewGoal \<Rightarrow> instant \<Rightarrow> Goal" where
  "new_goal_row g now =
     \<lparr>go_id = ngo_id g, go_agent_group = ngo_agent_group g, go_session = ngo_session g, go_objective = ngo_objective g,
      go_status = GoalActive, go_task_id = ngo_task_id g, go_grant_id = ngo_grant_id g,
      go_token_budget = ngo_token_budget g, go_tokens_consumed = 0,
      go_checkin_recurrence = ngo_checkin_recurrence g, go_checkin_prompt = ngo_checkin_prompt g,
      go_next_checkin = ngo_next_checkin g, go_last_checkin_at = None, go_checkin_count = 0,
      go_created_at = now, go_updated_at = now\<rparr>"

definition refers_to :: "ustring list \<Rightarrow> ustring option \<Rightarrow> bool" where
  "refers_to keys ref \<longleftrightarrow> (case ref of None \<Rightarrow> True | Some i \<Rightarrow> i \<in> set keys)"

definition insert_goal ::
  "ustring list \<Rightarrow> ustring list \<Rightarrow> Goal list \<Rightarrow> NewGoal \<Rightarrow> instant \<Rightarrow> DbError + (Goal \<times> Goal list)" where
  "insert_goal tasks grants t g now =
     (if trim (ngo_objective g) = [] then Inl (Invariant (lit ''goal objective must be non-empty''))
      else if ngo_id g \<in> go_id ` set t \<or> \<not> refers_to tasks (ngo_task_id g) \<or> \<not> refers_to grants (ngo_grant_id g)
      then Inl ConstraintViolation
      else Inr (new_goal_row g now, t @ [new_goal_row g now]))"

definition get_goal :: "Goal list \<Rightarrow> ustring \<Rightarrow> Goal option" where
  "get_goal t i = find (\<lambda>g. go_id g = i) t"

definition list_goals_for_session :: "Goal list \<Rightarrow> SessionId \<Rightarrow> Goal list" where
  "list_goals_for_session t s = order_by_desc go_created_at (filter (\<lambda>g. go_session g = s) t)"

definition list_goals_for_group :: "Goal list \<Rightarrow> AgentGroupId \<Rightarrow> Goal list" where
  "list_goals_for_group t a = order_by_desc go_created_at (filter (\<lambda>g. go_agent_group g = a) t)"

definition goal_is_due :: "instant \<Rightarrow> Goal \<Rightarrow> bool" where
  "goal_is_due now g \<longleftrightarrow>
     go_status g = GoalActive \<and> (case go_next_checkin g of None \<Rightarrow> False | Some c \<Rightarrow> c \<le> now)"

definition list_due_checkin :: "Goal list \<Rightarrow> instant \<Rightarrow> Goal list" where
  "list_due_checkin t now =
     order_by (\<lambda>g. case go_next_checkin g of Some c \<Rightarrow> c | None \<Rightarrow> 0) (filter (goal_is_due now) t)"

definition count_active_goals :: "Goal list \<Rightarrow> nat" where
  "count_active_goals t = length (filter (\<lambda>g. go_status g = GoalActive) t)"

definition update_goal_row :: "(Goal \<Rightarrow> Goal) \<Rightarrow> Goal list \<Rightarrow> ustring \<Rightarrow> Goal list" where
  "update_goal_row f t i = snd (sql_update (\<lambda>g. go_id g = i) f t)"

definition reread_goal :: "Goal list \<Rightarrow> ustring \<Rightarrow> DbError + (Goal \<times> Goal list)" where
  "reread_goal t i = (case get_goal t i of None \<Rightarrow> Inl NotFound | Some g \<Rightarrow> Inr (g, t))"

text \<open>\<open>\<rightarrow>\<close> in the message is the character U+2192.\<close>

definition set_goal_status :: "Goal list \<Rightarrow> ustring \<Rightarrow> GoalStatus \<Rightarrow> instant \<Rightarrow> DbError + (Goal \<times> Goal list)" where
  "set_goal_status t i st now =
     (case get_goal t i of
        None \<Rightarrow> Inl NotFound
      | Some current \<Rightarrow>
          if \<not> transition (go_status current) st then
            Inl (Invariant (lit ''illegal goal transition '' @ goal_status_as_str (go_status current) @ [32, 8594, 32] @
              goal_status_as_str st))
          else if is_terminal st then
            reread_goal (update_goal_row (\<lambda>g. g\<lparr>go_status := st, go_next_checkin := None, go_updated_at := now\<rparr>) t i) i
          else reread_goal (update_goal_row (\<lambda>g. g\<lparr>go_status := st, go_updated_at := now\<rparr>) t i) i)"

record UpdateGoalFields =
  ug_objective :: "ustring option"
  ug_checkin_prompt :: "ustring option option"
  ug_checkin_recurrence :: "ustring option option"

definition update_goal :: "Goal list \<Rightarrow> ustring \<Rightarrow> UpdateGoalFields \<Rightarrow> instant \<Rightarrow> DbError + (Goal \<times> Goal list)" where
  "update_goal t i upd now =
     (if (case ug_objective upd of Some ob \<Rightarrow> trim ob = [] | None \<Rightarrow> False)
      then Inl (Invariant (lit ''goal objective must be non-empty''))
      else
        let t1 = (case ug_objective upd of
                    Some ob \<Rightarrow> update_goal_row (\<lambda>g. g\<lparr>go_objective := ob, go_updated_at := now\<rparr>) t i
                  | None \<Rightarrow> t);
            t2 = (case ug_checkin_prompt upd of
                    Some p \<Rightarrow> update_goal_row (\<lambda>g. g\<lparr>go_checkin_prompt := p, go_updated_at := now\<rparr>) t1 i
                  | None \<Rightarrow> t1);
            t3 = (case ug_checkin_recurrence upd of
                    Some r \<Rightarrow> update_goal_row (\<lambda>g. g\<lparr>go_checkin_recurrence := r, go_updated_at := now\<rparr>) t2 i
                  | None \<Rightarrow> t2)
        in reread_goal t3 i)"

definition checked_update :: "(Goal \<Rightarrow> Goal) \<Rightarrow> Goal list \<Rightarrow> ustring \<Rightarrow> DbError + Goal list" where
  "checked_update f t i =
     (let (n, t') = sql_update (\<lambda>g. go_id g = i) f t in if n = 0 then Inl NotFound else Inr t')"

definition mark_checkin :: "Goal list \<Rightarrow> ustring \<Rightarrow> instant \<Rightarrow> instant \<Rightarrow> DbError + Goal list" where
  "mark_checkin t i at now =
     checked_update (\<lambda>g. g\<lparr>go_last_checkin_at := Some at, go_checkin_count := go_checkin_count g + 1,
       go_updated_at := now\<rparr>) t i"

definition set_next_checkin :: "Goal list \<Rightarrow> ustring \<Rightarrow> instant option \<Rightarrow> instant \<Rightarrow> DbError + Goal list" where
  "set_next_checkin t i c now = checked_update (\<lambda>g. g\<lparr>go_next_checkin := c, go_updated_at := now\<rparr>) t i"

definition record_progress ::
  "Goal list \<Rightarrow> GoalProgress list \<Rightarrow> ustring \<Rightarrow> ustring \<Rightarrow> ustring \<Rightarrow> int option \<Rightarrow> instant \<Rightarrow>
     DbError + (GoalProgress \<times> Goal list \<times> GoalProgress list)" where
  "record_progress t log entry_id goal_id note tokens now =
     (if trim note = [] then Inl (Invariant (lit ''goal progress note must be non-empty''))
      else if (case tokens of Some n \<Rightarrow> n < 0 | None \<Rightarrow> False)
      then Inl (Invariant (lit ''record_progress: `tokens` must be non-negative''))
      else if get_goal t goal_id = None then Inl NotFound
      else if entry_id \<in> gp_id ` set log then Inl ConstraintViolation
      else
        let entry = \<lparr>gp_id = entry_id, gp_goal_id = goal_id, gp_note = note, gp_tokens = tokens, gp_created_at = now\<rparr>;
            t' = (case tokens of
                    Some n \<Rightarrow> update_goal_row (\<lambda>g. g\<lparr>go_tokens_consumed := go_tokens_consumed g + n,
                      go_updated_at := now\<rparr>) t goal_id
                  | None \<Rightarrow> t)
        in Inr (entry, t', log @ [entry]))"

definition list_progress :: "GoalProgress list \<Rightarrow> ustring \<Rightarrow> GoalProgress list" where
  "list_progress log goal_id = order_by gp_created_at (filter (\<lambda>p. gp_goal_id p = goal_id) log)"

definition budget_remaining :: "Goal list \<Rightarrow> TaskGrant list \<Rightarrow> ustring \<Rightarrow> instant \<Rightarrow> DbError + int option" where
  "budget_remaining t grants i now =
     (case get_goal t i of
        None \<Rightarrow> Inl NotFound
      | Some goal \<Rightarrow>
          (case go_grant_id goal of
             Some grant_id \<Rightarrow>
               (case get_grant grants grant_id of
                  None \<Rightarrow> Inr (Some 0)
                | Some grant \<Rightarrow>
                    Inr (Some
                      (case Option.bind
                              (case effective_grant grants (g_task_id grant) now of
                                 Some eff \<Rightarrow> if eg_id eff = grant_id then Some eff else None
                               | None \<Rightarrow> None)
                              tokens_remaining of
                         Some n \<Rightarrow> n
                       | None \<Rightarrow> 0)))
           | None \<Rightarrow> Inr (map_option (\<lambda>b. max (b - go_tokens_consumed goal) 0) (go_token_budget goal))))"

section \<open>Runs\<close>

record GoalDb =
  gd_goals :: "Goal list"
  gd_log :: "GoalProgress list"

inductive goal_step :: "GoalDb \<Rightarrow> GoalDb \<Rightarrow> bool" where
  inserted: "insert_goal tasks grants (gd_goals db) g now = Inr (r, t) \<Longrightarrow> goal_step db (db\<lparr>gd_goals := t\<rparr>)"
| moved: "set_goal_status (gd_goals db) i st now = Inr (r, t) \<Longrightarrow> goal_step db (db\<lparr>gd_goals := t\<rparr>)"
| updated: "update_goal (gd_goals db) i upd now = Inr (r, t) \<Longrightarrow> goal_step db (db\<lparr>gd_goals := t\<rparr>)"
| checked_in: "mark_checkin (gd_goals db) i at now = Inr t \<Longrightarrow> goal_step db (db\<lparr>gd_goals := t\<rparr>)"
| armed: "set_next_checkin (gd_goals db) i c now = Inr t \<Longrightarrow> goal_step db (db\<lparr>gd_goals := t\<rparr>)"
| progressed: "record_progress (gd_goals db) (gd_log db) e i note tokens now = Inr (p, t, log) \<Longrightarrow>
    goal_step db \<lparr>gd_goals = t, gd_log = log\<rparr>"

inductive_cases goal_stepE: "goal_step db db'"

subsection \<open>Facts\<close>

lemma update_goal_row_eq: "update_goal_row f t i = map (\<lambda>g. if go_id g = i then f g else g) t"
  by (simp add: update_goal_row_def sql_update_def)

lemma checked_update_InrD: "checked_update f t i = Inr t' \<Longrightarrow> t' = update_goal_row f t i"
  by (auto simp: checked_update_def update_goal_row_def sql_update_def split: if_splits)

lemma reread_goal_InrD: "reread_goal t i = Inr (g, t') \<Longrightarrow> t' = t \<and> get_goal t i = Some g"
  by (auto simp: reread_goal_def split: option.splits)

lemma get_goal_row:
  "(\<And>g. go_id (f g) = go_id g) \<Longrightarrow>
     get_goal (update_goal_row f t i) j = (if j = i then map_option f (get_goal t i) else get_goal t j)"
  by (simp add: get_goal_def update_goal_row_eq find_update)

lemma get_goal_None_iff: "get_goal t i = None \<longleftrightarrow> i \<notin> go_id ` set t"
  by (auto simp: get_goal_def find_None_iff)

lemma get_goal_in: "get_goal t i = Some g \<Longrightarrow> g \<in> set t \<and> go_id g = i"
  by (auto simp: get_goal_def dest: find_Some_in)

text \<open>
  What a step does to the table of goals: a fresh active goal is added, or one row is rewritten with its id kept, its
  status kept or moved as the lifecycle allows, and its spend kept or, with a log entry, raised by the entry.
\<close>

definition spend :: "GoalProgress list \<Rightarrow> ustring \<Rightarrow> int" where
  "spend log i = sum_list (map (\<lambda>p. case gp_tokens p of Some n \<Rightarrow> n | None \<Rightarrow> 0) (filter (\<lambda>p. gp_goal_id p = i) log))"

definition row_change :: "ustring \<Rightarrow> (Goal \<Rightarrow> Goal) \<Rightarrow> GoalDb \<Rightarrow> GoalDb \<Rightarrow> bool" where
  "row_change i f db db' \<longleftrightarrow>
     gd_goals db' = update_goal_row f (gd_goals db) i \<and>
     (\<forall>g. go_id (f g) = go_id g) \<and>
     (\<forall>g. get_goal (gd_goals db) i = Some g \<longrightarrow> go_status (f g) = go_status g \<or> transition (go_status g) (go_status (f g))) \<and>
     (\<exists>new. gd_log db' = gd_log db @ new \<and> (\<forall>p \<in> set new. gp_goal_id p = i \<and> i \<in> go_id ` set (gd_goals db)) \<and>
        (\<forall>g. go_tokens_consumed (f g) = go_tokens_consumed g + spend new i))"

lemma row_changeI:
  assumes "\<And>g. go_id (f g) = go_id g" and "\<And>g. go_tokens_consumed (f g) = go_tokens_consumed g"
    and "\<And>g. get_goal (gd_goals db) i = Some g \<Longrightarrow> go_status (f g) = go_status g \<or> transition (go_status g) (go_status (f g))"
  shows "row_change i f db (db\<lparr>gd_goals := update_goal_row f (gd_goals db) i\<rparr>)"
  using assms by (auto simp: row_change_def spend_def intro: exI [of _ "[]"])

lemma update_goal_row_id: "update_goal_row id t i = t"
  by (simp add: update_goal_row_eq map_idI)

lemma update_goal_row_comp:
  "(\<And>g. go_id (f g) = go_id g) \<Longrightarrow> update_goal_row h (update_goal_row f t i) i = update_goal_row (h \<circ> f) t i"
  by (simp add: update_goal_row_eq)

lemma update_goal_shape:
  assumes "update_goal t i upd now = Inr (g, t')"
  shows "\<exists>f. t' = update_goal_row f t i \<and> (\<forall>g. go_id (f g) = go_id g \<and> go_tokens_consumed (f g) = go_tokens_consumed g \<and>
    go_status (f g) = go_status g)"
proof -
  define f1 :: "Goal \<Rightarrow> Goal" where "f1 = (case ug_objective upd of Some ob \<Rightarrow> \<lambda>g. g\<lparr>go_objective := ob, go_updated_at := now\<rparr> | None \<Rightarrow> id)"
  define f2 :: "Goal \<Rightarrow> Goal" where "f2 = (case ug_checkin_prompt upd of Some p \<Rightarrow> \<lambda>g. g\<lparr>go_checkin_prompt := p, go_updated_at := now\<rparr> | None \<Rightarrow> id)"
  define f3 :: "Goal \<Rightarrow> Goal" where "f3 = (case ug_checkin_recurrence upd of Some r \<Rightarrow> \<lambda>g. g\<lparr>go_checkin_recurrence := r, go_updated_at := now\<rparr> | None \<Rightarrow> id)"
  have ids: "go_id (f1 g) = go_id g" "go_id (f2 g) = go_id g" for g
    by (auto simp: f1_def f2_def split: option.splits)
  have "t' = update_goal_row f3 (update_goal_row f2 (update_goal_row f1 t i) i) i"
    using assms by (auto simp: update_goal_def Let_def f1_def f2_def f3_def update_goal_row_id
        dest!: reread_goal_InrD split: if_splits option.splits)
  also have "\<dots> = update_goal_row (f3 \<circ> f2 \<circ> f1) t i"
    by (simp add: update_goal_row_comp ids o_assoc)
  finally show ?thesis
    by (intro exI [of _ "f3 \<circ> f2 \<circ> f1"]) (auto simp: f1_def f2_def f3_def split: option.splits)
qed

lemma record_progress_shape:
  assumes "record_progress t log e i note tokens now = Inr (p, t', log')"
  shows "\<exists>f. row_change i f \<lparr>gd_goals = t, gd_log = log\<rparr> \<lparr>gd_goals = t', gd_log = log'\<rparr>"
proof -
  define n where "n = (case tokens of Some n \<Rightarrow> n | None \<Rightarrow> 0)"
  define f :: "Goal \<Rightarrow> Goal" where "f = (case tokens of
      Some n \<Rightarrow> \<lambda>g. g\<lparr>go_tokens_consumed := go_tokens_consumed g + n, go_updated_at := now\<rparr> | None \<Rightarrow> id)"
  have known: "i \<in> go_id ` set t" and p: "gp_goal_id p = i" "gp_tokens p = tokens" and log': "log' = log @ [p]"
    and t': "t' = update_goal_row f t i"
    using assms get_goal_None_iff [of t i]
    by (auto simp: record_progress_def Let_def f_def update_goal_row_id split: if_splits option.splits)
  have "go_tokens_consumed (f g) = go_tokens_consumed g + spend [p] i" for g
    using p by (auto simp: f_def spend_def split: option.splits)
  then have "row_change i f \<lparr>gd_goals = t, gd_log = log\<rparr> \<lparr>gd_goals = t', gd_log = log'\<rparr>"
    using known p log' t' by (auto simp: row_change_def f_def split: option.splits)
  then show ?thesis by blast
qed

lemma goal_step_shape:
  assumes "goal_step db db'"
  shows "(\<exists>g now. gd_goals db' = gd_goals db @ [new_goal_row g now] \<and> ngo_id g \<notin> go_id ` set (gd_goals db) \<and> gd_log db' = gd_log db) \<or>
    (\<exists>i f. row_change i f db db')"
  using assms
proof (cases rule: goal_step.cases)
  case (inserted tasks grants g now r t)
  then show ?thesis
    by (auto simp: insert_goal_def split: if_splits)
next
  case (moved i st now r t)
  then obtain g f where g: "get_goal (gd_goals db) i = Some g" "transition (go_status g) st"
    and t: "t = update_goal_row f (gd_goals db) i"
    and f: "\<And>g. go_id (f g) = go_id g" "\<And>g. go_tokens_consumed (f g) = go_tokens_consumed g" "\<And>g. go_status (f g) = st"
    by (auto simp: set_goal_status_def dest!: reread_goal_InrD split: option.splits if_splits)
  then have "row_change i f db (db\<lparr>gd_goals := update_goal_row f (gd_goals db) i\<rparr>)"
    by (intro row_changeI) auto
  then show ?thesis
    using moved t by blast
next
  case (updated i u now r t)
  then obtain f where t: "t = update_goal_row f (gd_goals db) i"
    and f: "\<And>g. go_id (f g) = go_id g \<and> go_tokens_consumed (f g) = go_tokens_consumed g \<and> go_status (f g) = go_status g"
    using update_goal_shape by metis
  then have "row_change i f db (db\<lparr>gd_goals := update_goal_row f (gd_goals db) i\<rparr>)"
    by (intro row_changeI) auto
  then show ?thesis
    using updated t by blast
next
  case (checked_in i fired now t)
  let ?f = "\<lambda>g. g\<lparr>go_last_checkin_at := Some fired, go_checkin_count := go_checkin_count g + 1, go_updated_at := now\<rparr>"
  have "row_change i ?f db db'"
    unfolding checked_in(1) checked_update_InrD [OF checked_in(2) [unfolded mark_checkin_def]]
    by (intro row_changeI) auto
  then show ?thesis by blast
next
  case (armed i c now t)
  let ?f = "\<lambda>g. g\<lparr>go_next_checkin := c, go_updated_at := now\<rparr>"
  have "row_change i ?f db db'"
    unfolding armed(1) checked_update_InrD [OF armed(2) [unfolded set_next_checkin_def]]
    by (intro row_changeI) auto
  then show ?thesis by blast
next
  case (progressed e i n tk now p t log)
  then show ?thesis
    using record_progress_shape [OF progressed(2)] by (cases db) auto
qed

lemma goal_step_status:
  assumes "goal_step db db'" and "get_goal (gd_goals db) i = Some g"
  shows "\<exists>g'. get_goal (gd_goals db') i = Some g' \<and> (go_status g' = go_status g \<or> transition (go_status g) (go_status g'))"
  using goal_step_shape [OF assms(1)]
proof (elim disjE exE conjE)
  fix n now assume "gd_goals db' = gd_goals db @ [new_goal_row n now]"
  then show ?thesis
    using assms(2) by (simp add: get_goal_def find_append)
next
  fix j f assume "row_change j f db db'"
  then show ?thesis
    using assms(2) by (cases "i = j") (auto simp: row_change_def get_goal_row)
qed

lemma transition_terminal: "is_terminal st \<Longrightarrow> \<not> transition st st'"
  by (cases st; cases st') (auto simp: is_terminal_def transition_def)

text \<open>The invariant of the two tables: every entry belongs to a goal, and the spend of a goal is the sum of its entries.\<close>

definition goals_ok :: "GoalDb \<Rightarrow> bool" where
  "goals_ok db \<longleftrightarrow>
     distinct (map go_id (gd_goals db)) \<and>
     (\<forall>p \<in> set (gd_log db). gp_goal_id p \<in> go_id ` set (gd_goals db)) \<and>
     (\<forall>g \<in> set (gd_goals db). go_tokens_consumed g = spend (gd_log db) (go_id g))"

lemma spend_append: "spend (log @ new) i = spend log i + spend new i"
  by (simp add: spend_def)

lemma spend_none: "(\<And>p. p \<in> set log \<Longrightarrow> gp_goal_id p \<noteq> i) \<Longrightarrow> spend log i = 0"
  by (simp add: spend_def filter_empty_conv)

lemma goal_step_ok:
  assumes step: "goal_step db db'" and ok: "goals_ok db"
  shows "goals_ok db'"
  using goal_step_shape [OF step]
proof (elim disjE exE conjE)
  fix n now assume new: "gd_goals db' = gd_goals db @ [new_goal_row n now]" "ngo_id n \<notin> go_id ` set (gd_goals db)"
    "gd_log db' = gd_log db"
  have "spend (gd_log db) (ngo_id n) = 0"
    using ok new(2) by (intro spend_none) (metis goals_ok_def)
  then show ?thesis
    using ok new by (auto simp: goals_ok_def new_goal_row_def)
next
  fix i f assume change: "row_change i f db db'"
  then obtain new where new: "gd_goals db' = map (\<lambda>g. if go_id g = i then f g else g) (gd_goals db)"
      "\<And>g. go_id (f g) = go_id g" "gd_log db' = gd_log db @ new"
      "\<And>p. p \<in> set new \<Longrightarrow> gp_goal_id p = i \<and> i \<in> go_id ` set (gd_goals db)"
      "\<And>g. go_tokens_consumed (f g) = go_tokens_consumed g + spend new i"
    by (auto simp: row_change_def update_goal_row_eq)
  have ids: "map go_id (gd_goals db') = map go_id (gd_goals db)"
    using new(1,2) by simp
  then have set_ids: "go_id ` set (gd_goals db') = go_id ` set (gd_goals db)"
    by (metis list.set_map)
  have other: "spend new j = 0" if "j \<noteq> i" for j
    using new(4) that by (intro spend_none) blast
  have "go_tokens_consumed g = spend (gd_log db') (go_id g)" if "g \<in> set (gd_goals db')" for g
    using that ok new other by (auto simp: goals_ok_def spend_append)
  moreover have "gp_goal_id p \<in> go_id ` set (gd_goals db')" if "p \<in> set (gd_log db')" for p
    using that ok new(3,4) unfolding set_ids by (auto simp: goals_ok_def)
  ultimately show ?thesis
    using ok ids by (simp add: goals_ok_def)
qed

lemma goals_ok_empty: "goals_ok \<lparr>gd_goals = [], gd_log = []\<rparr>"
  by (simp add: goals_ok_def)

lemma goal_run_ok: "goal_step\<^sup>*\<^sup>* db db' \<Longrightarrow> goals_ok db \<Longrightarrow> goals_ok db'"
  by (induction rule: rtranclp_induct) (auto intro: goal_step_ok)

text \<open>
  A grant that is not live leaves its goal no budget. A live grant without a cap on tokens does so too: the code reads
  the absence of a cap as nothing left, although it documents \<open>None\<close> as unbounded.
\<close>

lemma dead_grant_no_budget:
  assumes "get_goal t i = Some goal" and "go_grant_id goal = Some gid" and "get_grant grants gid = Some grant"
    and "effective_grant grants (g_task_id grant) now = None"
  shows "budget_remaining t grants i now = Inr (Some 0)"
  using assms by (simp add: budget_remaining_def)

lemma uncapped_grant_no_budget:
  assumes "get_goal t i = Some goal" and "go_grant_id goal = Some gid" and "get_grant grants gid = Some grant"
    and "effective_grant grants (g_task_id grant) now = Some eff" and "eg_token_budget eff = None"
  shows "budget_remaining t grants i now = Inr (Some 0)"
  using assms by (simp add: budget_remaining_def tokens_remaining_def)

section \<open>Properties\<close>

text \<open>
  C26: Whatever sequence of operations runs on the goals (new goals, status changes, updates, check-ins, re-arming,
  progress entries), a goal that was completed or abandoned keeps that status: it is never resumed, and the sweep
  never finds it due for a check-in.
\<close>

theorem finished_goals_stay_finished:
  assumes "goal_step\<^sup>*\<^sup>* db db'" and "get_goal (gd_goals db) i = Some g" and "is_terminal (go_status g)"
  shows "\<exists>g'. get_goal (gd_goals db') i = Some g' \<and> go_status g' = go_status g \<and> \<not> goal_is_due now g'"
proof -
  have "\<exists>g'. get_goal (gd_goals db') i = Some g' \<and> go_status g' = go_status g"
    using assms(1)
  proof (induction rule: rtranclp_induct)
    case base
    then show ?case using assms(2) by simp
  next
    case (step y z)
    then show ?case
      using goal_step_status [OF step(2)] transition_terminal assms(3) by metis
  qed
  then show ?thesis
    using assms(3) by (auto simp: goal_is_due_def is_terminal_def)
qed

definition sample_goal :: NewGoal where
  "sample_goal =
     \<lparr>ngo_id = lit ''g'', ngo_agent_group = 1, ngo_session = lit ''s'', ngo_objective = lit ''ship'', ngo_task_id = None,
      ngo_grant_id = None, ngo_token_budget = Some 10, ngo_checkin_recurrence = None, ngo_checkin_prompt = None,
      ngo_next_checkin = Some 5\<rparr>"

definition done_goal :: Goal where
  "done_goal = (new_goal_row sample_goal 0)\<lparr>go_status := GoalCompleted, go_next_checkin := None, go_updated_at := 3\<rparr>"

lemma sample_armed: "goal_step \<lparr>gd_goals = [done_goal], gd_log = []\<rparr>
  \<lparr>gd_goals = [done_goal\<lparr>go_next_checkin := Some 7, go_updated_at := 4\<rparr>], gd_log = []\<rparr>"
  using goal_step.armed [of "\<lparr>gd_goals = [done_goal], gd_log = []\<rparr>" "lit ''g''" "Some 7" 4]
  by (simp add: set_next_checkin_def checked_update_def sql_update_def done_goal_def new_goal_row_def sample_goal_def)

theorem finished_goals_stay_finished_witness:
  "goal_step\<^sup>*\<^sup>* \<lparr>gd_goals = [done_goal], gd_log = []\<rparr>
     \<lparr>gd_goals = [done_goal\<lparr>go_next_checkin := Some 7, go_updated_at := 4\<rparr>], gd_log = []\<rparr> \<and>
   (\<exists>g'. get_goal [done_goal\<lparr>go_next_checkin := Some 7, go_updated_at := 4\<rparr>] (lit ''g'') = Some g' \<and>
     go_status g' = GoalCompleted \<and> \<not> goal_is_due 9 g')"
proof -
  have "goal_step\<^sup>*\<^sup>* \<lparr>gd_goals = [done_goal], gd_log = []\<rparr>
     \<lparr>gd_goals = [done_goal\<lparr>go_next_checkin := Some 7, go_updated_at := 4\<rparr>], gd_log = []\<rparr>"
    using sample_armed by (rule r_into_rtranclp)
  moreover from finished_goals_stay_finished [OF this, of "lit ''g''" done_goal 9]
  have "\<exists>g'. get_goal [done_goal\<lparr>go_next_checkin := Some 7, go_updated_at := 4\<rparr>] (lit ''g'') = Some g' \<and>
     go_status g' = GoalCompleted \<and> \<not> goal_is_due 9 g'"
    by (simp add: get_goal_def done_goal_def new_goal_row_def sample_goal_def is_terminal_def)
  ultimately show ?thesis ..
qed


lemma sample_history:
  "goal_step\<^sup>*\<^sup>* \<lparr>gd_goals = [], gd_log = []\<rparr>
     \<lparr>gd_goals = [(new_goal_row sample_goal 0)\<lparr>go_tokens_consumed := 4, go_updated_at := 1\<rparr>],
      gd_log = [\<lparr>gp_id = lit ''e'', gp_goal_id = lit ''g'', gp_note = lit ''half'', gp_tokens = Some 4, gp_created_at = 1\<rparr>]\<rparr>"
proof -
  have trims: "trim (lit ''ship'') = lit ''ship''" "trim (lit ''half'') = lit ''half''"
    by (rule trim_no_whitespace; simp add: lit_def is_whitespace_def)+
  have "goal_step \<lparr>gd_goals = [], gd_log = []\<rparr> \<lparr>gd_goals = [new_goal_row sample_goal 0], gd_log = []\<rparr>"
    using goal_step.inserted [of "[]" "[]" "\<lparr>gd_goals = [], gd_log = []\<rparr>" sample_goal 0]
    by (simp add: insert_goal_def sample_goal_def refers_to_def trims)
  moreover have "goal_step \<lparr>gd_goals = [new_goal_row sample_goal 0], gd_log = []\<rparr>
     \<lparr>gd_goals = [(new_goal_row sample_goal 0)\<lparr>go_tokens_consumed := 4, go_updated_at := 1\<rparr>],
      gd_log = [\<lparr>gp_id = lit ''e'', gp_goal_id = lit ''g'', gp_note = lit ''half'', gp_tokens = Some 4, gp_created_at = 1\<rparr>]\<rparr>"
    using goal_step.progressed [of "\<lparr>gd_goals = [new_goal_row sample_goal 0], gd_log = []\<rparr>" "lit ''e''" "lit ''g''"
        "lit ''half''" "Some 4" 1]
    by (simp add: record_progress_def get_goal_def new_goal_row_def sample_goal_def trims update_goal_row_eq Let_def)
  ultimately show ?thesis by (meson converse_rtranclp_into_rtranclp r_into_rtranclp)
qed


end
