(* ===== verification/Conditions.thy ===== *)
theory Conditions
  imports Central_Tables "HOL-Library.List_Lexorder"
begin

text \<open>
  Conditions that wake an agent when they become true: the tables \<open>conditions\<close> and \<open>condition_flags\<close>
  (\<open>copperclaw-db/src/tables/conditions.rs\<close>), and the predicate and the in-memory store of
  \<open>copperclaw-host-sweep/src/checks/condition_checkin.rs\<close>. A hash map is an association list, whose order stands for
  the map's iteration order; text in \<open>ORDER BY\<close> is compared by code point. Agent groups and grants that a row refers
  to exist.

  The store is a row of edge detectors: \<open>observe_edges_rising\<close> relates it to the sequence of rising edges of each
  condition, and \<open>reconcile_store\<close> says what a reload from the table keeps.
\<close>

section \<open>The tables\<close>

record StoredCondition =
  sc_id :: ustring
  sc_agent_group :: AgentGroupId
  sc_session :: SessionId
  sc_kind :: ustring
  sc_threshold :: "int option"
  sc_flag :: "ustring option"
  sc_prompt :: ustring
  sc_grant_id :: "ustring option"
  sc_created_at :: instant
  sc_removed_at :: "instant option"

record NewCondition =
  nc_id :: ustring
  nc_agent_group :: AgentGroupId
  nc_session :: SessionId
  nc_kind :: ustring
  nc_threshold :: "int option"
  nc_flag :: "ustring option"
  nc_prompt :: ustring
  nc_grant_id :: "ustring option"

definition active_row :: "NewCondition \<Rightarrow> instant \<Rightarrow> StoredCondition" where
  "active_row n now =
     \<lparr>sc_id = nc_id n, sc_agent_group = nc_agent_group n, sc_session = nc_session n, sc_kind = nc_kind n,
      sc_threshold = nc_threshold n, sc_flag = nc_flag n, sc_prompt = nc_prompt n, sc_grant_id = nc_grant_id n,
      sc_created_at = now, sc_removed_at = None\<rparr>"

text \<open>\<open>ON CONFLICT(id) DO UPDATE\<close> sets every column but \<open>created_at\<close>; the returned row carries the new time.\<close>

definition upsert_condition ::
  "StoredCondition list \<Rightarrow> NewCondition \<Rightarrow> instant \<Rightarrow> DbError + (StoredCondition \<times> StoredCondition list)" where
  "upsert_condition t n now =
     (if trim (nc_id n) = [] then Inl (Invariant (lit ''condition id must be non-empty''))
      else if trim (nc_prompt n) = [] then Inl (Invariant (lit ''condition prompt must be non-empty''))
      else
        let row = active_row n now;
            t' = (if nc_id n \<in> sc_id ` set t
                  then snd (sql_update (\<lambda>c. sc_id c = nc_id n) (\<lambda>c. row\<lparr>sc_created_at := sc_created_at c\<rparr>) t)
                  else t @ [row])
        in Inr (row, t'))"

definition list_active_conditions :: "StoredCondition list \<Rightarrow> StoredCondition list" where
  "list_active_conditions t = sort_key sc_id (filter (\<lambda>c. sc_removed_at c = None) t)"

definition get_condition :: "StoredCondition list \<Rightarrow> ustring \<Rightarrow> StoredCondition option" where
  "get_condition t i = find (\<lambda>c. sc_id c = i) t"

definition soft_remove :: "StoredCondition list \<Rightarrow> ustring \<Rightarrow> instant \<Rightarrow> bool \<times> StoredCondition list" where
  "soft_remove t i now =
     (let (n, t') = sql_update (\<lambda>c. sc_id c = i \<and> sc_removed_at c = None) (\<lambda>c. c\<lparr>sc_removed_at := Some now\<rparr>) t
      in (n > 0, t'))"

record ConditionFlag =
  cf_agent_group :: AgentGroupId
  cf_session :: SessionId
  cf_flag :: ustring
  cf_set_at :: instant

definition set_flag ::
  "ConditionFlag list \<Rightarrow> AgentGroupId \<Rightarrow> SessionId \<Rightarrow> ustring \<Rightarrow> instant \<Rightarrow> DbError + ConditionFlag list" where
  "set_flag t ag s flag now =
     (if trim flag = [] then Inl (Invariant (lit ''condition flag name must be non-empty''))
      else if (s, flag) \<in> (\<lambda>f. (cf_session f, cf_flag f)) ` set t
      then Inr (snd (sql_update (\<lambda>f. cf_session f = s \<and> cf_flag f = flag) (\<lambda>f. f\<lparr>cf_set_at := now\<rparr>) t))
      else Inr (t @ [\<lparr>cf_agent_group = ag, cf_session = s, cf_flag = flag, cf_set_at = now\<rparr>]))"

definition clear_flag :: "ConditionFlag list \<Rightarrow> SessionId \<Rightarrow> ustring \<Rightarrow> bool \<times> ConditionFlag list" where
  "clear_flag t s flag = (let (n, t') = sql_delete (\<lambda>f. cf_session f = s \<and> cf_flag f = flag) t in (n > 0, t'))"

definition list_flags_for_session :: "ConditionFlag list \<Rightarrow> SessionId \<Rightarrow> ustring list" where
  "list_flags_for_session t s = sort_key id (map cf_flag (filter (\<lambda>f. cf_session f = s) t))"

section \<open>Conditions\<close>

datatype ConditionKind =
    PendingInboundAtLeast "32 word"
  | IdleForAtLeastSecs "64 word"
  | FlagSet ustring

record Condition =
  c_id :: ustring
  c_agent_group :: AgentGroupId
  c_session :: SessionId
  c_kind :: ConditionKind
  c_prompt :: ustring

record ConditionContext =
  pending_inbound :: "32 word"
  idle_secs :: "64 word option"
  flags_set :: "ustring list"

definition quiet :: ConditionContext where
  "quiet = \<lparr>pending_inbound = 0, idle_secs = None, flags_set = []\<rparr>"

definition KIND_PENDING_INBOUND :: ustring where "KIND_PENDING_INBOUND = lit ''pending_inbound''"
definition KIND_IDLE :: ustring where "KIND_IDLE = lit ''idle''"
definition KIND_FLAG :: ustring where "KIND_FLAG = lit ''flag''"

text \<open>\<open>u32::try_from\<close> and \<open>u64::try_from\<close> of an \<open>i64\<close>.\<close>

definition to_u32 :: "int \<Rightarrow> 32 word option" where
  "to_u32 n = (if 0 \<le> n \<and> n < 2 ^ 32 then Some (of_int n) else None)"

definition to_u64 :: "int \<Rightarrow> 64 word option" where
  "to_u64 n = (if 0 \<le> n \<and> n < 2 ^ 64 then Some (of_int n) else None)"

definition stored_kind :: "StoredCondition \<Rightarrow> ConditionKind option" where
  "stored_kind s =
     (if sc_kind s = KIND_PENDING_INBOUND then map_option PendingInboundAtLeast (Option.bind (sc_threshold s) to_u32)
      else if sc_kind s = KIND_IDLE then map_option IdleForAtLeastSecs (Option.bind (sc_threshold s) to_u64)
      else if sc_kind s = KIND_FLAG then map_option FlagSet (sc_flag s)
      else None)"

definition from_stored :: "StoredCondition \<Rightarrow> Condition option" where
  "from_stored s =
     map_option (\<lambda>k. \<lparr>c_id = sc_id s, c_agent_group = sc_agent_group s, c_session = sc_session s, c_kind = k,
       c_prompt = sc_prompt s\<rparr>) (stored_kind s)"

definition holds :: "Condition \<Rightarrow> ConditionContext \<Rightarrow> bool" where
  "holds c ctx =
     (case c_kind c of
        PendingInboundAtLeast n \<Rightarrow> pending_inbound ctx \<ge> n
      | IdleForAtLeastSecs n \<Rightarrow> (case idle_secs ctx of Some s \<Rightarrow> s \<ge> n | None \<Rightarrow> False)
      | FlagSet flag \<Rightarrow> list_ex (\<lambda>f. f = flag) (flags_set ctx))"

section \<open>The store\<close>

record ConditionStore =
  cs_conditions :: "(ustring \<times> Condition) list"
  cs_last_held :: "(ustring \<times> bool) list"

definition empty_store :: ConditionStore where
  "empty_store = \<lparr>cs_conditions = [], cs_last_held = []\<rparr>"

definition register_condition :: "Condition \<Rightarrow> ConditionStore \<Rightarrow> ConditionStore" where
  "register_condition c st =
     st\<lparr>cs_conditions := AList.update (c_id c) c (cs_conditions st), cs_last_held := AList.delete (c_id c) (cs_last_held st)\<rparr>"

definition remove_condition :: "ustring \<Rightarrow> ConditionStore \<Rightarrow> bool \<times> ConditionStore" where
  "remove_condition i st =
     (map_of (cs_conditions st) i \<noteq> None,
      st\<lparr>cs_conditions := AList.delete i (cs_conditions st), cs_last_held := AList.delete i (cs_last_held st)\<rparr>)"

definition register_if_changed :: "Condition \<Rightarrow> ConditionStore \<Rightarrow> ConditionStore" where
  "register_if_changed c st = (if map_of (cs_conditions st) (c_id c) = Some c then st else register_condition c st)"

definition reconcile :: "Condition list \<Rightarrow> ConditionStore \<Rightarrow> ConditionStore" where
  "reconcile desired st =
     (let stale = filter (\<lambda>i. i \<notin> c_id ` set desired) (map fst (cs_conditions st))
      in fold register_if_changed desired (fold (\<lambda>i s. snd (remove_condition i s)) stale st))"

definition for_session :: "ConditionStore \<Rightarrow> SessionId \<Rightarrow> Condition list" where
  "for_session st s = filter (\<lambda>c. c_session c = s) (map snd (cs_conditions st))"

definition all_conditions :: "ConditionStore \<Rightarrow> Condition list" where
  "all_conditions st = map snd (cs_conditions st)"

definition observe_edge :: "ustring \<Rightarrow> bool \<Rightarrow> ConditionStore \<Rightarrow> bool \<times> ConditionStore" where
  "observe_edge i now_holds st =
     (let was = (case map_of (cs_last_held st) i of Some b \<Rightarrow> b | None \<Rightarrow> False)
      in (now_holds \<and> \<not> was, st\<lparr>cs_last_held := AList.update i now_holds (cs_last_held st)\<rparr>))"

section \<open>Rising edges\<close>

text \<open>
  The reference: the observations of one condition as a signal, of which an edge is a rise from the value before.
\<close>

fun rising_edges :: "bool \<Rightarrow> bool list \<Rightarrow> bool list" where
  "rising_edges was [] = []"
| "rising_edges was (b # bs) = (b \<and> \<not> was) # rising_edges b bs"

fun observe_edges :: "(ustring \<times> bool) list \<Rightarrow> ConditionStore \<Rightarrow> (ustring \<times> bool) list \<times> ConditionStore" where
  "observe_edges [] st = ([], st)"
| "observe_edges ((i, b) # obs) st =
     (let (r, st') = observe_edge i b st; (rs, st'') = observe_edges obs st' in ((i, r) # rs, st''))"

definition signal_of :: "ustring \<Rightarrow> (ustring \<times> bool) list \<Rightarrow> bool list" where
  "signal_of i obs = map snd (filter (\<lambda>e. fst e = i) obs)"

definition latch :: "ConditionStore \<Rightarrow> ustring \<Rightarrow> bool" where
  "latch st i = (case map_of (cs_last_held st) i of Some b \<Rightarrow> b | None \<Rightarrow> False)"

lemma observe_edge_simps [simp]:
  "fst (observe_edge i b st) = (b \<and> \<not> latch st i)"
  "latch (snd (observe_edge i b st)) j = (if j = i then b else latch st j)"
  "cs_conditions (snd (observe_edge i b st)) = cs_conditions st"
  by (simp_all add: observe_edge_def latch_def Let_def update_conv')

lemma observe_edges_signal:
  "signal_of i (fst (observe_edges obs st)) = rising_edges (latch st i) (signal_of i obs)"
proof (induction obs arbitrary: st)
  case (Cons e obs)
  obtain j b where e: "e = (j, b)" by (cases e)
  obtain r st' where o: "observe_edge j b st = (r, st')"
    by (cases "observe_edge j b st")
  then have r: "r = (b \<and> \<not> latch st j)" "latch st' k = (if k = j then b else latch st k)" for k
    using observe_edge_simps [of j b st] by (simp_all add: o)
  show ?case
    using Cons.IH [of st'] by (cases "observe_edges obs st'") (auto simp: e o r signal_of_def)
qed (simp add: signal_of_def)

section \<open>Reloading\<close>

lemma map_of_remove_all:
  "map_of (cs_conditions (fold (\<lambda>i s. snd (remove_condition i s)) stale st)) j =
     (if j \<in> set stale then None else map_of (cs_conditions st) j)"
  "map_of (cs_last_held (fold (\<lambda>i s. snd (remove_condition i s)) stale st)) j =
     (if j \<in> set stale then None else map_of (cs_last_held st) j)"
  by (induction stale arbitrary: st) (auto simp: remove_condition_def delete_conv')

lemma map_of_register_all:
  assumes "distinct (map c_id desired)"
  shows "map_of (cs_conditions (fold register_if_changed desired st)) j =
      (case find (\<lambda>c. c_id c = j) desired of Some c \<Rightarrow> Some c | None \<Rightarrow> map_of (cs_conditions st) j)"
    and "map_of (cs_last_held (fold register_if_changed desired st)) j =
      (case find (\<lambda>c. c_id c = j) desired of
         Some c \<Rightarrow> if map_of (cs_conditions st) j = Some c then map_of (cs_last_held st) j else None
       | None \<Rightarrow> map_of (cs_last_held st) j)"
proof -
  have "map_of (cs_conditions (fold register_if_changed desired st)) j =
      (case find (\<lambda>c. c_id c = j) desired of Some c \<Rightarrow> Some c | None \<Rightarrow> map_of (cs_conditions st) j) \<and>
    map_of (cs_last_held (fold register_if_changed desired st)) j =
      (case find (\<lambda>c. c_id c = j) desired of
         Some c \<Rightarrow> if map_of (cs_conditions st) j = Some c then map_of (cs_last_held st) j else None
       | None \<Rightarrow> map_of (cs_last_held st) j)"
    using assms
  proof (induction desired arbitrary: st)
    case (Cons c desired)
    let ?st = "register_if_changed c st"
    have here: "map_of (cs_conditions ?st) k = (if k = c_id c then Some c else map_of (cs_conditions st) k)"
      "map_of (cs_last_held ?st) k =
         (if k = c_id c \<and> map_of (cs_conditions st) k \<noteq> Some c then None else map_of (cs_last_held st) k)" for k
      by (auto simp: register_if_changed_def register_condition_def update_conv' delete_conv')
    have "c_id c = j \<Longrightarrow> find (\<lambda>d. c_id d = j) desired = None"
      using Cons.prems by (simp add: find_None_iff) (metis image_eqI)
    then show ?case
      using Cons.IH [of ?st] Cons.prems by (auto simp: here split: option.splits)
  qed simp
  then show "map_of (cs_conditions (fold register_if_changed desired st)) j =
      (case find (\<lambda>c. c_id c = j) desired of Some c \<Rightarrow> Some c | None \<Rightarrow> map_of (cs_conditions st) j)"
    and "map_of (cs_last_held (fold register_if_changed desired st)) j =
      (case find (\<lambda>c. c_id c = j) desired of
         Some c \<Rightarrow> if map_of (cs_conditions st) j = Some c then map_of (cs_last_held st) j else None
       | None \<Rightarrow> map_of (cs_last_held st) j)"
    by blast+
qed

lemma reconcile_store:
  assumes "distinct (map c_id desired)"
  shows "map_of (cs_conditions (reconcile desired st)) j = find (\<lambda>c. c_id c = j) desired"
    and "c \<in> set desired \<Longrightarrow> map_of (cs_last_held (reconcile desired st)) (c_id c) =
      (if map_of (cs_conditions st) (c_id c) = Some c then map_of (cs_last_held st) (c_id c) else None)"
proof -
  let ?stale = "filter (\<lambda>i. i \<notin> c_id ` set desired) (map fst (cs_conditions st))"
  have gone: "j \<in> set ?stale" if "find (\<lambda>c. c_id c = j) desired = None" "map_of (cs_conditions st) j \<noteq> None"
    using that by (auto simp: find_None_iff dest: map_of_SomeD intro!: rev_image_eqI)
  show "map_of (cs_conditions (reconcile desired st)) j = find (\<lambda>c. c_id c = j) desired"
    using gone by (cases "find (\<lambda>c. c_id c = j) desired")
      (simp_all only: reconcile_def Let_def map_of_register_all [OF assms] map_of_remove_all option.simps, metis)
  assume c: "c \<in> set desired"
  then have "find (\<lambda>d. c_id d = c_id c) desired = Some c"
    using assms by (induction desired) (auto simp: image_iff)
  moreover have "c_id c \<notin> set ?stale"
    using c by auto
  ultimately show "map_of (cs_last_held (reconcile desired st)) (c_id c) =
      (if map_of (cs_conditions st) (c_id c) = Some c then map_of (cs_last_held st) (c_id c) else None)"
    by (simp only: reconcile_def Let_def map_of_register_all [OF assms] map_of_remove_all option.simps if_False)
qed

end
