(* ===== verification/Schedule.thy ===== *)
theory Schedule
  imports Central_Tables
begin

text \<open>
  Schedules and the table of scheduled tasks: the parser and the evaluator of \<open>copperclaw-modules/src/scheduling.rs\<close>,
  and \<open>copperclaw-db/src/tables/tasks.rs\<close>. An instant counts milliseconds here, so a \<open>chrono::Duration\<close> read with
  \<open>num_milliseconds\<close> is a difference of instants. Cron expressions and RFC 3339 timestamps are read by third-party
  crates: what they answer is a parameter, \<open>ScheduleLib\<close>, and \<open>schedule_lib_ok\<close> states what \<open>croner\<close> documents of
  the next occurrence. A call that panics (\<open>str::split_at\<close> inside a character, a duration or an instant out of the
  range of \<open>chrono\<close>) is the value \<open>None\<close>. Agent groups that a task refers to exist, so its foreign key holds.
\<close>

section \<open>Schedules\<close>

record ScheduleLib =
  sl_rfc3339 :: "ustring \<Rightarrow> instant option"
  sl_cron_ok :: "ustring \<Rightarrow> bool"
  sl_cron_next :: "ustring \<Rightarrow> instant \<Rightarrow> instant option"
  sl_max_utc :: instant

definition schedule_lib_ok :: "ScheduleLib \<Rightarrow> bool" where
  "schedule_lib_ok lib \<longleftrightarrow> (\<forall>e now t. sl_cron_next lib e now = Some t \<longrightarrow> now < t)"

datatype ScheduleError =
    EmptySchedule
  | UnsupportedSchedule ustring
  | BadOffset ustring
  | BadTimeOfDay ustring
  | BadTimestamp ustring
  | BadCron ustring
  | BadRecurrence ustring

fun schedule_error_display :: "ScheduleError \<Rightarrow> ustring" where
  "schedule_error_display EmptySchedule = lit ''schedule string is empty''"
| "schedule_error_display (UnsupportedSchedule s) = lit ''unsupported schedule syntax: `'' @ s @ lit ''`''"
| "schedule_error_display (BadOffset s) = lit ''invalid relative offset `'' @ s @ lit ''`''"
| "schedule_error_display (BadTimeOfDay s) = lit ''invalid time-of-day `'' @ s @ lit ''`''"
| "schedule_error_display (BadTimestamp s) = lit ''invalid timestamp `'' @ s @ lit ''`''"
| "schedule_error_display (BadCron s) = lit ''invalid cron expression `'' @ s @ lit ''`''"
| "schedule_error_display (BadRecurrence s) = lit ''invalid recurrence `'' @ s @ lit ''`''"

datatype When = At instant | Cron ustring | DailyAt nat nat

definition is_recurring :: "When \<Rightarrow> bool" where
  "is_recurring w = (case w of At _ \<Rightarrow> False | Cron _ \<Rightarrow> True | DailyAt _ _ \<Rightarrow> True)"

definition i64_max :: nat where "i64_max = 2 ^ 63 - 1"
definition u32_max :: nat where "u32_max = 2 ^ 32 - 1"

definition expand_short_rfc3339 :: "ustring \<Rightarrow> ustring option" where
  "expand_short_rfc3339 s =
     (if byte_len s < 17 then None
      else let bytes = as_bytes s in
        if \<not> (bytes ! 4 = 45 \<and> bytes ! 7 = 45 \<and> bytes ! 10 = 84 \<and> bytes ! 13 = 58) then None
        else (case find (\<lambda>i. s ! i = 90 \<or> s ! i = 43 \<or> s ! i = 45) [16..<length s] of
                None \<Rightarrow> None
              | Some i \<Rightarrow> if byte_len (take i s) \<noteq> 16 then None else Some (take i s @ lit '':00'' @ drop i s)))"

text \<open>The milliseconds of \<open>s\<close>, \<open>m\<close>, \<open>h\<close> and \<open>d\<close>.\<close>

definition unit_ms :: "uchar \<Rightarrow> int option" where
  "unit_ms u =
     (if u = 115 then Some 1000 else if u = 109 then Some 60000
      else if u = 104 then Some 3600000 else if u = 100 then Some 86400000 else None)"

definition parse_in_offset :: "ScheduleLib \<Rightarrow> instant \<Rightarrow> ustring \<Rightarrow> (ScheduleError + When) option" where
  "parse_in_offset lib now s =
     (let rest = trim s in
      if byte_len rest < 2 then Some (Inl (BadOffset rest))
      else if 128 \<le> last rest then None
      else
        (case parse_signed i64_max (trim (butlast rest)) of
           None \<Rightarrow> Some (Inl (BadOffset rest))
         | Some v \<Rightarrow>
             if v \<le> 0 then Some (Inl (BadOffset rest))
             else
               (case unit_ms (last rest) of
                  None \<Rightarrow> Some (Inl (BadOffset rest))
                | Some u \<Rightarrow>
                    if v * u > int i64_max \<or> now + v * u > sl_max_utc lib then None
                    else Some (Inr (At (now + v * u))))))"

definition parse_daily_at :: "ustring \<Rightarrow> ScheduleError + When" where
  "parse_daily_at s =
     (let rest = trim s in
      case split_on (\<lambda>c. c = 58) rest of
        [h, m] \<Rightarrow>
          (case parse_unsigned u32_max h of
             None \<Rightarrow> Inl (BadTimeOfDay rest)
           | Some hour \<Rightarrow>
               (case parse_unsigned u32_max m of
                  None \<Rightarrow> Inl (BadTimeOfDay rest)
                | Some minute \<Rightarrow>
                    if hour > 23 \<or> minute > 59 then Inl (BadTimeOfDay rest) else Inr (DailyAt hour minute)))
      | _ \<Rightarrow> Inl (BadTimeOfDay rest))"

definition looks_like_cron :: "ustring \<Rightarrow> bool" where
  "looks_like_cron s = (let n = length (split_whitespace s) in 5 \<le> n \<and> n \<le> 6)"

definition parse_cron :: "ScheduleLib \<Rightarrow> ustring \<Rightarrow> ScheduleError + When" where
  "parse_cron lib s = (if sl_cron_ok lib s then Inr (Cron s) else Inl (BadCron s))"

definition parse_when :: "ScheduleLib \<Rightarrow> instant \<Rightarrow> ustring \<Rightarrow> (ScheduleError + When) option" where
  "parse_when lib now s =
     (let trimmed = trim s in
      if trimmed = [] then Some (Inl EmptySchedule)
      else
        (case sl_rfc3339 lib trimmed of
           Some t \<Rightarrow> Some (Inr (At t))
         | None \<Rightarrow>
             (case Option.bind (expand_short_rfc3339 trimmed) (sl_rfc3339 lib) of
                Some t \<Rightarrow> Some (Inr (At t))
              | None \<Rightarrow>
                  (case strip_prefix trimmed (lit ''in '') of
                     Some rest \<Rightarrow> parse_in_offset lib now rest
                   | None \<Rightarrow>
                       (case strip_prefix trimmed (lit ''daily at '') of
                          Some rest \<Rightarrow> Some (parse_daily_at rest)
                        | None \<Rightarrow>
                            if looks_like_cron trimmed then Some (parse_cron lib trimmed)
                            else Some (Inl (UnsupportedSchedule trimmed)))))))"

text \<open>\<open>cron.parse().ok()?\<close>, then the next occurrence strictly after \<open>now\<close>.\<close>

definition next_cron :: "ScheduleLib \<Rightarrow> ustring \<Rightarrow> instant \<Rightarrow> instant option" where
  "next_cron lib e now = (if sl_cron_ok lib e then sl_cron_next lib e now else None)"

definition day_ms :: int where "day_ms = 86400000"

definition next_daily :: "nat \<Rightarrow> nat \<Rightarrow> instant \<Rightarrow> instant" where
  "next_daily hour minute now =
     (let time = int hour * 3600000 + int minute * 60000;
          date = now div day_ms;
          today = date * day_ms + time
      in if today > now then today else (date + 1) * day_ms + time)"

definition compute_next_fire :: "ScheduleLib \<Rightarrow> When \<Rightarrow> instant \<Rightarrow> ustring option \<Rightarrow> instant option" where
  "compute_next_fire lib w now recurrence =
     (case (case recurrence of Some r \<Rightarrow> if trim r \<noteq> [] then Some r else None | None \<Rightarrow> None) of
        Some r \<Rightarrow> next_cron lib r now
      | None \<Rightarrow>
          (case w of
             At t \<Rightarrow> if t > now then Some t else None
           | Cron e \<Rightarrow> next_cron lib e now
           | DailyAt hour minute \<Rightarrow> Some (next_daily hour minute now)))"

subsection \<open>Facts\<close>

lemma next_daily_future:
  assumes "hour \<le> 23" and "minute \<le> 59"
  shows "now < next_daily hour minute now" and "next_daily hour minute now \<le> now + day_ms"
proof -
  let ?time = "int hour * 3600000 + int minute * 60000"
  have time: "0 \<le> ?time" "?time < day_ms"
    using assms by (simp_all add: day_ms_def)
  have now: "now div day_ms * day_ms \<le> now" "now < (now div day_ms + 1) * day_ms"
    by (simp_all add: day_ms_def)
  show "now < next_daily hour minute now"
    using time now by (auto simp: next_daily_def Let_def algebra_simps)
  show "next_daily hour minute now \<le> now + day_ms"
    using time now by (auto simp: next_daily_def Let_def algebra_simps)
qed

text \<open>A schedule that comes from the parser is well formed: its time of day is one.\<close>

definition when_wf :: "When \<Rightarrow> bool" where
  "when_wf w \<longleftrightarrow> (case w of DailyAt hour minute \<Rightarrow> hour \<le> 23 \<and> minute \<le> 59 | _ \<Rightarrow> True)"

lemma parse_daily_at_wf: "parse_daily_at s = Inr w \<Longrightarrow> when_wf w"
  by (auto simp: parse_daily_at_def when_wf_def Let_def split: list.splits option.splits if_splits)

lemma parse_in_offset_At:
  "parse_in_offset lib now s = Some (Inr w) \<Longrightarrow> \<exists>t. w = At t \<and> now < t \<and> t \<le> sl_max_utc lib"
  by (auto simp: parse_in_offset_def unit_ms_def Let_def split: if_splits option.splits)

lemma parse_when_wf: "parse_when lib now s = Some (Inr w) \<Longrightarrow> when_wf w"
proof -
  assume "parse_when lib now s = Some (Inr w)"
  then consider "\<exists>t. w = At t" | r where "parse_daily_at r = Inr w" | "\<exists>e. w = Cron e"
    by (auto simp: parse_when_def parse_cron_def Let_def dest: parse_in_offset_At split: if_splits option.splits)
  then show ?thesis
    by cases (auto simp: when_wf_def intro: parse_daily_at_wf [unfolded when_wf_def])
qed

lemma next_cron_future: "schedule_lib_ok lib \<Longrightarrow> next_cron lib e now = Some t \<Longrightarrow> now < t"
  by (auto simp: next_cron_def schedule_lib_ok_def split: if_splits)

text \<open>Every fire time that is computed lies strictly in the future.\<close>

lemma compute_next_fire_future:
  "schedule_lib_ok lib \<Longrightarrow> when_wf w \<Longrightarrow> compute_next_fire lib w now recurrence = Some t \<Longrightarrow> now < t"
  by (auto simp: compute_next_fire_def when_wf_def next_daily_future intro: next_cron_future
      split: option.splits When.splits if_splits)

section \<open>tasks\<close>

datatype TaskStatus = ActiveTask | PausedTask | CancelledTask | CompletedTask

fun task_status_as_str :: "TaskStatus \<Rightarrow> ustring" where
  "task_status_as_str ActiveTask = lit ''active''"
| "task_status_as_str PausedTask = lit ''paused''"
| "task_status_as_str CancelledTask = lit ''cancelled''"
| "task_status_as_str CompletedTask = lit ''completed''"

definition task_status_from_str :: "ustring \<Rightarrow> TaskStatus option" where
  "task_status_from_str s =
     (if s = lit ''active'' then Some ActiveTask else if s = lit ''paused'' then Some PausedTask
      else if s = lit ''cancelled'' then Some CancelledTask else if s = lit ''completed'' then Some CompletedTask
      else None)"

interpretation task_status: wire_enum task_status_as_str task_status_from_str
proof unfold_locales
  show "task_status_from_str (task_status_as_str e) = Some e" for e
    by (cases e) (simp_all add: task_status_from_str_def)
  show "task_status_from_str s = Some e \<Longrightarrow> task_status_as_str e = s" for s e
    by (auto simp: task_status_from_str_def split: if_splits)
qed

record Task =
  tk_id :: ustring
  tk_agent_group :: AgentGroupId
  tk_session :: SessionId
  tk_name :: "ustring option"
  tk_prompt :: ustring
  tk_when_spec :: ustring
  tk_recurrence :: "ustring option"
  tk_next_fire :: "instant option"
  tk_status :: TaskStatus
  tk_last_fired :: "instant option"
  tk_fire_count :: int
  tk_created_at :: instant
  tk_updated_at :: instant

record NewTask =
  nt_id :: ustring
  nt_agent_group :: AgentGroupId
  nt_session :: SessionId
  nt_name :: "ustring option"
  nt_prompt :: ustring
  nt_when_spec :: ustring
  nt_recurrence :: "ustring option"
  nt_next_fire :: "instant option"

definition new_task_row :: "NewTask \<Rightarrow> instant \<Rightarrow> Task" where
  "new_task_row nt now =
     \<lparr>tk_id = nt_id nt, tk_agent_group = nt_agent_group nt, tk_session = nt_session nt, tk_name = nt_name nt,
      tk_prompt = nt_prompt nt, tk_when_spec = nt_when_spec nt, tk_recurrence = nt_recurrence nt,
      tk_next_fire = nt_next_fire nt, tk_status = ActiveTask, tk_last_fired = None, tk_fire_count = 0,
      tk_created_at = now, tk_updated_at = now\<rparr>"

definition insert_task :: "Task list \<Rightarrow> NewTask \<Rightarrow> instant \<Rightarrow> DbError + (Task \<times> Task list)" where
  "insert_task t nt now =
     (if nt_id nt \<in> tk_id ` set t then Inl ConstraintViolation
      else Inr (new_task_row nt now, t @ [new_task_row nt now]))"

definition get_task :: "Task list \<Rightarrow> ustring \<Rightarrow> Task option" where
  "get_task t i = find (\<lambda>r. tk_id r = i) t"

definition list_tasks_for_session :: "Task list \<Rightarrow> SessionId \<Rightarrow> Task list" where
  "list_tasks_for_session t s = order_by tk_created_at (filter (\<lambda>r. tk_session r = s) t)"

text \<open>\<open>ORDER BY created_at DESC, rowid DESC LIMIT 1\<close>: of the newest rows, the one inserted last.\<close>

definition latest_for_session_by_name :: "Task list \<Rightarrow> SessionId \<Rightarrow> ustring \<Rightarrow> Task option" where
  "latest_for_session_by_name t s name =
     first_row (order_by_desc tk_created_at (rev (filter (\<lambda>r. tk_session r = s \<and> tk_name r = Some name) t)))"

definition task_is_due :: "instant \<Rightarrow> Task \<Rightarrow> bool" where
  "task_is_due now r \<longleftrightarrow>
     tk_status r = ActiveTask \<and> (case tk_next_fire r of None \<Rightarrow> False | Some f \<Rightarrow> f \<le> now)"

definition list_due_tasks :: "Task list \<Rightarrow> instant \<Rightarrow> Task list" where
  "list_due_tasks t now = order_by (\<lambda>r. case tk_next_fire r of Some f \<Rightarrow> f | None \<Rightarrow> 0) (filter (task_is_due now) t)"

definition count_active_tasks :: "Task list \<Rightarrow> nat" where
  "count_active_tasks t = length (filter (\<lambda>r. tk_status r = ActiveTask) t)"

definition update_task_row :: "(Task \<Rightarrow> Task) \<Rightarrow> Task list \<Rightarrow> ustring \<Rightarrow> DbError + Task list" where
  "update_task_row f t i =
     (let (n, t') = sql_update (\<lambda>r. tk_id r = i) f t in if n = 0 then Inl NotFound else Inr t')"

definition set_task_status :: "Task list \<Rightarrow> ustring \<Rightarrow> TaskStatus \<Rightarrow> instant \<Rightarrow> DbError + Task list" where
  "set_task_status t i st now = update_task_row (\<lambda>r. r\<lparr>tk_status := st, tk_updated_at := now\<rparr>) t i"

definition set_next_fire :: "Task list \<Rightarrow> ustring \<Rightarrow> instant option \<Rightarrow> instant \<Rightarrow> DbError + Task list" where
  "set_next_fire t i nf now = update_task_row (\<lambda>r. r\<lparr>tk_next_fire := nf, tk_updated_at := now\<rparr>) t i"

definition mark_fired :: "Task list \<Rightarrow> ustring \<Rightarrow> instant \<Rightarrow> instant \<Rightarrow> DbError + Task list" where
  "mark_fired t i fired_at now =
     update_task_row
       (\<lambda>r. r\<lparr>tk_last_fired := Some fired_at, tk_fire_count := tk_fire_count r + 1, tk_updated_at := now\<rparr>) t i"

record UpdateFields =
  uf_prompt :: "ustring option"
  uf_when_spec :: "ustring option"
  uf_recurrence :: "ustring option option"
  uf_next_fire :: "instant option option"

definition set_column :: "('v \<Rightarrow> Task \<Rightarrow> Task) \<Rightarrow> 'v option \<Rightarrow> ustring \<Rightarrow> instant \<Rightarrow> Task list \<Rightarrow> Task list" where
  "set_column f v i now t =
     (case v of None \<Rightarrow> t
      | Some x \<Rightarrow> snd (sql_update (\<lambda>r. tk_id r = i) (\<lambda>r. (f x r)\<lparr>tk_updated_at := now\<rparr>) t))"

definition update_task :: "Task list \<Rightarrow> ustring \<Rightarrow> UpdateFields \<Rightarrow> instant \<Rightarrow> DbError + (Task \<times> Task list)" where
  "update_task t i upd now =
     (let t1 = set_column (\<lambda>x r. r\<lparr>tk_prompt := x\<rparr>) (uf_prompt upd) i now t;
          t2 = set_column (\<lambda>x r. r\<lparr>tk_when_spec := x\<rparr>) (uf_when_spec upd) i now t1;
          t3 = set_column (\<lambda>x r. r\<lparr>tk_recurrence := x\<rparr>) (uf_recurrence upd) i now t2;
          t4 = set_column (\<lambda>x r. r\<lparr>tk_next_fire := x\<rparr>) (uf_next_fire upd) i now t3
      in case get_task t4 i of None \<Rightarrow> Inl NotFound | Some r \<Rightarrow> Inr (r, t4))"

subsection \<open>Facts\<close>

definition tasks_wf :: "Task list \<Rightarrow> bool" where
  "tasks_wf t \<longleftrightarrow> distinct (map tk_id t)"

interpretation task_key: primary_key tasks_wf tk_id
  by unfold_locales (simp add: tasks_wf_def)

text \<open>
  An update by id touches one row: it fails exactly when the row is missing, and a lookup afterwards sees the
  update in that row and nothing else changed.
\<close>

lemma update_task_row_cases:
  "update_task_row f t i =
     (if i \<in> tk_id ` set t then Inr (map (\<lambda>r. if tk_id r = i then f r else r) t) else Inl NotFound)"
  by (auto simp: update_task_row_def sql_update_def filter_empty_conv)

lemma get_task_update:
  "(\<And>r. tk_id (f r) = tk_id r) \<Longrightarrow>
     get_task (map (\<lambda>r. if tk_id r = i then f r else r) t) j =
     (if j = i then map_option f (get_task t i) else get_task t j)"
  by (simp add: get_task_def find_update)

lemma get_task_in: "get_task t i = Some r \<Longrightarrow> r \<in> set t \<and> tk_id r = i"
  by (auto simp: get_task_def dest: find_Some_in)

lemma get_task_None_iff: "get_task t i = None \<longleftrightarrow> i \<notin> tk_id ` set t"
  by (auto simp: get_task_def find_None_iff)

lemma get_task_iff: "tasks_wf t \<Longrightarrow> get_task t i = Some r \<longleftrightarrow> r \<in> set t \<and> tk_id r = i"
  by (metis get_task_in get_task_def task_key.find_key)

lemma map_id_update:
  "(\<And>r. tk_id (f r) = tk_id r) \<Longrightarrow> map tk_id (map (\<lambda>r. if tk_id r = i then f r else r) t) = map tk_id t"
  by simp

lemma tasks_wf_update:
  "(\<And>r. tk_id (f r) = tk_id r) \<Longrightarrow> update_task_row f t i = Inr t' \<Longrightarrow> tasks_wf t \<Longrightarrow> tasks_wf t'"
  by (auto simp: update_task_row_cases tasks_wf_def comp_def if_distrib cong: if_cong split: if_splits)

lemma tasks_wf_insert: "insert_task t nt now = Inr (r, t') \<Longrightarrow> tasks_wf t \<Longrightarrow> tasks_wf t'"
  by (auto simp: insert_task_def tasks_wf_def new_task_row_def split: if_splits)

lemma get_task_insert:
  assumes "insert_task t nt now = Inr (r, t')"
  shows "get_task t' j = (if j = nt_id nt then Some r else get_task t j)"
proof -
  have fresh: "nt_id nt \<notin> tk_id ` set t" and r: "r = new_task_row nt now" and t': "t' = t @ [r]"
    using assms by (auto simp: insert_task_def split: if_splits)
  have "get_task t (nt_id nt) = None"
    using fresh by (simp add: get_task_None_iff)
  moreover have "tk_id r = nt_id nt"
    by (simp add: r new_task_row_def)
  ultimately show ?thesis
    by (auto simp: t' get_task_def find_append split: option.splits)
qed

lemma set_column_eq:
  "set_column f v i now t =
     map (\<lambda>r. if tk_id r = i then (case v of None \<Rightarrow> r | Some x \<Rightarrow> (f x r)\<lparr>tk_updated_at := now\<rparr>) else r) t"
  by (auto simp: set_column_def sql_update_def map_idI split: option.splits)

lemma set_list_due_tasks: "set (list_due_tasks t now) = {r \<in> set t. task_is_due now r}"
  by (auto simp: list_due_tasks_def)

lemma list_due_tasks_distinct: "tasks_wf t \<Longrightarrow> distinct (map tk_id (list_due_tasks t now))"
proof -
  assume wf: "tasks_wf t"
  then have "distinct (filter (task_is_due now) t)"
    by (simp add: tasks_wf_def distinct_map)
  then have "distinct (list_due_tasks t now)"
    by (simp add: list_due_tasks_def order_by_def)
  moreover have "inj_on tk_id (set (list_due_tasks t now))"
    using wf by (intro inj_onI) (auto simp: set_list_due_tasks intro: task_key.key_inj)
  ultimately show ?thesis by (simp add: distinct_map)
qed

end
