(* ===== verification/Task_Store.thy ===== *)
theory Task_Store
  imports Schedule Delivery
begin

text \<open>
  The scheduling module: the interface \<open>TaskStore\<close> and the delivery action \<open>schedule\<close> of
  \<open>copperclaw-modules/src/scheduling.rs\<close>, its store on the central table (\<open>copperclaw-host-sweep/src/task_store.rs\<close>)
  and its store in memory. A store is a record of operations on a state, as \<open>dyn TaskStore\<close> is one of methods. The
  clock readings of one call coincide; the fresh id of a task is an argument.

  The two stores are related by a simulation (locale \<open>store_simulation\<close>), so the handler answers alike on both.
\<close>

section \<open>Errors\<close>

datatype ModuleError =
    InvalidConfig ustring ustring
  | HookConflict ustring
  | MissingCapability ustring ustring
  | OtherFailure ustring ustring

fun module_error_display :: "ModuleError \<Rightarrow> ustring" where
  "module_error_display (InvalidConfig m r) = lit ''invalid configuration for module `'' @ m @ lit ''`: '' @ r"
| "module_error_display (HookConflict h) = lit ''hook `'' @ h @ lit ''` already registered (conflicting providers)''"
| "module_error_display (MissingCapability m c) = lit ''module `'' @ m @ lit ''` requires capability `'' @ c @ lit ''`''"
| "module_error_display (OtherFailure m r) = lit ''module `'' @ m @ lit ''` failed: '' @ r"

text \<open>A call ends with an error value or with a panic.\<close>

datatype fault = Fails ModuleError | Panics

definition scheduling_error :: "ustring \<Rightarrow> fault" where
  "scheduling_error reason = Fails (OtherFailure (lit ''scheduling'') reason)"

section \<open>Task stores\<close>

datatype RecordStatus = RActive | RPaused | RCancelled | RCompleted

record TaskRecord =
  tr_id :: ustring
  tr_agent_group :: AgentGroupId
  tr_session :: SessionId
  tr_name :: "ustring option"
  tr_prompt :: ustring
  tr_when_spec :: ustring
  tr_recurrence :: "ustring option"
  tr_next_fire :: "instant option"
  tr_status :: RecordStatus
  tr_created_at :: instant
  tr_updated_at :: instant

record CreateTaskSpec =
  ct_agent_group :: AgentGroupId
  ct_session :: SessionId
  ct_name :: "ustring option"
  ct_prompt :: ustring
  ct_when_spec :: ustring
  ct_recurrence :: "ustring option"
  ct_next_fire :: "instant option"

record UpdateTaskFields =
  ut_prompt :: "ustring option"
  ut_when_spec :: "ustring option"
  ut_recurrence :: "ustring option option"
  ut_next_fire :: "instant option option"

text \<open>The clock and the fresh uuid of a call.\<close>

record CallEnv =
  ce_now :: instant
  ce_uuid :: ustring

record 's TaskStore =
  ts_create :: "CallEnv \<Rightarrow> CreateTaskSpec \<Rightarrow> ('s, fault, TaskRecord) stateful"
  ts_get :: "ustring \<Rightarrow> ('s, fault, TaskRecord option) stateful"
  ts_list_for_session :: "SessionId \<Rightarrow> ('s, fault, TaskRecord list) stateful"
  ts_set_status :: "CallEnv \<Rightarrow> ustring \<Rightarrow> RecordStatus \<Rightarrow> ('s, fault, unit) stateful"
  ts_update :: "CallEnv \<Rightarrow> ustring \<Rightarrow> UpdateTaskFields \<Rightarrow> ('s, fault, TaskRecord) stateful"

definition fresh_task_id :: "CallEnv \<Rightarrow> ustring" where
  "fresh_task_id env = lit ''task_'' @ ce_uuid env"

subsection \<open>On the central table\<close>

fun db_to_module_status :: "TaskStatus \<Rightarrow> RecordStatus" where
  "db_to_module_status ActiveTask = RActive"
| "db_to_module_status PausedTask = RPaused"
| "db_to_module_status CancelledTask = RCancelled"
| "db_to_module_status CompletedTask = RCompleted"

fun module_to_db_status :: "RecordStatus \<Rightarrow> TaskStatus" where
  "module_to_db_status RActive = ActiveTask"
| "module_to_db_status RPaused = PausedTask"
| "module_to_db_status RCancelled = CancelledTask"
| "module_to_db_status RCompleted = CompletedTask"

definition row_to_module :: "Task \<Rightarrow> TaskRecord" where
  "row_to_module t =
     \<lparr>tr_id = tk_id t, tr_agent_group = tk_agent_group t, tr_session = tk_session t, tr_name = tk_name t,
      tr_prompt = tk_prompt t, tr_when_spec = tk_when_spec t, tr_recurrence = tk_recurrence t,
      tr_next_fire = tk_next_fire t, tr_status = db_to_module_status (tk_status t),
      tr_created_at = tk_created_at t, tr_updated_at = tk_updated_at t\<rparr>"

text \<open>\<open>map_err(db_err_to_module)\<close> after a statement that changes the table.\<close>

definition db_err_to_module :: "(DbError \<Rightarrow> ustring) \<Rightarrow> DbError \<Rightarrow> fault" where
  "db_err_to_module db_text e = scheduling_error (db_text e)"

definition table_call :: "(DbError \<Rightarrow> ustring) \<Rightarrow> ('t \<Rightarrow> DbError + 'a \<times> 't) \<Rightarrow> ('t, fault, 'a) stateful" where
  "table_call db_text f = (\<lambda>t. case f t of Inl e \<Rightarrow> (Inl (db_err_to_module db_text e), t) | Inr (x, t') \<Rightarrow> (Inr x, t'))"

definition with_unit :: "DbError + 't \<Rightarrow> DbError + unit \<times> 't" where
  "with_unit r = map_sum id (\<lambda>t. ((), t)) r"

definition sqlite_create :: "(DbError \<Rightarrow> ustring) \<Rightarrow> CallEnv \<Rightarrow> CreateTaskSpec \<Rightarrow> (Task list, fault, TaskRecord) stateful" where
  "sqlite_create db_text env spec =
     and_then
       (table_call db_text (\<lambda>t. insert_task t
          \<lparr>nt_id = fresh_task_id env, nt_agent_group = ct_agent_group spec, nt_session = ct_session spec,
           nt_name = ct_name spec, nt_prompt = ct_prompt spec, nt_when_spec = ct_when_spec spec,
           nt_recurrence = ct_recurrence spec, nt_next_fire = ct_next_fire spec\<rparr> (ce_now env)))
       (\<lambda>row. ret (row_to_module row))"

definition sqlite_get :: "ustring \<Rightarrow> (Task list, fault, TaskRecord option) stateful" where
  "sqlite_get i = reading (\<lambda>t. ret (map_option row_to_module (get_task t i)))"

definition sqlite_list_for_session :: "SessionId \<Rightarrow> (Task list, fault, TaskRecord list) stateful" where
  "sqlite_list_for_session s = reading (\<lambda>t. ret (map row_to_module (list_tasks_for_session t s)))"

definition sqlite_set_status ::
  "(DbError \<Rightarrow> ustring) \<Rightarrow> CallEnv \<Rightarrow> ustring \<Rightarrow> RecordStatus \<Rightarrow> (Task list, fault, unit) stateful" where
  "sqlite_set_status db_text env i st =
     table_call db_text (\<lambda>t. with_unit (set_task_status t i (module_to_db_status st) (ce_now env)))"

definition sqlite_update ::
  "(DbError \<Rightarrow> ustring) \<Rightarrow> CallEnv \<Rightarrow> ustring \<Rightarrow> UpdateTaskFields \<Rightarrow> (Task list, fault, TaskRecord) stateful" where
  "sqlite_update db_text env i upd =
     and_then
       (table_call db_text (\<lambda>t. update_task t i
          \<lparr>uf_prompt = ut_prompt upd, uf_when_spec = ut_when_spec upd, uf_recurrence = ut_recurrence upd,
           uf_next_fire = ut_next_fire upd\<rparr> (ce_now env)))
       (\<lambda>row. ret (row_to_module row))"

definition sqlite_store :: "(DbError \<Rightarrow> ustring) \<Rightarrow> Task list TaskStore" where
  "sqlite_store db_text =
     \<lparr>ts_create = sqlite_create db_text, ts_get = sqlite_get, ts_list_for_session = sqlite_list_for_session,
      ts_set_status = sqlite_set_status db_text, ts_update = sqlite_update db_text\<rparr>"

subsection \<open>In memory\<close>

text \<open>The order of the association list stands for the iteration order of the hash map.\<close>

type_synonym task_map = "(ustring \<times> TaskRecord) list"

definition memory_create :: "CallEnv \<Rightarrow> CreateTaskSpec \<Rightarrow> (task_map, fault, TaskRecord) stateful" where
  "memory_create env spec =
     (let rcd = \<lparr>tr_id = fresh_task_id env, tr_agent_group = ct_agent_group spec, tr_session = ct_session spec,
                 tr_name = ct_name spec, tr_prompt = ct_prompt spec, tr_when_spec = ct_when_spec spec,
                 tr_recurrence = ct_recurrence spec, tr_next_fire = ct_next_fire spec, tr_status = RActive,
                 tr_created_at = ce_now env, tr_updated_at = ce_now env\<rparr>
      in and_then (modify (AList.update (fresh_task_id env) rcd)) (\<lambda>_. ret rcd))"

definition memory_get :: "ustring \<Rightarrow> (task_map, fault, TaskRecord option) stateful" where
  "memory_get i = reading (\<lambda>m. ret (map_of m i))"

definition memory_list_for_session :: "SessionId \<Rightarrow> (task_map, fault, TaskRecord list) stateful" where
  "memory_list_for_session s =
     reading (\<lambda>m. ret (sort_key tr_created_at (filter (\<lambda>r. tr_session r = s) (map snd m))))"

definition task_not_found :: "ustring \<Rightarrow> fault" where
  "task_not_found i = scheduling_error (lit ''task not found: '' @ i)"

definition memory_set_status :: "CallEnv \<Rightarrow> ustring \<Rightarrow> RecordStatus \<Rightarrow> (task_map, fault, unit) stateful" where
  "memory_set_status env i st =
     reading (\<lambda>m. case map_of m i of
        None \<Rightarrow> throw (task_not_found i)
      | Some rcd \<Rightarrow> modify (AList.update i (rcd\<lparr>tr_status := st, tr_updated_at := ce_now env\<rparr>)))"

definition memory_update ::
  "CallEnv \<Rightarrow> ustring \<Rightarrow> UpdateTaskFields \<Rightarrow> (task_map, fault, TaskRecord) stateful" where
  "memory_update env i upd =
     reading (\<lambda>m. case map_of m i of
        None \<Rightarrow> throw (task_not_found i)
      | Some rcd \<Rightarrow>
          (let r1 = (case ut_prompt upd of Some p \<Rightarrow> rcd\<lparr>tr_prompt := p\<rparr> | None \<Rightarrow> rcd);
               r2 = (case ut_when_spec upd of Some w \<Rightarrow> r1\<lparr>tr_when_spec := w\<rparr> | None \<Rightarrow> r1);
               r3 = (case ut_recurrence upd of Some v \<Rightarrow> r2\<lparr>tr_recurrence := v\<rparr> | None \<Rightarrow> r2);
               r4 = (case ut_next_fire upd of Some nf \<Rightarrow> r3\<lparr>tr_next_fire := nf\<rparr> | None \<Rightarrow> r3);
               r5 = r4\<lparr>tr_updated_at := ce_now env\<rparr>
           in and_then (modify (AList.update i r5)) (\<lambda>_. ret r5)))"

definition memory_store :: "task_map TaskStore" where
  "memory_store =
     \<lparr>ts_create = memory_create, ts_get = memory_get, ts_list_for_session = memory_list_for_session,
      ts_set_status = memory_set_status, ts_update = memory_update\<rparr>"

section \<open>The schedule action\<close>

record DeliveryActionInput =
  ai_action :: ustring
  ai_payload :: json
  ai_target :: DispatchTarget
  ai_session :: "SessionId option"
  ai_row :: "MessageId option"

record DeliveryActionOutput =
  ao_dispatch :: "DispatchTarget option"
  ao_message :: "OutboundMessage option"

definition no_output :: DeliveryActionOutput where
  "no_output = \<lparr>ao_dispatch = None, ao_message = None\<rparr>"

definition str_field :: "json \<Rightarrow> string \<Rightarrow> ustring option" where
  "str_field v k = Option.bind (json_get v (lit k)) json_as_str"

definition ok_or :: "'e \<Rightarrow> 'a option \<Rightarrow> ('s, 'e, 'a) stateful" where
  "ok_or e v = (case v of Some x \<Rightarrow> ret x | None \<Rightarrow> throw e)"

definition target_session_and_group :: "DeliveryActionInput \<Rightarrow> ('s, fault, SessionId \<times> AgentGroupId) stateful" where
  "target_session_and_group input =
     and_then (ok_or (scheduling_error (lit ''schedule: missing session_id'')) (ai_session input)) (\<lambda>s.
     and_then (ok_or (scheduling_error (lit ''schedule: missing agent_group_id on target'')) (dt_agent_group (ai_target input)))
       (\<lambda>g. ret (s, g)))"

definition parse_schedule :: "ScheduleLib \<Rightarrow> CallEnv \<Rightarrow> string \<Rightarrow> ustring \<Rightarrow> ('s, fault, When) stateful" where
  "parse_schedule lib env what spec =
     (case parse_when lib (ce_now env) spec of
        None \<Rightarrow> throw Panics
      | Some (Inl e) \<Rightarrow> throw (scheduling_error (lit what @ lit '': parse error: '' @ schedule_error_display e))
      | Some (Inr w) \<Rightarrow> ret w)"

text \<open>\<open>filter(|s| !s.trim().is_empty())\<close>.\<close>

definition not_blank :: "ustring option \<Rightarrow> ustring option" where
  "not_blank s = (case s of Some x \<Rightarrow> if trim x = [] then None else Some x | None \<Rightarrow> None)"

definition op_create ::
  "ScheduleLib \<Rightarrow> 's TaskStore \<Rightarrow> CallEnv \<Rightarrow> DeliveryActionInput \<Rightarrow> json \<Rightarrow> ('s, fault, DeliveryActionOutput) stateful" where
  "op_create lib store env input payload =
     and_then (target_session_and_group input) (\<lambda>(s, g).
     and_then (ok_or (scheduling_error (lit ''schedule create: missing prompt'')) (str_field payload ''prompt'')) (\<lambda>prompt.
     and_then (ok_or (scheduling_error (lit ''schedule create: missing when'')) (str_field payload ''when'')) (\<lambda>when_spec.
       let recurrence = not_blank (str_field payload ''recurrence'') in
       and_then (parse_schedule lib env ''schedule create'' when_spec) (\<lambda>w.
       and_then (ts_create store env
            \<lparr>ct_agent_group = g, ct_session = s, ct_name = str_field payload ''name'', ct_prompt = prompt,
             ct_when_spec = when_spec, ct_recurrence = recurrence,
             ct_next_fire = compute_next_fire lib w (ce_now env) recurrence\<rparr>)
         (\<lambda>_. ret no_output)))))"

text \<open>The summary of a task in the answer to \<open>list\<close>; the text of an instant is third-party: \<open>show_ts\<close>.\<close>

definition opt_json :: "('a \<Rightarrow> json) \<Rightarrow> 'a option \<Rightarrow> json" where
  "opt_json f v = (case v of None \<Rightarrow> JNull | Some x \<Rightarrow> f x)"

fun record_status_str :: "RecordStatus \<Rightarrow> ustring" where
  "record_status_str RActive = lit ''active''"
| "record_status_str RPaused = lit ''paused''"
| "record_status_str RCancelled = lit ''cancelled''"
| "record_status_str RCompleted = lit ''completed''"

definition task_summary :: "(instant \<Rightarrow> ustring) \<Rightarrow> TaskRecord \<Rightarrow> json" where
  "task_summary show_ts t =
     JObject [(lit ''id'', JString (tr_id t)), (lit ''name'', opt_json JString (tr_name t)),
              (lit ''prompt'', JString (tr_prompt t)), (lit ''when'', JString (tr_when_spec t)),
              (lit ''recurrence'', opt_json JString (tr_recurrence t)),
              (lit ''next_fire'', opt_json (\<lambda>d. JString (show_ts d)) (tr_next_fire t)),
              (lit ''status'', JString (record_status_str (tr_status t)))]"

definition op_list ::
  "(instant \<Rightarrow> ustring) \<Rightarrow> 's TaskStore \<Rightarrow> DeliveryActionInput \<Rightarrow> ('s, fault, DeliveryActionOutput) stateful" where
  "op_list show_ts store input =
     and_then (target_session_and_group input) (\<lambda>(s, _).
     and_then (ts_list_for_session store s) (\<lambda>tasks.
       ret \<lparr>ao_dispatch = None,
            ao_message = Some \<lparr>om_kind = Chat,
              om_content = JObject [(lit ''tasks'', JArray (map (task_summary show_ts) tasks))], om_files = []\<rparr>\<rparr>))"

definition op_set_status ::
  "'s TaskStore \<Rightarrow> CallEnv \<Rightarrow> json \<Rightarrow> RecordStatus \<Rightarrow> ('s, fault, DeliveryActionOutput) stateful" where
  "op_set_status store env payload st =
     and_then (ok_or (scheduling_error (lit ''schedule: missing id'')) (str_field payload ''id'')) (\<lambda>i.
     and_then (ts_set_status store env i st) (\<lambda>_. ret no_output))"

definition op_update ::
  "ScheduleLib \<Rightarrow> 's TaskStore \<Rightarrow> CallEnv \<Rightarrow> json \<Rightarrow> ('s, fault, DeliveryActionOutput) stateful" where
  "op_update lib store env payload =
     and_then (ok_or (scheduling_error (lit ''schedule update: missing id'')) (str_field payload ''id'')) (\<lambda>i.
       let when_spec = str_field payload ''when'';
           recurrence_field = map_option (\<lambda>v. not_blank (json_as_str v)) (json_get payload (lit ''recurrence'')) in
       and_then
         (case when_spec of
            None \<Rightarrow> ret None
          | Some w \<Rightarrow>
              and_then (parse_schedule lib env ''schedule update'' w) (\<lambda>parsed.
              and_then
                (case recurrence_field of
                   Some v \<Rightarrow> ret v
                 | None \<Rightarrow> and_then (ts_get store i) (\<lambda>t. ret (Option.bind t tr_recurrence)))
                (\<lambda>effective. ret (Some (compute_next_fire lib parsed (ce_now env) effective)))))
         (\<lambda>next_fire_field.
       and_then (ts_update store env i
            \<lparr>ut_prompt = str_field payload ''prompt'', ut_when_spec = when_spec, ut_recurrence = recurrence_field,
             ut_next_fire = next_fire_field\<rparr>)
         (\<lambda>_. ret no_output)))"

definition schedule_handle ::
  "ScheduleLib \<Rightarrow> (instant \<Rightarrow> ustring) \<Rightarrow> 's TaskStore \<Rightarrow> CallEnv \<Rightarrow> DeliveryActionInput \<Rightarrow>
     ('s, fault, DeliveryActionOutput) stateful" where
  "schedule_handle lib show_ts store env input =
     (let payload = ai_payload input in
      and_then (ok_or (scheduling_error (lit ''schedule: missing op'')) (str_field payload ''op'')) (\<lambda>op.
        let inner = (case json_get payload (lit ''payload'') of Some v \<Rightarrow> v | None \<Rightarrow> JObject []) in
        if op = lit ''create'' then op_create lib store env input inner
        else if op = lit ''list'' then op_list show_ts store input
        else if op = lit ''cancel'' then op_set_status store env inner RCancelled
        else if op = lit ''pause'' then op_set_status store env inner RPaused
        else if op = lit ''resume'' then op_set_status store env inner RActive
        else if op = lit ''update'' then op_update lib store env inner
        else throw (scheduling_error (lit ''schedule: unknown op `'' @ op @ lit ''`''))))"

text \<open>A sequence of actions, each with its environment.\<close>

fun run_actions ::
  "ScheduleLib \<Rightarrow> (instant \<Rightarrow> ustring) \<Rightarrow> 's TaskStore \<Rightarrow> (CallEnv \<times> DeliveryActionInput) list \<Rightarrow> 's \<Rightarrow>
     (fault + DeliveryActionOutput) list \<times> 's" where
  "run_actions lib show_ts store [] s = ([], s)"
| "run_actions lib show_ts store ((env, input) # calls) s =
     (let (r, s') = schedule_handle lib show_ts store env input s;
          (rs, s'') = run_actions lib show_ts store calls s'
      in (r # rs, s''))"

section \<open>Two stores that answer alike\<close>

text \<open>
  Results correspond when both calls return related values, both fail, or both panic (the texts of the failures are
  the store's own), and the states stay related.
\<close>

fun same_fault :: "fault \<Rightarrow> fault \<Rightarrow> bool" where
  "same_fault (Fails _) (Fails _) = True"
| "same_fault Panics Panics = True"
| "same_fault _ _ = False"

definition agree ::
  "('a \<Rightarrow> 'b \<Rightarrow> bool) \<Rightarrow> ('s \<Rightarrow> 't \<Rightarrow> bool) \<Rightarrow> (fault + 'a) \<times> 's \<Rightarrow> (fault + 'b) \<times> 't \<Rightarrow> bool" where
  "agree P R = rel_prod (rel_sum same_fault P) R"

named_theorems agree_intros \<open>composition of corresponding calls\<close>

lemma same_fault_refl [simp]: "same_fault e e"
  by (cases e) simp_all

lemma agree_ret [agree_intros]: "P x y \<Longrightarrow> R s t \<Longrightarrow> agree P R (ret x s) (ret y t)"
  by (simp add: agree_def ret_def)

lemma agree_throw [agree_intros]: "R s t \<Longrightarrow> agree P R (throw e s) (throw e t)"
  by (simp add: agree_def throw_def)

lemma agree_and_then_weaken:
  assumes "agree P R (m s) (m' t)" and "\<And>s t. R s t \<Longrightarrow> R' s t"
    and "\<And>x y s t. P x y \<Longrightarrow> R s t \<Longrightarrow> agree Q R' (f x s) (f' y t)"
  shows "agree Q R' (and_then m f s) (and_then m' f' t)"
  using assms unfolding agree_def and_then_def
  by (cases "m s"; cases "m' t"; cases "fst (m s)"; cases "fst (m' t)") auto

lemma agree_mono: "agree P R x y \<Longrightarrow> (\<And>u v. P u v \<Longrightarrow> Q u v) \<Longrightarrow> agree Q R x y"
  unfolding agree_def by (erule prod.rel_mono_strong) (auto elim: sum.rel_mono_strong)

lemma agree_and_then:
  "agree P R (m s) (m' t) \<Longrightarrow> (\<And>x y s t. P x y \<Longrightarrow> R s t \<Longrightarrow> agree Q R (f x s) (f' y t)) \<Longrightarrow>
     agree Q R (and_then m f s) (and_then m' f' t)"
  by (rule agree_and_then_weaken)

lemma agree_and_then_eq [agree_intros]:
  "agree (=) R (m s) (m' t) \<Longrightarrow> (\<And>x s t. R s t \<Longrightarrow> agree Q R (f x s) (f' x t)) \<Longrightarrow>
     agree Q R (and_then m f s) (and_then m' f' t)"
  by (erule agree_and_then) simp

lemma agree_ok_or [agree_intros]: "R s t \<Longrightarrow> agree (=) R (ok_or e v s) (ok_or e v t)"
  by (simp add: ok_or_def agree_ret agree_throw split: option.splits)

lemma agree_parse_schedule [agree_intros]:
  "R s t \<Longrightarrow> agree (=) R (parse_schedule lib env what spec s) (parse_schedule lib env what spec t)"
  by (simp add: parse_schedule_def agree_ret agree_throw split: option.splits sum.splits)

lemma agree_target [agree_intros]:
  "R s t \<Longrightarrow> agree (=) R (target_session_and_group input s) (target_session_and_group input t)"
  unfolding target_session_and_group_def by (intro agree_intros) (auto intro!: agree_intros)

text \<open>Answers of the handler: equal, or two lists of the same tasks in another order.\<close>

definition tasks_output :: "json list \<Rightarrow> DeliveryActionOutput" where
  "tasks_output ts =
     \<lparr>ao_dispatch = None,
      ao_message = Some \<lparr>om_kind = Chat, om_content = JObject [(lit ''tasks'', JArray ts)], om_files = []\<rparr>\<rparr>"

definition same_output :: "DeliveryActionOutput \<Rightarrow> DeliveryActionOutput \<Rightarrow> bool" where
  "same_output a b \<longleftrightarrow> a = b \<or> (\<exists>xs ys. mset xs = mset ys \<and> a = tasks_output xs \<and> b = tasks_output ys)"

text \<open>
  The columns of a task that an agent can see. The time of the last change is not one of them, and the stores keep
  it differently: an update that names no column leaves it alone in the table and sets it in memory.
\<close>

definition core_of :: "TaskRecord \<Rightarrow> TaskRecord" where
  "core_of r = r\<lparr>tr_updated_at := 0\<rparr>"

text \<open>A call adds at most the given id to those of the store.\<close>

definition grows_by :: "('a \<Rightarrow> ustring set) \<Rightarrow> ustring \<Rightarrow> 'a \<Rightarrow> 'a \<Rightarrow> bool" where
  "grows_by ids i a a' \<longleftrightarrow> ids a' \<subseteq> insert i (ids a)"

interpretation growing: run_relation "grows_by ids i" for ids i
  by unfold_locales (auto simp: grows_by_def)

locale store_simulation =
  fixes A :: "'a TaskStore"
    and B :: "'b TaskStore"
    and R :: "'a \<Rightarrow> 'b \<Rightarrow> bool"
    and ids :: "'a \<Rightarrow> ustring set"
  assumes sim_create: "R a b \<Longrightarrow> fresh_task_id env \<notin> ids a \<Longrightarrow> agree (=) R (ts_create A env spec a) (ts_create B env spec b)"
    and sim_get: "R a b \<Longrightarrow>
      agree (\<lambda>x y. map_option core_of x = map_option core_of y) R (ts_get A i a) (ts_get B i b)"
    and sim_list: "R a b \<Longrightarrow>
      agree (\<lambda>xs ys. mset (map core_of xs) = mset (map core_of ys)) R (ts_list_for_session A s a) (ts_list_for_session B s b)"
    and sim_set_status: "R a b \<Longrightarrow> agree (=) R (ts_set_status A env i st a) (ts_set_status B env i st b)"
    and sim_update: "R a b \<Longrightarrow>
      agree (\<lambda>x y. core_of x = core_of y) R (ts_update A env i upd a) (ts_update B env i upd b)"
    and ids_create: "always (grows_by ids (fresh_task_id env)) (ts_create A env spec)"
    and ids_get: "always (grows_by ids (fresh_task_id env)) (ts_get A i)"
    and ids_list: "always (grows_by ids (fresh_task_id env)) (ts_list_for_session A s)"
    and ids_set_status: "always (grows_by ids (fresh_task_id env)) (ts_set_status A env i st)"
    and ids_update: "always (grows_by ids (fresh_task_id env)) (ts_update A env i upd)"
begin

lemma op_create_agrees:
  assumes "R a b" and "fresh_task_id env \<notin> ids a"
  shows "agree (=) R (op_create lib A env input payload a) (op_create lib B env input payload b)"
proof -
  let ?R = "\<lambda>x y. R x y \<and> fresh_task_id env \<notin> ids x"
  have create: "agree (=) R (and_then (ts_create A env spec) (\<lambda>_. ret no_output) x)
      (and_then (ts_create B env spec) (\<lambda>_. ret no_output) y)" if "?R x y" for x y spec
    using that by (intro agree_intros sim_create) auto
  show ?thesis
    unfolding op_create_def Let_def split_def
    by (rule agree_and_then_weaken [where P = "(=)" and R = ?R], intro agree_intros, simp add: assms, simp, simp)
      (rule agree_and_then_weaken [where P = "(=)" and R = ?R], intro agree_intros, simp, simp, simp,
       rule agree_and_then_weaken [where P = "(=)" and R = ?R], intro agree_intros, simp, simp, simp,
       rule agree_and_then_weaken [where P = "(=)" and R = ?R], intro agree_intros, simp, simp, simp,
       rule create, simp)
qed

lemma op_list_agrees:
  assumes "R a b"
  shows "agree same_output R (op_list show_ts A input a) (op_list show_ts B input b)"
proof -
  have "same_output (tasks_output (map (task_summary show_ts) xs)) (tasks_output (map (task_summary show_ts) ys))"
    if same: "mset (map core_of xs) = mset (map core_of ys)" for xs ys
  proof -
    have core: "task_summary show_ts (core_of r) = task_summary show_ts r" for r
      by (simp add: task_summary_def core_of_def)
    have "mset (map (task_summary show_ts) zs) = image_mset (task_summary show_ts) (mset (map core_of zs))" for zs
      by (simp add: image_mset.compositionality comp_def core)
    then show ?thesis
      unfolding same_output_def using same by metis
  qed
  then have listed: "agree same_output R
      (and_then (ts_list_for_session A s) (\<lambda>ts. ret (tasks_output (map (task_summary show_ts) ts))) x)
      (and_then (ts_list_for_session B s) (\<lambda>ts. ret (tasks_output (map (task_summary show_ts) ts))) y)"
    if "R x y" for s x y
    by (intro agree_and_then [where P = "\<lambda>xs ys. mset (map core_of xs) = mset (map core_of ys)"] sim_list that agree_ret)
  show ?thesis
    unfolding op_list_def split_def tasks_output_def [symmetric]
    by (rule agree_and_then_eq, rule agree_target, rule assms, rule listed)
qed

lemma op_set_status_agrees: "R a b \<Longrightarrow> agree (=) R (op_set_status A env payload st a) (op_set_status B env payload st b)"
  unfolding op_set_status_def by (intro agree_intros sim_set_status) auto

lemma op_update_agrees: "R a b \<Longrightarrow> agree (=) R (op_update lib A env payload a) (op_update lib B env payload b)"
proof -
  have upd: "agree (=) R (and_then (ts_update A env i f) (\<lambda>_. ret no_output) x)
      (and_then (ts_update B env i f) (\<lambda>_. ret no_output) y)" if "R x y" for i f x y
    by (rule agree_and_then, rule sim_update, rule that, rule agree_ret) simp_all
  have inherit: "agree (=) R (and_then (ts_get A i) (\<lambda>t. ret (Option.bind t tr_recurrence)) x)
      (and_then (ts_get B i) (\<lambda>t. ret (Option.bind t tr_recurrence)) y)" if "R x y" for i x y
  proof (rule agree_and_then, rule sim_get, rule that)
    fix u v s t assume "map_option core_of u = map_option core_of v" and "R s t"
    moreover from this have "Option.bind u tr_recurrence = Option.bind v tr_recurrence"
      by (cases u; cases v) (auto simp: core_of_def dest: arg_cong [where f = tr_recurrence])
    ultimately show "agree (=) R (ret (Option.bind u tr_recurrence) s) (ret (Option.bind v tr_recurrence) t)"
      by (simp add: agree_ret)
  qed
  have next_fire: "agree (=) R
      ((case w of None \<Rightarrow> ret None
        | Some w \<Rightarrow> and_then (parse_schedule lib env what w) (\<lambda>parsed. and_then
            (case v of Some v \<Rightarrow> ret v | None \<Rightarrow> and_then (ts_get A i) (\<lambda>t. ret (Option.bind t tr_recurrence)))
            (\<lambda>effective. ret (Some (compute_next_fire lib parsed (ce_now env) effective))))) x)
      ((case w of None \<Rightarrow> ret None
        | Some w \<Rightarrow> and_then (parse_schedule lib env what w) (\<lambda>parsed. and_then
            (case v of Some v \<Rightarrow> ret v | None \<Rightarrow> and_then (ts_get B i) (\<lambda>t. ret (Option.bind t tr_recurrence)))
            (\<lambda>effective. ret (Some (compute_next_fire lib parsed (ce_now env) effective))))) y)"
    if "R x y" for x y w v i what
    using that by (cases w; cases v) (auto intro!: agree_and_then_eq agree_parse_schedule agree_ret inherit)
  show "R a b \<Longrightarrow> agree (=) R (op_update lib A env payload a) (op_update lib B env payload b)"
    unfolding op_update_def Let_def
    by - (rule agree_and_then_eq, rule agree_ok_or, assumption, rule agree_and_then_eq, rule next_fire, assumption, rule upd)
qed

lemma handle_agrees:
  assumes "R a b" and "fresh_task_id env \<notin> ids a"
  shows "agree same_output R (schedule_handle lib show_ts A env input a) (schedule_handle lib show_ts B env input b)"
proof -
  let ?R = "\<lambda>x y. R x y \<and> fresh_task_id env \<notin> ids x"
  have eq: "agree (=) R u v \<Longrightarrow> agree same_output R u v" for u v
    by (erule agree_mono) (simp add: same_output_def)
  show ?thesis
    unfolding schedule_handle_def Let_def
    by (rule agree_and_then_weaken [where P = "(=)" and R = ?R], rule agree_ok_or, simp add: assms, simp)
      (auto intro!: eq op_create_agrees op_list_agrees op_set_status_agrees op_update_agrees agree_throw split: option.splits)
qed

lemma handle_grows: "always (grows_by ids (fresh_task_id env)) (schedule_handle lib show_ts A env input)"
  unfolding schedule_handle_def op_create_def op_list_def op_set_status_def op_update_def
    target_session_and_group_def parse_schedule_def ok_or_def Let_def
  by (intro always_intros ids_create ids_get ids_list ids_set_status ids_update)

lemma run_agrees:
  assumes "R a b" and "distinct (map (\<lambda>c. fresh_task_id (fst c)) calls)"
    and "\<And>c. c \<in> set calls \<Longrightarrow> fresh_task_id (fst c) \<notin> ids a"
  shows "rel_prod (list_all2 (rel_sum same_fault same_output)) R
    (run_actions lib show_ts A calls a) (run_actions lib show_ts B calls b)"
  using assms
proof (induction calls arbitrary: a b)
  case (Cons c calls)
  obtain env input where c: "c = (env, input)"
    by (cases c)
  obtain r a' where ra: "schedule_handle lib show_ts A env input a = (r, a')"
    by (cases "schedule_handle lib show_ts A env input a")
  obtain r' b' where rb: "schedule_handle lib show_ts B env input b = (r', b')"
    by (cases "schedule_handle lib show_ts B env input b")
  have "fresh_task_id env \<notin> ids a"
    using Cons.prems(3) [of c] c by simp
  then have one: "rel_sum same_fault same_output r r'" "R a' b'"
    using handle_agrees [OF Cons.prems(1), of env lib show_ts input] by (simp_all add: agree_def ra rb)
  have "ids a' \<subseteq> insert (fresh_task_id env) (ids a)"
    using handle_grows [of env lib show_ts input] by (simp add: always_def grows_by_def) (metis ra snd_conv)
  moreover have "fresh_task_id (fst d) \<notin> ids a" "fresh_task_id (fst d) \<noteq> fresh_task_id env" if "d \<in> set calls" for d
    using Cons.prems(2) Cons.prems(3) [of d] that c by (auto simp: image_iff)
  ultimately have "fresh_task_id (fst d) \<notin> ids a'" if "d \<in> set calls" for d
    using that by blast
  then have "rel_prod (list_all2 (rel_sum same_fault same_output)) R
      (run_actions lib show_ts A calls a') (run_actions lib show_ts B calls b')"
    using Cons.IH [OF one(2)] Cons.prems(2) by simp
  with one show ?case
    by (auto simp: c ra rb rel_prod_sel split: prod.splits)
qed simp

end

text \<open>The store on the table and the store in memory.\<close>

definition store_rel :: "Task list \<Rightarrow> task_map \<Rightarrow> bool" where
  "store_rel t m \<longleftrightarrow>
     tasks_wf t \<and> distinct (map fst m) \<and>
     (\<forall>i. map_option core_of (map_of m i) = map_option (\<lambda>r. core_of (row_to_module r)) (get_task t i))"

lemma module_status_roundtrip [simp]: "db_to_module_status (module_to_db_status st) = st"
  by (cases st) simp_all

lemma core_of_eqD: "core_of x = core_of y \<Longrightarrow> \<exists>u. x = y\<lparr>tr_updated_at := u\<rparr>"
  by (cases x; cases y) (simp add: core_of_def)

lemma core_of_touch [simp]: "core_of (x\<lparr>tr_updated_at := u\<rparr>) = core_of x"
  by (simp add: core_of_def)

lemma store_rel_cases:
  assumes "store_rel t m"
  obtains (absent) "get_task t i = None" "i \<notin> tk_id ` set t" "map_of m i = None"
  | (present) r u where "get_task t i = Some r" "i \<in> tk_id ` set t"
      "map_of m i = Some ((row_to_module r)\<lparr>tr_updated_at := u\<rparr>)"
proof -
  have eq: "map_option core_of (map_of m i) = map_option (\<lambda>r. core_of (row_to_module r)) (get_task t i)"
    using assms by (simp add: store_rel_def)
  show ?thesis
  proof (cases "get_task t i")
    case None
    then have "i \<notin> tk_id ` set t" "map_of m i = None"
      using eq get_task_None_iff [of t i] by simp_all
    then show ?thesis
      using None absent by blast
  next
    case (Some r)
    then obtain x where "map_of m i = Some x" "core_of x = core_of (row_to_module r)"
      using eq by auto
    then show ?thesis
      using Some get_task_in [OF Some] present by (force dest: core_of_eqD)
  qed
qed

lemma store_rel_mset:
  assumes "store_rel t m"
  shows "mset (map (\<lambda>r. core_of (row_to_module r)) t) = mset (map (\<lambda>e. core_of (snd e)) m)"
proof -
  let ?ts = "map (\<lambda>r. (tk_id r, core_of (row_to_module r))) t" and ?ms = "map (\<lambda>(i, x). (i, core_of x)) m"
  have wf: "tasks_wf t" and dm: "distinct (map fst ?ms)"
    using assms by (simp_all add: store_rel_def comp_def split_def)
  have d: "distinct ?ts" "distinct ?ms"
    using wf dm by (auto simp: tasks_wf_def distinct_map inj_on_def)
  have "(i, x) \<in> set ?ms \<longleftrightarrow> (i, x) \<in> set ?ts" for i x
  proof -
    have "(i, x) \<in> set ?ms \<longleftrightarrow> map_of ?ms i = Some x"
      using dm by simp
    also have "\<dots> \<longleftrightarrow> map_option core_of (map_of m i) = Some x"
      by (simp add: map_of_map)
    also have "\<dots> \<longleftrightarrow> (\<exists>r. get_task t i = Some r \<and> core_of (row_to_module r) = x)"
      using assms by (auto simp: store_rel_def)
    also have "\<dots> \<longleftrightarrow> (i, x) \<in> set ?ts"
      using wf by (auto simp: get_task_iff)
    finally show ?thesis .
  qed
  then have "set ?ms = set ?ts"
    by (intro set_eqI) (simp only: split_paired_all)
  then have "mset ?ms = mset ?ts"
    using d set_eq_iff_mset_eq_distinct by blast
  then have "image_mset snd (mset ?ms) = image_mset snd (mset ?ts)" by simp
  then show ?thesis by (simp add: image_mset.compositionality comp_def split_def)
qed

lemma store_rel_update_row:
  assumes rel: "store_rel t m" and id: "\<And>r. tk_id (f r) = tk_id r" and r: "get_task t i = Some r"
    and y: "core_of (row_to_module (f r)) = core_of y"
  shows "store_rel (map (\<lambda>r. if tk_id r = i then f r else r) t) (AList.update i y m)"
proof -
  have "map tk_id (map (\<lambda>r. if tk_id r = i then f r else r) t) = map tk_id t"
    by (simp add: id)
  then have "tasks_wf (map (\<lambda>r. if tk_id r = i then f r else r) t)"
    using rel by (metis tasks_wf_def store_rel_def)
  then show ?thesis
    using rel r y by (simp add: store_rel_def get_task_update id update_conv' distinct_update)
qed

text \<open>The statements of \<open>update_task\<close> as one update of the row.\<close>

definition patch_row :: "UpdateFields \<Rightarrow> instant \<Rightarrow> Task \<Rightarrow> Task" where
  "patch_row upd now r =
     (let step = (\<lambda>f r. (f r)\<lparr>tk_updated_at := now\<rparr>);
          r1 = (case uf_prompt upd of Some x \<Rightarrow> step (\<lambda>r. r\<lparr>tk_prompt := x\<rparr>) r | None \<Rightarrow> r);
          r2 = (case uf_when_spec upd of Some x \<Rightarrow> step (\<lambda>r. r\<lparr>tk_when_spec := x\<rparr>) r1 | None \<Rightarrow> r1);
          r3 = (case uf_recurrence upd of Some x \<Rightarrow> step (\<lambda>r. r\<lparr>tk_recurrence := x\<rparr>) r2 | None \<Rightarrow> r2)
      in case uf_next_fire upd of Some x \<Rightarrow> step (\<lambda>r. r\<lparr>tk_next_fire := x\<rparr>) r3 | None \<Rightarrow> r3)"

lemma patch_row_id [simp]: "tk_id (patch_row upd now r) = tk_id r"
  by (simp add: patch_row_def Let_def split: option.splits)

lemma update_task_eq:
  "update_task t i upd now =
     (case get_task t i of
        None \<Rightarrow> Inl NotFound
      | Some r \<Rightarrow> Inr (patch_row upd now r, map (\<lambda>r. if tk_id r = i then patch_row upd now r else r) t))"
proof -
  have "set_column (\<lambda>x r. r\<lparr>tk_next_fire := x\<rparr>) (uf_next_fire upd) i now
      (set_column (\<lambda>x r. r\<lparr>tk_recurrence := x\<rparr>) (uf_recurrence upd) i now
        (set_column (\<lambda>x r. r\<lparr>tk_when_spec := x\<rparr>) (uf_when_spec upd) i now
          (set_column (\<lambda>x r. r\<lparr>tk_prompt := x\<rparr>) (uf_prompt upd) i now t))) =
      map (\<lambda>r. if tk_id r = i then patch_row upd now r else r) t"
    by (auto simp: set_column_eq patch_row_def Let_def split: option.splits)
  then show ?thesis
    by (simp add: update_task_def Let_def get_task_update split: option.splits)
qed

lemma create_agrees:
  assumes "store_rel t m" and "fresh_task_id env \<notin> tk_id ` set t"
  shows "agree (=) store_rel (sqlite_create db_text env spec t) (memory_create env spec m)"
proof -
  define nt where "nt = \<lparr>nt_id = fresh_task_id env, nt_agent_group = ct_agent_group spec, nt_session = ct_session spec,
           nt_name = ct_name spec, nt_prompt = ct_prompt spec, nt_when_spec = ct_when_spec spec,
           nt_recurrence = ct_recurrence spec, nt_next_fire = ct_next_fire spec\<rparr>"
  have ins: "insert_task t nt (ce_now env) = Inr (new_task_row nt (ce_now env), t @ [new_task_row nt (ce_now env)])"
    using assms(2) by (simp add: insert_task_def nt_def)
  have "store_rel (t @ [new_task_row nt (ce_now env)])
      (AList.update (fresh_task_id env) (row_to_module (new_task_row nt (ce_now env))) m)"
    using assms(1) tasks_wf_insert [OF ins] get_task_insert [OF ins]
    by (simp add: store_rel_def nt_def update_conv' distinct_update)
  then show ?thesis
    by (simp add: sqlite_create_def memory_create_def table_call_def and_then_def modify_def ret_def agree_def
        Let_def ins nt_def [symmetric])
      (simp add: nt_def new_task_row_def row_to_module_def)
qed

lemma set_status_agrees:
  assumes "store_rel t m"
  shows "agree (=) store_rel (sqlite_set_status db_text env i st t) (memory_set_status env i st m)"
  using assms
proof (cases rule: store_rel_cases [where i = i])
  case absent
  then show ?thesis
    by (simp add: sqlite_set_status_def memory_set_status_def table_call_def with_unit_def set_task_status_def
        update_task_row_cases agree_def reading_def throw_def db_err_to_module_def scheduling_error_def
        task_not_found_def assms)
next
  case (present r u)
  then show ?thesis
    by (simp add: sqlite_set_status_def memory_set_status_def table_call_def with_unit_def set_task_status_def
        update_task_row_cases agree_def reading_def modify_def)
      (rule store_rel_update_row [OF assms _ present(1)], simp,
       simp add: core_of_def row_to_module_def)
qed

lemma update_agrees:
  assumes "store_rel t m"
  shows "agree (\<lambda>x y. core_of x = core_of y) store_rel (sqlite_update db_text env i upd t) (memory_update env i upd m)"
  using assms
proof (cases rule: store_rel_cases [where i = i])
  case absent
  then show ?thesis
    by (simp add: sqlite_update_def memory_update_def table_call_def update_task_eq agree_def reading_def throw_def
        and_then_def db_err_to_module_def scheduling_error_def task_not_found_def assms)
next
  case (present r u)
  define fl where "fl = \<lparr>uf_prompt = ut_prompt upd, uf_when_spec = ut_when_spec upd, uf_recurrence = ut_recurrence upd,
           uf_next_fire = ut_next_fire upd\<rparr>"
  obtain y where y: "memory_update env i upd m = (Inr y, AList.update i y m)"
    and core: "core_of (row_to_module (patch_row fl (ce_now env) r)) = core_of y"
    using present
    by (auto simp: memory_update_def reading_def and_then_def modify_def ret_def Let_def core_of_def row_to_module_def
        patch_row_def fl_def split: option.splits)
  then show ?thesis
    by (simp add: y sqlite_update_def table_call_def update_task_eq present(1) agree_def and_then_def ret_def
        fl_def [symmetric])
      (rule store_rel_update_row [OF assms _ present(1)], simp_all)
qed

lemma list_agrees:
  assumes "store_rel t m"
  shows "agree (\<lambda>xs ys. mset (map core_of xs) = mset (map core_of ys)) store_rel
    (sqlite_list_for_session s t) (memory_list_for_session s m)"
proof -
  let ?T = "mset (map (\<lambda>r. core_of (row_to_module r)) t)" and ?M = "mset (map (\<lambda>e. core_of (snd e)) m)"
  have "mset (map core_of (map row_to_module (list_tasks_for_session t s))) = filter_mset (\<lambda>x. tr_session x = s) ?T"
    by (simp add: list_tasks_for_session_def order_by_def image_mset.compositionality comp_def
        filter_mset_image_mset core_of_def row_to_module_def)
  moreover have "mset (map core_of (sort_key tr_created_at (filter (\<lambda>r. tr_session r = s) (map snd m)))) =
      filter_mset (\<lambda>x. tr_session x = s) ?M"
    by (simp add: filter_mset_image_mset image_mset.compositionality comp_def core_of_def)
  ultimately show ?thesis
    using store_rel_mset [OF assms] assms
    by (simp add: sqlite_list_for_session_def memory_list_for_session_def reading_def ret_def agree_def
        image_mset.compositionality)
qed

lemma get_agrees:
  "store_rel t m \<Longrightarrow> agree (\<lambda>x y. map_option core_of x = map_option core_of y) store_rel (sqlite_get i t) (memory_get i m)"
  by (auto simp: sqlite_get_def memory_get_def reading_def ret_def agree_def store_rel_def option.map_comp comp_def)

lemma table_call_ids:
  "(\<And>t x t'. f t = Inr (x, t') \<Longrightarrow> tk_id ` set t' \<subseteq> insert i (tk_id ` set t)) \<Longrightarrow>
     always (grows_by (\<lambda>t. tk_id ` set t) i) (table_call db_text f)"
  by (auto simp: always_def grows_by_def table_call_def split: sum.splits prod.splits)

interpretation stores: store_simulation "sqlite_store db_text" memory_store store_rel "\<lambda>t. tk_id ` set t" for db_text
proof unfold_locales
  fix a b env spec i s st upd
  assume rel: "store_rel a b"
  show "fresh_task_id env \<notin> tk_id ` set a \<Longrightarrow>
      agree (=) store_rel (ts_create (sqlite_store db_text) env spec a) (ts_create memory_store env spec b)"
    by (simp add: sqlite_store_def memory_store_def create_agrees rel)
  show "agree (\<lambda>x y. map_option core_of x = map_option core_of y) store_rel
      (ts_get (sqlite_store db_text) i a) (ts_get memory_store i b)"
    by (simp add: sqlite_store_def memory_store_def get_agrees rel)
  show "agree (\<lambda>xs ys. mset (map core_of xs) = mset (map core_of ys)) store_rel
      (ts_list_for_session (sqlite_store db_text) s a) (ts_list_for_session memory_store s b)"
    by (simp only: sqlite_store_def memory_store_def TaskStore.simps list_agrees rel)
  show "agree (=) store_rel (ts_set_status (sqlite_store db_text) env i st a) (ts_set_status memory_store env i st b)"
    by (simp add: sqlite_store_def memory_store_def set_status_agrees rel)
  show "agree (\<lambda>x y. core_of x = core_of y) store_rel
      (ts_update (sqlite_store db_text) env i upd a) (ts_update memory_store env i upd b)"
    by (simp add: sqlite_store_def memory_store_def update_agrees rel)
next
  fix env spec i s st upd
  let ?G = "grows_by (\<lambda>t. tk_id ` set t) (fresh_task_id env)"
  show "always ?G (ts_create (sqlite_store db_text) env spec)"
    by (simp add: sqlite_store_def sqlite_create_def)
      (intro always_intros table_call_ids, auto simp: insert_task_def new_task_row_def split: if_splits)
  show "always ?G (ts_get (sqlite_store db_text) i)"
    by (simp add: sqlite_store_def sqlite_get_def) (intro always_intros)
  show "always ?G (ts_list_for_session (sqlite_store db_text) s)"
    by (simp add: sqlite_store_def sqlite_list_for_session_def) (intro always_intros)
  show "always ?G (ts_set_status (sqlite_store db_text) env i st)"
    by (simp add: sqlite_store_def sqlite_set_status_def)
      (intro table_call_ids, auto simp: with_unit_def set_task_status_def update_task_row_cases split: if_splits)
  show "always ?G (ts_update (sqlite_store db_text) env i upd)"
    by (simp add: sqlite_store_def sqlite_update_def)
      (intro always_intros table_call_ids, auto simp: update_task_eq split: option.splits)
qed

section \<open>Properties\<close>


definition sample_lib :: ScheduleLib where
  "sample_lib = \<lparr>sl_rfc3339 = (\<lambda>_. Some 60000), sl_cron_ok = (\<lambda>_. True), sl_cron_next = (\<lambda>_ now. Some (now + 60000)),
     sl_max_utc = 8210266876799999\<rparr>"

definition sample_action :: "string \<Rightarrow> (string \<times> string) list \<Rightarrow> DeliveryActionInput" where
  "sample_action op args =
     \<lparr>ai_action = lit ''schedule'',
      ai_payload = JObject [(lit ''op'', JString (lit op)),
        (lit ''payload'', JObject (map (\<lambda>(k, v). (lit k, JString (lit v))) args))],
      ai_target = \<lparr>dt_channel_type = None, dt_platform_id = None, dt_thread_id = None, dt_agent_group = Some 1\<rparr>,
      ai_session = Some (lit ''s''), ai_row = None\<rparr>"

definition sample_calls :: "(CallEnv \<times> DeliveryActionInput) list" where
  "sample_calls =
     [(\<lparr>ce_now = 0, ce_uuid = lit ''1''\<rparr>, sample_action ''create'' [(''prompt'', ''p''), (''when'', ''x'')]),
      (\<lparr>ce_now = 5, ce_uuid = lit ''2''\<rparr>, sample_action ''cancel'' [(''id'', ''task_1'')]),
      (\<lparr>ce_now = 7, ce_uuid = lit ''3''\<rparr>, sample_action ''cancel'' [(''id'', ''task_9'')])]"

lemma sample_parse: "parse_when sample_lib now (lit ''x'') = Some (Inr (At 60000))"
  by (simp add: parse_when_def sample_lib_def trim_no_whitespace lit_def is_whitespace_def)

lemma sample_run:
  "map (\<lambda>r. (tk_id r, tk_next_fire r, tk_status r)) (snd (run_actions sample_lib (\<lambda>_. []) (sqlite_store (\<lambda>_. [])) sample_calls [])) =
     [(lit ''task_1'', Some 60000, CancelledTask)]"
proof -
  have ids: "lit ''task_'' @ lit ''1'' = lit ''task_1''" "lit ''task_'' @ lit ''2'' = lit ''task_2''"
    by (simp_all add: lit_def)
  show ?thesis
    by (simp add: sample_calls_def sample_action_def schedule_handle_def str_field_def json_get_def json_as_str_def
        ok_or_def and_then_def ret_def throw_def op_create_def op_set_status_def target_session_and_group_def
        parse_schedule_def sample_parse not_blank_def compute_next_fire_def sqlite_store_def sqlite_create_def
        sqlite_set_status_def table_call_def with_unit_def insert_task_def new_task_row_def set_task_status_def
        update_task_row_cases fresh_task_id_def no_output_def Let_def ids)
qed

lemma sample_calls_fresh: "distinct (map (\<lambda>c. fresh_task_id (fst c)) sample_calls)"
  by (simp add: sample_calls_def fresh_task_id_def)

lemma store_rel_empty: "store_rel [] []"
  by (simp add: store_rel_def tasks_wf_def get_task_def)


end
