(* ===== verification/Questions.thy ===== *)
theory Questions
  imports Task_Store "HOL-Library.List_Lexorder"
begin

text \<open>
  Questions to the user and cards (\<open>copperclaw-modules/src/interactive.rs\<close>): the pending questions with their expiry,
  and the delivery actions \<open>ask_user_question\<close>, \<open>send_card\<close>, \<open>edit\<close> and \<open>reaction\<close>. An instant counts milliseconds.
  The pending questions are an association list by id, whose order stands for the hash map's iteration order.

  A question leaves the pending set by its expiry only, so it is reported as expired at most once, and an answered
  one never.
\<close>

record QuestionOrigin =
  qo_session :: "SessionId option"
  qo_agent_group :: "AgentGroupId option"
  qo_message_out :: "MessageId option"
  qo_channel_type :: "ChannelType option"
  qo_platform_id :: "ustring option"
  qo_thread_id :: "ustring option"

record PendingQuestion =
  q_id :: ustring
  q_title :: ustring
  q_options :: "ustring list"
  q_asked_at :: instant
  q_timeout_at :: instant
  q_answered :: "ustring option"
  q_origin :: QuestionOrigin

type_synonym questions = "(ustring \<times> PendingQuestion) list"

definition DEFAULT_TIMEOUT :: duration where "DEFAULT_TIMEOUT = 24 * 60 * 60 * 1000"

definition is_expired :: "instant \<Rightarrow> PendingQuestion \<Rightarrow> bool" where
  "is_expired now q \<longleftrightarrow> q_answered q = None \<and> now \<ge> q_timeout_at q"

definition ask ::
  "duration \<Rightarrow> questions \<Rightarrow> ustring \<Rightarrow> ustring \<Rightarrow> ustring list \<Rightarrow> QuestionOrigin \<Rightarrow> instant \<Rightarrow> PendingQuestion \<times> questions" where
  "ask timeout qs i title opts origin now =
     (let q = \<lparr>q_id = i, q_title = title, q_options = opts, q_asked_at = now, q_timeout_at = now + timeout,
               q_answered = None, q_origin = origin\<rparr>
      in (q, AList.update i q qs))"

definition answer :: "questions \<Rightarrow> ustring \<Rightarrow> ustring \<Rightarrow> bool \<times> questions" where
  "answer qs i reply =
     (case map_of qs i of
        Some q \<Rightarrow> if q_answered q = None then (True, AList.update i (q\<lparr>q_answered := Some reply\<rparr>) qs) else (False, qs)
      | None \<Rightarrow> (False, qs))"

definition get_question :: "questions \<Rightarrow> ustring \<Rightarrow> PendingQuestion option" where
  "get_question qs i = map_of qs i"

definition pending_questions :: "questions \<Rightarrow> PendingQuestion list" where
  "pending_questions qs = map snd qs"

text \<open>The loop that removes the expired ids and collects what it removed.\<close>

fun take_out :: "ustring list \<Rightarrow> questions \<Rightarrow> PendingQuestion list \<times> questions" where
  "take_out [] qs = ([], qs)"
| "take_out (i # ids) qs =
     (case map_of qs i of
        Some q \<Rightarrow> (let (rest, qs') = take_out ids (AList.delete i qs) in (q # rest, qs'))
      | None \<Rightarrow> take_out ids qs)"

text \<open>Sorting by the time of asking and then by id is a stable sort by id followed by one by time.\<close>

definition sweep_expired :: "instant \<Rightarrow> questions \<Rightarrow> PendingQuestion list \<times> questions" where
  "sweep_expired now qs =
     (let expired_ids = map fst (filter (\<lambda>(_, q). is_expired now q) qs);
          (expired, qs') = take_out expired_ids qs
      in (sort_key q_asked_at (sort_key q_id expired), qs'))"

section \<open>Delivery actions\<close>

definition interactive_error :: "string \<Rightarrow> fault" where
  "interactive_error reason = Fails (OtherFailure (lit ''interactive'') (lit reason))"

definition dispatch_from_payload :: "json \<Rightarrow> DispatchTarget option" where
  "dispatch_from_payload payload =
     (case json_get payload (lit ''to'') of
        None \<Rightarrow> None
      | Some to \<Rightarrow>
          (case (str_field to ''channel_type'', str_field to ''platform_id'') of
             (Some ct, Some pid) \<Rightarrow>
               Some \<lparr>dt_channel_type = Some ct, dt_platform_id = Some pid, dt_thread_id = str_field to ''thread_id'',
                     dt_agent_group = None\<rparr>
           | _ \<Rightarrow> None))"

definition string_elements :: "json option \<Rightarrow> ustring list" where
  "string_elements v = (case v of Some (JArray a) \<Rightarrow> List.map_filter json_as_str a | _ \<Rightarrow> [])"

text \<open>\<open>get("id").or_else(|| get("question_id"))\<close>, then \<open>as_str\<close>: an \<open>id\<close> that is no string is an error.\<close>

definition question_id_of :: "json \<Rightarrow> ustring option" where
  "question_id_of payload =
     Option.bind (case json_get payload (lit ''id'') of Some v \<Rightarrow> Some v | None \<Rightarrow> json_get payload (lit ''question_id''))
       json_as_str"

definition ask_handle ::
  "duration \<Rightarrow> instant \<Rightarrow> DeliveryActionInput \<Rightarrow> (questions, fault, DeliveryActionOutput) stateful" where
  "ask_handle timeout now input =
     (let payload = ai_payload input in
      and_then (ok_or (interactive_error ''missing question id (`id`)'') (question_id_of payload)) (\<lambda>i.
      and_then (ok_or (interactive_error ''missing title'') (str_field payload ''title'')) (\<lambda>title.
        let opts = string_elements (json_get payload (lit ''options'')) in
        if opts = [] then throw (interactive_error ''ask_user_question requires at least one option'')
        else
          let dispatch = dispatch_from_payload payload;
              routed = (case dispatch of Some d \<Rightarrow> d | None \<Rightarrow> ai_target input);
              origin = \<lparr>qo_session = ai_session input, qo_agent_group = dt_agent_group (ai_target input),
                        qo_message_out = ai_row input, qo_channel_type = dt_channel_type routed,
                        qo_platform_id = dt_platform_id routed, qo_thread_id = dt_thread_id routed\<rparr>
          in and_then (modify (\<lambda>qs. snd (ask timeout qs i title opts origin now))) (\<lambda>_.
             ret \<lparr>ao_dispatch = dispatch,
                  ao_message = Some \<lparr>om_kind = Chat,
                    om_content = JObject [(lit ''card'', JObject
                      [(lit ''type'', JString (lit ''question'')), (lit ''question_id'', JString i),
                       (lit ''title'', JString title), (lit ''options'', JArray (map JString opts))])],
                    om_files = []\<rparr>\<rparr>))))"

definition chat_text :: "ustring \<Rightarrow> OutboundMessage" where
  "chat_text t = \<lparr>om_kind = Chat, om_content = JObject [(lit ''text'', JString t)], om_files = []\<rparr>"

definition dispatch_or_target :: "DeliveryActionInput \<Rightarrow> DispatchTarget option" where
  "dispatch_or_target input =
     (case dispatch_from_payload (ai_payload input) of Some d \<Rightarrow> Some d | None \<Rightarrow> Some (ai_target input))"

definition edit_handle :: "DeliveryActionInput \<Rightarrow> ('s, fault, DeliveryActionOutput) stateful" where
  "edit_handle input =
     and_then (ok_or (interactive_error ''edit payload missing text'') (str_field (ai_payload input) ''text'')) (\<lambda>t.
       ret \<lparr>ao_dispatch = dispatch_or_target input, ao_message = Some (chat_text (lit ''(edit) '' @ t))\<rparr>)"

definition reaction_handle :: "DeliveryActionInput \<Rightarrow> ('s, fault, DeliveryActionOutput) stateful" where
  "reaction_handle input =
     and_then (ok_or (interactive_error ''reaction payload missing emoji'') (str_field (ai_payload input) ''emoji'')) (\<lambda>e.
       ret \<lparr>ao_dispatch = dispatch_or_target input,
            ao_message = Some (chat_text (lit ''(reaction: '' @ e @ lit '')''))\<rparr>)"

definition card_handle :: "DeliveryActionInput \<Rightarrow> ('s, fault, DeliveryActionOutput) stateful" where
  "card_handle input =
     and_then (ok_or (interactive_error ''missing card payload'') (json_get (ai_payload input) (lit ''card''))) (\<lambda>card.
       ret \<lparr>ao_dispatch = dispatch_from_payload (ai_payload input),
            ao_message = Some \<lparr>om_kind = Chat, om_content = JObject [(lit ''card'', card)], om_files = []\<rparr>\<rparr>)"

section \<open>Expiry\<close>

definition questions_wf :: "questions \<Rightarrow> bool" where
  "questions_wf qs \<longleftrightarrow> distinct (map fst qs) \<and> (\<forall>(i, q) \<in> set qs. q_id q = i)"

lemma take_out_eq:
  assumes "distinct (map fst qs)" and "distinct ids" and "set ids \<subseteq> fst ` set qs"
  shows "take_out ids qs = (map (\<lambda>i. the (map_of qs i)) ids, filter (\<lambda>e. fst e \<notin> set ids) qs)"
  using assms
proof (induction ids arbitrary: qs)
  case (Cons i ids)
  then obtain q where q: "map_of qs i = Some q"
    by (metis insert_subset list.set(2) map_of_eq_None_iff not_None_eq)
  let ?qs = "AList.delete i qs"
  have del: "?qs = filter (\<lambda>e. fst e \<noteq> i) qs"
    by (auto simp: AList.delete_eq split_def intro: filter_cong)
  have sub: "set ids \<subseteq> fst ` set ?qs"
  proof
    fix j assume j: "j \<in> set ids"
    then obtain e where "e \<in> set qs" "fst e = j" "j \<noteq> i"
      using Cons.prems(2,3) by fastforce
    then show "j \<in> fst ` set ?qs"
      by (auto simp: del)
  qed
  have "distinct (map fst ?qs)"
    using Cons.prems(1) by (simp add: del distinct_map_filter)
  then have "take_out ids ?qs = (map (\<lambda>j. the (map_of ?qs j)) ids, filter (\<lambda>e. fst e \<notin> set ids) ?qs)"
    using Cons.IH Cons.prems(2) sub by auto
  moreover have "map (\<lambda>j. the (map_of ?qs j)) ids = map (\<lambda>j. the (map_of qs j)) ids"
    using Cons.prems(2) by (auto simp: delete_conv')
  moreover have "filter (\<lambda>e. fst e \<notin> set ids) ?qs = filter (\<lambda>e. fst e \<notin> set (i # ids)) qs"
    by (simp add: del conj_commute)
  ultimately show ?case
    using q by simp
qed simp

lemma sweep_expired_eq:
  assumes "questions_wf qs"
  shows "set (fst (sweep_expired now qs)) = {q \<in> set (map snd qs). is_expired now q}"
    and "distinct (map q_id (fst (sweep_expired now qs)))"
    and "snd (sweep_expired now qs) = filter (\<lambda>(_, q). \<not> is_expired now q) qs"
proof -
  let ?ex = "filter (\<lambda>(_, q). is_expired now q) qs"
  let ?ids = "map fst ?ex"
  have d: "distinct (map fst qs)"
    using assms by (simp add: questions_wf_def)
  have dx: "distinct ?ids"
    using d by (simp add: distinct_map_filter)
  have out: "take_out ?ids qs = (map (\<lambda>i. the (map_of qs i)) ?ids, filter (\<lambda>e. fst e \<notin> set ?ids) qs)"
    by (rule take_out_eq [OF d dx]) auto
  have vals: "map (\<lambda>i. the (map_of qs i)) ?ids = map snd ?ex"
    using d by (auto simp: map_of_is_SomeI)
  have keep: "filter (\<lambda>e. fst e \<notin> set ?ids) qs = filter (\<lambda>(_, q). \<not> is_expired now q) qs"
  proof (rule filter_cong)
    fix e assume "e \<in> set qs"
    then show "(fst e \<notin> set ?ids) = (case e of (_, q) \<Rightarrow> \<not> is_expired now q)"
      using d by (auto simp: image_iff split_def) (metis d eq_key_imp_eq_value prod.collapse)
  qed simp
  have fe: "fst (sweep_expired now qs) = sort_key q_asked_at (sort_key q_id (map snd ?ex))"
    unfolding sweep_expired_def Let_def out vals by simp
  show "set (fst (sweep_expired now qs)) = {q \<in> set (map snd qs). is_expired now q}"
    unfolding fe by force
  have "map q_id (map snd ?ex) = ?ids"
    using assms by (auto simp: questions_wf_def)
  then have "distinct (map q_id (map snd ?ex))"
    using dx by metis
  then show "distinct (map q_id (fst (sweep_expired now qs)))"
    unfolding fe using mset_eq_imp_distinct_iff [of "map q_id (map snd ?ex)" "map q_id (sort_key q_asked_at (sort_key q_id (map snd ?ex)))"]
    by (simp add: image_mset.compositionality)
  show "snd (sweep_expired now qs) = filter (\<lambda>(_, q). \<not> is_expired now q) qs"
    unfolding sweep_expired_def Let_def out keep by simp
qed

text \<open>The documented idempotence: a second sweep at the same instant finds nothing.\<close>

lemma sweep_expired_idempotent:
  assumes "questions_wf qs"
  shows "fst (sweep_expired now (snd (sweep_expired now qs))) = []"
proof -
  have wf: "questions_wf (filter (\<lambda>(_, q). \<not> is_expired now q) qs)"
    using assms by (auto simp: questions_wf_def distinct_map_filter)
  have "set (fst (sweep_expired now (filter (\<lambda>(_, q). \<not> is_expired now q) qs))) = {}"
    unfolding sweep_expired_eq(1) [OF wf] by auto
  then show ?thesis
    by (simp add: sweep_expired_eq(3) [OF assms])
qed

end
