(* ===== verification/Sweep.thy ===== *)
theory Sweep
  imports Goals Conditions Questions
begin

text \<open>
  The periodic sweep (\<open>copperclaw-host-sweep/src\<close>): the service of \<open>service.rs\<close> and its checks, one section each
  (\<open>checks/integrity.rs\<close>, \<open>heartbeat.rs\<close>, \<open>stuck.rs\<close>, \<open>processing.rs\<close>, \<open>scheduling.rs\<close>, \<open>recurrence.rs\<close>,
  \<open>goals.rs\<close>, \<open>condition_checkin.rs\<close>, \<open>questions.rs\<close>, \<open>wake.rs\<close>, \<open>apology.rs\<close>), with \<open>spawn_tracker.rs\<close> and the
  tables \<open>container_state\<close> and \<open>audit_log\<close>. An instant counts milliseconds.

  The state is the central tables, the databases of every session, and what the service keeps in memory
  (\<open>SweepState\<close>). What a pass reads from outside is \<open>SweepEnv\<close>: the clock, the answers of the file system and of
  \<open>PRAGMA quick_check\<close>, which databases fail to open, fresh ids, and texts of third-party types. A database that opens
  answers its statements. The metrics are kept where they count events; gauges, histograms and log lines are left
  out. A panic passes through the handlers of the service, which catch errors only.
\<close>

section \<open>State\<close>

datatype SweepError = SweepDb DbError | SweepSqlite ustring | ScheduleParse ustring | SweepIo ustring | SweepPanic

record ContainerState =
  current_tool :: "ustring option"
  tool_declared_timeout_ms :: "int option"
  tool_started_at :: "instant option"
  cst_updated_at :: "instant option"

datatype QuickCheckOutcome = Healthy | MissingDb | Corrupt ustring

text \<open>The files of one session: its two databases and the quarantine marker beside its directory.\<close>

record SessionDbs =
  sd_in :: "MessageInRow list"
  sd_out :: "MessageOutRow list"
  sd_acks :: "AckRow list"
  sd_container :: "ContainerState option"
  sd_sidecar :: "json option"

record AuditEntry =
  au_ts :: instant
  au_caller_kind :: ustring
  au_caller_session :: "ustring option"
  au_caller_agent_group :: "AgentGroupId option"
  au_command :: ustring
  au_args :: json
  au_result :: ustring
  au_error_code :: "ustring option"
  au_error_message :: "ustring option"
  au_latency_ms :: int

record SweepState =
  sw_sessions :: "Session list"
  sw_tasks :: "Task list"
  sw_goals :: "Goal list"
  sw_grants :: "TaskGrant list"
  sw_conditions :: "StoredCondition list"
  sw_flags :: "ConditionFlag list"
  sw_audit :: "AuditEntry list"
  sw_dbs :: "AgentGroupId \<Rightarrow> SessionId \<Rightarrow> SessionDbs"
  sw_store :: ConditionStore
  sw_questions :: "questions option"
  sw_spawn :: "SessionId \<Rightarrow> 32 word option"
  sw_pass :: "64 word"
  sw_central_last :: "instant option"
  sw_ids :: nat
  sw_metrics :: "(ustring \<times> ustring) list"

datatype HeartbeatFile = NoHeartbeat | HeartbeatError ustring | ModifiedAt instant

record SweepEnv =
  sv_now :: instant
  sv_wall :: instant
  sv_lib :: ScheduleLib
  sv_in_error :: "AgentGroupId \<Rightarrow> SessionId \<Rightarrow> SweepError option"
  sv_out_error :: "AgentGroupId \<Rightarrow> SessionId \<Rightarrow> SweepError option"
  sv_heartbeat :: "AgentGroupId \<Rightarrow> SessionId \<Rightarrow> HeartbeatFile"
  sv_probe :: "AgentGroupId \<Rightarrow> SessionId \<Rightarrow> ustring \<Rightarrow> QuickCheckOutcome"
  sv_central_probe :: "QuickCheckOutcome option"
  sv_sidecar_error :: "AgentGroupId \<Rightarrow> SessionId \<Rightarrow> SweepError option"
  sv_id :: "nat \<Rightarrow> MessageId"
  sv_uuid_text :: "MessageId \<Rightarrow> ustring"
  sv_u128 :: "SessionId \<Rightarrow> nat"
  sv_show_ts :: "instant \<Rightarrow> ustring"
  sv_show_json :: "json \<Rightarrow> ustring"
  sv_alerts_enabled :: bool

type_synonym 'a sweep = "(SweepState, SweepError, 'a) stateful"

definition CLAIM_STUCK_MS :: int where "CLAIM_STUCK_MS = 60000"
definition TOOL_CEILING_MS :: int where "TOOL_CEILING_MS = 1800000"
definition HEARTBEAT_STALE_MS :: int where "HEARTBEAT_STALE_MS = 90000"
definition APOLOGY_AFTER_SECS :: int where "APOLOGY_AFTER_SECS = 300"
definition SPAWN_FAIL_THRESHOLD :: "32 word" where "SPAWN_FAIL_THRESHOLD = 3"
definition INTEGRITY_ROTATION_SLOTS :: nat where "INTEGRITY_ROTATION_SLOTS = 60"

section \<open>Elementary effects\<close>

definition count_metric :: "string \<Rightarrow> ustring \<Rightarrow> unit sweep" where
  "count_metric name label = modify (\<lambda>st. st\<lparr>sw_metrics := sw_metrics st @ [(lit name, label)]\<rparr>)"

definition new_message_id :: "SweepEnv \<Rightarrow> MessageId sweep" where
  "new_message_id env = (\<lambda>st. (Inr (sv_id env (sw_ids st)), st\<lparr>sw_ids := sw_ids st + 1\<rparr>))"

definition update_dbs ::
  "AgentGroupId \<Rightarrow> SessionId \<Rightarrow> (SessionDbs \<Rightarrow> SessionDbs) \<Rightarrow> SweepState \<Rightarrow> SweepState" where
  "update_dbs ag s f st = st\<lparr>sw_dbs := (sw_dbs st)(ag := (sw_dbs st ag)(s := f (sw_dbs st ag s)))\<rparr>"

text \<open>\<open>SessionRoot::inbound_pool\<close> and \<open>outbound_pool\<close>.\<close>

definition open_db :: "(AgentGroupId \<Rightarrow> SessionId \<Rightarrow> SweepError option) \<Rightarrow> AgentGroupId \<Rightarrow> SessionId \<Rightarrow> unit sweep" where
  "open_db err ag s = (case err ag s of Some e \<Rightarrow> throw e | None \<Rightarrow> ret ())"

definition insert_inbound :: "AgentGroupId \<Rightarrow> SessionId \<Rightarrow> WriteInbound \<Rightarrow> unit sweep" where
  "insert_inbound ag s w =
     (\<lambda>st. case insert_in (sd_in (sw_dbs st ag s)) w of
        Inl e \<Rightarrow> (Inl (SweepDb e), st)
      | Inr (_, t) \<Rightarrow> (Inr (), update_dbs ag s (\<lambda>d. d\<lparr>sd_in := t\<rparr>) st))"

definition insert_outbound :: "AgentGroupId \<Rightarrow> SessionId \<Rightarrow> WriteOutbound \<Rightarrow> unit sweep" where
  "insert_outbound ag s w =
     (\<lambda>st. case insert_out (sd_out (sw_dbs st ag s)) w of
        Inl e \<Rightarrow> (Inl (SweepDb e), st)
      | Inr (_, t) \<Rightarrow> (Inr (), update_dbs ag s (\<lambda>d. d\<lparr>sd_out := t\<rparr>) st))"

definition on_tasks :: "(Task list \<Rightarrow> DbError + Task list) \<Rightarrow> unit sweep" where
  "on_tasks f = (\<lambda>st. case f (sw_tasks st) of Inl e \<Rightarrow> (Inl (SweepDb e), st) | Inr t \<Rightarrow> (Inr (), st\<lparr>sw_tasks := t\<rparr>))"

definition on_goals :: "(Goal list \<Rightarrow> DbError + Goal list) \<Rightarrow> unit sweep" where
  "on_goals f = (\<lambda>st. case f (sw_goals st) of Inl e \<Rightarrow> (Inl (SweepDb e), st) | Inr t \<Rightarrow> (Inr (), st\<lparr>sw_goals := t\<rparr>))"

text \<open>\<open>match m { Ok(x) => ..., Err(e) => log }\<close>: errors are handled, a panic unwinds.\<close>

definition attempt :: "'a sweep \<Rightarrow> (SweepError + 'a \<Rightarrow> 'b sweep) \<Rightarrow> 'b sweep" where
  "attempt m k = with_result m (\<lambda>r. case r of Inl SweepPanic \<Rightarrow> throw SweepPanic | _ \<Rightarrow> k r)"

definition or_log :: "'a \<Rightarrow> 'a sweep \<Rightarrow> 'a sweep" where
  "or_log d m = attempt m (\<lambda>r. case r of Inr x \<Rightarrow> ret x | Inl _ \<Rightarrow> ret d)"

text \<open>The \<open>kind: task\<close> row that wakes a session, as the three fan-outs write it.\<close>

definition wake_row :: "MessageId \<Rightarrow> instant \<Rightarrow> json \<Rightarrow> ustring \<Rightarrow> WriteInbound" where
  "wake_row i now content series =
     \<lparr>w_id = i, w_kind = MessageKind.Task, w_timestamp = now, w_content = content, w_trigger = True, w_on_wake = True,
      w_process_after = None, w_recurrence = None, w_series_id = Some series, w_platform_id = None,
      w_channel_type = None, w_thread_id = None, w_source_session_id = None, w_reply_to = None, w_is_group = None\<rparr>"

record SeriesFanout =
  sf_series_id :: ustring
  sf_new_message_id :: MessageId
  sf_next_fire :: instant

section \<open>Spawn failures\<close>

type_synonym spawn_counts = "SessionId \<Rightarrow> 32 word option"

definition record_spawn_failure :: "SessionId \<Rightarrow> spawn_counts \<Rightarrow> 32 word \<times> spawn_counts" where
  "record_spawn_failure s m =
     (let n = saturating_succ32 (case m s of Some k \<Rightarrow> k | None \<Rightarrow> 0) in (n, m(s \<mapsto> n)))"

definition record_spawn_success :: "SessionId \<Rightarrow> spawn_counts \<Rightarrow> spawn_counts" where
  "record_spawn_success s m = m(s := None)"

definition failure_count :: "SessionId \<Rightarrow> spawn_counts \<Rightarrow> 32 word" where
  "failure_count s m = (case m s of Some k \<Rightarrow> k | None \<Rightarrow> 0)"

definition spawn_exhausted :: "SessionId \<Rightarrow> spawn_counts \<Rightarrow> bool" where
  "spawn_exhausted s m \<longleftrightarrow> failure_count s m \<ge> SPAWN_FAIL_THRESHOLD"

section \<open>Integrity\<close>

record IntegrityFinding =
  if_session :: SessionId
  if_db :: ustring
  if_detail :: ustring

text \<open>\<open>quick_check_conn\<close> on what SQLite answers: a failing step, or the rows of the pragma.\<close>

datatype PragmaAnswer = PrepareFailed ustring | QueryFailed ustring | PragmaRows "(ustring + ustring) list"

fun pragma_lines :: "(ustring + ustring) list \<Rightarrow> ustring + ustring list" where
  "pragma_lines [] = Inr []"
| "pragma_lines (Inl e # rs) = Inl e"
| "pragma_lines (Inr l # rs) = map_sum id (\<lambda>ls. l # ls) (pragma_lines rs)"

definition join_semicolon :: "ustring list \<Rightarrow> ustring" where
  "join_semicolon ls = (if ls = [] then [] else concat (map (\<lambda>l. l @ lit ''; '') (butlast ls)) @ last ls)"

definition quick_check_conn :: "PragmaAnswer \<Rightarrow> QuickCheckOutcome" where
  "quick_check_conn a =
     (case a of
        PrepareFailed e \<Rightarrow> Corrupt (lit ''quick_check prepare failed: '' @ e)
      | QueryFailed e \<Rightarrow> Corrupt (lit ''quick_check query failed: '' @ e)
      | PragmaRows rows \<Rightarrow>
          (case pragma_lines rows of
             Inl e \<Rightarrow> Corrupt (lit ''quick_check row error: '' @ e)
           | Inr lines \<Rightarrow>
               if lines = [lit ''ok''] then Healthy
               else if lines = [] then Corrupt (lit ''quick_check returned no rows'')
               else Corrupt (join_semicolon lines)))"

text \<open>\<open>quick_check\<close>: no file, a file that does not open, or the answers of the open connection.\<close>

definition quick_check :: "bool \<Rightarrow> ustring + PragmaAnswer \<Rightarrow> QuickCheckOutcome" where
  "quick_check exists opened =
     (if \<not> exists then MissingDb
      else (case opened of Inl e \<Rightarrow> Corrupt (lit ''open failed: '' @ e) | Inr a \<Rightarrow> quick_check_conn a))"

definition rotation_slot :: "nat \<Rightarrow> nat \<Rightarrow> nat" where
  "rotation_slot u128 slots = u128 mod (max slots 1)"

definition is_quarantined :: "AgentGroupId \<Rightarrow> SessionId \<Rightarrow> SweepState \<Rightarrow> bool" where
  "is_quarantined ag s st \<longleftrightarrow> sd_sidecar (sw_dbs st ag s) \<noteq> None"

definition sidecar_body :: "SweepEnv \<Rightarrow> ustring \<Rightarrow> ustring \<Rightarrow> json" where
  "sidecar_body env db detail =
     JObject [(lit ''reason'', JString (lit ''quick_check'')), (lit ''db'', JString db),
              (lit ''detail'', JString detail), (lit ''detected_at'', JString (sv_show_ts env (sv_now env)))]"

definition write_sidecar :: "SweepEnv \<Rightarrow> AgentGroupId \<Rightarrow> SessionId \<Rightarrow> ustring \<Rightarrow> ustring \<Rightarrow> unit sweep" where
  "write_sidecar env ag s db detail =
     (case sv_sidecar_error env ag s of
        Some e \<Rightarrow> throw e
      | None \<Rightarrow> modify (update_dbs ag s (\<lambda>d. d\<lparr>sd_sidecar := Some (sidecar_body env db detail)\<rparr>)))"

fun probe_databases :: "SweepEnv \<Rightarrow> AgentGroupId \<Rightarrow> SessionId \<Rightarrow> ustring list \<Rightarrow> IntegrityFinding option sweep" where
  "probe_databases env ag s [] = ret None"
| "probe_databases env ag s (db # dbs) =
     (let outcome = sv_probe env ag s db in
      and_then (count_metric ''integrity_quick_check''
          (case outcome of Healthy \<Rightarrow> lit ''healthy'' | MissingDb \<Rightarrow> lit ''missing'' | Corrupt _ \<Rightarrow> lit ''corrupt'')) (\<lambda>_.
        case outcome of
          Corrupt detail \<Rightarrow>
            and_then (write_sidecar env ag s db detail) (\<lambda>_.
            and_then (count_metric ''integrity_quarantines'' []) (\<lambda>_.
              ret (Some \<lparr>if_session = s, if_db = db, if_detail = detail\<rparr>)))
        | _ \<Rightarrow> probe_databases env ag s dbs))"

definition check_and_quarantine :: "SweepEnv \<Rightarrow> AgentGroupId \<Rightarrow> SessionId \<Rightarrow> IntegrityFinding option sweep" where
  "check_and_quarantine env ag s = probe_databases env ag s [lit ''outbound.db'', lit ''inbound.db'']"

definition check_central_integrity :: "SweepEnv \<Rightarrow> (bool \<times> bool) sweep" where
  "check_central_integrity env =
     reading (\<lambda>st.
       if (case sw_central_last st of Some prev \<Rightarrow> sv_now env - prev < day_ms | None \<Rightarrow> False) then ret (False, False)
       else
         and_then (modify (\<lambda>st. st\<lparr>sw_central_last := Some (sv_now env)\<rparr>)) (\<lambda>_.
           case sv_central_probe env of
             None \<Rightarrow> ret (False, False)
           | Some probed \<Rightarrow>
               and_then (count_metric ''integrity_quick_check''
                   (case probed of Healthy \<Rightarrow> lit ''healthy'' | MissingDb \<Rightarrow> lit ''missing'' | Corrupt _ \<Rightarrow> lit ''corrupt''))
                 (\<lambda>_. case probed of Corrupt _ \<Rightarrow> ret (True, True) | _ \<Rightarrow> ret (True, False))))"

section \<open>Heartbeat and stuck tools\<close>

definition heartbeat_check :: "SweepEnv \<Rightarrow> AgentGroupId \<Rightarrow> SessionId \<Rightarrow> bool sweep" where
  "heartbeat_check env ag s =
     (case sv_heartbeat env ag s of
        NoHeartbeat \<Rightarrow> ret True
      | HeartbeatError e \<Rightarrow> throw (SweepIo e)
      | ModifiedAt mtime \<Rightarrow> ret (mtime < sv_now env - HEARTBEAT_STALE_MS))"

datatype StuckSeverity = ClaimThreshold | AbsoluteCeiling

text \<open>\<open>row_to_state\<close> reads an empty tool name as no tool.\<close>

definition get_container_state :: "ContainerState option \<Rightarrow> ContainerState option" where
  "get_container_state row = map_option (\<lambda>c. c\<lparr>current_tool := non_empty (current_tool c)\<rparr>) row"

definition set_container_state :: "ContainerState option \<Rightarrow> ContainerState \<Rightarrow> ContainerState option" where
  "set_container_state row c = Some c"

definition clear_tool :: "ContainerState option \<Rightarrow> instant \<Rightarrow> ContainerState option" where
  "clear_tool row now =
     Some \<lparr>current_tool = None, tool_declared_timeout_ms = None, tool_started_at = None, cst_updated_at = Some now\<rparr>"

definition stuck_severity :: "ContainerState option \<Rightarrow> instant \<Rightarrow> StuckSeverity option" where
  "stuck_severity row now =
     (case get_container_state row of
        None \<Rightarrow> None
      | Some c \<Rightarrow>
          (case (current_tool c, tool_started_at c) of
             (Some _, Some started) \<Rightarrow>
               let elapsed_ms = now - started in
               if elapsed_ms < 0 then None
               else if elapsed_ms \<ge> TOOL_CEILING_MS then Some AbsoluteCeiling
               else
                 let declared = (case tool_declared_timeout_ms c of Some v \<Rightarrow> if v \<ge> 0 then v else 0 | None \<Rightarrow> 0) in
                 if elapsed_ms \<ge> max declared CLAIM_STUCK_MS then Some ClaimThreshold else None
           | _ \<Rightarrow> None))"

definition stuck_check :: "SweepEnv \<Rightarrow> AgentGroupId \<Rightarrow> SessionId \<Rightarrow> StuckSeverity option sweep" where
  "stuck_check env ag s =
     and_then (open_db (sv_out_error env) ag s) (\<lambda>_.
       reading (\<lambda>st. ret (stuck_severity (sd_container (sw_dbs st ag s)) (sv_now env))))"

section \<open>Abandoned claims\<close>

record MessageReset =
  mr_session :: SessionId
  mr_message :: MessageId
  mr_new_tries :: int

definition has_reply_in_outbound :: "MessageOutRow list \<Rightarrow> MessageId \<Rightarrow> bool" where
  "has_reply_in_outbound t i \<longleftrightarrow> filter (\<lambda>r. in_reply_to r = Some i) t \<noteq> []"

text \<open>The scan: the claims that look abandoned, oldest first.\<close>

definition abandoned_claims :: "instant \<Rightarrow> SessionDbs \<Rightarrow> DbError + MessageId list" where
  "abandoned_claims now d =
     map_sum id (\<lambda>claims. map claim_id (filter (\<lambda>c. claim_status c = Processing \<and> now - claim_changed c \<ge> CLAIM_STUCK_MS \<and>
         \<not> has_reply_in_outbound (sd_out d) (claim_id c)) claims))
       (get_all_acks (sd_acks d))"

text \<open>The transaction on the outbound database: re-read the claim, re-check it, delete it.\<close>

definition reclaimable :: "instant \<Rightarrow> SessionDbs \<Rightarrow> MessageId \<Rightarrow> bool" where
  "reclaimable now d i =
     (case find (\<lambda>r. ack_id r = i) (sd_acks d) of
        None \<Rightarrow> False
      | Some r \<Rightarrow>
          ack_parse (ack_status r) = Some Processing \<and> now - ack_changed r \<ge> CLAIM_STUCK_MS \<and>
          \<not> has_reply_in_outbound (sd_out d) i)"

definition atomic_reclaim_claim :: "SweepEnv \<Rightarrow> AgentGroupId \<Rightarrow> SessionId \<Rightarrow> MessageId \<Rightarrow> bool sweep" where
  "atomic_reclaim_claim env ag s i =
     reading (\<lambda>st.
       let d = sw_dbs st ag s in
       if \<not> reclaimable (sv_now env) d i then ret False
       else
         let (n, acks) = sql_delete (\<lambda>r. ack_id r = i) (sd_acks d) in
         and_then (modify (update_dbs ag s (\<lambda>d. d\<lparr>sd_acks := acks\<rparr>))) (\<lambda>_. ret (n > 0)))"

definition reset_message_in :: "AgentGroupId \<Rightarrow> SessionId \<Rightarrow> MessageId \<Rightarrow> int sweep" where
  "reset_message_in ag s i =
     reading (\<lambda>st.
       let (n, t) = sql_update (\<lambda>r. in_id r = i) (\<lambda>r. r\<lparr>in_tries := in_tries r + 1, in_status := pending\<rparr>)
                      (sd_in (sw_dbs st ag s)) in
       if n = 0 then ret 0
       else
         and_then (modify (update_dbs ag s (\<lambda>d. d\<lparr>sd_in := t\<rparr>))) (\<lambda>_.
           case find (\<lambda>r. in_id r = i) t of
             Some r \<Rightarrow> ret (in_tries r)
           | None \<Rightarrow> throw (SweepSqlite [])))"

definition reset_one ::
  "SweepEnv \<Rightarrow> AgentGroupId \<Rightarrow> SessionId \<Rightarrow> (MessageId \<Rightarrow> SweepState \<Rightarrow> SweepState) \<Rightarrow> MessageId \<Rightarrow> MessageReset option sweep" where
  "reset_one env ag s before_reset i =
     and_then (modify (before_reset i)) (\<lambda>_.
     and_then (atomic_reclaim_claim env ag s i) (\<lambda>deleted.
       if \<not> deleted then ret None
       else and_then (reset_message_in ag s i) (\<lambda>n.
         ret (Some \<lparr>mr_session = s, mr_message = i, mr_new_tries = n\<rparr>))))"

definition check_with_hook ::
  "SweepEnv \<Rightarrow> AgentGroupId \<Rightarrow> SessionId \<Rightarrow> (MessageId \<Rightarrow> SweepState \<Rightarrow> SweepState) \<Rightarrow> MessageReset list sweep" where
  "check_with_hook env ag s before_reset =
     and_then (open_db (sv_out_error env) ag s) (\<lambda>_.
       reading (\<lambda>st.
         case abandoned_claims (sv_now env) (sw_dbs st ag s) of
           Inl e \<Rightarrow> throw (SweepDb e)
         | Inr to_reset \<Rightarrow>
             if to_reset = [] then ret []
             else
               and_then (open_db (sv_in_error env) ag s) (\<lambda>_.
               and_then (traverse (reset_one env ag s before_reset) to_reset) (\<lambda>rs.
                 ret (List.map_filter id rs)))))"

definition processing_check :: "SweepEnv \<Rightarrow> AgentGroupId \<Rightarrow> SessionId \<Rightarrow> MessageReset list sweep" where
  "processing_check env ag s = check_with_hook env ag s (\<lambda>_ st. st)"

section \<open>Scheduled tasks\<close>

definition next_fire_for :: "SweepEnv \<Rightarrow> ustring \<Rightarrow> ustring option \<Rightarrow> instant option sweep" where
  "next_fire_for env when_spec recurrence =
     (case parse_when (sv_lib env) (sv_wall env) when_spec of
        None \<Rightarrow> throw SweepPanic
      | Some parsed \<Rightarrow>
          (case (case parsed of Inr w \<Rightarrow> compute_next_fire (sv_lib env) w (sv_now env) recurrence | Inl _ \<Rightarrow> None) of
             Some n \<Rightarrow> ret (Some n)
           | None \<Rightarrow>
               ret (case recurrence of
                      Some r \<Rightarrow> if trim r \<noteq> [] then compute_next_fire (sv_lib env) (At (sv_now env)) (sv_now env) (Some r) else None
                    | None \<Rightarrow> None)))"

definition task_content :: "Task \<Rightarrow> json" where
  "task_content t =
     JObject [(lit ''text'', JString (tk_prompt t)), (lit ''task_id'', JString (tk_id t)),
              (lit ''task_name'', opt_json JString (tk_name t))]"

definition fire_task :: "SweepEnv \<Rightarrow> Task \<Rightarrow> SeriesFanout sweep" where
  "fire_task env t =
     and_then (new_message_id env) (\<lambda>i.
     and_then (open_db (sv_in_error env) (tk_agent_group t) (tk_session t)) (\<lambda>_.
     and_then (insert_inbound (tk_agent_group t) (tk_session t) (wake_row i (sv_now env) (task_content t) (tk_id t))) (\<lambda>_.
     and_then (on_tasks (\<lambda>ts. mark_fired ts (tk_id t) (sv_now env) (sv_wall env))) (\<lambda>_.
     and_then
       (case tk_recurrence t of
          Some r \<Rightarrow> next_fire_for env (tk_when_spec t) (Some r)
        | None \<Rightarrow> ret None) (\<lambda>next_fire.
     and_then
       (case next_fire of
          Some n \<Rightarrow>
            and_then (on_tasks (\<lambda>ts. set_next_fire ts (tk_id t) (Some n) (sv_wall env))) (\<lambda>_.
              count_metric ''scheduled_task_fire'' (lit ''recurring_rearm''))
        | None \<Rightarrow>
            and_then (on_tasks (\<lambda>ts. set_task_status ts (tk_id t) CompletedTask (sv_wall env))) (\<lambda>_.
            and_then (on_tasks (\<lambda>ts. set_next_fire ts (tk_id t) None (sv_wall env))) (\<lambda>_.
              count_metric ''scheduled_task_fire'' (lit ''one_shot_complete'')))) (\<lambda>_.
       ret \<lparr>sf_series_id = tk_id t, sf_new_message_id = i, sf_next_fire = sv_now env\<rparr>))))))"

definition scheduling_check :: "SweepEnv \<Rightarrow> SeriesFanout list sweep" where
  "scheduling_check env = reading (\<lambda>st. traverse (fire_task env) (list_due_tasks (sw_tasks st) (sv_now env)))"

section \<open>Legacy recurrences\<close>

record RecurrenceParent =
  rp_id :: MessageId
  rp_recurrence :: ustring
  rp_series_id :: "ustring option"
  rp_content :: json

text \<open>\<open>COALESCE(series_id, id)\<close>, and \<open>TRIM\<close> of SQL, which strips spaces only.\<close>

definition series_key :: "SweepEnv \<Rightarrow> MessageInRow \<Rightarrow> ustring" where
  "series_key env r = (case series_id r of Some k \<Rightarrow> k | None \<Rightarrow> sv_uuid_text env (in_id r))"

definition sql_trim :: "ustring \<Rightarrow> ustring" where
  "sql_trim s = trim_matches 32 s"

fun first_of_series :: "SweepEnv \<Rightarrow> ustring list \<Rightarrow> MessageInRow list \<Rightarrow> RecurrenceParent list" where
  "first_of_series env seen [] = []"
| "first_of_series env seen (r # rs) =
     (if series_key env r \<in> set seen then first_of_series env seen rs
      else if (case process_after r of Some pa \<Rightarrow> pa > sv_now env | None \<Rightarrow> False)
      then first_of_series env (series_key env r # seen) rs
      else \<lparr>rp_id = in_id r, rp_recurrence = (case in_recurrence r of Some x \<Rightarrow> x | None \<Rightarrow> []),
             rp_series_id = series_id r, rp_content = in_content r\<rparr>
           # first_of_series env (series_key env r # seen) rs)"

definition newest_per_series :: "SweepEnv \<Rightarrow> MessageInRow list \<Rightarrow> RecurrenceParent list" where
  "newest_per_series env t =
     first_of_series env []
       (sort_key (series_key env)
         (order_by_desc in_seq
           (filter (\<lambda>r. case in_recurrence r of Some x \<Rightarrow> sql_trim x \<noteq> [] | None \<Rightarrow> False) t)))"

definition migrated_task_id :: "SessionId \<Rightarrow> ustring \<Rightarrow> ustring" where
  "migrated_task_id s series = lit ''recurring:'' @ s @ lit '':'' @ series"

definition prompt_text :: "SweepEnv \<Rightarrow> json \<Rightarrow> ustring" where
  "prompt_text env content = (case str_field content ''text'' of Some t \<Rightarrow> t | None \<Rightarrow> sv_show_json env content)"

definition clear_series_recurrence :: "SweepEnv \<Rightarrow> AgentGroupId \<Rightarrow> SessionId \<Rightarrow> ustring \<Rightarrow> unit sweep" where
  "clear_series_recurrence env ag s key =
     modify (update_dbs ag s (\<lambda>d. d\<lparr>sd_in :=
       snd (sql_update (\<lambda>r. series_key env r = key \<and> in_recurrence r \<noteq> None) (\<lambda>r. r\<lparr>in_recurrence := None\<rparr>) (sd_in d))\<rparr>))"

definition compute_next :: "SweepEnv \<Rightarrow> ustring \<Rightarrow> instant option sweep" where
  "compute_next env recurrence =
     (case parse_when (sv_lib env) (sv_wall env) recurrence of
        None \<Rightarrow> throw SweepPanic
      | Some (Inl e) \<Rightarrow> throw (ScheduleParse (schedule_error_display e))
      | Some (Inr w) \<Rightarrow> ret (compute_next_fire (sv_lib env) w (sv_now env) (Some recurrence)))"

definition forward_task :: "SweepEnv \<Rightarrow> AgentGroupId \<Rightarrow> SessionId \<Rightarrow> RecurrenceParent \<Rightarrow> ustring \<Rightarrow> instant \<Rightarrow> NewTask" where
  "forward_task env ag s p key next_fire =
     \<lparr>nt_id = migrated_task_id s key, nt_agent_group = ag, nt_session = s, nt_name = Some (lit ''recurring-'' @ key),
      nt_prompt = prompt_text env (rp_content p), nt_when_spec = rp_recurrence p,
      nt_recurrence = Some (rp_recurrence p), nt_next_fire = Some next_fire\<rparr>"

definition forward_series :: "SweepEnv \<Rightarrow> AgentGroupId \<Rightarrow> SessionId \<Rightarrow> RecurrenceParent \<Rightarrow> SeriesFanout option sweep" where
  "forward_series env ag s p =
     attempt (compute_next env (rp_recurrence p)) (\<lambda>r.
       case r of
         Inl _ \<Rightarrow> ret None
       | Inr None \<Rightarrow> ret None
       | Inr (Some next_fire) \<Rightarrow>
           let key = (case rp_series_id p of Some k \<Rightarrow> k | None \<Rightarrow> sv_uuid_text env (rp_id p)) in
           and_then
             (reading (\<lambda>st.
                case get_task (sw_tasks st) (migrated_task_id s key) of
                  None \<Rightarrow>
                    and_then (on_tasks (\<lambda>ts. map_sum id snd (insert_task ts (forward_task env ag s p key next_fire) (sv_wall env))))
                      (\<lambda>_. count_metric ''recurrence_consolidated'' (lit ''created''))
                | Some _ \<Rightarrow> count_metric ''recurrence_consolidated'' (lit ''already_present''))) (\<lambda>_.
           and_then (clear_series_recurrence env ag s key) (\<lambda>_.
             ret (Some \<lparr>sf_series_id = key, sf_new_message_id = rp_id p, sf_next_fire = next_fire\<rparr>))))"

definition recurrence_check :: "SweepEnv \<Rightarrow> AgentGroupId \<Rightarrow> SessionId \<Rightarrow> SeriesFanout list sweep" where
  "recurrence_check env ag s =
     and_then (open_db (sv_in_error env) ag s) (\<lambda>_.
       reading (\<lambda>st.
         and_then (traverse (forward_series env ag s) (newest_per_series env (sd_in (sw_dbs st ag s)))) (\<lambda>fs.
           ret (List.map_filter id fs))))"

section \<open>Goals\<close>

record GoalCheckinReport =
  gr_fired :: "SeriesFanout list"
  gr_budget_paused :: "ustring list"

text \<open>The synthesised prompt; its dash is the character U+2014.\<close>

definition checkin_text :: "Goal \<Rightarrow> ustring" where
  "checkin_text g =
     (case go_checkin_prompt g of
        Some p \<Rightarrow> p
      | None \<Rightarrow>
          lit ''Goal check-in '' @ [8212] @ lit '' report progress on your objective and call `update_goal` '' @
          lit ''to record it (or mark it completed/abandoned): '' @ go_objective g)"

definition goal_content :: "Goal \<Rightarrow> json" where
  "goal_content g =
     JObject [(lit ''text'', JString (checkin_text g)), (lit ''goal_id'', JString (go_id g)),
              (lit ''goal_objective'', JString (go_objective g)), (lit ''task_id'', opt_json JString (go_task_id g))]"

definition check_goal :: "SweepEnv \<Rightarrow> Goal \<Rightarrow> (ustring + SeriesFanout) sweep" where
  "check_goal env g =
     reading (\<lambda>st.
       case budget_remaining (sw_goals st) (sw_grants st) (go_id g) (sv_now env) of
         Inl e \<Rightarrow> throw (SweepDb e)
       | Inr budget \<Rightarrow>
           if budget = Some 0 then
             and_then (on_goals (\<lambda>t. map_sum id snd (set_goal_status t (go_id g) GoalPaused (sv_wall env)))) (\<lambda>_.
               ret (Inl (go_id g)))
           else
             and_then (new_message_id env) (\<lambda>i.
             and_then (open_db (sv_in_error env) (go_agent_group g) (go_session g)) (\<lambda>_.
             and_then (insert_inbound (go_agent_group g) (go_session g) (wake_row i (sv_now env) (goal_content g) (go_id g))) (\<lambda>_.
             and_then (on_goals (\<lambda>t. mark_checkin t (go_id g) (sv_now env) (sv_wall env))) (\<lambda>_.
             and_then (on_goals (\<lambda>t. set_next_checkin t (go_id g)
                 (Option.bind (not_blank (go_checkin_recurrence g))
                   (\<lambda>r. compute_next_fire (sv_lib env) (At (sv_now env)) (sv_now env) (Some r))) (sv_wall env))) (\<lambda>_.
               ret (Inr \<lparr>sf_series_id = go_id g, sf_new_message_id = i, sf_next_fire = sv_now env\<rparr>)))))))"

definition goals_check :: "SweepEnv \<Rightarrow> GoalCheckinReport sweep" where
  "goals_check env =
     reading (\<lambda>st.
       and_then (traverse (check_goal env) (list_due_checkin (sw_goals st) (sv_now env))) (\<lambda>rs.
         ret \<lparr>gr_fired = List.map_filter (\<lambda>r. case r of Inr f \<Rightarrow> Some f | Inl _ \<Rightarrow> None) rs,
              gr_budget_paused = List.map_filter (\<lambda>r. case r of Inl i \<Rightarrow> Some i | Inr _ \<Rightarrow> None) rs\<rparr>))"

section \<open>Condition check-ins\<close>

text \<open>\<open>num_seconds\<close> of a difference of instants rounds towards zero.\<close>

definition num_seconds :: "int \<Rightarrow> int" where
  "num_seconds d = (if d < 0 then - ((- d) div 1000) else d div 1000)"

definition sample_condition_context :: "SweepEnv \<Rightarrow> SweepState \<Rightarrow> SessionId \<Rightarrow> ConditionContext" where
  "sample_condition_context env st s =
     (case for_session (sw_store st) s of
        [] \<Rightarrow> quiet
      | cond # _ \<Rightarrow>
          \<lparr>pending_inbound =
             (if sv_in_error env (c_agent_group cond) s \<noteq> None then 0
              else (case to_u32 (int (count_pending_for_typing (sd_in (sw_dbs st (c_agent_group cond) s)) (sv_wall env))) of
                      Some n \<Rightarrow> n | None \<Rightarrow> 0)),
           idle_secs =
             (case get_session (sw_sessions st) s of
                Inl _ \<Rightarrow> None
              | Inr se \<Rightarrow> Some (case to_u64 (max (num_seconds (sv_now env - last_active se)) 0) of Some n \<Rightarrow> n | None \<Rightarrow> 0)),
           flags_set = list_flags_for_session (sw_flags st) s\<rparr>)"

definition CHECKIN_AUDIT_COMMAND :: ustring where "CHECKIN_AUDIT_COMMAND = lit ''sweep.condition_checkin''"

definition condition_content :: "Condition \<Rightarrow> json" where
  "condition_content c =
     JObject [(lit ''text'', JString (c_prompt c)), (lit ''condition_id'', JString (c_id c)), (lit ''checkin'', JBool True)]"

definition insert_audit :: "AuditEntry \<Rightarrow> unit sweep" where
  "insert_audit e = modify (\<lambda>st. st\<lparr>sw_audit := sw_audit st @ [e]\<rparr>)"

definition fire_condition :: "SweepEnv \<Rightarrow> Condition \<Rightarrow> SeriesFanout sweep" where
  "fire_condition env c =
     and_then (new_message_id env) (\<lambda>i.
     and_then (open_db (sv_in_error env) (c_agent_group c) (c_session c)) (\<lambda>_.
     and_then (insert_inbound (c_agent_group c) (c_session c) (wake_row i (sv_now env) (condition_content c) (c_id c))) (\<lambda>_.
     and_then (insert_audit
         \<lparr>au_ts = sv_now env, au_caller_kind = lit ''host'', au_caller_session = Some (c_session c),
          au_caller_agent_group = Some (c_agent_group c), au_command = CHECKIN_AUDIT_COMMAND,
          au_args = JObject [(lit ''condition_id'', JString (c_id c)), (lit ''message_id'', JString (sv_uuid_text env i))],
          au_result = lit ''ok'', au_error_code = None, au_error_message = None, au_latency_ms = 0\<rparr>) (\<lambda>_.
       ret \<lparr>sf_series_id = c_id c, sf_new_message_id = i, sf_next_fire = sv_now env\<rparr>))))"

definition condition_kind_label :: "ConditionKind \<Rightarrow> ustring" where
  "condition_kind_label k =
     (case k of
        PendingInboundAtLeast _ \<Rightarrow> KIND_PENDING_INBOUND
      | IdleForAtLeastSecs _ \<Rightarrow> KIND_IDLE
      | FlagSet _ \<Rightarrow> KIND_FLAG)"

definition check_condition :: "SweepEnv \<Rightarrow> Condition \<Rightarrow> SeriesFanout option sweep" where
  "check_condition env c =
     reading (\<lambda>st.
       let now_holds = holds c (sample_condition_context env st (c_session c));
           (rising, store) = observe_edge (c_id c) now_holds (sw_store st) in
       and_then (modify (\<lambda>st. st\<lparr>sw_store := store\<rparr>)) (\<lambda>_.
         if \<not> rising then ret None
         else
           and_then (fire_condition env c) (\<lambda>f.
           and_then (count_metric ''condition_checkin_fired'' (condition_kind_label (c_kind c))) (\<lambda>_. ret (Some f)))))"

definition condition_check :: "SweepEnv \<Rightarrow> SeriesFanout list sweep" where
  "condition_check env =
     reading (\<lambda>st.
       and_then (traverse (check_condition env) (all_conditions (sw_store st))) (\<lambda>fs. ret (List.map_filter id fs)))"

text \<open>The reload of the store from the table.\<close>

definition reload_conditions :: "unit sweep" where
  "reload_conditions =
     modify (\<lambda>st. st\<lparr>sw_store :=
       reconcile (List.map_filter from_stored (list_active_conditions (sw_conditions st))) (sw_store st)\<rparr>)"

section \<open>Expired questions\<close>

definition EXPIRED_QUESTION_TEXT :: ustring where
  "EXPIRED_QUESTION_TEXT =
     lit ''This question expired before anyone answered '' @ [8212] @ lit '' just reply and I'll pick it up from there.''"

record QuestionExpiryEmit =
  qe_question :: ustring
  qe_session :: "SessionId option"
  qe_note_emitted :: bool
  qe_resolved_by_reply :: bool

definition chat_inbound_arrived_after :: "MessageInRow list \<Rightarrow> instant \<Rightarrow> bool" where
  "chat_inbound_arrived_after t asked_at =
     (case first_row (order_by_desc in_seq (filter (\<lambda>r. in_kind r = Chat) t)) of
        None \<Rightarrow> False
      | Some r \<Rightarrow> in_timestamp r > asked_at)"

definition seq_for_message_id :: "MessageOutRow list \<Rightarrow> MessageId \<Rightarrow> int option" where
  "seq_for_message_id t i = map_option out_seq (find (\<lambda>r. out_id r = i) t)"

definition expiry_note :: "SweepEnv \<Rightarrow> MessageId \<Rightarrow> PendingQuestion \<Rightarrow> int option \<Rightarrow> WriteOutbound" where
  "expiry_note env i q ask_seq =
     \<lparr>o_id = i, o_in_reply_to = None, o_timestamp = sv_now env, o_deliver_after = None, o_recurrence = None,
      o_kind = System, o_platform_id = qo_platform_id (q_origin q), o_channel_type = qo_channel_type (q_origin q),
      o_thread_id = qo_thread_id (q_origin q),
      o_content = JObject [(lit ''edit'', JObject
        ((case ask_seq of Some n \<Rightarrow> [(lit ''seq'', JNumber n)] | None \<Rightarrow> []) @
         [(lit ''text'', JString EXPIRED_QUESTION_TEXT)]))]\<rparr>"

definition expiry_result :: "SweepEnv \<Rightarrow> MessageId \<Rightarrow> PendingQuestion \<Rightarrow> WriteInbound" where
  "expiry_result env i q =
     \<lparr>w_id = i, w_kind = System, w_timestamp = sv_now env,
      w_content = JObject [(lit ''ask_user_question_result'', JObject
        [(lit ''id'', JString (q_id q)), (lit ''status'', JString (lit ''expired'')), (lit ''title'', JString (q_title q)),
         (lit ''detail'', JString (lit ''No answer arrived before this question expired; the card was closed. '' @
            lit ''If the user replies later, treat that reply as the answer.''))])],
      w_trigger = False, w_on_wake = False, w_process_after = None, w_recurrence = None, w_series_id = None,
      w_platform_id = None, w_channel_type = None, w_thread_id = None, w_source_session_id = None, w_reply_to = None,
      w_is_group = None\<rparr>"

definition surface_one :: "SweepEnv \<Rightarrow> PendingQuestion \<Rightarrow> QuestionExpiryEmit sweep" where
  "surface_one env q =
     (case (qo_agent_group (q_origin q), qo_session (q_origin q)) of
        (Some ag, Some s) \<Rightarrow>
          and_then (open_db (sv_in_error env) ag s) (\<lambda>_.
          reading (\<lambda>st.
            if chat_inbound_arrived_after (sd_in (sw_dbs st ag s)) (q_asked_at q) then
              ret \<lparr>qe_question = q_id q, qe_session = Some s, qe_note_emitted = False, qe_resolved_by_reply = True\<rparr>
            else
              and_then (open_db (sv_out_error env) ag s) (\<lambda>_.
              let ask_seq = Option.bind (qo_message_out (q_origin q)) (seq_for_message_id (sd_out (sw_dbs st ag s))) in
              and_then
                (if qo_channel_type (q_origin q) \<noteq> None \<and> qo_platform_id (q_origin q) \<noteq> None then
                   and_then (new_message_id env) (\<lambda>i.
                   and_then (insert_outbound ag s (expiry_note env i q ask_seq)) (\<lambda>_. ret True))
                 else ret False) (\<lambda>note_emitted.
              and_then (new_message_id env) (\<lambda>i.
              and_then (insert_inbound ag s (expiry_result env i q)) (\<lambda>_.
                ret \<lparr>qe_question = q_id q, qe_session = Some s, qe_note_emitted = note_emitted,
                     qe_resolved_by_reply = False\<rparr>))))))
      | _ \<Rightarrow> ret \<lparr>qe_question = q_id q, qe_session = None, qe_note_emitted = False, qe_resolved_by_reply = False\<rparr>)"

definition surface_or_log :: "SweepEnv \<Rightarrow> PendingQuestion \<Rightarrow> QuestionExpiryEmit sweep" where
  "surface_or_log env q =
     or_log \<lparr>qe_question = q_id q, qe_session = qo_session (q_origin q), qe_note_emitted = False, qe_resolved_by_reply = False\<rparr>
       (surface_one env q)"

definition questions_check :: "SweepEnv \<Rightarrow> QuestionExpiryEmit list sweep" where
  "questions_check env =
     reading (\<lambda>st.
       case sw_questions st of
         None \<Rightarrow> ret []
       | Some qs \<Rightarrow>
           let (expired, qs') = sweep_expired (sv_now env) qs in
           and_then (modify (\<lambda>st. st\<lparr>sw_questions := Some qs'\<rparr>)) (\<lambda>_. traverse (surface_or_log env) expired))"

section \<open>Waking a session\<close>

definition wake_check :: "SweepEnv \<Rightarrow> Session \<Rightarrow> bool sweep" where
  "wake_check env se =
     (if container_status se = CRunning then ret False
      else
        and_then (open_db (sv_in_error env) (se_agent_group se) (se_id se)) (\<lambda>_.
        reading (\<lambda>st.
          if filter (\<lambda>r. in_status r = pending \<and> is_due (process_after r) (sv_now env))
               (sd_in (sw_dbs st (se_agent_group se) (se_id se))) = [] then ret False
          else
            (case set_container_status (sw_sessions st) (se_id se) CRunning (sv_wall env) of
               Inl e \<Rightarrow> throw (SweepDb e)
             | Inr t \<Rightarrow> and_then (modify (\<lambda>st. st\<lparr>sw_sessions := t\<rparr>)) (\<lambda>_. ret True)))))"

section \<open>Apologies\<close>

definition APOLOGY_TRIES_MARKER :: int where "APOLOGY_TRIES_MARKER = 99"
definition APOLOGY_SCAN_LIMIT :: int where "APOLOGY_SCAN_LIMIT = 50"

definition APOLOGY_TEXT :: ustring where
  "APOLOGY_TEXT =
     lit ''I'm having trouble processing your message right now (the agent's container isn't responding). '' @
     lit ''Please try again in a few minutes. If this keeps happening, tell your operator '' @ [8212] @
     lit '' running `cclaw doctor` on the host will show what's wrong.''"

definition APOLOGY_NOTIFIED_TEXT :: ustring where
  "APOLOGY_NOTIFIED_TEXT =
     lit ''I'm having trouble processing your message right now (the agent's container isn't responding). '' @
     lit ''Please try again in a few minutes '' @ [8212] @ lit '' the operator has been notified.''"

datatype ApologyReason = PendingTooLong | ContainerSpawnFailed

fun apology_label :: "ApologyReason \<Rightarrow> ustring" where
  "apology_label PendingTooLong = lit ''pending_too_long''"
| "apology_label ContainerSpawnFailed = lit ''container_spawn_failed''"

record ApologyEmit =
  ae_message :: MessageId
  ae_reason :: ApologyReason

definition scan_stuck_inbounds :: "MessageInRow list \<Rightarrow> MessageInRow list" where
  "scan_stuck_inbounds t =
     sql_limit APOLOGY_SCAN_LIMIT
       (order_by in_timestamp
         (filter (\<lambda>r. in_status r = pending \<and> in_kind r = Chat \<and> in_tries r < APOLOGY_TRIES_MARKER) t))"

definition apology_reason :: "bool \<Rightarrow> instant \<Rightarrow> MessageInRow \<Rightarrow> ApologyReason option" where
  "apology_reason spawn_failed now r =
     (if spawn_failed then Some ContainerSpawnFailed
      else if num_seconds (now - in_timestamp r) \<ge> APOLOGY_AFTER_SECS then Some PendingTooLong
      else None)"

definition inbound_is_being_processed :: "AckRow list \<Rightarrow> MessageId \<Rightarrow> DbError + bool" where
  "inbound_is_being_processed acks i =
     map_sum id (\<lambda>c. case c of Some claim \<Rightarrow> claim_status claim = Processing | None \<Rightarrow> False) (get_ack acks i)"

definition apology_card :: "ustring \<Rightarrow> ErrorCard" where
  "apology_card t =
     \<lparr>ec_title = lit ''I couldn't process your message'', ec_summary = t, ec_kind = ECInternal,
      ec_details = Some (lit ''agent container unresponsive (heartbeat stale or never spawned); '' @
        lit ''diagnose with `cclaw doctor` on the host''),
      ec_retryable = True\<rparr>"

text \<open>The row that carries the apology: to the channel of the message, or up to the session it came from.\<close>

definition apology_row :: "SweepEnv \<Rightarrow> ustring \<Rightarrow> MessageInRow \<Rightarrow> (MessageId \<Rightarrow> WriteOutbound) option" where
  "apology_row env t r =
     (case (in_channel_type r, in_platform_id r) of
        (Some ct, Some pid) \<Rightarrow>
          Some (\<lambda>i. \<lparr>o_id = i, o_in_reply_to = Some (in_id r), o_timestamp = sv_now env, o_deliver_after = None,
            o_recurrence = None, o_kind = MessageKind.Error, o_platform_id = Some pid, o_channel_type = Some ct,
            o_thread_id = in_thread_id r,
            o_content = JObject [(lit ''error'', error_card_to_json (apology_card t))]\<rparr>)
      | _ \<Rightarrow>
          (case source_session_id r of
             Some source \<Rightarrow>
               Some (\<lambda>i. \<lparr>o_id = i, o_in_reply_to = None, o_timestamp = sv_now env, o_deliver_after = None,
                 o_recurrence = None, o_kind = Agent, o_platform_id = None, o_channel_type = None, o_thread_id = None,
                 o_content = JObject [(lit ''text'', JString t),
                   (lit ''to'', JObject [(lit ''kind'', JString (lit ''agent'')), (lit ''session_id'', JString source)])]\<rparr>)
           | None \<Rightarrow> None))"

definition mark_tries_apology_sent :: "AgentGroupId \<Rightarrow> SessionId \<Rightarrow> MessageId \<Rightarrow> unit sweep" where
  "mark_tries_apology_sent ag s i =
     modify (update_dbs ag s (\<lambda>d. d\<lparr>sd_in :=
       snd (sql_update (\<lambda>r. in_id r = i) (\<lambda>r. r\<lparr>in_tries := APOLOGY_TRIES_MARKER\<rparr>) (sd_in d))\<rparr>))"

definition apologise ::
  "SweepEnv \<Rightarrow> Session \<Rightarrow> ustring \<Rightarrow> bool \<Rightarrow> MessageInRow \<Rightarrow> ApologyEmit option sweep" where
  "apologise env se t spawn_failed r =
     (let ag = se_agent_group se; s = se_id se in
      case apology_reason spawn_failed (sv_now env) r of
        None \<Rightarrow> ret None
      | Some reason \<Rightarrow>
          reading (\<lambda>st.
            case (if reason = PendingTooLong \<and> container_status se = CRunning
                  then inbound_is_being_processed (sd_acks (sw_dbs st ag s)) (in_id r) else Inr False) of
              Inl e \<Rightarrow> throw (SweepDb e)
            | Inr True \<Rightarrow> ret None
            | Inr False \<Rightarrow>
                (case apology_row env t r of
                   None \<Rightarrow> and_then (mark_tries_apology_sent ag s (in_id r)) (\<lambda>_. ret None)
                 | Some row \<Rightarrow>
                     and_then (new_message_id env) (\<lambda>i.
                     attempt (insert_outbound ag s (row i)) (\<lambda>res.
                       case res of
                         Inl _ \<Rightarrow> ret None
                       | Inr _ \<Rightarrow>
                           and_then (mark_tries_apology_sent ag s (in_id r)) (\<lambda>_.
                           and_then (count_metric ''stuck_inbound_apology'' (apology_label reason)) (\<lambda>_.
                             ret (Some \<lparr>ae_message = in_id r, ae_reason = reason\<rparr>)))))))) "

definition apology_check :: "SweepEnv \<Rightarrow> Session \<Rightarrow> ApologyEmit list sweep" where
  "apology_check env se =
     (let ag = se_agent_group se; s = se_id se;
          t = (if sv_alerts_enabled env then APOLOGY_NOTIFIED_TEXT else APOLOGY_TEXT) in
      reading (\<lambda>st.
        let spawn_failed = (container_status se = CStopped \<and> spawn_exhausted s (sw_spawn st)) in
        and_then (open_db (sv_in_error env) ag s) (\<lambda>_.
          let rows = scan_stuck_inbounds (sd_in (sw_dbs st ag s)) in
          if rows = [] then ret []
          else
            and_then (open_db (sv_out_error env) ag s) (\<lambda>_.
            and_then (traverse (apologise env se t spawn_failed) rows) (\<lambda>es. ret (List.map_filter id es))))))"

section \<open>One pass\<close>

record SweepReport =
  stuck_sessions :: "SessionId list"
  stuck_past_ceiling :: "SessionId list"
  recurrences_fired :: "SeriesFanout list"
  processing_acks_reset :: "MessageReset list"
  woken_sessions :: "SessionId list"
  heartbeat_stale :: "SessionId list"
  condition_checkins_fired :: "SeriesFanout list"
  apologies_emitted :: "ApologyEmit list"
  questions_expired :: "QuestionExpiryEmit list"
  integrity_quarantined :: "IntegrityFinding list"
  integrity_checked :: "SessionId list"
  integrity_excluded :: "SessionId list"
  goal_checkins_fired :: "SeriesFanout list"
  goals_budget_paused :: "ustring list"
  central_integrity_checked :: bool
  central_integrity_corrupt :: bool

definition empty_sweep_report :: SweepReport where
  "empty_sweep_report =
     \<lparr>stuck_sessions = [], stuck_past_ceiling = [], recurrences_fired = [], processing_acks_reset = [],
      woken_sessions = [], heartbeat_stale = [], condition_checkins_fired = [], apologies_emitted = [],
      questions_expired = [], integrity_quarantined = [], integrity_checked = [], integrity_excluded = [],
      goal_checkins_fired = [], goals_budget_paused = [], central_integrity_checked = False,
      central_integrity_corrupt = False\<rparr>"

definition sweep_report_is_empty :: "SweepReport \<Rightarrow> bool" where
  "sweep_report_is_empty r \<longleftrightarrow>
     stuck_sessions r = [] \<and> recurrences_fired r = [] \<and> processing_acks_reset r = [] \<and> woken_sessions r = [] \<and>
     heartbeat_stale r = [] \<and> apologies_emitted r = [] \<and> condition_checkins_fired r = [] \<and> questions_expired r = [] \<and>
     integrity_quarantined r = [] \<and> goal_checkins_fired r = [] \<and> goals_budget_paused r = [] \<and>
     \<not> central_integrity_corrupt r"

definition sweep_report_total :: "SweepReport \<Rightarrow> nat" where
  "sweep_report_total r =
     length (stuck_sessions r) + length (recurrences_fired r) + length (processing_acks_reset r) +
     length (woken_sessions r) + length (heartbeat_stale r) + length (apologies_emitted r) +
     length (condition_checkins_fired r) + length (questions_expired r) + length (integrity_quarantined r) +
     length (goal_checkins_fired r) + length (goals_budget_paused r)"

text \<open>The checks of a session that is not quarantined, in order, each error logged.\<close>

definition session_checks :: "SweepEnv \<Rightarrow> Session \<Rightarrow> SweepReport \<Rightarrow> SweepReport sweep" where
  "session_checks env se report =
     (let ag = se_agent_group se; s = se_id se in
      and_then (or_log False (heartbeat_check env ag s)) (\<lambda>stale.
      and_then (or_log None (stuck_check env ag s)) (\<lambda>severity.
      and_then (or_log [] (processing_check env ag s)) (\<lambda>resets.
      and_then (or_log [] (recurrence_check env ag s)) (\<lambda>fan.
      and_then (or_log False (wake_check env se)) (\<lambda>woken.
      and_then (or_log [] (apology_check env se)) (\<lambda>emits.
        ret (report\<lparr>heartbeat_stale := heartbeat_stale report @ (if stale then [s] else []),
                    stuck_sessions := stuck_sessions report @ (if severity \<noteq> None then [s] else []),
                    stuck_past_ceiling := stuck_past_ceiling report @ (if severity = Some AbsoluteCeiling then [s] else []),
                    processing_acks_reset := processing_acks_reset report @ resets,
                    recurrences_fired := recurrences_fired report @ fan,
                    woken_sessions := woken_sessions report @ (if woken then [s] else []),
                    apologies_emitted := apologies_emitted report @ emits\<rparr>))))))))"

definition sweep_session :: "SweepEnv \<Rightarrow> nat \<Rightarrow> Session \<Rightarrow> SweepReport \<Rightarrow> SweepReport sweep" where
  "sweep_session env slot se report =
     (let ag = se_agent_group se; s = se_id se in
      reading (\<lambda>st.
        if is_quarantined ag s st then ret (report\<lparr>integrity_excluded := integrity_excluded report @ [s]\<rparr>)
        else if rotation_slot (sv_u128 env s) INTEGRITY_ROTATION_SLOTS = slot then
          attempt (check_and_quarantine env ag s) (\<lambda>r.
            case r of
              Inr (Some finding) \<Rightarrow> ret (report\<lparr>integrity_quarantined := integrity_quarantined report @ [finding]\<rparr>)
            | Inr None \<Rightarrow> session_checks env se (report\<lparr>integrity_checked := integrity_checked report @ [s]\<rparr>)
            | Inl _ \<Rightarrow> session_checks env se report)
        else session_checks env se report))"

fun sweep_sessions :: "SweepEnv \<Rightarrow> nat \<Rightarrow> Session list \<Rightarrow> SweepReport \<Rightarrow> SweepReport sweep" where
  "sweep_sessions env slot [] report = ret report"
| "sweep_sessions env slot (se # ses) report =
     and_then (sweep_session env slot se report) (sweep_sessions env slot ses)"

text \<open>\<open>fetch_add\<close> wraps; the pass before the increment selects the slot.\<close>

definition next_slot :: "nat sweep" where
  "next_slot = (\<lambda>st. (Inr (unat (sw_pass st) mod INTEGRITY_ROTATION_SLOTS), st\<lparr>sw_pass := sw_pass st + 1\<rparr>))"

definition count_expiries :: "QuestionExpiryEmit list \<Rightarrow> unit sweep" where
  "count_expiries qs =
     and_then (traverse (\<lambda>q. count_metric ''question_expiry''
         (if qe_resolved_by_reply q then lit ''resolved_by_reply'' else lit ''surfaced'')) qs) (\<lambda>_. ret ())"

definition run_once :: "SweepEnv \<Rightarrow> SweepReport sweep" where
  "run_once env =
     reading (\<lambda>st.
       let sessions = list_active (sw_sessions st) in
       and_then next_slot (\<lambda>slot.
       and_then (check_central_integrity env) (\<lambda>(checked, corrupt).
       and_then (or_log [] (scheduling_check env)) (\<lambda>fan.
       and_then (or_log \<lparr>gr_fired = [], gr_budget_paused = []\<rparr> (goals_check env)) (\<lambda>goal_report.
       and_then reload_conditions (\<lambda>_.
       and_then (or_log [] (condition_check env)) (\<lambda>checkins.
       and_then (questions_check env) (\<lambda>expired.
       and_then (sweep_sessions env slot sessions
           (empty_sweep_report\<lparr>central_integrity_checked := checked, central_integrity_corrupt := corrupt,
             recurrences_fired := fan, goal_checkins_fired := gr_fired goal_report,
             goals_budget_paused := gr_budget_paused goal_report, condition_checkins_fired := checkins,
             questions_expired := expired\<rparr>)) (\<lambda>report.
       and_then (count_expiries (questions_expired report)) (\<lambda>_.
         ret report))))))))))"

section \<open>Acting on the report\<close>

definition operator_alert_message :: ustring where
  "operator_alert_message =
     lit ''A per-session database was quarantined for corruption; that session is '' @
     lit ''excluded from sweeps until an operator intervenes. See `cclaw doctor`.''"

record OperatorAlert =
  al_severity :: ustring
  al_dedup_key :: ustring
  al_message :: ustring

definition alert_quarantines :: "bool \<Rightarrow> SweepReport \<Rightarrow> OperatorAlert list" where
  "alert_quarantines sink_wired report =
     (if \<not> sink_wired then []
      else map (\<lambda>f. \<lparr>al_severity = lit ''critical'', al_dedup_key = lit ''quarantine:'' @ if_session f,
             al_message = operator_alert_message\<rparr>) (integrity_quarantined report))"

text \<open>The sessions the actuator is asked to restart, and how many requests it accepted.\<close>

definition actuate_stuck :: "(SessionId \<Rightarrow> ustring + unit) option \<Rightarrow> SweepReport \<Rightarrow> SessionId list \<times> nat" where
  "actuate_stuck actuator report =
     (case actuator of
        None \<Rightarrow> ([], 0)
      | Some restart_stuck \<Rightarrow>
          (stuck_past_ceiling report,
           length (filter (\<lambda>s. case restart_stuck s of Inr _ \<Rightarrow> True | Inl _ \<Rightarrow> False) (stuck_past_ceiling report))))"

record Actuated =
  ac_report :: SweepReport
  ac_alerts :: "OperatorAlert list"
  ac_restarts :: "SessionId list"

definition run_once_actuated ::
  "SweepEnv \<Rightarrow> bool \<Rightarrow> (SessionId \<Rightarrow> ustring + unit) option \<Rightarrow> Actuated sweep" where
  "run_once_actuated env sink_wired actuator =
     and_then (run_once env) (\<lambda>report.
       ret \<lparr>ac_report = report, ac_alerts = alert_quarantines sink_wired report,
            ac_restarts = fst (actuate_stuck actuator report)\<rparr>)"

end
