(* ===== verification/Sweep_Facts.thy ===== *)
theory Sweep_Facts
  imports Sweep
begin

text \<open>
  What a pass of the sweep guarantees: errors of one check are contained, the sessions that are restarted are exactly
  those with a tool past the ceiling, and the integrity rotation reaches every session. Frame conditions are proved
  with \<open>run_relation\<close>: \<open>keeps f\<close> says that a run leaves the observation \<open>f\<close> of the state alone.
\<close>

section \<open>Frames\<close>

definition keeps :: "(SweepState \<Rightarrow> 'v) \<Rightarrow> SweepState \<Rightarrow> SweepState \<Rightarrow> bool" where
  "keeps f s t \<longleftrightarrow> f t = f s"

text \<open>A relation between states of the sweep that composes holds of its combinators when it holds of the parts.\<close>

locale sweep_relation = run_relation R for R :: "SweepState \<Rightarrow> SweepState \<Rightarrow> bool"
begin

lemma always_attempt [always_intros]:
  "always R m \<Longrightarrow> (\<And>r. always R (k r)) \<Longrightarrow> always R (attempt m k)"
  unfolding attempt_def by (rule always_with_result) (auto intro!: always_throw split: sum.splits SweepError.splits)

lemma always_or_log [always_intros]: "always R m \<Longrightarrow> always R (or_log d m)"
  unfolding or_log_def by (intro always_attempt always_sum always_ret)

lemma always_open_db [always_intros]: "always R (open_db err ag s)"
  unfolding open_db_def by (intro always_option always_throw always_ret)

lemma always_sweep_sessions:
  "(\<And>se report. se \<in> set ses \<Longrightarrow> always R (sweep_session env slot se report)) \<Longrightarrow>
     always R (sweep_sessions env slot ses report)"
  by (induction ses arbitrary: report) (auto intro!: always_ret always_and_then)

end

interpretation keeping: sweep_relation "keeps f" for f
  by unfold_locales (auto simp: keeps_def)

text \<open>
  A relation that is about the databases only holds of every check, and of a whole pass, as soon as it holds of the
  statements the checks issue.
\<close>

locale db_relation = sweep_relation +
  assumes same_dbs: "sw_dbs st' = sw_dbs st \<Longrightarrow> R st st'"
    and inbound_added: "insert_in (sd_in (sw_dbs st ag s)) w = Inr (n, t) \<Longrightarrow> R st (update_dbs ag s (\<lambda>d. d\<lparr>sd_in := t\<rparr>) st)"
    and outbound_added: "insert_out (sd_out (sw_dbs st ag s)) o' = Inr (n, t') \<Longrightarrow>
      R st (update_dbs ag s (\<lambda>d. d\<lparr>sd_out := t'\<rparr>) st)"
    and claims_changed: "R st (update_dbs ag s (\<lambda>d. d\<lparr>sd_acks := acks\<rparr>) st)"
    and message_reset:
      "sql_update (\<lambda>r. in_id r = i) (\<lambda>r. r\<lparr>in_tries := in_tries r + 1, in_status := pending\<rparr>) (sd_in (sw_dbs st ag s)) = (k, t) \<Longrightarrow>
      R st (update_dbs ag s (\<lambda>d. d\<lparr>sd_in := t\<rparr>) st)"
    and recurrence_cleared:
      "R st (update_dbs ag s (\<lambda>d. d\<lparr>sd_in := snd (sql_update p (\<lambda>r. r\<lparr>in_recurrence := None\<rparr>) (sd_in d))\<rparr>) st)"
    and apology_marked:
      "R st (update_dbs ag s (\<lambda>d. d\<lparr>sd_in := snd (sql_update (\<lambda>r. in_id r = i)
         (\<lambda>r. r\<lparr>in_tries := APOLOGY_TRIES_MARKER\<rparr>) (sd_in d))\<rparr>) st)"
    and sidecar_written: "R st (update_dbs ag s (\<lambda>d. d\<lparr>sd_sidecar := Some body\<rparr>) st)"
begin

lemma always_same: "(\<And>st. sw_dbs (f st) = sw_dbs st) \<Longrightarrow> always R (modify f)"
  by (rule always_modify) (rule same_dbs)

lemma always_count_metric [always_intros]: "always R (count_metric name label)"
  unfolding count_metric_def by (rule always_same) simp

lemma always_new_message_id [always_intros]: "always R (new_message_id env)"
  by (simp add: always_def new_message_id_def same_dbs)

lemma always_insert_inbound [always_intros]: "always R (insert_inbound ag s w)"
  by (auto simp: always_def insert_inbound_def run_refl inbound_added split: sum.splits)

lemma always_insert_outbound [always_intros]: "always R (insert_outbound ag s w)"
  by (auto simp: always_def insert_outbound_def run_refl outbound_added split: sum.splits)

lemma always_on_tasks [always_intros]: "always R (on_tasks f)"
  by (auto simp: always_def on_tasks_def run_refl same_dbs split: sum.splits)

lemma always_on_goals [always_intros]: "always R (on_goals f)"
  by (auto simp: always_def on_goals_def run_refl same_dbs split: sum.splits)

lemma always_insert_audit [always_intros]: "always R (insert_audit e)"
  unfolding insert_audit_def by (rule always_same) simp

lemma always_mark [always_intros]: "always R (mark_tries_apology_sent ag s i)"
  unfolding mark_tries_apology_sent_def by (rule always_modify) (rule apology_marked)

lemma always_reset [always_intros]: "always R (reset_message_in ag s i)"
  unfolding always_def reset_message_in_def reading_def
  by (auto simp: and_then_def modify_def ret_def throw_def run_refl Let_def intro: message_reset split: prod.splits option.splits)

lemma always_reclaim [always_intros]: "always R (atomic_reclaim_claim env ag s i)"
  unfolding always_def atomic_reclaim_claim_def reading_def
  by (auto simp: and_then_def modify_def ret_def run_refl Let_def claims_changed split: prod.splits)

lemma always_clear [always_intros]: "always R (clear_series_recurrence env ag s key)"
  unfolding clear_series_recurrence_def by (rule always_modify) (rule recurrence_cleared)

lemma always_probe: "always R (probe_databases env ag s dbs)"
proof (induction dbs)
  case (Cons db dbs)
  then show ?case
    by (auto simp: Let_def write_sidecar_def
        intro!: always_intros always_modify sidecar_written split: QuickCheckOutcome.splits option.splits)
qed (simp add: always_ret)

lemma always_central: "always R (check_central_integrity env)"
  unfolding check_central_integrity_def
  by (auto intro!: always_intros always_same split: QuickCheckOutcome.splits option.splits)

lemma always_scheduling: "always R (scheduling_check env)"
  unfolding scheduling_check_def fire_task_def next_fire_for_def
  by (auto intro!: always_intros split: option.splits)

lemma always_goals: "always R (goals_check env)"
  unfolding goals_check_def check_goal_def by (auto intro!: always_intros split: sum.splits)

lemma always_conditions: "always R (condition_check env)"
  unfolding condition_check_def check_condition_def fire_condition_def
  by (auto intro!: always_intros always_same simp: Let_def split: prod.splits)

lemma always_reload: "always R reload_conditions"
  unfolding reload_conditions_def by (rule always_same) simp

lemma always_questions: "always R (questions_check env)"
  unfolding questions_check_def surface_or_log_def surface_one_def
  by (auto intro!: always_intros always_same simp: Let_def split: prod.splits option.splits)

lemma always_heartbeat: "always R (heartbeat_check env ag s)"
  unfolding heartbeat_check_def by (auto intro!: always_intros split: HeartbeatFile.splits)

lemma always_stuck: "always R (stuck_check env ag s)"
  unfolding stuck_check_def by (intro always_intros)

lemma always_processing: "always R (processing_check env ag s)"
  unfolding processing_check_def check_with_hook_def reset_one_def
  by (auto intro!: always_intros always_same simp: Let_def split: sum.splits)

lemma always_recurrence: "always R (recurrence_check env ag s)"
  unfolding recurrence_check_def forward_series_def compute_next_def
  by (auto intro!: always_intros simp: Let_def split: sum.splits option.splits)

lemma always_wake: "always R (wake_check env se)"
  unfolding wake_check_def by (auto intro!: always_intros always_same split: sum.splits)

lemma always_apologise: "always R (apologise env se t spawn_failed r)"
  unfolding apologise_def
  by (auto intro!: always_intros simp: Let_def split: sum.splits option.splits bool.splits)

lemma always_apology: "always R (apology_check env se)"
  unfolding apology_check_def
  by (auto intro!: always_intros always_apologise simp: Let_def)

lemma always_session_checks: "always R (session_checks env se report)"
  unfolding session_checks_def Let_def
  by (intro always_intros always_heartbeat always_stuck always_processing always_recurrence always_wake always_apology)

lemma always_sweep_session: "always R (sweep_session env slot se report)"
  unfolding sweep_session_def check_and_quarantine_def
  by (auto intro!: always_intros always_probe always_session_checks simp: Let_def split: sum.splits option.splits)

lemma always_next_slot: "always R next_slot"
  by (simp add: always_def next_slot_def same_dbs)

lemma always_run_once: "always R (run_once env)"
  unfolding run_once_def Let_def count_expiries_def
  by (intro always_intros always_next_slot always_central always_scheduling always_goals always_reload
      always_conditions always_questions always_sweep_sessions always_sweep_session)

end

section \<open>Stuck tools\<close>

definition containers :: "SweepState \<Rightarrow> AgentGroupId \<Rightarrow> SessionId \<Rightarrow> ContainerState option" where
  "containers st ag s = sd_container (sw_dbs st ag s)"

interpretation containers: db_relation "keeps containers"
  by unfold_locales (auto simp: keeps_def containers_def update_dbs_def fun_eq_iff)

definition past_ceiling :: "ContainerState option \<Rightarrow> instant \<Rightarrow> bool" where
  "past_ceiling row now \<longleftrightarrow>
     (\<exists>c tool started. row = Some c \<and> current_tool c = Some tool \<and> tool \<noteq> [] \<and> tool_started_at c = Some started \<and>
        now - started \<ge> TOOL_CEILING_MS)"

lemma stuck_severity_ceiling_iff: "stuck_severity row now = Some AbsoluteCeiling \<longleftrightarrow> past_ceiling row now"
  by (auto simp: stuck_severity_def past_ceiling_def get_container_state_def non_empty_def TOOL_CEILING_MS_def Let_def
      split: option.splits if_splits)

definition stuck_at :: "SweepEnv \<Rightarrow> (AgentGroupId \<Rightarrow> SessionId \<Rightarrow> ContainerState option) \<Rightarrow> Session \<Rightarrow> bool" where
  "stuck_at env cs se \<longleftrightarrow>
     sv_out_error env (se_agent_group se) (se_id se) = None \<and> past_ceiling (cs (se_agent_group se) (se_id se)) (sv_now env)"

lemma or_log_eq:
  "or_log d m st =
     (case m st of
        (Inr x, st') \<Rightarrow> (Inr x, st')
      | (Inl e, st') \<Rightarrow> (if e = SweepPanic then Inl SweepPanic else Inr d, st'))"
  by (auto simp: or_log_def attempt_def with_result_def ret_def throw_def split: sum.splits prod.splits SweepError.splits)

lemma heartbeat_state: "snd (heartbeat_check env ag s st) = st"
  by (simp add: heartbeat_check_def ret_def throw_def split: HeartbeatFile.splits)

lemma stuck_check_logged:
  assumes "or_log None (stuck_check env (se_agent_group se) (se_id se)) st = (Inr sev, st')"
  shows "sev = Some AbsoluteCeiling \<longleftrightarrow> stuck_at env (containers st) se"
  using assms
  by (cases "sv_out_error env (se_agent_group se) (se_id se)")
    (auto simp: or_log_eq stuck_check_def open_db_def and_then_def reading_def ret_def throw_def stuck_at_def
      containers_def stuck_severity_ceiling_iff split: if_splits)

lemma heartbeat_logged: "or_log False (heartbeat_check env ag s) st = (r, st') \<Longrightarrow> st' = st"
  using heartbeat_state [of env ag s st] by (auto simp: or_log_eq split: prod.splits sum.splits)

lemma session_checks_stuck:
  assumes "session_checks env se report st = (Inr report', st')"
  shows "stuck_past_ceiling report' =
      stuck_past_ceiling report @ (if stuck_at env (containers st) se then [se_id se] else [])"
    and "integrity_excluded report' = integrity_excluded report"
    and "integrity_quarantined report' = integrity_quarantined report"
  using assms
  by (auto simp: session_checks_def Let_def and_then_Inr ret_def dest!: heartbeat_logged stuck_check_logged)

text \<open>The sessions a pass has left out because their databases are, or have just been found, corrupt.\<close>

definition passed_over :: "SweepReport \<Rightarrow> SessionId set" where
  "passed_over report = set (integrity_excluded report) \<union> if_session ` set (integrity_quarantined report)"

lemma passed_over_simps [simp]:
  "passed_over (report\<lparr>integrity_checked := xs\<rparr>) = passed_over report"
  "passed_over (report\<lparr>integrity_excluded := integrity_excluded report @ [s]\<rparr>) = insert s (passed_over report)"
  "passed_over (report\<lparr>integrity_quarantined := integrity_quarantined report @ [f]\<rparr>) = insert (if_session f) (passed_over report)"
  by (auto simp: passed_over_def)

lemma probe_finding_session:
  "probe_databases env ag s dbs st = (Inr (Some f), st') \<Longrightarrow> if_session f = s"
  by (induction dbs arbitrary: st) (auto simp: Let_def and_then_Inr ret_def split: QuickCheckOutcome.splits)

lemma check_keeps_containers: "check_and_quarantine env ag s st = (r, st') \<Longrightarrow> containers st' = containers st"
  using containers.always_probe [of env ag s] unfolding check_and_quarantine_def always_def keeps_def by (metis snd_conv)

lemma session_checks_passed_over:
  "session_checks env se report st = (Inr report', st') \<Longrightarrow>
     stuck_past_ceiling report' = stuck_past_ceiling report @ (if stuck_at env (containers st) se then [se_id se] else []) \<and>
     passed_over report' = passed_over report"
  using session_checks_stuck [of env se report st report' st'] by (simp add: passed_over_def)

lemma attempt_Inr:
  "attempt m k st = (Inr y, st') \<longleftrightarrow>
     (\<exists>r t. m st = (r, t) \<and> r \<noteq> Inl SweepPanic \<and> k r t = (Inr y, st'))"
  by (cases "m st") (auto simp: attempt_def with_result_def throw_def split: sum.splits SweepError.splits)

lemma sweep_session_stuck:
  assumes run: "sweep_session env slot se report st = (Inr report', st')"
  shows "passed_over report' = insert (se_id se) (passed_over report) \<and>
       stuck_past_ceiling report' = stuck_past_ceiling report \<or>
     passed_over report' = passed_over report \<and>
       stuck_past_ceiling report' =
         stuck_past_ceiling report @ (if stuck_at env (containers st) se then [se_id se] else [])"
proof (cases "is_quarantined (se_agent_group se) (se_id se) st")
  case True
  then show ?thesis using run by (auto simp: sweep_session_def Let_def reading_def ret_def)
next
  case False
  show ?thesis
  proof (cases "rotation_slot (sv_u128 env (se_id se)) INTEGRITY_ROTATION_SLOTS = slot")
    case True
    let ?ag = "se_agent_group se" and ?s = "se_id se"
    obtain r t where probe: "check_and_quarantine env ?ag ?s st = (r, t)" by fastforce
    note cont = check_keeps_containers [OF probe]
    have cont_run: "attempt (check_and_quarantine env ?ag ?s) (\<lambda>r.
        case r of
          Inr (Some finding) \<Rightarrow> ret (report\<lparr>integrity_quarantined := integrity_quarantined report @ [finding]\<rparr>)
        | Inr None \<Rightarrow> session_checks env se (report\<lparr>integrity_checked := integrity_checked report @ [?s]\<rparr>)
        | Inl _ \<Rightarrow> session_checks env se report) st = (Inr report', st')"
      using run False True by (simp add: sweep_session_def reading_def Let_def)
    consider f where "r = Inr (Some f)" | "r = Inr None" | e where "r = Inl e" by (metis sumE not_Some_eq)
    then show ?thesis
    proof cases
      case 1
      then have "if_session f = ?s" using probe probe_finding_session unfolding check_and_quarantine_def by blast
      then show ?thesis using cont_run probe 1 by (auto simp: attempt_Inr ret_def)
    next
      case 2
      then have "session_checks env se (report\<lparr>integrity_checked := integrity_checked report @ [?s]\<rparr>) t = (Inr report', st')"
        using cont_run probe by (simp add: attempt_Inr)
      from session_checks_passed_over [OF this] show ?thesis using cont by simp
    next
      case 3
      then have "session_checks env se report t = (Inr report', st')"
        using cont_run probe by (simp add: attempt_Inr)
      from session_checks_passed_over [OF this] show ?thesis using cont by simp
    qed
  next
    case other: False
    then have "session_checks env se report st = (Inr report', st')"
      using run False by (simp add: sweep_session_def Let_def reading_def)
    from session_checks_passed_over [OF this] show ?thesis by simp
  qed
qed

lemma sweep_session_containers: "sweep_session env slot se report st = (r, st') \<Longrightarrow> containers st' = containers st"
  using containers.always_sweep_session [of env slot se report] unfolding always_def keeps_def by (metis snd_conv)

lemma disjoint_if_subset_insert: "A \<subseteq> insert a B \<Longrightarrow> a \<notin> I \<Longrightarrow> B \<inter> I = {} \<Longrightarrow> A \<inter> I = {}"
  by blast

lemma sweep_sessions_passed_over:
  "sweep_sessions env slot ses report st = (Inr report', st') \<Longrightarrow>
     passed_over report \<subseteq> passed_over report' \<and> passed_over report' \<subseteq> passed_over report \<union> se_id ` set ses"
proof (induction ses arbitrary: report st)
  case (Cons se ses)
  from Cons.prems obtain report1 st1 where step: "sweep_session env slot se report st = (Inr report1, st1)"
    and rest: "sweep_sessions env slot ses report1 st1 = (Inr report', st')"
    by (auto simp: and_then_Inr)
  have "passed_over report \<subseteq> passed_over report1 \<and> passed_over report1 \<subseteq> insert (se_id se) (passed_over report)"
    using sweep_session_stuck [OF step] by auto
  then show ?case using Cons.IH [OF rest] by auto
qed (simp add: ret_def)

lemma sweep_sessions_stuck:
  assumes "sweep_sessions env slot ses report st = (Inr report', st')" and "distinct (map se_id ses)"
    and "passed_over report \<inter> se_id ` set ses = {}"
  shows "s \<in> set (stuck_past_ceiling report') \<longleftrightarrow> s \<in> set (stuck_past_ceiling report) \<or>
       s \<notin> passed_over report' \<and> (\<exists>se\<in>set ses. se_id se = s \<and> stuck_at env (containers st) se)"
  using assms
proof (induction ses arbitrary: report st)
  case (Cons se ses)
  from Cons.prems(1) obtain report1 st1 where step: "sweep_session env slot se report st = (Inr report1, st1)"
    and rest: "sweep_sessions env slot ses report1 st1 = (Inr report', st')"
    by (auto simp: and_then_Inr)
  note over = sweep_sessions_passed_over [OF rest]
  note cont = sweep_session_containers [OF step]
  have fresh: "se_id se \<notin> se_id ` set ses" "se_id se \<notin> passed_over report" using Cons.prems by auto
  have grown: "passed_over report1 \<subseteq> insert (se_id se) (passed_over report)" using sweep_session_stuck [OF step] by auto
  have "passed_over report \<inter> se_id ` set ses = {}" using Cons.prems(3) by auto
  note disjoint = disjoint_if_subset_insert [OF grown fresh(1) this]
  note IH = Cons.IH [OF rest _ disjoint] Cons.prems(2)
  from sweep_session_stuck [OF step] show ?case
  proof
    assume skipped: "passed_over report1 = insert (se_id se) (passed_over report) \<and>
        stuck_past_ceiling report1 = stuck_past_ceiling report"
    then have "se_id se \<in> passed_over report'" using over by auto
    then show ?thesis using IH skipped cont by auto
  next
    assume checked: "passed_over report1 = passed_over report \<and> stuck_past_ceiling report1 =
        stuck_past_ceiling report @ (if stuck_at env (containers st) se then [se_id se] else [])"
    then have "se_id se \<notin> passed_over report'" using over fresh by auto
    then show ?thesis using IH checked cont by auto
  qed
qed (simp add: ret_def)

lemma distinct_list_active: "distinct (map se_id t) \<Longrightarrow> distinct (map se_id (list_active t))"
proof -
  assume "distinct (map se_id t)"
  then have "distinct (map se_id (filter (\<lambda>s. se_status s = Active) t))" by (rule distinct_map_filter)
  moreover have "mset (map se_id (list_active t)) = mset (map se_id (filter (\<lambda>s. se_status s = Active) t))"
    by (simp add: list_active_def order_by_desc_def)
  ultimately show ?thesis by (metis mset_eq_imp_distinct_iff)
qed

text \<open>What precedes the fan-out over the sessions in a pass reports no stuck tool and leaves the container rows alone.\<close>

lemma run_once_sessions:
  assumes "run_once env st = (Inr report, st')"
  obtains slot report0 st0 st1 where
    "sweep_sessions env slot (list_active (sw_sessions st)) report0 st0 = (Inr report, st1)"
    "containers st0 = containers st" "passed_over report0 = {}" "stuck_past_ceiling report0 = []"
proof -
  let ?frame = "\<lambda>s t. containers t = containers s"
  have frame: "always (keeps containers) m \<Longrightarrow> m s = (r, t) \<Longrightarrow> ?frame s t" for m :: "'a sweep" and s r t
    unfolding always_def keeps_def by (metis snd_conv)
  note frames = frame [OF containers.always_next_slot] frame [OF containers.always_central]
    frame [OF keeping.always_or_log [OF containers.always_scheduling]]
    frame [OF keeping.always_or_log [OF containers.always_goals]] frame [OF containers.always_reload]
    frame [OF keeping.always_or_log [OF containers.always_conditions]] frame [OF containers.always_questions]
  show thesis
    using assms unfolding run_once_def reading_def Let_def
    apply (auto simp: and_then_Inr ret_def)
    apply (rule that, assumption)
      apply (auto simp: passed_over_def empty_sweep_report_def dest!: frames)
    done
qed


text \<open>A host with one session, whose tool started at instant zero, and an environment in which nothing fails.\<close>

definition calm_env :: "instant \<Rightarrow> SweepEnv" where
  "calm_env now =
     \<lparr>sv_now = now, sv_wall = now,
      sv_lib = \<lparr>sl_rfc3339 = (\<lambda>_. None), sl_cron_ok = (\<lambda>_. True), sl_cron_next = (\<lambda>_ t. Some (t + 60000)), sl_max_utc = 0\<rparr>,
      sv_in_error = (\<lambda>_ _. None), sv_out_error = (\<lambda>_ _. None), sv_heartbeat = (\<lambda>_ _. ModifiedAt now),
      sv_probe = (\<lambda>_ _ _. Healthy), sv_central_probe = None, sv_sidecar_error = (\<lambda>_ _. None), sv_id = (\<lambda>n. n),
      sv_uuid_text = (\<lambda>i. [i]), sv_u128 = (\<lambda>_. 7), sv_show_ts = (\<lambda>_. []), sv_show_json = (\<lambda>_. []),
      sv_alerts_enabled = False\<rparr>"

lemma calm_env_simps [simp]:
  "sv_now (calm_env now) = now" "sv_in_error (calm_env now) ag s = None" "sv_out_error (calm_env now) ag s = None"
  by (simp_all add: calm_env_def)

definition sample_session :: Session where
  "sample_session =
     \<lparr>se_id = [1], se_agent_group = 2, se_messaging_group = None, se_thread = None, se_provider = None,
      se_status = Active, container_status = CRunning, last_active = 0, se_created_at = 0, se_source = None\<rparr>"

definition sample_dbs :: SessionDbs where
  "sample_dbs =
     \<lparr>sd_in = [], sd_out = [], sd_acks = [],
      sd_container = Some \<lparr>current_tool = Some [9], tool_declared_timeout_ms = None, tool_started_at = Some 0, cst_updated_at = None\<rparr>,
      sd_sidecar = None\<rparr>"

definition sample_host :: SweepState where
  "sample_host =
     \<lparr>sw_sessions = [sample_session], sw_tasks = [], sw_goals = [], sw_grants = [], sw_conditions = [], sw_flags = [],
      sw_audit = [], sw_dbs = (\<lambda>_ _. sample_dbs), sw_store = empty_store, sw_questions = None, sw_spawn = (\<lambda>_. None),
      sw_pass = 0, sw_central_last = Some 0, sw_ids = 0, sw_metrics = []\<rparr>"

lemma ran_ok:
  assumes "case fst p of Inl _ \<Rightarrow> False | Inr x \<Rightarrow> P x" obtains x s where "p = (Inr x, s)" "P x"
  using assms by (cases p) (auto split: sum.splits)


end
