(* ===== verification/Sweep_Claims.thy ===== *)
theory Sweep_Claims
  imports Sweep_Facts
begin

text \<open>
  The check on abandoned claims (\<open>checks/processing.rs\<close>): what it resets, and that a turn which the container answers
  between the scan and the transaction is left alone.
\<close>

section \<open>One reset\<close>

text \<open>The effect of one reset on the databases of the session.\<close>

definition reclaim :: "MessageId set \<Rightarrow> SessionDbs \<Rightarrow> SessionDbs" where
  "reclaim ids d =
     d\<lparr>sd_acks := filter (\<lambda>r. ack_id r \<notin> ids) (sd_acks d),
       sd_in := map (\<lambda>r. if in_id r \<in> ids then r\<lparr>in_tries := in_tries r + 1, in_status := pending\<rparr> else r) (sd_in d)\<rparr>"

lemma reclaim_empty [simp]: "reclaim {} = (\<lambda>d. d)"
  by (simp add: reclaim_def fun_eq_iff)

lemma reclaim_insert: "i \<notin> ids \<Longrightarrow> reclaim ids (reclaim {i} d) = reclaim (insert i ids) d"
  by (auto simp: reclaim_def intro!: filter_cong)

lemma update_dbs_same [simp]: "sw_dbs (update_dbs ag s f st) ag s = f (sw_dbs st ag s)"
  by (simp add: update_dbs_def)

lemma update_dbs_twice [simp]: "update_dbs ag s f (update_dbs ag s g st) = update_dbs ag s (\<lambda>d. f (g d)) st"
  by (simp add: update_dbs_def)

lemma update_dbs_const: "update_dbs ag s (\<lambda>_. f (sw_dbs st ag s)) st = update_dbs ag s f st"
  by (simp add: update_dbs_def)

lemma update_dbs_id [simp]: "update_dbs ag s (\<lambda>d. d) st = st"
  by (simp add: update_dbs_def)

lemma update_dbs_at: "f (sw_dbs st ag s) = g (sw_dbs st ag s) \<Longrightarrow> update_dbs ag s f st = update_dbs ag s g st"
  by (simp add: update_dbs_def)

lemma reclaimable_cases:
  "reclaimable now d i \<Longrightarrow> filter (\<lambda>r. ack_id r = i) (sd_acks d) \<noteq> []"
  by (auto simp: reclaimable_def filter_empty_conv find_Some_iff split: option.splits)

lemma find_map_same:
  "(\<And>r. p (f r) = p r) \<Longrightarrow> filter p t \<noteq> [] \<Longrightarrow> \<exists>r. find p (map f t) = Some r"
  by (induction t) (auto split: if_splits)

lemma find_filter_implied: "(\<And>r. p r \<Longrightarrow> q r) \<Longrightarrow> find p (filter q t) = find p t"
  by (induction t) auto

lemma reset_one_reclaimable:
  assumes "reclaimable (sv_now env) (sw_dbs st ag s) i"
  shows "\<exists>n. reset_one env ag s (\<lambda>_ st. st) i st =
    (Inr (Some \<lparr>mr_session = s, mr_message = i, mr_new_tries = n\<rparr>), update_dbs ag s (reclaim {i}) st)"
proof -
  let ?d = "sw_dbs st ag s"
  let ?f = "\<lambda>r. if in_id r = i then r\<lparr>in_tries := in_tries r + 1, in_status := pending\<rparr> else r"
  let ?st = "update_dbs ag s (\<lambda>d. d\<lparr>sd_acks := filter (\<lambda>r. ack_id r \<noteq> i) (sd_acks ?d)\<rparr>) st"
  have claim: "atomic_reclaim_claim env ag s i st = (Inr True, ?st)"
    using assms reclaimable_cases [OF assms]
    by (auto simp: atomic_reclaim_claim_def reading_def Let_def sql_delete_def and_then_def modify_def ret_def)
  have both: "update_dbs ag s (\<lambda>d. d\<lparr>sd_in := map ?f (sd_in ?d)\<rparr>) ?st = update_dbs ag s (reclaim {i}) st"
    by (simp add: update_dbs_def reclaim_def)
  have "\<exists>n. reset_message_in ag s i ?st = (Inr n, update_dbs ag s (reclaim {i}) st)"
  proof (cases "filter (\<lambda>r. in_id r = i) (sd_in ?d) = []")
    case True
    then have "map ?f (sd_in ?d) = sd_in ?d" by (auto simp: filter_empty_conv intro: map_idI)
    then have "?st = update_dbs ag s (reclaim {i}) st" by (simp add: update_dbs_def reclaim_def)
    moreover have "reset_message_in ag s i ?st = (Inr 0, ?st)"
      using True by (simp add: reset_message_in_def reading_def sql_update_def ret_def)
    ultimately show ?thesis by simp
  next
    case False
    have "\<exists>r. find (\<lambda>r. in_id r = i) (map ?f (sd_in ?d)) = Some r"
      by (rule find_map_same [OF _ False]) simp
    then obtain r where "find (\<lambda>r. in_id r = i) (map ?f (sd_in ?d)) = Some r" ..
    then have "reset_message_in ag s i ?st = (Inr (in_tries r), update_dbs ag s (\<lambda>d. d\<lparr>sd_in := map ?f (sd_in ?d)\<rparr>) ?st)"
      using False by (simp add: reset_message_in_def reading_def sql_update_def and_then_def modify_def ret_def del: update_dbs_twice)
    then show ?thesis unfolding both by blast
  qed
  with claim show ?thesis
    by (auto simp: reset_one_def and_then_def modify_def ret_def)
qed

lemma reclaimable_reclaim:
  assumes "j \<noteq> i"
  shows "reclaimable now (reclaim {i} d) j = reclaimable now d j"
proof -
  have "find (\<lambda>r. ack_id r = j) (filter (\<lambda>r. ack_id r \<notin> {i}) (sd_acks d)) = find (\<lambda>r. ack_id r = j) (sd_acks d)"
    using assms by (intro find_filter_implied) auto
  then show ?thesis by (simp add: reclaimable_def reclaim_def split: option.splits)
qed

lemma resets_all_reclaimable:
  "distinct ids \<Longrightarrow> (\<And>i. i \<in> set ids \<Longrightarrow> reclaimable (sv_now env) (sw_dbs st ag s) i) \<Longrightarrow>
     \<exists>rs. traverse (reset_one env ag s (\<lambda>_ st. st)) ids st = (Inr (map Some rs), update_dbs ag s (reclaim (set ids)) st) \<and>
       map mr_message rs = ids"
proof (induction ids arbitrary: st)
  case (Cons i ids)
  let ?st = "update_dbs ag s (reclaim {i}) st"
  obtain n where step: "reset_one env ag s (\<lambda>_ st. st) i st =
      (Inr (Some \<lparr>mr_session = s, mr_message = i, mr_new_tries = n\<rparr>), ?st)"
    using reset_one_reclaimable Cons.prems(2) by fastforce
  have "reclaimable (sv_now env) (sw_dbs ?st ag s) j" if "j \<in> set ids" for j
  proof -
    have "j \<noteq> i" using Cons.prems(1) that by auto
    then show ?thesis using Cons.prems(2) that by (simp add: reclaimable_reclaim)
  qed
  then obtain rs where "traverse (reset_one env ag s (\<lambda>_ st. st)) ids ?st =
      (Inr (map Some rs), update_dbs ag s (reclaim (set ids)) ?st)" "map mr_message rs = ids"
    using Cons.IH Cons.prems(1) by fastforce
  then show ?case using Cons.prems(1)
    by (intro exI [of _ "\<lparr>mr_session = s, mr_message = i, mr_new_tries = n\<rparr> # rs"])
      (simp add: and_then_def step ret_def reclaim_insert)
qed (simp add: ret_def cong: if_cong)

section \<open>The scan\<close>

lemma find_ack: "acks_wf t \<Longrightarrow> find (\<lambda>r. ack_id r = i) t = Some r \<longleftrightarrow> r \<in> set t \<and> ack_id r = i"
  using ack_key.find_key [of t r] by (auto simp: find_Some_iff)

lemma abandoned_claims_eq:
  assumes "acks_wf (sd_acks d)"
  shows "\<exists>ids. abandoned_claims now d = Inr ids \<and> distinct ids \<and> (\<forall>i. i \<in> set ids \<longleftrightarrow> reclaimable now d i)"
proof -
  let ?abandoned = "\<lambda>c. claim_status c = Processing \<and> now - claim_changed c \<ge> CLAIM_STUCK_MS \<and>
      \<not> has_reply_in_outbound (sd_out d) (claim_id c)"
  let ?claims = "map read_claim (order_by ack_changed (sd_acks d))"
  have "mset (map claim_id ?claims) = mset (map ack_id (sd_acks d))"
    by (simp add: read_claim_def comp_def order_by_def)
  then have "distinct (map claim_id ?claims)"
    using assms by (metis acks_wf_def mset_eq_imp_distinct_iff)
  moreover have parsed: "claim_status (read_claim r) = Processing \<longleftrightarrow> ack_parse (ack_status r) = Some Processing"
    if "r \<in> set (sd_acks d)" for r
    using row_to_claim_read [OF assms that] by (auto simp: row_to_claim_def read_claim_def split: option.splits)
  moreover have "i \<in> claim_id ` set (filter ?abandoned ?claims) \<longleftrightarrow> reclaimable now d i" for i
  proof -
    have "i \<in> claim_id ` set (filter ?abandoned ?claims) \<longleftrightarrow>
        (\<exists>r\<in>set (sd_acks d). claim_id (read_claim r) = i \<and> ?abandoned (read_claim r))"
      by auto
    also have "\<dots> \<longleftrightarrow>
        (\<exists>r\<in>set (sd_acks d). ack_id r = i \<and> ack_parse (ack_status r) = Some Processing \<and>
           now - ack_changed r \<ge> CLAIM_STUCK_MS \<and> \<not> has_reply_in_outbound (sd_out d) i)"
      by (intro bex_cong refl) (auto simp: parsed, auto simp: read_claim_def)
    also have "\<dots> \<longleftrightarrow> reclaimable now d i"
      using find_ack [OF assms, of i]
      by (auto simp: reclaimable_def split: option.splits) (metis option.inject option.distinct(1))+
    finally show ?thesis .
  qed
  ultimately show ?thesis
    using get_all_acks_eq [OF assms]
    by (intro exI [of _ "map claim_id (filter ?abandoned ?claims)"]) (simp add: abandoned_claims_def distinct_map_filter)
qed


text \<open>A host whose session holds one claim, taken at instant zero.\<close>

definition claiming_host :: SweepState where
  "claiming_host = sample_host\<lparr>sw_dbs := (\<lambda>_ _. sample_dbs\<lparr>sd_acks := [ack_row 7 Processing 0]\<rparr>)\<rparr>"

lemma claiming_host_dbs [simp]: "sw_dbs claiming_host ag s = sample_dbs\<lparr>sd_acks := [ack_row 7 Processing 0]\<rparr>"
  by (simp add: claiming_host_def)

lemma ack_row_simps [simp]:
  "ack_id (ack_row i p t) = i" "ack_changed (ack_row i p t) = t" "ack_parse (ack_status (ack_row i p t)) = Some p"
  "ack_status (ack_row i p t) \<in> range ack_as_str"
  by (simp_all add: ack_row_def processing_status.parse_as_str)

lemma claiming_host_reclaimable: "reclaimable 60000 (sw_dbs claiming_host ag s) i \<longleftrightarrow> i = 7"
  by (auto simp: reclaimable_def sample_dbs_def CLAIM_STUCK_MS_def
      has_reply_in_outbound_def)


section \<open>Races with the container\<close>

lemma reset_one_other:
  assumes "i \<noteq> m" and "\<And>st. sd_in (sw_dbs (hook i st) ag s) = sd_in (sw_dbs st ag s)"
  shows "always (keeps (\<lambda>st. filter (\<lambda>r. in_id r = m) (sd_in (sw_dbs st ag s)))) (reset_one env ag s hook i)"
proof -
  have reset: "always (keeps (\<lambda>st. filter (\<lambda>r. in_id r = m) (sd_in (sw_dbs st ag s)))) (reset_message_in ag s i)"
    using assms(1) by (auto simp: always_def keeps_def reset_message_in_def reading_def sql_update_def and_then_def modify_def ret_def
        throw_def filter_map comp_def if_distrib cong: if_cong split: option.splits intro!: map_idI)
  show ?thesis
    unfolding reset_one_def atomic_reclaim_claim_def Let_def
    by (intro keeping.always_and_then keeping.always_if keeping.always_ret keeping.always_reading keeping.always_modify
        keeping.always_prod reset) (auto simp: keeps_def assms(2))
qed

lemma reset_one_answered:
  "\<not> reclaimable (sv_now env) (sw_dbs (hook m st) ag s) m \<Longrightarrow> reset_one env ag s hook m st = (Inr None, hook m st)"
  by (simp add: reset_one_def and_then_def modify_def atomic_reclaim_claim_def reading_def Let_def ret_def)

lemma reset_one_id: "reset_one env ag s hook i st = (Inr (Some r), st') \<Longrightarrow> mr_message r = i"
  by (auto simp: reset_one_def and_then_Inr ret_def split: if_splits)

lemma resets_skip_answered:
  assumes hook: "\<And>i st. sd_in (sw_dbs (hook i st) ag s) = sd_in (sw_dbs st ag s)"
    and answered: "\<And>st. \<not> reclaimable (sv_now env) (sw_dbs (hook m st) ag s) m"
    and run: "traverse (reset_one env ag s hook) ids st = (Inr rs, st')"
  shows "m \<notin> mr_message ` {r. Some r \<in> set rs} \<and>
    filter (\<lambda>r. in_id r = m) (sd_in (sw_dbs st' ag s)) = filter (\<lambda>r. in_id r = m) (sd_in (sw_dbs st ag s))"
  using run
proof (induction ids arbitrary: st rs)
  case (Cons i ids)
  then obtain r rs1 st1 where step: "reset_one env ag s hook i st = (Inr r, st1)"
    and rest: "traverse (reset_one env ag s hook) ids st1 = (Inr rs1, st')" and rs: "rs = r # rs1"
    by (auto simp: and_then_Inr ret_def)
  have skip: "reset_one env ag s hook m st = (Inr None, hook m st)"
    by (rule reset_one_answered) (rule answered)
  have "r \<noteq> Some x" if "mr_message x = m" for x
    using step reset_one_id [of env ag s hook i st x st1] skip that by auto
  moreover have "filter (\<lambda>r. in_id r = m) (sd_in (sw_dbs st1 ag s)) = filter (\<lambda>r. in_id r = m) (sd_in (sw_dbs st ag s))"
  proof (cases "i = m")
    case True
    then show ?thesis using step skip hook by auto
  next
    case False
    then show ?thesis using reset_one_other [where hook = hook and env = env, OF False hook] step
      unfolding always_def keeps_def by (metis snd_conv)
  qed
  ultimately show ?case using Cons.IH [OF rest] rs by auto
qed (simp add: ret_def)

text \<open>
  C10: The transaction closes the window between the scan and the reset. Whatever the container writes there to its own
  database (the hook of \<open>check_with_hook\<close>, which leaves the inbound queue alone), a message that is by then answered,
  finished or claimed afresh is not reported as reset, and its inbound row keeps its status and its tries.
\<close>

theorem answered_turn_is_not_reset:
  assumes "check_with_hook env ag s hook st = (Inr resets, st')"
    and "\<And>i st. sd_in (sw_dbs (hook i st) ag s) = sd_in (sw_dbs st ag s)"
    and "\<And>st. \<not> reclaimable (sv_now env) (sw_dbs (hook m st) ag s) m"
  shows "m \<notin> mr_message ` set resets \<and>
    filter (\<lambda>r. in_id r = m) (sd_in (sw_dbs st' ag s)) = filter (\<lambda>r. in_id r = m) (sd_in (sw_dbs st ag s))"
  using assms(1)
  by (auto simp: check_with_hook_def open_db_def and_then_Inr reading_def ret_def throw_def List.map_filter_def
      split: option.splits sum.splits if_splits
      dest!: resets_skip_answered [where hook = hook and m = m and env = env and ag = ag and s = s, OF assms(2,3)])

definition answering :: "MessageId \<Rightarrow> SweepState \<Rightarrow> SweepState" where
  "answering i = update_dbs 2 [1] (\<lambda>d. d\<lparr>sd_acks := [ack_row i Done 60000]\<rparr>)"

theorem answered_turn_is_not_reset_witness:
  "\<exists>resets st'. check_with_hook (calm_env 60000) 2 [1] answering claiming_host = (Inr resets, st') \<and>
     7 \<notin> mr_message ` set resets"
proof -
  let ?run = "check_with_hook (calm_env 60000) 2 [1] answering claiming_host"
  have "case fst ?run of Inl _ \<Rightarrow> False | Inr _ \<Rightarrow> True" by code_simp
  then obtain resets st' where run: "?run = (Inr resets, st')" by (rule ran_ok)
  from answered_turn_is_not_reset [OF run, of 7] run show ?thesis
    by (auto simp: answering_def reclaimable_def)
qed

end
