(* ===== verification/Sweep_Tasks.thy ===== *)
theory Sweep_Tasks
  imports Sweep_Facts
begin

text \<open>
  The scheduled tasks (\<open>checks/scheduling.rs\<close> on the \<open>tasks\<close> table): in a pass every due task fires once, is re-armed
  strictly in the future or completed, and wakes its own session with one row.
\<close>

section \<open>The next occurrence\<close>

text \<open>What \<open>next_fire_for\<close> answers when no schedule string makes it panic.\<close>

definition rearm :: "SweepEnv \<Rightarrow> Task \<Rightarrow> instant option" where
  "rearm env t =
     (case tk_recurrence t of
        None \<Rightarrow> None
      | Some r \<Rightarrow>
          (case parse_when (sv_lib env) (sv_wall env) (tk_when_spec t) of
             Some (Inr w) \<Rightarrow>
               (case compute_next_fire (sv_lib env) w (sv_now env) (Some r) of
                  Some n \<Rightarrow> Some n
                | None \<Rightarrow> if trim r \<noteq> [] then compute_next_fire (sv_lib env) (At (sv_now env)) (sv_now env) (Some r) else None)
           | _ \<Rightarrow> if trim r \<noteq> [] then compute_next_fire (sv_lib env) (At (sv_now env)) (sv_now env) (Some r) else None))"

definition schedule_returns :: "SweepEnv \<Rightarrow> Task \<Rightarrow> bool" where
  "schedule_returns env t \<longleftrightarrow> tk_recurrence t = None \<or> parse_when (sv_lib env) (sv_wall env) (tk_when_spec t) \<noteq> None"

lemma next_fire_for_rearm:
  "schedule_returns env t \<Longrightarrow>
     (case tk_recurrence t of Some r \<Rightarrow> next_fire_for env (tk_when_spec t) (Some r) | None \<Rightarrow> ret None) st = (Inr (rearm env t), st)"
  by (auto simp: schedule_returns_def next_fire_for_def rearm_def ret_def split: option.splits sum.splits)

lemma rearm_future:
  assumes lib: "schedule_lib_ok (sv_lib env)" and "rearm env t = Some n"
  shows "sv_now env < n"
proof -
  have "now < n" if "compute_next_fire (sv_lib env) (At x) now r = Some n" for x now r
    using compute_next_fire_future [OF lib _ that] by (simp add: when_wf_def)
  then show ?thesis
    using assms(2) by (auto simp: rearm_def split: option.splits sum.splits if_splits
        intro: compute_next_fire_future [OF lib] parse_when_wf)
qed

text \<open>The row of a task after it has fired.\<close>

definition task_change :: "SweepEnv \<Rightarrow> Task \<Rightarrow> Task \<Rightarrow> Task" where
  "task_change env t r =
     r\<lparr>tk_next_fire := rearm env t, tk_status := (if rearm env t = None then CompletedTask else tk_status r),
       tk_last_fired := Some (sv_now env), tk_fire_count := tk_fire_count r + 1, tk_updated_at := sv_wall env\<rparr>"

abbreviation fired :: "SweepEnv \<Rightarrow> Task \<Rightarrow> Task" where
  "fired env t \<equiv> task_change env t t"

lemma task_change_id [simp]: "tk_id (task_change env t r) = tk_id r"
  by (simp add: task_change_def)

lemma fired_not_due: "schedule_lib_ok (sv_lib env) \<Longrightarrow> \<not> task_is_due (sv_now env) (fired env t)"
  using rearm_future [of env t] by (auto simp: task_is_due_def task_change_def split: option.splits)

section \<open>One task\<close>

definition is_wake :: "SweepEnv \<Rightarrow> Task \<Rightarrow> MessageInRow \<Rightarrow> bool" where
  "is_wake env t r \<longleftrightarrow> (\<exists>i seq. r = inbound_row (wake_row i (sv_now env) (task_content t) (tk_id t)) seq)"

text \<open>Ids are generated fresh: \<open>MessageId::new\<close> draws a UUID that no row holds.\<close>

definition fresh_ids :: "SweepEnv \<Rightarrow> SweepState \<Rightarrow> bool" where
  "fresh_ids env st \<longleftrightarrow>
     inj (sv_id env) \<and> (\<forall>n ag s. sw_ids st \<le> n \<longrightarrow> sv_id env n \<notin> in_id ` set (sd_in (sw_dbs st ag s)))"

lemma insert_fresh:
  "w_id w \<notin> in_id ` set t \<Longrightarrow> insert_in t w = Inr (next_even_seq t, t @ [inbound_row w (next_even_seq t)])"
  using next_even_seq_fresh [of t] by (simp add: insert_in_def insert_impl_def Let_def)

lemma on_tasks_update:
  "tk_id t \<in> tk_id ` set (sw_tasks st) \<Longrightarrow>
     on_tasks (\<lambda>ts. update_task_row f ts (tk_id t)) st =
     (Inr (), st\<lparr>sw_tasks := map (\<lambda>r. if tk_id r = tk_id t then f r else r) (sw_tasks st)\<rparr>)"
  by (simp add: on_tasks_def update_task_row_cases)

lemma id_kept:
  assumes "j \<in> tk_id ` set (sw_tasks st)" and "\<And>r. tk_id (f r) = tk_id r"
    and st': "sw_tasks st' = map (\<lambda>r. if tk_id r = i then f r else r) (sw_tasks st)"
  shows "j \<in> tk_id ` set (sw_tasks st')"
proof -
  have "map tk_id (sw_tasks st') = map tk_id (sw_tasks st)" unfolding st' by (rule map_id_update) (rule assms)
  then show ?thesis using assms(1) by (metis set_map)
qed

lemma map_update_twice:
  "(\<And>r. tk_id (f r) = tk_id r) \<Longrightarrow> (\<And>r. g (f r) = h r) \<Longrightarrow>
     map (\<lambda>r. if tk_id r = i then g r else r) (map (\<lambda>r. if tk_id r = i then f r else r) t) =
     map (\<lambda>r. if tk_id r = i then h r else r) t"
  by simp

text \<open>The last step of \<open>fire_task\<close>: re-arm or complete.\<close>

definition settle_task :: "SweepEnv \<Rightarrow> Task \<Rightarrow> instant option \<Rightarrow> unit sweep" where
  "settle_task env t next_fire =
     (case next_fire of
        Some n \<Rightarrow>
          and_then (on_tasks (\<lambda>ts. set_next_fire ts (tk_id t) (Some n) (sv_wall env))) (\<lambda>_.
            count_metric ''scheduled_task_fire'' (lit ''recurring_rearm''))
      | None \<Rightarrow>
          and_then (on_tasks (\<lambda>ts. set_task_status ts (tk_id t) CompletedTask (sv_wall env))) (\<lambda>_.
          and_then (on_tasks (\<lambda>ts. set_next_fire ts (tk_id t) None (sv_wall env))) (\<lambda>_.
            count_metric ''scheduled_task_fire'' (lit ''one_shot_complete''))))"

lemma settle_task_eq:
  assumes "tk_id t \<in> tk_id ` set (sw_tasks st)"
  shows "\<exists>metrics. settle_task env t nf st =
    (Inr (), st\<lparr>sw_tasks := map (\<lambda>r. if tk_id r = tk_id t then r\<lparr>tk_next_fire := nf,
       tk_status := (if nf = None then CompletedTask else tk_status r), tk_updated_at := sv_wall env\<rparr> else r) (sw_tasks st),
       sw_metrics := metrics\<rparr>)"
proof (cases nf)
  case None
  let ?done = "\<lambda>r. r\<lparr>tk_status := CompletedTask, tk_updated_at := sv_wall env\<rparr>"
  let ?st = "st\<lparr>sw_tasks := map (\<lambda>r. if tk_id r = tk_id t then ?done r else r) (sw_tasks st)\<rparr>"
  have "tk_id t \<in> tk_id ` set (sw_tasks ?st)"
    by (rule id_kept [OF assms, where f = ?done and i = "tk_id t"]) simp_all
  note second = on_tasks_update [OF this, of "\<lambda>r. r\<lparr>tk_next_fire := None, tk_updated_at := sv_wall env\<rparr>"]
  show ?thesis
    unfolding None settle_task_def set_next_fire_def set_task_status_def and_then_def option.case
      on_tasks_update [OF assms] prod.case sum.case second count_metric_def modify_def
    by (intro exI [of _ "sw_metrics st @ _"] arg_cong [where f = "Pair (Inr ())"] SweepState.equality)
      (auto intro: Task.equality)
next
  case (Some n)
  show ?thesis
    unfolding Some settle_task_def set_next_fire_def and_then_def option.case
      on_tasks_update [OF assms] prod.case sum.case count_metric_def modify_def
    by (intro exI [of _ "sw_metrics st @ _"] arg_cong [where f = "Pair (Inr ())"] SweepState.equality)
      (auto intro: Task.equality)
qed

lemma fire_task_eq:
  assumes task: "tk_id t \<in> tk_id ` set (sw_tasks st)" and opens: "sv_in_error env (tk_agent_group t) (tk_session t) = None"
    and returns: "schedule_returns env t" and fresh: "fresh_ids env st"
  shows "\<exists>f metrics seq. sf_series_id f = tk_id t \<and> fire_task env t st =
    (Inr f, (update_dbs (tk_agent_group t) (tk_session t)
       (\<lambda>d. d\<lparr>sd_in := sd_in d @ [inbound_row (wake_row (sv_id env (sw_ids st)) (sv_now env) (task_content t) (tk_id t)) seq]\<rparr>) st)
       \<lparr>sw_tasks := map (\<lambda>r. if tk_id r = tk_id t then task_change env t r else r) (sw_tasks st),
        sw_ids := sw_ids st + 1, sw_metrics := metrics\<rparr>)"
proof -
  let ?ag = "tk_agent_group t" and ?s = "tk_session t"
  let ?w = "wake_row (sv_id env (sw_ids st)) (sv_now env) (task_content t) (tk_id t)"
  let ?t = "sd_in (sw_dbs st ?ag ?s)"
  have "sv_id env (sw_ids st) \<notin> in_id ` set ?t" using fresh by (auto simp: fresh_ids_def)
  then have insert: "insert_in ?t ?w = Inr (next_even_seq ?t, ?t @ [inbound_row ?w (next_even_seq ?t)])"
    by (intro insert_fresh) (simp add: wake_row_def)
  let ?st1 = "st\<lparr>sw_ids := sw_ids st + 1\<rparr>"
  let ?st2 = "update_dbs ?ag ?s (\<lambda>d. d\<lparr>sd_in := ?t @ [inbound_row ?w (next_even_seq ?t)]\<rparr>) ?st1"
  let ?mark = "\<lambda>r. r\<lparr>tk_last_fired := Some (sv_now env), tk_fire_count := tk_fire_count r + 1, tk_updated_at := sv_wall env\<rparr>"
  let ?upd = "\<lambda>f. map (\<lambda>r. if tk_id r = tk_id t then f r else r)"
  let ?st3 = "?st2\<lparr>sw_tasks := ?upd ?mark (sw_tasks st)\<rparr>"
  have new: "new_message_id env st = (Inr (sv_id env (sw_ids st)), ?st1)" by (simp add: new_message_id_def)
  have opened: "open_db (sv_in_error env) ?ag ?s ?st1 = (Inr (), ?st1)" by (simp add: open_db_def opens ret_def)
  have inserted: "insert_inbound ?ag ?s ?w ?st1 = (Inr (), ?st2)" using insert by (simp add: insert_inbound_def)
  have marked: "on_tasks (\<lambda>ts. mark_fired ts (tk_id t) (sv_now env) (sv_wall env)) ?st2 = (Inr (), ?st3)"
    unfolding mark_fired_def using task by (subst on_tasks_update) (simp_all add: update_dbs_def)
  have rearmed: "(case tk_recurrence t of Some r \<Rightarrow> next_fire_for env (tk_when_spec t) (Some r) | None \<Rightarrow> ret None) ?st3 =
      (Inr (rearm env t), ?st3)"
    by (rule next_fire_for_rearm [OF returns])
  have row: "fire_task env t st = and_then (settle_task env t (rearm env t)) (\<lambda>_.
      ret \<lparr>sf_series_id = tk_id t, sf_new_message_id = sv_id env (sw_ids st), sf_next_fire = sv_now env\<rparr>) ?st3"
    unfolding fire_task_def settle_task_def
    unfolding and_then_def new prod.case sum.case opened inserted marked rearmed ..
  have "tk_id t \<in> tk_id ` set (sw_tasks ?st3)" by (rule id_kept [OF task, where f = ?mark and i = "tk_id t"]) simp_all
  from settle_task_eq [OF this, of env] obtain metrics where
    "settle_task env t (rearm env t) ?st3 = (Inr (), ?st3\<lparr>sw_tasks := ?upd (\<lambda>r. r\<lparr>tk_next_fire := rearm env t,
       tk_status := (if rearm env t = None then CompletedTask else tk_status r), tk_updated_at := sv_wall env\<rparr>) (sw_tasks ?st3),
       sw_metrics := metrics\<rparr>)" by blast
  note settled = row [unfolded and_then_def this prod.case sum.case]
  have tasks: "?upd (\<lambda>r. r\<lparr>tk_next_fire := rearm env t, tk_status := (if rearm env t = None then CompletedTask else tk_status r),
      tk_updated_at := sv_wall env\<rparr>) (?upd ?mark (sw_tasks st)) = ?upd (task_change env t) (sw_tasks st)"
    by (rule map_update_twice) (auto simp: task_change_def intro: Task.equality)
  show ?thesis
    unfolding settled
    by (intro exI [of _ "\<lparr>sf_series_id = tk_id t, sf_new_message_id = sv_id env (sw_ids st), sf_next_fire = sv_now env\<rparr>"]
        exI [of _ metrics] exI [of _ "next_even_seq ?t"] conjI arg_cong2 [where f = Pair] SweepState.equality)
      (simp_all add: ret_def update_dbs_def tasks del: map_map)
qed

section \<open>A pass\<close>

definition rows_of :: "SweepState \<Rightarrow> AgentGroupId \<Rightarrow> SessionId \<Rightarrow> MessageInRow list" where
  "rows_of st ag s = sd_in (sw_dbs st ag s)"

definition tasks_for :: "AgentGroupId \<Rightarrow> SessionId \<Rightarrow> Task list \<Rightarrow> Task list" where
  "tasks_for ag s ts = filter (\<lambda>t. tk_agent_group t = ag \<and> tk_session t = s) ts"

text \<open>What firing the tasks \<open>ts\<close> does to the state.\<close>

definition fires :: "SweepEnv \<Rightarrow> Task list \<Rightarrow> SweepState \<Rightarrow> SweepState \<Rightarrow> bool" where
  "fires env ts st st' \<longleftrightarrow>
     sw_tasks st' = map (\<lambda>r. if tk_id r \<in> tk_id ` set ts then fired env r else r) (sw_tasks st) \<and>
     (\<forall>ag s. \<exists>wakes. rows_of st' ag s = rows_of st ag s @ wakes \<and> list_all2 (is_wake env) (tasks_for ag s ts) wakes)"

lemma fires_Nil: "fires env [] st st"
  by (simp add: fires_def tasks_for_def)

lemma fires_one:
  assumes "tasks_wf (sw_tasks st)" and "t \<in> set (sw_tasks st)"
    and "sv_in_error env (tk_agent_group t) (tk_session t) = None" and "schedule_returns env t" and fresh: "fresh_ids env st"
  obtains f st' where "fire_task env t st = (Inr f, st')" "sf_series_id f = tk_id t" "fires env [t] st st'" "fresh_ids env st'"
proof -
  have "tk_id t \<in> tk_id ` set (sw_tasks st)" using assms(2) by simp
  from fire_task_eq [OF this assms(3-5)] obtain f metrics seq where
    f: "sf_series_id f = tk_id t" and run: "fire_task env t st = (Inr f, (update_dbs (tk_agent_group t) (tk_session t)
       (\<lambda>d. d\<lparr>sd_in := sd_in d @ [inbound_row (wake_row (sv_id env (sw_ids st)) (sv_now env) (task_content t) (tk_id t)) seq]\<rparr>) st)
       \<lparr>sw_tasks := map (\<lambda>r. if tk_id r = tk_id t then task_change env t r else r) (sw_tasks st),
        sw_ids := sw_ids st + 1, sw_metrics := metrics\<rparr>)" (is "_ = (_, ?st')") by blast
  have "(if tk_id r = tk_id t then task_change env t r else r) = (if tk_id r \<in> tk_id ` set [t] then fired env r else r)"
    if "r \<in> set (sw_tasks st)" for r
    using task_key.key_inj [OF assms(1) that assms(2)] by auto
  then have "fires env [t] st ?st'"
    by (auto simp: fires_def rows_of_def tasks_for_def is_wake_def update_dbs_def)
  moreover have "fresh_ids env ?st'"
    using fresh by (auto simp: fresh_ids_def update_dbs_def inbound_row_def wake_row_def inj_eq)
  ultimately show thesis using that [OF run f] by blast
qed

lemma fires_trans:
  assumes "fires env ts st st1" and "fires env us st1 st2" and "tk_id ` set ts \<inter> tk_id ` set us = {}"
  shows "fires env (ts @ us) st st2"
  unfolding fires_def
proof (intro conjI allI)
  let ?T = "tk_id ` set ts" and ?U = "tk_id ` set us"
  have "sw_tasks st2 = map (\<lambda>r. if tk_id r \<in> ?U then fired env r else r)
      (map (\<lambda>r. if tk_id r \<in> ?T then fired env r else r) (sw_tasks st))"
    using assms(1,2) by (simp only: fires_def)
  also have "\<dots> = map (\<lambda>r. if tk_id r \<in> tk_id ` set (ts @ us) then fired env r else r) (sw_tasks st)"
    using assms(3) by (simp add: image_Un) blast
  finally show "sw_tasks st2 = map (\<lambda>r. if tk_id r \<in> tk_id ` set (ts @ us) then fired env r else r) (sw_tasks st)" .
  fix ag s
  obtain wakes where "rows_of st1 ag s = rows_of st ag s @ wakes" "list_all2 (is_wake env) (tasks_for ag s ts) wakes"
    using assms(1) by (auto simp: fires_def)
  moreover obtain more where "rows_of st2 ag s = rows_of st1 ag s @ more" "list_all2 (is_wake env) (tasks_for ag s us) more"
    using assms(2) by (auto simp: fires_def)
  ultimately show "\<exists>wakes. rows_of st2 ag s = rows_of st ag s @ wakes \<and> list_all2 (is_wake env) (tasks_for ag s (ts @ us)) wakes"
    by (intro exI [of _ "wakes @ more"]) (simp add: tasks_for_def list_all2_appendI)
qed

lemma fires_tasks_wf: "fires env ts st st' \<Longrightarrow> tasks_wf (sw_tasks st) \<Longrightarrow> tasks_wf (sw_tasks st')"
  by (simp add: fires_def tasks_wf_def comp_def if_distrib cong: if_cong)

lemma fires_all:
  assumes "distinct (map tk_id ts)" and "set ts \<subseteq> set (sw_tasks st)" and "tasks_wf (sw_tasks st)" and "fresh_ids env st"
    and "\<And>t. t \<in> set ts \<Longrightarrow> sv_in_error env (tk_agent_group t) (tk_session t) = None \<and> schedule_returns env t"
  shows "\<exists>fs st'. traverse (fire_task env) ts st = (Inr fs, st') \<and> map sf_series_id fs = map tk_id ts \<and> fires env ts st st'"
  using assms
proof (induction ts arbitrary: st)
  case (Cons t ts)
  obtain f st1 where step: "fire_task env t st = (Inr f, st1)" "sf_series_id f = tk_id t"
    and one: "fires env [t] st st1" and fresh: "fresh_ids env st1"
    by (rule fires_one [of st t env]) (use Cons.prems in auto)
  have "set ts \<subseteq> set (sw_tasks st1)"
  proof
    fix u assume "u \<in> set ts"
    then have "u \<in> set (sw_tasks st)" "tk_id u \<in> tk_id ` set ts" using Cons.prems by auto
    then have "u \<in> set (sw_tasks st)" "tk_id u \<noteq> tk_id t" using Cons.prems(1) by auto
    then show "u \<in> set (sw_tasks st1)" using one by (force simp: fires_def)
  qed
  with Cons.IH [of st1] Cons.prems fresh fires_tasks_wf [OF one] obtain fs st' where
    rest: "traverse (fire_task env) ts st1 = (Inr fs, st')" "map sf_series_id fs = map tk_id ts" "fires env ts st1 st'"
    by auto
  have "fires env ([t] @ ts) st st'"
    by (rule fires_trans [OF one rest(3)]) (use Cons.prems(1) in auto)
  then show ?case using step rest by (auto simp: and_then_def ret_def)
qed (simp add: ret_def fires_Nil)

text \<open>
  C9: When the databases of the due tasks' sessions open, no schedule string makes the parser panic and ids are fresh,
  the scheduling check completes and fires exactly the due tasks, earliest first: each of their rows counts one more
  fire and is either re-armed strictly after now or completed, all other rows stay as they are, and each session
  receives one pending wake row for each of its due tasks and nothing else. No task is due any more at the
  same instant, so a second pass does not fire a task again.
\<close>

theorem due_tasks_fire_once:
  assumes "tasks_wf (sw_tasks st)" and "schedule_lib_ok (sv_lib env)" and "fresh_ids env st"
    and "\<And>t. t \<in> set (list_due_tasks (sw_tasks st) (sv_now env)) \<Longrightarrow>
      sv_in_error env (tk_agent_group t) (tk_session t) = None \<and> schedule_returns env t"
  shows "\<exists>fs st'. scheduling_check env st = (Inr fs, st') \<and>
    map sf_series_id fs = map tk_id (list_due_tasks (sw_tasks st) (sv_now env)) \<and>
    sw_tasks st' = map (\<lambda>r. if task_is_due (sv_now env) r then fired env r else r) (sw_tasks st) \<and>
    (\<forall>ag s. \<exists>wakes. rows_of st' ag s = rows_of st ag s @ wakes \<and>
       list_all2 (is_wake env) (tasks_for ag s (list_due_tasks (sw_tasks st) (sv_now env))) wakes) \<and>
    list_due_tasks (sw_tasks st') (sv_now env) = []"
proof -
  let ?due = "list_due_tasks (sw_tasks st) (sv_now env)"
  have "set ?due \<subseteq> set (sw_tasks st)" by (auto simp: set_list_due_tasks)
  from fires_all [OF list_due_tasks_distinct [OF assms(1)] this assms(1,3,4)] obtain fs st' where
    run: "traverse (fire_task env) ?due st = (Inr fs, st')" "map sf_series_id fs = map tk_id ?due" and fires: "fires env ?due st st'"
    by blast
  have "tk_id r \<in> tk_id ` set ?due \<longleftrightarrow> task_is_due (sv_now env) r" if "r \<in> set (sw_tasks st)" for r
    using task_key.key_inj [OF assms(1)] that by (auto simp: set_list_due_tasks)
  then have tasks: "sw_tasks st' = map (\<lambda>r. if task_is_due (sv_now env) r then fired env r else r) (sw_tasks st)"
    using fires by (simp add: fires_def)
  have "filter (task_is_due (sv_now env)) (sw_tasks st') = []"
    unfolding tasks filter_empty_conv using fired_not_due [OF assms(2)] by auto
  then have "list_due_tasks (sw_tasks st') (sv_now env) = []"
    by (simp add: list_due_tasks_def order_by_def)
  then show ?thesis
    using run tasks fires by (auto simp: scheduling_check_def reading_def fires_def)
qed

definition sample_task :: "nat \<Rightarrow> ustring option \<Rightarrow> Task" where
  "sample_task n recurrence =
     \<lparr>tk_id = [n], tk_agent_group = 2, tk_session = [1], tk_name = None, tk_prompt = [], tk_when_spec = [],
      tk_recurrence = recurrence, tk_next_fire = Some 0, tk_status = ActiveTask, tk_last_fired = None, tk_fire_count = 0,
      tk_created_at = 0, tk_updated_at = 0\<rparr>"

definition scheduling_host :: SweepState where
  "scheduling_host = sample_host\<lparr>sw_tasks := [sample_task 5 (Some [42]), sample_task 6 None]\<rparr>"

theorem due_tasks_fire_once_witness:
  "\<exists>fs st'. scheduling_check (calm_env 60000) scheduling_host = (Inr fs, st') \<and> map sf_series_id fs = [[5], [6]] \<and>
     map tk_fire_count (sw_tasks st') = [1, 1]"
proof -
  let ?env = "calm_env 60000"
  have due: "list_due_tasks (sw_tasks scheduling_host) (sv_now ?env) = [sample_task 5 (Some [42]), sample_task 6 None]"
    by (simp add: scheduling_host_def list_due_tasks_def order_by_def task_is_due_def sample_task_def)
  have "tasks_wf (sw_tasks scheduling_host)" by (simp add: scheduling_host_def tasks_wf_def sample_task_def)
  moreover have "schedule_lib_ok (sv_lib ?env)" by (simp add: calm_env_def schedule_lib_ok_def)
  moreover have "fresh_ids ?env scheduling_host"
    by (simp add: fresh_ids_def calm_env_def scheduling_host_def sample_host_def sample_dbs_def inj_on_def)
  moreover have "sv_in_error ?env (tk_agent_group t) (tk_session t) = None \<and> schedule_returns ?env t"
    if "t \<in> set (list_due_tasks (sw_tasks scheduling_host) (sv_now ?env))" for t
    using that unfolding due by (auto simp: schedule_returns_def sample_task_def parse_when_def trim_def trim_end_def trim_start_def)
  ultimately obtain fs st' where run: "scheduling_check ?env scheduling_host = (Inr fs, st')"
    and ids: "map sf_series_id fs = map tk_id (list_due_tasks (sw_tasks scheduling_host) (sv_now ?env))"
    and tasks: "sw_tasks st' = map (\<lambda>r. if task_is_due (sv_now ?env) r then fired ?env r else r) (sw_tasks scheduling_host)"
    using due_tasks_fire_once [of scheduling_host ?env] by blast
  have "map sf_series_id fs = [[5], [6]]" unfolding ids due by (simp add: sample_task_def)
  moreover have "map tk_fire_count (sw_tasks st') = [1, 1]"
    unfolding tasks by (simp add: scheduling_host_def sample_task_def task_is_due_def task_change_def)
  ultimately show ?thesis using run by (intro exI conjI)
qed

end
