(* ===== verification/Sweep_Pass.thy ===== *)
theory Sweep_Pass
  imports Sweep_Facts
begin

text \<open>
  Guarantees of a whole pass and of successive passes: the errors of the checks stay inside the pass, the integrity
  rotation reaches every session once per round, and a message is apologised for at most once.
\<close>

section \<open>Errors\<close>

definition fails_only :: "('e \<Rightarrow> bool) \<Rightarrow> ('s, 'e, 'a) stateful \<Rightarrow> bool" where
  "fails_only P m \<longleftrightarrow> (\<forall>s e t. m s = (Inl e, t) \<longrightarrow> P e)"

named_theorems fails_only_intros \<open>composition of error bounds\<close>

lemma fails_only_ret [fails_only_intros]: "fails_only P (ret x)"
  by (simp add: fails_only_def ret_def)

lemma fails_only_modify [fails_only_intros]: "fails_only P (modify f)"
  by (simp add: fails_only_def modify_def)

lemma fails_only_and_then [fails_only_intros]:
  "fails_only P m \<Longrightarrow> (\<And>x. fails_only P (f x)) \<Longrightarrow> fails_only P (and_then m f)"
  by (auto simp: fails_only_def and_then_def split: prod.splits sum.splits)

lemma fails_only_reading [fails_only_intros]: "(\<And>st. fails_only P (f st)) \<Longrightarrow> fails_only P (reading f)"
  by (auto simp: fails_only_def reading_def)

lemma fails_only_if [fails_only_intros]: "fails_only P m \<Longrightarrow> fails_only P n \<Longrightarrow> fails_only P (if b then m else n)"
  by simp

lemma fails_only_traverse [fails_only_intros]: "(\<And>x. fails_only P (f x)) \<Longrightarrow> fails_only P (traverse f xs)"
  by (induction xs) (auto intro!: fails_only_intros)

abbreviation panics_only :: "'a sweep \<Rightarrow> bool" where
  "panics_only \<equiv> fails_only (\<lambda>e. e = SweepPanic)"

lemma panics_only_attempt [fails_only_intros]: "(\<And>r. panics_only (k r)) \<Longrightarrow> panics_only (attempt m k)"
  by (auto simp: fails_only_def attempt_def with_result_def throw_def split: prod.splits sum.splits SweepError.splits)

lemma panics_only_or_log [fails_only_intros]: "panics_only (or_log d m)"
  unfolding or_log_def by (auto intro!: fails_only_intros split: sum.splits)

lemma panics_only_count [fails_only_intros]: "panics_only (count_metric name label)"
  unfolding count_metric_def by (rule fails_only_modify)

lemma panics_only_next_slot [fails_only_intros]: "panics_only next_slot"
  by (simp add: fails_only_def next_slot_def)

lemma panics_only_central [fails_only_intros]: "panics_only (check_central_integrity env)"
  unfolding check_central_integrity_def
  by (auto intro!: fails_only_intros split: option.splits QuickCheckOutcome.splits)

lemma panics_only_reload [fails_only_intros]: "panics_only reload_conditions"
  unfolding reload_conditions_def by (rule fails_only_modify)

lemma panics_only_questions [fails_only_intros]: "panics_only (questions_check env)"
  unfolding questions_check_def surface_or_log_def
  by (auto intro!: fails_only_intros simp: Let_def split: option.splits prod.splits)

lemma panics_only_session_checks [fails_only_intros]: "panics_only (session_checks env se report)"
  unfolding session_checks_def Let_def by (intro fails_only_intros)

lemma panics_only_sweep_session [fails_only_intros]: "panics_only (sweep_session env slot se report)"
  unfolding sweep_session_def Let_def by (auto intro!: fails_only_intros split: sum.splits option.splits)

lemma panics_only_sweep_sessions [fails_only_intros]: "panics_only (sweep_sessions env slot ses report)"
  by (induction ses arbitrary: report) (auto intro!: fails_only_intros)

lemma panics_only_run_once: "panics_only (run_once env)"
  unfolding run_once_def Let_def count_expiries_def
  by (auto intro!: fails_only_intros split: prod.splits)


section \<open>The integrity rotation\<close>

lemma next_slot_eq:
  "next_slot st = (Inr (unat (sw_pass st) mod INTEGRITY_ROTATION_SLOTS), st\<lparr>sw_pass := sw_pass st + 1\<rparr>)"
  by (simp add: next_slot_def)

lemma slots_run:
  "traverse (\<lambda>_. next_slot) (replicate n ()) st =
     (Inr (map (\<lambda>k. unat (sw_pass st + of_nat k) mod INTEGRITY_ROTATION_SLOTS) [0..<n]),
      st\<lparr>sw_pass := sw_pass st + of_nat n\<rparr>)"
proof (induction n arbitrary: st)
  case (Suc n)
  let ?slots = "\<lambda>p. map (\<lambda>k. unat (p + of_nat k) mod INTEGRITY_ROTATION_SLOTS)"
  have "?slots (sw_pass st) [0..<Suc n] = unat (sw_pass st) mod INTEGRITY_ROTATION_SLOTS # ?slots (sw_pass st + 1) [0..<n]"
    by (simp add: upt_conv_Cons map_Suc_upt [symmetric] add.assoc del: upt_Suc)
  moreover have "sw_pass st + of_nat (Suc n) = sw_pass st + 1 + of_nat n" by simp
  ultimately show ?case
    unfolding replicate_Suc traverse.simps and_then_def next_slot_eq [of st] prod.case sum.case Suc.IH ret_def by simp
qed (simp add: ret_def)

lemma slot_once:
  fixes p u :: nat
  shows "\<exists>!k. k < 60 \<and> (p + k) mod 60 = u mod 60"
proof -
  define q v where "q = p mod 60" and "v = u mod 60"
  have small: "q < 60" "v < 60" by (simp_all add: q_def v_def)
  have "k < 60 \<and> (p + k) mod 60 = v \<longleftrightarrow> k = (if q \<le> v then v - q else v + 60 - q)" for k
  proof (cases "k < 60")
    case True
    have "(p + k) mod 60 = (q + k) mod 60" by (simp add: q_def mod_add_left_eq)
    also have "\<dots> = (if q + k < 60 then q + k else q + k - 60)" using True small by (simp add: mod_if)
    finally have sum: "(p + k) mod 60 = (if q + k < 60 then q + k else q + k - 60)" .
    show ?thesis unfolding sum using True small by auto
  qed (use small in auto)
  then show ?thesis unfolding v_def [symmetric] by simp
qed



section \<open>Apologies\<close>

text \<open>A message whose row carries the marker in its tries column, which the scan of the apology check leaves out.\<close>

definition marked :: "MessageInRow list \<Rightarrow> MessageId \<Rightarrow> bool" where
  "marked t i \<longleftrightarrow> i \<in> in_id ` set t \<and> (\<forall>r\<in>set t. in_id r = i \<longrightarrow> APOLOGY_TRIES_MARKER \<le> in_tries r)"

definition marks_kept :: "SweepState \<Rightarrow> SweepState \<Rightarrow> bool" where
  "marks_kept st st' \<longleftrightarrow> (\<forall>ag s i. marked (sd_in (sw_dbs st ag s)) i \<longrightarrow> marked (sd_in (sw_dbs st' ag s)) i)"

lemma marks_kept_update:
  "(\<And>i. marked (sd_in (sw_dbs st ag s)) i \<Longrightarrow> marked (sd_in (f (sw_dbs st ag s))) i) \<Longrightarrow> marks_kept st (update_dbs ag s f st)"
  by (auto simp: marks_kept_def update_dbs_def)

lemma marked_map:
  "marked t i \<Longrightarrow> (\<And>r. in_id (f r) = in_id r) \<Longrightarrow>
     (\<And>r. APOLOGY_TRIES_MARKER \<le> in_tries r \<Longrightarrow> APOLOGY_TRIES_MARKER \<le> in_tries (f r)) \<Longrightarrow> marked (map f t) i"
  by (auto simp: marked_def image_image)

interpretation marks: db_relation marks_kept
proof unfold_locales
  show "marks_kept st (update_dbs ag s (\<lambda>d. d\<lparr>sd_in := t\<rparr>) st)"
    if "insert_in (sd_in (sw_dbs st ag s)) w = Inr (n, t)" for st ag s w n t
    using that by (intro marks_kept_update)
      (auto simp: insert_in_def insert_impl_def Let_def marked_def inbound_row_def split: if_splits)
  show "marks_kept st (update_dbs ag s (\<lambda>d. d\<lparr>sd_in := t\<rparr>) st)"
    if "sql_update (\<lambda>r. in_id r = i) (\<lambda>r. r\<lparr>in_tries := in_tries r + 1, in_status := pending\<rparr>)
      (sd_in (sw_dbs st ag s)) = (k, t)" for st ag s i k t
    using that by (intro marks_kept_update) (auto simp: sql_update_def intro!: marked_map)
qed (auto simp: marks_kept_def update_dbs_def sql_update_def intro!: marked_map)

lemma ids_updated:
  assumes "\<And>r. in_id (f r) = in_id r"
  shows "in_id ` set (snd (sql_update p f t)) = in_id ` set t"
  using map_sql_update [of in_id f p t, OF assms] by (metis set_map)

definition ids_grow :: "SweepState \<Rightarrow> SweepState \<Rightarrow> bool" where
  "ids_grow st st' \<longleftrightarrow> (\<forall>ag s. in_id ` set (sd_in (sw_dbs st ag s)) \<subseteq> in_id ` set (sd_in (sw_dbs st' ag s)))"

lemma ids_grow_update:
  "in_id ` set (sd_in (sw_dbs st ag s)) \<subseteq> in_id ` set (sd_in (f (sw_dbs st ag s))) \<Longrightarrow> ids_grow st (update_dbs ag s f st)"
  by (simp add: ids_grow_def update_dbs_def)

interpretation ids: db_relation ids_grow
proof unfold_locales
  show "ids_grow st (update_dbs ag s (\<lambda>d. d\<lparr>sd_in := t\<rparr>) st)"
    if "insert_in (sd_in (sw_dbs st ag s)) w = Inr (n, t)" for st ag s w n t
    using that by (intro ids_grow_update) (auto simp: insert_in_def insert_impl_def Let_def split: if_splits)
  show "ids_grow st (update_dbs ag s (\<lambda>d. d\<lparr>sd_in := t\<rparr>) st)"
    if "sql_update (\<lambda>r. in_id r = i) (\<lambda>r. r\<lparr>in_tries := in_tries r + 1, in_status := pending\<rparr>)
      (sd_in (sw_dbs st ag s)) = (k, t)" for st ag s i k t
    using that ids_updated [of "\<lambda>r. r\<lparr>in_tries := in_tries r + 1, in_status := pending\<rparr>" "\<lambda>r. in_id r = i" "sd_in (sw_dbs st ag s)"]
    by (intro ids_grow_update) simp
  show "ids_grow s u" if "ids_grow s t" "ids_grow t u" for s t u
    using that unfolding ids_grow_def by (meson subset_trans)
  show "ids_grow s t" if "sw_dbs t = sw_dbs s" for s t
    using that by (simp add: ids_grow_def)
qed (simp_all add: ids_grow_def update_dbs_def ids_updated)

lemma marked_mark:
  "i \<in> in_id ` set t \<Longrightarrow>
     marked (snd (sql_update (\<lambda>q. in_id q = i) (\<lambda>q. q\<lparr>in_tries := APOLOGY_TRIES_MARKER\<rparr>) t)) i"
  by (simp add: marked_def ids_updated) (auto simp: sql_update_def)

lemma apologise_emit:
  assumes "apologise env se t spawn_failed r st = (Inr (Some e), st')"
  shows "ae_message e = in_id r"
    and "in_id r \<in> in_id ` set (sd_in (sw_dbs st (se_agent_group se) (se_id se))) \<Longrightarrow>
      marked (sd_in (sw_dbs st' (se_agent_group se) (se_id se))) (in_id r)"
proof -
  let ?ag = "se_agent_group se" and ?s = "se_id se"
  have "ae_message e = in_id r \<and>
      sd_in (sw_dbs st' ?ag ?s) = snd (sql_update (\<lambda>q. in_id q = in_id r) (\<lambda>q. q\<lparr>in_tries := APOLOGY_TRIES_MARKER\<rparr>) (sd_in (sw_dbs st ?ag ?s)))"
    using assms
    by (auto simp: apologise_def Let_def reading_def ret_def throw_def and_then_Inr attempt_def with_result_def new_message_id_def
        insert_outbound_def mark_tries_apology_sent_def modify_def count_metric_def update_dbs_def
        split: option.splits sum.splits bool.splits prod.splits SweepError.splits)
  then show "ae_message e = in_id r"
    and "in_id r \<in> in_id ` set (sd_in (sw_dbs st ?ag ?s)) \<Longrightarrow> marked (sd_in (sw_dbs st' ?ag ?s)) (in_id r)"
    by (simp_all add: marked_mark)
qed

lemma traverse_apologise:
  assumes "traverse (apologise env se t spawn_failed) rows st = (Inr es, st')"
    and "in_id ` set rows \<subseteq> in_id ` set (sd_in (sw_dbs st (se_agent_group se) (se_id se)))"
  shows "list_all2 (\<lambda>r eo. \<forall>e. eo = Some e \<longrightarrow> ae_message e = in_id r \<and>
    marked (sd_in (sw_dbs st' (se_agent_group se) (se_id se))) (in_id r)) rows es"
  using assms
proof (induction rows arbitrary: st es)
  case (Cons r rows)
  let ?t = "\<lambda>st. sd_in (sw_dbs st (se_agent_group se) (se_id se))"
  from Cons.prems(1) obtain eo st1 es1 where step: "apologise env se t spawn_failed r st = (Inr eo, st1)"
    and rest: "traverse (apologise env se t spawn_failed) rows st1 = (Inr es1, st')" and es: "es = eo # es1"
    by (auto simp: and_then_Inr ret_def)
  have "ids_grow st st1"
    using ids.always_apologise [of env se t spawn_failed r] step unfolding always_def by (metis snd_conv)
  then have "in_id ` set rows \<subseteq> in_id ` set (?t st1)"
  proof -
    have "in_id ` set rows \<subseteq> in_id ` set (?t st)" using Cons.prems(2) by simp
    also have "\<dots> \<subseteq> in_id ` set (?t st1)" using \<open>ids_grow st st1\<close> unfolding ids_grow_def by blast
    finally show ?thesis .
  qed
  note IH = Cons.IH [OF rest this]
  have "marks_kept st1 st'"
    using marks.always_traverse [of "apologise env se t spawn_failed" rows] marks.always_apologise rest
    unfolding always_def by (metis snd_conv)
  then have "ae_message e = in_id r \<and> marked (?t st') (in_id r)" if "eo = Some e" for e
    using apologise_emit [of env se t spawn_failed r st e st1] step that Cons.prems(2)
    by (auto simp: marks_kept_def)
  then show ?case using IH es by simp
qed (simp add: ret_def)

lemma emitted_subsequence:
  assumes "list_all2 (\<lambda>r eo. \<forall>e. eo = Some e \<longrightarrow> ae_message e = in_id r \<and> P (in_id r)) rows es"
    and "distinct (map in_id rows)"
  shows "distinct (map ae_message (List.map_filter id es)) \<and>
    (\<forall>i \<in> ae_message ` set (List.map_filter id es). i \<in> in_id ` set rows \<and> P i)"
  using assms by (induction rule: list_all2_induct) (auto simp: List.map_filter_simps split: option.splits)

lemma scan_rows:
  "set (scan_stuck_inbounds t) \<subseteq> {r \<in> set t. in_tries r < APOLOGY_TRIES_MARKER}"
  by (auto simp: scan_stuck_inbounds_def sql_limit_def dest!: in_set_takeD split: if_splits)

lemma distinct_sort_key_map: "distinct (map g (sort_key f t)) = distinct (map g t)"
proof -
  have "mset (map g (sort_key f t)) = mset (map g t)" by simp
  then show ?thesis by (rule mset_eq_imp_distinct_iff)
qed

lemma distinct_scan_rows: "distinct (map in_id t) \<Longrightarrow> distinct (map in_id (scan_stuck_inbounds t))"
proof -
  let ?p = "\<lambda>r. in_status r = pending \<and> in_kind r = Chat \<and> in_tries r < APOLOGY_TRIES_MARKER"
  assume "distinct (map in_id t)"
  then have "distinct (map in_id (filter ?p t))" by (rule distinct_map_filter)
  then have "distinct (map in_id (order_by in_timestamp (filter ?p t)))"
    unfolding order_by_def by (simp only: distinct_sort_key_map)
  moreover have "scan_stuck_inbounds t = take (nat APOLOGY_SCAN_LIMIT) (order_by in_timestamp (filter ?p t))"
    by (simp add: scan_stuck_inbounds_def sql_limit_def APOLOGY_SCAN_LIMIT_def)
  ultimately show ?thesis by (simp only: take_map [symmetric] distinct_take)
qed

lemma apology_check_emits:
  assumes "apology_check env se st = (Inr es, st')"
    and "distinct (map in_id (sd_in (sw_dbs st (se_agent_group se) (se_id se))))"
  shows "distinct (map ae_message es) \<and> (\<forall>i \<in> ae_message ` set es.
    \<not> marked (sd_in (sw_dbs st (se_agent_group se) (se_id se))) i \<and>
    marked (sd_in (sw_dbs st' (se_agent_group se) (se_id se))) i)"
proof -
  let ?t = "\<lambda>st. sd_in (sw_dbs st (se_agent_group se) (se_id se))"
  let ?rows = "scan_stuck_inbounds (?t st)"
  show ?thesis
  proof (cases "?rows = []")
    case True
    then show ?thesis using assms(1)
      by (auto simp: apology_check_def Let_def reading_def and_then_Inr open_db_def ret_def throw_def split: option.splits)
  next
    case False
    then obtain txt0 spawn_failed eos where
      run: "traverse (apologise env se txt0 spawn_failed) ?rows st = (Inr eos, st')" and es: "es = List.map_filter id eos"
      using assms(1)
      by (auto simp: apology_check_def Let_def reading_def and_then_Inr open_db_def ret_def throw_def split: option.splits)
    have sub: "in_id ` set ?rows \<subseteq> in_id ` set (?t st)" using scan_rows [of "?t st"] by auto
    have fresh: "\<not> marked (?t st) i" if i: "i \<in> in_id ` set ?rows" for i
    proof -
      from i obtain r where "r \<in> set ?rows" "i = in_id r" ..
      then show ?thesis using scan_rows [of "?t st"] unfolding marked_def by fastforce
    qed
    note emitted = emitted_subsequence [OF traverse_apologise [OF run sub] distinct_scan_rows [OF assms(2)], folded es]
    show ?thesis
    proof (intro conjI ballI)
      show "distinct (map ae_message es)" using emitted by (rule conjunct1)
      fix i assume "i \<in> ae_message ` set es"
      then have "i \<in> in_id ` set ?rows" and "marked (?t st') i" using bspec [OF conjunct2 [OF emitted]] by simp_all
      then show "\<not> marked (?t st) i" and "marked (?t st') i" using fresh by simp_all
    qed
  qed
qed

text \<open>The host after any number of further passes, whatever their environment and their result.\<close>

inductive passes :: "SweepState \<Rightarrow> SweepState \<Rightarrow> bool" where
  no_pass: "passes st st"
| one_more: "passes st st1 \<Longrightarrow> run_once env st1 = (r, st2) \<Longrightarrow> passes st st2"

lemma passes_keep_marks: "passes st st' \<Longrightarrow> marks_kept st st'"
proof (induction rule: passes.induct)
  case (one_more st st1 env r st2)
  have "marks_kept st1 st2" using marks.always_run_once [of env] one_more.hyps(2) unfolding always_def by (metis snd_conv)
  with one_more.IH show ?case by (rule marks.run_trans)
qed (rule marks.run_refl)


text \<open>A message that has waited for five minutes.\<close>

definition waiting_row :: MessageInRow where
  "waiting_row = inbound_row
     \<lparr>w_id = 7, w_kind = Chat, w_timestamp = 0, w_content = JNull, w_trigger = True, w_on_wake = False,
      w_process_after = None, w_recurrence = None, w_series_id = None, w_platform_id = Some [112],
      w_channel_type = Some [99], w_thread_id = None, w_source_session_id = None, w_reply_to = None, w_is_group = None\<rparr> 2"

definition waiting_host :: SweepState where
  "waiting_host = sample_host\<lparr>sw_dbs := (\<lambda>_ _. sample_dbs\<lparr>sd_in := [waiting_row]\<rparr>)\<rparr>"


end
