(* ===== verification/Container_Configs.thy ===== *)
theory Container_Configs
  imports Central_Tables
begin

text \<open>
  The per-group container configuration (\<open>copperclaw-db/src/tables/container_configs.rs\<close>): the row, its
  setters, the package lists an approved install request extends, and the fingerprint by which the host
  decides whether the image of the group is current. Arrays and JSON columns hold the values, not their
  text. The SHA-256 digest and the writer of JSON text are arguments of \<open>compute_fingerprint\<close>; the bytes
  that are digested are \<open>fingerprint_input\<close>, on characters since the encoding as UTF-8 is injective.
\<close>

section \<open>Enums\<close>

datatype CliScope = Disabled | GroupScope | GlobalScope

fun cli_scope_as_str :: "CliScope \<Rightarrow> ustring" where
  "cli_scope_as_str Disabled = lit ''disabled''"
| "cli_scope_as_str GroupScope = lit ''group''"
| "cli_scope_as_str GlobalScope = lit ''global''"

definition cli_scope_parse :: "ustring \<Rightarrow> CliScope option" where
  "cli_scope_parse s =
     (if s = lit ''disabled'' then Some Disabled
      else if s = lit ''group'' then Some GroupScope
      else if s = lit ''global'' then Some GlobalScope
      else None)"

datatype Effort = Low | Medium | High

fun effort_as_str :: "Effort \<Rightarrow> ustring" where
  "effort_as_str Low = lit ''low''"
| "effort_as_str Medium = lit ''medium''"
| "effort_as_str High = lit ''high''"

definition parse_effort :: "ustring \<Rightarrow> Effort option" where
  "parse_effort s =
     (if s = lit ''low'' then Some Low
      else if s = lit ''medium'' then Some Medium
      else if s = lit ''high'' then Some High
      else None)"

text \<open>The image profile (\<open>copperclaw-types/src/image.rs\<close>) and the packages it adds.\<close>

datatype ImageProfile = Minimal | Prototyping | Backend

fun image_profile_as_str :: "ImageProfile \<Rightarrow> ustring" where
  "image_profile_as_str Minimal = lit ''minimal''"
| "image_profile_as_str Prototyping = lit ''prototyping''"
| "image_profile_as_str Backend = lit ''backend''"

definition image_profile_parse :: "ustring \<Rightarrow> ImageProfile option" where
  "image_profile_parse s =
     (if s = lit ''minimal'' then Some Minimal
      else if s = lit ''prototyping'' then Some Prototyping
      else if s = lit ''backend'' then Some Backend
      else None)"

interpretation cli_scope: wire_enum cli_scope_as_str cli_scope_parse
proof
  show "cli_scope_parse (cli_scope_as_str e) = Some e" for e
    by (cases e) (simp_all add: cli_scope_parse_def)
  show "cli_scope_as_str e = s" if "cli_scope_parse s = Some e" for s e
    using that by (auto simp: cli_scope_parse_def split: if_splits)
qed

interpretation effort: wire_enum effort_as_str parse_effort
proof
  show "parse_effort (effort_as_str e) = Some e" for e
    by (cases e) (simp_all add: parse_effort_def)
  show "effort_as_str e = s" if "parse_effort s = Some e" for s e
    using that by (auto simp: parse_effort_def split: if_splits)
qed

interpretation image_profile: wire_enum image_profile_as_str image_profile_parse
proof
  show "image_profile_parse (image_profile_as_str e) = Some e" for e
    by (cases e) (simp_all add: image_profile_parse_def)
  show "image_profile_as_str e = s" if "image_profile_parse s = Some e" for s e
    using that by (auto simp: image_profile_parse_def split: if_splits)
qed

definition PROTOTYPING_APT_PACKAGES :: "ustring list" where
  "PROTOTYPING_APT_PACKAGES =
     [lit ''chromium'', lit ''fonts-inter'', lit ''fonts-jetbrains-mono'', lit ''fonts-noto-color-emoji'',
      lit ''sqlite3'', lit ''zip'']"

definition PROTOTYPING_NPM_PACKAGES :: "ustring list" where
  "PROTOTYPING_NPM_PACKAGES =
     [lit ''create-vite'', lit ''eslint'', lit ''prettier'', lit ''tailwindcss'', lit ''typescript'',
      lit ''vite'']"

definition BACKEND_APT_PACKAGES :: "ustring list" where
  "BACKEND_APT_PACKAGES =
     [lit ''chromium'', lit ''fonts-inter'', lit ''fonts-jetbrains-mono'', lit ''fonts-noto-color-emoji'',
      lit ''mariadb-client'', lit ''mariadb-server'', lit ''postgresql'', lit ''postgresql-client'',
      lit ''redis-server'', lit ''sqlite3'', lit ''zip'']"

fun extra_apt_packages :: "ImageProfile \<Rightarrow> ustring list" where
  "extra_apt_packages Minimal = []"
| "extra_apt_packages Prototyping = PROTOTYPING_APT_PACKAGES"
| "extra_apt_packages Backend = BACKEND_APT_PACKAGES"

fun extra_npm_packages :: "ImageProfile \<Rightarrow> ustring list" where
  "extra_npm_packages Minimal = []"
| "extra_npm_packages Prototyping = PROTOTYPING_NPM_PACKAGES"
| "extra_npm_packages Backend = PROTOTYPING_NPM_PACKAGES"

section \<open>The skills selector\<close>

text \<open>
  \<open>SkillsSelector\<close> with its JSON form. The error of \<open>from_value\<close> is a text no caller branches on; a number
  in JSON is an \<open>int\<close>, and \<open>as_u64\<close> refuses a negative one.
\<close>

datatype SkillsSelector =
    AllSkills
  | ExplicitSkills "ustring list"
  | Relevant ustring nat

fun json_strings :: "json list \<Rightarrow> ustring list option" where
  "json_strings [] = Some []"
| "json_strings (JString s # vs) = map_option ((#) s) (json_strings vs)"
| "json_strings (_ # vs) = None"

definition skills_to_json :: "SkillsSelector \<Rightarrow> json" where
  "skills_to_json s =
     (case s of
        AllSkills \<Rightarrow> JString (lit ''all'')
      | ExplicitSkills v \<Rightarrow> JArray (map JString v)
      | Relevant q n \<Rightarrow>
          JObject [(lit ''relevant'', JObject [(lit ''query'', JString q), (lit ''limit'', JNumber (int n))])])"

definition skills_from_value :: "json \<Rightarrow> SkillsSelector option" where
  "skills_from_value v =
     (case v of
        JString s \<Rightarrow> if s = lit ''all'' then Some AllSkills else None
      | JArray vs \<Rightarrow> map_option ExplicitSkills (json_strings vs)
      | JObject kvs \<Rightarrow>
          (case map_of kvs (lit ''relevant'') of
             None \<Rightarrow> None
           | Some inner \<Rightarrow>
               (let query = (case Option.bind (json_get inner (lit ''query'')) json_as_str of
                               Some q \<Rightarrow> q | None \<Rightarrow> [])
                in case json_get inner (lit ''limit'') of
                     Some (JNumber n) \<Rightarrow> if n < 0 then None else Some (Relevant query (nat n))
                   | _ \<Rightarrow> None))
      | _ \<Rightarrow> None)"

lemma json_strings_map [simp]: "json_strings (map JString v) = Some v"
  by (induction v) simp_all

lemma lit_query_limit: "lit ''query'' \<noteq> lit ''limit''"
  by simp

lemma skills_roundtrip: "skills_from_value (skills_to_json s) = Some s"
  by (cases s) (simp_all add: skills_from_value_def skills_to_json_def json_get_def json_as_str_def)

section \<open>Rows\<close>

record ContainerConfig =
  cc_agent_group_id :: AgentGroupId
  cc_provider :: "ustring option"
  cc_model :: "ustring option"
  cc_effort :: "Effort option"
  cc_image_tag :: "ustring option"
  cc_assistant_name :: "ustring option"
  cc_max_messages_per_prompt :: "32 word option"
  cc_skills :: SkillsSelector
  cc_mcp_servers :: json
  cc_packages_apt :: "ustring list"
  cc_packages_npm :: "ustring list"
  cc_additional_mounts :: json
  cc_cli_scope :: CliScope
  cc_config_fingerprint :: "ustring option"
  cc_egress_allow :: "ustring list"
  cc_resource_limits :: json
  cc_coding_enabled :: bool
  cc_surface_thinking :: bool
  cc_tool_profile :: "ustring option"
  cc_preview_enabled :: bool
  cc_preview_bind :: "ustring option"
  cc_check_command :: "ustring option"
  cc_verify_gate :: bool
  cc_image_profile :: ImageProfile
  cc_updated_at :: instant

text \<open>
  \<open>UpsertContainerConfig\<close> has the same fields without \<open>updated_at\<close>; a request is a \<open>ContainerConfig\<close>
  whose \<open>updated_at\<close> is replaced by the clock.
\<close>

definition get_config :: "ContainerConfig list \<Rightarrow> AgentGroupId \<Rightarrow> ContainerConfig option" where
  "get_config t ag = find (\<lambda>c. cc_agent_group_id c = ag) t"

text \<open>
  \<open>upsert\<close>: the row references an agent group, so the insert fails when there is none; \<open>groups\<close> are the
  ids of that table.
\<close>

definition upsert_config ::
  "AgentGroupId list \<Rightarrow> ContainerConfig list \<Rightarrow> ContainerConfig \<Rightarrow> instant \<Rightarrow>
     DbError + (ContainerConfig \<times> ContainerConfig list)" where
  "upsert_config groups t req now =
     (let row = req\<lparr>cc_updated_at := now\<rparr>
      in if cc_agent_group_id req \<notin> set groups then Inl ConstraintViolation
         else if cc_agent_group_id req \<in> cc_agent_group_id ` set t
           then Inr (row, map (\<lambda>c. if cc_agent_group_id c = cc_agent_group_id req then row else c) t)
         else Inr (row, t @ [row]))"

text \<open>Every narrow setter is one \<open>UPDATE\<close> of a column and of \<open>updated_at\<close>.\<close>

definition set_config_column ::
  "(ContainerConfig \<Rightarrow> ContainerConfig) \<Rightarrow> ContainerConfig list \<Rightarrow> AgentGroupId \<Rightarrow> instant \<Rightarrow>
     DbError + ContainerConfig list" where
  "set_config_column f t ag now =
     (let (n, t') = sql_update (\<lambda>c. cc_agent_group_id c = ag) (\<lambda>c. (f c)\<lparr>cc_updated_at := now\<rparr>) t
      in if n = 0 then Inl NotFound else Inr t')"

definition set_skills :: "ContainerConfig list \<Rightarrow> AgentGroupId \<Rightarrow> SkillsSelector \<Rightarrow> instant \<Rightarrow> DbError + ContainerConfig list" where
  "set_skills t ag s = set_config_column (\<lambda>c. c\<lparr>cc_skills := s\<rparr>) t ag"

definition set_mcp_servers :: "ContainerConfig list \<Rightarrow> AgentGroupId \<Rightarrow> json \<Rightarrow> instant \<Rightarrow> DbError + ContainerConfig list" where
  "set_mcp_servers t ag v = set_config_column (\<lambda>c. c\<lparr>cc_mcp_servers := v\<rparr>) t ag"

definition set_image_tag_and_fingerprint ::
  "ContainerConfig list \<Rightarrow> AgentGroupId \<Rightarrow> ustring \<Rightarrow> ustring \<Rightarrow> instant \<Rightarrow> DbError + ContainerConfig list" where
  "set_image_tag_and_fingerprint t ag tag fp =
     set_config_column (\<lambda>c. c\<lparr>cc_image_tag := Some tag, cc_config_fingerprint := Some fp\<rparr>) t ag"

definition set_egress_allow :: "ContainerConfig list \<Rightarrow> AgentGroupId \<Rightarrow> ustring list \<Rightarrow> instant \<Rightarrow> DbError + ContainerConfig list" where
  "set_egress_allow t ag v = set_config_column (\<lambda>c. c\<lparr>cc_egress_allow := v\<rparr>) t ag"

definition set_coding_enabled :: "ContainerConfig list \<Rightarrow> AgentGroupId \<Rightarrow> bool \<Rightarrow> instant \<Rightarrow> DbError + ContainerConfig list" where
  "set_coding_enabled t ag b = set_config_column (\<lambda>c. c\<lparr>cc_coding_enabled := b\<rparr>) t ag"

definition set_surface_thinking :: "ContainerConfig list \<Rightarrow> AgentGroupId \<Rightarrow> bool \<Rightarrow> instant \<Rightarrow> DbError + ContainerConfig list" where
  "set_surface_thinking t ag b = set_config_column (\<lambda>c. c\<lparr>cc_surface_thinking := b\<rparr>) t ag"

definition set_tool_profile :: "ContainerConfig list \<Rightarrow> AgentGroupId \<Rightarrow> ustring option \<Rightarrow> instant \<Rightarrow> DbError + ContainerConfig list" where
  "set_tool_profile t ag p = set_config_column (\<lambda>c. c\<lparr>cc_tool_profile := p\<rparr>) t ag"

definition set_resource_limits :: "ContainerConfig list \<Rightarrow> AgentGroupId \<Rightarrow> json \<Rightarrow> instant \<Rightarrow> DbError + ContainerConfig list" where
  "set_resource_limits t ag v = set_config_column (\<lambda>c. c\<lparr>cc_resource_limits := v\<rparr>) t ag"

definition set_preview_enabled :: "ContainerConfig list \<Rightarrow> AgentGroupId \<Rightarrow> bool \<Rightarrow> instant \<Rightarrow> DbError + ContainerConfig list" where
  "set_preview_enabled t ag b = set_config_column (\<lambda>c. c\<lparr>cc_preview_enabled := b\<rparr>) t ag"

definition set_preview_bind :: "ContainerConfig list \<Rightarrow> AgentGroupId \<Rightarrow> ustring option \<Rightarrow> instant \<Rightarrow> DbError + ContainerConfig list" where
  "set_preview_bind t ag p = set_config_column (\<lambda>c. c\<lparr>cc_preview_bind := p\<rparr>) t ag"

definition set_check_command :: "ContainerConfig list \<Rightarrow> AgentGroupId \<Rightarrow> ustring option \<Rightarrow> instant \<Rightarrow> DbError + ContainerConfig list" where
  "set_check_command t ag p = set_config_column (\<lambda>c. c\<lparr>cc_check_command := p\<rparr>) t ag"

definition set_verify_gate :: "ContainerConfig list \<Rightarrow> AgentGroupId \<Rightarrow> bool \<Rightarrow> instant \<Rightarrow> DbError + ContainerConfig list" where
  "set_verify_gate t ag b = set_config_column (\<lambda>c. c\<lparr>cc_verify_gate := b\<rparr>) t ag"

definition set_image_profile :: "ContainerConfig list \<Rightarrow> AgentGroupId \<Rightarrow> ImageProfile \<Rightarrow> instant \<Rightarrow> DbError + ContainerConfig list" where
  "set_image_profile t ag p = set_config_column (\<lambda>c. c\<lparr>cc_image_profile := p\<rparr>) t ag"

definition column_or_not_found :: "(ContainerConfig \<Rightarrow> 'a) \<Rightarrow> ContainerConfig list \<Rightarrow> AgentGroupId \<Rightarrow> DbError + 'a" where
  "column_or_not_found f t ag = (case get_config t ag of Some c \<Rightarrow> Inr (f c) | None \<Rightarrow> Inl NotFound)"

definition get_skills :: "ContainerConfig list \<Rightarrow> AgentGroupId \<Rightarrow> DbError + SkillsSelector" where
  "get_skills = column_or_not_found cc_skills"

definition get_mcp_servers :: "ContainerConfig list \<Rightarrow> AgentGroupId \<Rightarrow> DbError + json" where
  "get_mcp_servers = column_or_not_found cc_mcp_servers"

definition get_egress_allow :: "ContainerConfig list \<Rightarrow> AgentGroupId \<Rightarrow> DbError + ustring list" where
  "get_egress_allow = column_or_not_found cc_egress_allow"

definition get_resource_limits :: "ContainerConfig list \<Rightarrow> AgentGroupId \<Rightarrow> DbError + json" where
  "get_resource_limits = column_or_not_found cc_resource_limits"

text \<open>\<open>modify_string_array\<close> on the two package columns: a read, the change, and an \<open>UPDATE\<close> by key.\<close>

datatype ArrayColumn = PackagesApt | PackagesNpm

fun array_of :: "ArrayColumn \<Rightarrow> ContainerConfig \<Rightarrow> ustring list" where
  "array_of PackagesApt c = cc_packages_apt c"
| "array_of PackagesNpm c = cc_packages_npm c"

fun set_array :: "ArrayColumn \<Rightarrow> ustring list \<Rightarrow> ContainerConfig \<Rightarrow> ContainerConfig" where
  "set_array PackagesApt v c = c\<lparr>cc_packages_apt := v\<rparr>"
| "set_array PackagesNpm v c = c\<lparr>cc_packages_npm := v\<rparr>"

definition modify_string_array ::
  "ContainerConfig list \<Rightarrow> AgentGroupId \<Rightarrow> ArrayColumn \<Rightarrow> (ustring list \<Rightarrow> ustring list) \<Rightarrow> instant \<Rightarrow>
     DbError + ContainerConfig list" where
  "modify_string_array t ag col mutator now =
     (case get_config t ag of
        None \<Rightarrow> Inl NotFound
      | Some c \<Rightarrow> set_config_column (set_array col (mutator (array_of col c))) t ag now)"

definition push_new :: "ustring \<Rightarrow> ustring list \<Rightarrow> ustring list" where
  "push_new p v = (if p \<in> set v then v else v @ [p])"

definition add_package_apt :: "ContainerConfig list \<Rightarrow> AgentGroupId \<Rightarrow> ustring \<Rightarrow> instant \<Rightarrow> DbError + ContainerConfig list" where
  "add_package_apt t ag p = modify_string_array t ag PackagesApt (push_new p)"

definition remove_package_apt :: "ContainerConfig list \<Rightarrow> AgentGroupId \<Rightarrow> ustring \<Rightarrow> instant \<Rightarrow> DbError + ContainerConfig list" where
  "remove_package_apt t ag p = modify_string_array t ag PackagesApt (filter (\<lambda>q. q \<noteq> p))"

definition add_package_npm :: "ContainerConfig list \<Rightarrow> AgentGroupId \<Rightarrow> ustring \<Rightarrow> instant \<Rightarrow> DbError + ContainerConfig list" where
  "add_package_npm t ag p = modify_string_array t ag PackagesNpm (push_new p)"

definition remove_package_npm :: "ContainerConfig list \<Rightarrow> AgentGroupId \<Rightarrow> ustring \<Rightarrow> instant \<Rightarrow> DbError + ContainerConfig list" where
  "remove_package_npm t ag p = modify_string_array t ag PackagesNpm (filter (\<lambda>q. q \<noteq> p))"

section \<open>The fingerprint\<close>

definition with_commas :: "ustring list \<Rightarrow> ustring" where
  "with_commas xs = concat (map (\<lambda>p. p @ [44]) xs)"

fun join_commas :: "ustring list \<Rightarrow> ustring" where
  "join_commas [] = []"
| "join_commas [x] = x"
| "join_commas (x # xs) = x @ 44 # join_commas xs"

definition skills_digest_text :: "SkillsSelector \<Rightarrow> ustring" where
  "skills_digest_text s =
     (case s of
        AllSkills \<Rightarrow> lit ''all''
      | ExplicitSkills v \<Rightarrow> join_commas v
      | Relevant q n \<Rightarrow> lit ''relevant:'' @ show_nat n @ [58] @ q)"

definition fingerprint_input :: "(json \<Rightarrow> ustring) \<Rightarrow> ContainerConfig \<Rightarrow> ustring" where
  "fingerprint_input json_text c =
     lit ''apt='' @ with_commas (cc_packages_apt c) @
     10 # lit ''npm='' @ with_commas (cc_packages_npm c) @
     10 # lit ''skills='' @ skills_digest_text (cc_skills c) @
     10 # lit ''mcp='' @ json_text (cc_mcp_servers c) @
     (if cc_image_profile c \<noteq> Minimal
      then 10 # lit ''image_profile='' @ image_profile_as_str (cc_image_profile c) else [])"

definition compute_fingerprint ::
  "(ustring \<Rightarrow> ustring) \<Rightarrow> (json \<Rightarrow> ustring) \<Rightarrow> ContainerConfig \<Rightarrow> ustring" where
  "compute_fingerprint sha json_text c = sha (fingerprint_input json_text c)"

section \<open>Facts about the table\<close>

definition configs_wf :: "ContainerConfig list \<Rightarrow> bool" where
  "configs_wf t \<longleftrightarrow> distinct (map cc_agent_group_id t)"

interpretation configs: primary_key configs_wf cc_agent_group_id
  by unfold_locales (simp add: configs_wf_def)

text \<open>A setter changes the row of its group only, and only there the chosen column and the time stamp.\<close>

lemma set_config_column_Inr:
  "set_config_column f t ag now = Inr t' \<longleftrightarrow>
     (\<exists>c \<in> set t. cc_agent_group_id c = ag) \<and>
     t' = map (\<lambda>c. if cc_agent_group_id c = ag then (f c)\<lparr>cc_updated_at := now\<rparr> else c) t"
  by (auto simp: set_config_column_def sql_update_def filter_empty_conv split: if_splits)

lemma set_config_column_wf:
  "set_config_column f t ag now = Inr t' \<Longrightarrow> (\<And>c. cc_agent_group_id (f c) = cc_agent_group_id c) \<Longrightarrow>
     map cc_agent_group_id t' = map cc_agent_group_id t"
  by (auto simp: set_config_column_Inr)

lemma get_config_set_column:
  "set_config_column f t ag now = Inr t' \<Longrightarrow> (\<And>c. cc_agent_group_id (f c) = cc_agent_group_id c) \<Longrightarrow>
     get_config t' ag' =
       (if ag' = ag then map_option (\<lambda>c. (f c)\<lparr>cc_updated_at := now\<rparr>) (get_config t ag) else get_config t ag')"
  unfolding set_config_column_Inr get_config_def by (auto simp: find_update)

lemma find_replace_row:
  "key row = k \<Longrightarrow> k \<in> key ` set t \<Longrightarrow>
     find (\<lambda>c. key c = j) (map (\<lambda>c. if key c = k then row else c) t) =
       (if j = k then Some row else find (\<lambda>c. key c = j) t)"
proof (induction t)
  case (Cons c t)
  show ?case
  proof (cases "k \<in> key ` set t")
    case True
    with Cons show ?thesis by (cases "j = k") auto
  next
    case False
    then have same: "map (\<lambda>c. if key c = k then row else c) t = t"
      by (intro map_idI) (metis imageI)
    from Cons.prems(2) False have "key c = k" by auto
    with Cons.prems(1) show ?thesis
      by (auto simp: same)
  qed
qed simp

lemma upsert_config_Inr:
  "upsert_config groups t req now = Inr (row, t') \<longleftrightarrow>
     cc_agent_group_id req \<in> set groups \<and> row = req\<lparr>cc_updated_at := now\<rparr> \<and>
     t' = (if cc_agent_group_id req \<in> cc_agent_group_id ` set t
           then map (\<lambda>c. if cc_agent_group_id c = cc_agent_group_id req then row else c) t else t @ [row])"
  by (auto simp: upsert_config_def Let_def)

lemma get_config_upsert:
  assumes "upsert_config groups t req now = Inr (row, t')"
  shows "get_config t' ag = (if ag = cc_agent_group_id req then Some row else get_config t ag)"
proof (cases "cc_agent_group_id req \<in> cc_agent_group_id ` set t")
  case True
  with assms show ?thesis
    by (simp add: upsert_config_Inr get_config_def find_replace_row)
next
  case False
  then have "find (\<lambda>c. cc_agent_group_id c = cc_agent_group_id req) t = None"
    unfolding find_None_iff by (metis imageI)
  with assms False show ?thesis
    by (auto simp: upsert_config_Inr get_config_def find_append split: option.splits)
qed

lemma push_new_idem [simp]: "push_new p (push_new p v) = push_new p v"
  by (simp add: push_new_def)

lemma set_push_new [simp]: "set (push_new p v) = insert p (set v)"
  by (auto simp: push_new_def)

lemma distinct_push_new [simp]: "distinct (push_new p v) = distinct v"
  by (simp add: push_new_def)

lemma set_array_key [simp]: "cc_agent_group_id (set_array col v c) = cc_agent_group_id c"
  by (cases col) simp_all

lemma array_of_set_array [simp]:
  "array_of col (set_array col' v c) = (if col = col' then v else array_of col c)"
  by (cases col; cases col') simp_all

section \<open>What the fingerprint distinguishes\<close>

lemma cut_at_newline:
  "10 \<notin> set a \<Longrightarrow> 10 \<notin> set b \<Longrightarrow> a @ 10 # x = b @ 10 # y \<longleftrightarrow> a = b \<and> x = (y :: ustring)"
  by (induction a arbitrary: b; case_tac b) auto

lemma with_commas_newline: "10 \<in> set (with_commas xs) \<longleftrightarrow> (\<exists>x \<in> set xs. 10 \<in> set x)"
  by (auto simp: with_commas_def)

lemma cut_at_comma:
  "44 \<notin> set a \<Longrightarrow> 44 \<notin> set b \<Longrightarrow> a @ 44 # x = b @ 44 # y \<longleftrightarrow> a = b \<and> x = (y :: ustring)"
  by (induction a arbitrary: b; case_tac b) auto

lemma with_commas_inj:
  "\<forall>x \<in> set xs. 44 \<notin> set x \<Longrightarrow> \<forall>y \<in> set ys. 44 \<notin> set y \<Longrightarrow> with_commas xs = with_commas ys \<longleftrightarrow> xs = ys"
proof (induction xs arbitrary: ys)
  case Nil
  then show ?case by (cases ys) (auto simp: with_commas_def)
next
  case (Cons x xs)
  show ?case
  proof (cases ys)
    case Nil
    then show ?thesis by (simp add: with_commas_def)
  next
    case (Cons y zs)
    with Cons.prems Cons.IH [of zs] show ?thesis
      by (auto simp: with_commas_def cut_at_comma)
  qed
qed

text \<open>
  A configuration whose texts cannot be confused: package names without a comma and without a line break,
  and a skills selector whose text has no line break.
\<close>

definition plain_name :: "ustring \<Rightarrow> bool" where
  "plain_name p \<longleftrightarrow> 44 \<notin> set p \<and> 10 \<notin> set p"

definition plain_config :: "ContainerConfig \<Rightarrow> bool" where
  "plain_config c \<longleftrightarrow>
     list_all plain_name (cc_packages_apt c) \<and> list_all plain_name (cc_packages_npm c) \<and>
     10 \<notin> set (skills_digest_text (cc_skills c))"

definition profile_suffix :: "ImageProfile \<Rightarrow> ustring" where
  "profile_suffix p = (if p \<noteq> Minimal then 10 # lit ''image_profile='' @ image_profile_as_str p else [])"

lemma json_suffix_inj:
  assumes "10 \<notin> set a" and "10 \<notin> set b" and "a @ profile_suffix p = b @ profile_suffix q"
  shows "a = b \<and> p = q"
proof -
  have none: "a @ 10 # x \<noteq> b" "a \<noteq> b @ 10 # x" for x
    using assms(1,2) by auto
  show ?thesis
  proof (cases "p = Minimal \<or> q = Minimal")
    case True
    with assms none show ?thesis
      by (auto simp: profile_suffix_def split: if_splits)
  next
    case False
    define x where "x = lit ''image_profile='' @ image_profile_as_str p"
    define y where "y = lit ''image_profile='' @ image_profile_as_str q"
    from False assms(3) have "a @ 10 # x = b @ 10 # y"
      by (simp add: profile_suffix_def x_def y_def)
    then have "a = b" and "x = y"
      using cut_at_newline [OF assms(1,2)] by blast+
    then show ?thesis
      by (simp add: x_def y_def image_profile.as_str_eq_iff)
  qed
qed

lemma fingerprint_input_inj:
  assumes "plain_config c" and "plain_config d"
    and json: "inj_on json_text J" "\<forall>v \<in> J. 10 \<notin> set (json_text v)" "cc_mcp_servers c \<in> J" "cc_mcp_servers d \<in> J"
    and eq: "fingerprint_input json_text c = fingerprint_input json_text d"
  shows "cc_packages_apt c = cc_packages_apt d \<and> cc_packages_npm c = cc_packages_npm d \<and>
    skills_digest_text (cc_skills c) = skills_digest_text (cc_skills d) \<and>
    cc_mcp_servers c = cc_mcp_servers d \<and> cc_image_profile c = cc_image_profile d"
proof -
  have names: "10 \<notin> set (with_commas (cc_packages_apt k)) \<and> 10 \<notin> set (with_commas (cc_packages_npm k)) \<and>
      10 \<notin> set (skills_digest_text (cc_skills k)) \<and>
      (\<forall>x \<in> set (cc_packages_apt k). 44 \<notin> set x) \<and> (\<forall>x \<in> set (cc_packages_npm k). 44 \<notin> set x)"
    if "plain_config k" for k
    using that by (auto simp: plain_config_def plain_name_def list_all_iff with_commas_newline)
  have line: "a = b \<and> x = y"
    if "lit h @ a @ 10 # x = lit h @ b @ 10 # y" "10 \<notin> set a" "10 \<notin> set b" for h a b and x y :: ustring
    using that cut_at_newline by (metis same_append_eq)
  have shape: "fingerprint_input json_text k =
      lit ''apt='' @ with_commas (cc_packages_apt k) @
      10 # (lit ''npm='' @ with_commas (cc_packages_npm k) @
      10 # (lit ''skills='' @ skills_digest_text (cc_skills k) @
      10 # (lit ''mcp='' @ json_text (cc_mcp_servers k) @ profile_suffix (cc_image_profile k))))" for k
    by (simp add: fingerprint_input_def profile_suffix_def)
  note n = names [OF assms(1)] names [OF assms(2)]
  note cut1 = line [OF eq [unfolded shape]]
  from cut1 n have apt: "with_commas (cc_packages_apt c) = with_commas (cc_packages_apt d)" by blast
  from cut1 n have "lit ''npm='' @ with_commas (cc_packages_npm c) @
      10 # (lit ''skills='' @ skills_digest_text (cc_skills c) @
      10 # (lit ''mcp='' @ json_text (cc_mcp_servers c) @ profile_suffix (cc_image_profile c))) =
      lit ''npm='' @ with_commas (cc_packages_npm d) @
      10 # (lit ''skills='' @ skills_digest_text (cc_skills d) @
      10 # (lit ''mcp='' @ json_text (cc_mcp_servers d) @ profile_suffix (cc_image_profile d)))" by blast
  note cut2 = line [OF this]
  from cut2 n have npm: "with_commas (cc_packages_npm c) = with_commas (cc_packages_npm d)" by blast
  from cut2 n have "lit ''skills='' @ skills_digest_text (cc_skills c) @
      10 # (lit ''mcp='' @ json_text (cc_mcp_servers c) @ profile_suffix (cc_image_profile c)) =
      lit ''skills='' @ skills_digest_text (cc_skills d) @
      10 # (lit ''mcp='' @ json_text (cc_mcp_servers d) @ profile_suffix (cc_image_profile d))" by blast
  note cut3 = line [OF this]
  from cut3 n have skills: "skills_digest_text (cc_skills c) = skills_digest_text (cc_skills d)" by blast
  from cut3 n have "lit ''mcp='' @ json_text (cc_mcp_servers c) @ profile_suffix (cc_image_profile c) =
      lit ''mcp='' @ json_text (cc_mcp_servers d) @ profile_suffix (cc_image_profile d)" by blast
  then have "json_text (cc_mcp_servers c) @ profile_suffix (cc_image_profile c) =
       json_text (cc_mcp_servers d) @ profile_suffix (cc_image_profile d)" by simp
  from json_suffix_inj [OF _ _ this] json
  have "cc_mcp_servers c = cc_mcp_servers d \<and> cc_image_profile c = cc_image_profile d" by (metis inj_onD)
  moreover have "cc_packages_apt c = cc_packages_apt d \<and> cc_packages_npm c = cc_packages_npm d"
    using apt npm n with_commas_inj by blast
  ultimately show ?thesis
    using skills by blast
qed

end
