(* ===== verification/Image_Build.thy ===== *)
theory Image_Build
  imports Container_Configs Self_Mod Sweep
begin

text \<open>
  The image of a session: the build specification and the Dockerfile it renders to
  (\<open>copperclaw-container-rt/src/build.rs\<close>), and the part of the spawn pipeline that decides whether the
  image of a group must be rebuilt (\<open>copperclaw-host/src/container_manager/spawn.rs\<close>): the fingerprint
  gate, the back-off after failed builds and the fallback to the last good image. The container runtime is
  an argument: \<open>build_image\<close> of a specification gives a tag or an error. The digest is an argument too.
\<close>

section \<open>The build specification\<close>

record ExtraFile =
  ef_path :: ustring
  ef_contents :: "8 word list"
  ef_mode :: "32 word"

definition new_extra_file :: "ustring \<Rightarrow> 8 word list \<Rightarrow> ExtraFile" where
  "new_extra_file path contents = \<lparr>ef_path = path, ef_contents = contents, ef_mode = 0\<rparr>"

datatype BuildNetwork = Bridge | NoNetwork | HostNetwork

fun networkmode :: "BuildNetwork \<Rightarrow> ustring option" where
  "networkmode Bridge = None"
| "networkmode NoNetwork = Some (lit ''none'')"
| "networkmode HostNetwork = Some (lit ''host'')"

record BuildContainment =
  network :: BuildNetwork
  deny_broker_token :: bool

definition default_containment :: BuildContainment where
  "default_containment = \<lparr>network = Bridge, deny_broker_token = True\<rparr>"

record ImageBuildSpec =
  repo :: ustring
  base_image :: ustring
  apt_packages :: "ustring list"
  npm_packages :: "ustring list"
  image_profile :: ImageProfile
  extra_files :: "ExtraFile list"
  labels :: "(ustring \<times> ustring) list"
  build_args :: "(ustring \<times> ustring) list"
  containment :: BuildContainment

definition new_spec :: "ustring \<Rightarrow> ustring \<Rightarrow> ImageBuildSpec" where
  "new_spec r b =
     \<lparr>repo = r, base_image = b, apt_packages = [], npm_packages = [], image_profile = Minimal,
      extra_files = [], labels = [], build_args = [], containment = default_containment\<rparr>"

definition CREDENTIAL_MARKERS :: "ustring list" where
  "CREDENTIAL_MARKERS =
     [lit ''broker'', lit ''token'', lit ''api_key'', lit ''apikey'', lit ''secret'', lit ''password'',
      lit ''passwd'', lit ''anthropic'', lit ''credential'', lit ''bearer'', lit ''private_key'']"

definition looks_like_credential :: "ustring \<Rightarrow> bool" where
  "looks_like_credential name =
     (let lower = map ascii_lower name in list_ex (\<lambda>m. contains lower m) CREDENTIAL_MARKERS)"

text \<open>\<open>assert_no_credentials\<close>: the error carries the first offending name, build arguments first.\<close>

definition assert_no_credentials :: "ImageBuildSpec \<Rightarrow> ustring + unit" where
  "assert_no_credentials s =
     (if \<not> deny_broker_token (containment s) then Inr ()
      else case find (\<lambda>(k, v). looks_like_credential k) (build_args s) of
             Some (k, _) \<Rightarrow> Inl k
           | None \<Rightarrow>
               (case find (\<lambda>(k, v). looks_like_credential k) (labels s) of
                  Some (k, _) \<Rightarrow> Inl k
                | None \<Rightarrow> Inr ()))"

definition violation_text :: "ustring \<Rightarrow> ustring" where
  "violation_text name =
     lit ''credential-shaped build input `'' @ name @
     lit ''` is not permitted in a contained image build (a package postinstall could read it); the broker token must never reach a build''"

definition effective_apt_packages :: "ImageBuildSpec \<Rightarrow> ustring list" where
  "effective_apt_packages s = apt_packages s @ extra_apt_packages (image_profile s)"

definition effective_npm_packages :: "ImageBuildSpec \<Rightarrow> ustring list" where
  "effective_npm_packages s = npm_packages s @ extra_npm_packages (image_profile s)"

definition with_containment :: "ImageBuildSpec \<Rightarrow> BuildContainment \<Rightarrow> ImageBuildSpec" where
  "with_containment s c = s\<lparr>containment := c\<rparr>"

section \<open>Fingerprint and tag\<close>

definition hex_digit :: "nat \<Rightarrow> uchar" where
  "hex_digit d = (if d < 10 then 48 + d else 87 + d)"

definition hex_encode :: "8 word list \<Rightarrow> ustring" where
  "hex_encode bs = concat (map (\<lambda>b. [hex_digit (unat b div 16), hex_digit (unat b mod 16)]) bs)"

definition le_bytes32 :: "32 word \<Rightarrow> 8 word list" where
  "le_bytes32 w = map (\<lambda>i. of_nat (unat w div 256 ^ i)) [0, 1, 2, 3]"

definition spec_fingerprint_input :: "(8 word list \<Rightarrow> 8 word list) \<Rightarrow> ImageBuildSpec \<Rightarrow> 8 word list" where
  "spec_fingerprint_input sha s =
     as_bytes (lit ''base='' @ base_image s @ 10 # lit ''apt='' @ with_commas (effective_apt_packages s) @
       10 # lit ''npm='' @ with_commas (effective_npm_packages s) @ 10 # lit ''files='') @
     concat (map (\<lambda>f. as_bytes (ef_path f @ [58]) @ sha (ef_contents f) @ as_bytes [58] @
       le_bytes32 (ef_mode f) @ as_bytes [44]) (extra_files s)) @
     as_bytes (10 # lit ''labels='' @ concat (map (\<lambda>(k, v). k @ 61 # v @ [44]) (labels s)))"

definition spec_fingerprint :: "(8 word list \<Rightarrow> 8 word list) \<Rightarrow> ImageBuildSpec \<Rightarrow> ustring" where
  "spec_fingerprint sha s = hex_encode (sha (spec_fingerprint_input sha s))"

definition image_tag :: "(8 word list \<Rightarrow> 8 word list) \<Rightarrow> ImageBuildSpec \<Rightarrow> ustring" where
  "image_tag sha s = repo s @ lit '':sha256-'' @ spec_fingerprint sha s"

section \<open>The Dockerfile\<close>

text \<open>
  \<open>Path::file_name\<close>: the last component, unless it is the parent directory. The build context keeps a
  file under this name.
\<close>

definition file_name :: "ustring \<Rightarrow> ustring option" where
  "file_name p =
     (case rev (filter (\<lambda>c. c \<noteq> [] \<and> c \<noteq> lit ''.'') (split_on (\<lambda>c. c = 47) p)) of
        [] \<Rightarrow> None
      | c # _ \<Rightarrow> if c = lit ''..'' then None else Some c)"

definition context_path_for :: "ExtraFile \<Rightarrow> ustring" where
  "context_path_for f = lit ''files/'' @ (case file_name (ef_path f) of Some n \<Rightarrow> n | None \<Rightarrow> lit ''file'')"

fun show_octal :: "nat \<Rightarrow> ustring" where
  "show_octal n = (if n < 8 then [48 + n] else show_octal (n div 8) @ [48 + n mod 8])"

declare show_octal.simps [simp del]

definition apt_block :: "ustring list \<Rightarrow> ustring" where
  "apt_block pkgs =
     (if pkgs = [] then []
      else lit ''RUN apt-get update '' @ [92, 10] @
        lit '' && DEBIAN_FRONTEND=noninteractive apt-get install -y --no-install-recommends '' @ [92, 10] @
        concat (map (\<lambda>pkg. lit ''      '' @ pkg @ [32, 92, 10]) pkgs) @
        lit '' && rm -rf /var/lib/apt/lists/*'' @ [10])"

definition npm_block :: "ustring list \<Rightarrow> ustring" where
  "npm_block pkgs =
     (if pkgs = [] then []
      else lit ''RUN npm install -g '' @ [92, 10] @
        concat (map (\<lambda>pkg. lit ''      '' @ pkg @ [32, 92, 10]) (butlast pkgs)) @
        lit ''      '' @ last pkgs @ [10])"

definition file_block :: "ExtraFile \<Rightarrow> ustring" where
  "file_block f =
     lit ''COPY '' @ context_path_for f @ 32 # ef_path f @ [10] @
     (if ef_mode f \<noteq> 0 then lit ''RUN chmod '' @ show_octal (unat (ef_mode f)) @ 32 # ef_path f @ [10] else [])"

definition label_line :: "ustring \<times> ustring \<Rightarrow> ustring" where
  "label_line kv = lit ''LABEL '' @ fst kv @ lit ''=\"'' @ snd kv @ lit ''\"'' @ [10]"

definition dockerfile :: "(8 word list \<Rightarrow> 8 word list) \<Rightarrow> ImageBuildSpec \<Rightarrow> ustring" where
  "dockerfile sha s =
     lit ''FROM '' @ base_image s @ [10] @
     apt_block (effective_apt_packages s) @
     npm_block (effective_npm_packages s) @
     concat (map file_block (extra_files s)) @
     label_line (lit ''copperclaw.fingerprint'', spec_fingerprint sha s) @
     concat (map label_line (labels s))"

section \<open>Back-off after failed builds\<close>

text \<open>Durations are milliseconds; instants are those of the monotonic clock.\<close>

definition REBUILD_BACKOFF_INITIAL :: duration where "REBUILD_BACKOFF_INITIAL = 60000"
definition REBUILD_BACKOFF_CEILING :: duration where "REBUILD_BACKOFF_CEILING = 1800000"

record RebuildBackoffEntry =
  rb_failures :: "32 word"
  rb_next_attempt_at :: instant

type_synonym rebuild_backoff = "AgentGroupId \<Rightarrow> RebuildBackoffEntry option"

definition in_cooldown :: "rebuild_backoff \<Rightarrow> AgentGroupId \<Rightarrow> instant \<Rightarrow> duration option" where
  "in_cooldown b ag now =
     (case b ag of
        None \<Rightarrow> None
      | Some e \<Rightarrow> if rb_next_attempt_at e > now then Some (rb_next_attempt_at e - now) else None)"

definition record_rebuild_success :: "rebuild_backoff \<Rightarrow> AgentGroupId \<Rightarrow> rebuild_backoff" where
  "record_rebuild_success b ag = b(ag := None)"

text \<open>The shift is at most 8, so the multiplication cannot overflow.\<close>

definition backoff_after :: "32 word \<Rightarrow> duration" where
  "backoff_after failures =
     min (REBUILD_BACKOFF_INITIAL * 2 ^ min (unat failures - 1) 8) REBUILD_BACKOFF_CEILING"

definition record_rebuild_failure :: "rebuild_backoff \<Rightarrow> AgentGroupId \<Rightarrow> instant \<Rightarrow> duration \<times> rebuild_backoff" where
  "record_rebuild_failure b ag now =
     (let n = saturating_succ32 (case b ag of Some e \<Rightarrow> rb_failures e | None \<Rightarrow> 0);
          d = backoff_after n
      in (d, b(ag \<mapsto> \<lparr>rb_failures = n, rb_next_attempt_at = now + d\<rparr>)))"

section \<open>Spawn failures and the heartbeat check\<close>

datatype RtError =
    Unavailable ustring
  | ContainerError ustring
  | RtNotFound ustring
  | RtIo ustring
  | Unsupported ustring

datatype SpawnFailureReason = ImageBuild | ImageMissing | RuntimeFailure

fun spawn_failure_as_str :: "SpawnFailureReason \<Rightarrow> ustring" where
  "spawn_failure_as_str ImageBuild = lit ''image_build''"
| "spawn_failure_as_str ImageMissing = lit ''image_missing''"
| "spawn_failure_as_str RuntimeFailure = lit ''runtime''"

definition classify_spawn_failure :: "RtError \<Rightarrow> SpawnFailureReason" where
  "classify_spawn_failure err =
     (case err of
        RtNotFound _ \<Rightarrow> ImageMissing
      | ContainerError msg \<Rightarrow>
          (let lower = map ascii_lower msg
           in if contains lower (lit ''no such image'') \<or> contains lower (lit ''pull access denied'') \<or>
                 contains lower (lit ''manifest unknown'') \<or> contains lower (lit ''manifest for'')
              then ImageMissing else RuntimeFailure)
      | _ \<Rightarrow> RuntimeFailure)"

text \<open>
  \<open>check_heartbeat_deadline_alignment\<close> on \<open>u64\<close> values: the rounded-up seconds, doubled with saturation. The
  warning text is left out; its two numbers are kept.
\<close>

definition check_heartbeat_deadline_alignment :: "64 word \<Rightarrow> 64 word \<Rightarrow> (nat \<times> nat) + unit" where
  "check_heartbeat_deadline_alignment stale deadline_ms =
     (let deadline_secs = (unat deadline_ms + 999) div 1000;
          required = min (2 * deadline_secs) (2 ^ 64 - 1)
      in if unat stale \<ge> required then Inr () else Inl (deadline_secs, required))"

section \<open>The image gate of the spawn pipeline\<close>

datatype ManagerError = SpawnError RtError | ManagerDb DbError

text \<open>
  What the gate reads and writes: the configurations, the back-off table, the spawn-failure counts, the
  alerts raised and, as the state of the runtime, the images it has built with their specifications.
\<close>

record ImageState =
  im_configs :: "ContainerConfig list"
  im_backoff :: rebuild_backoff
  im_spawn_failures :: spawn_counts
  im_alerts :: "(SessionId \<times> SpawnFailureReason) list"
  im_built :: "(ustring \<times> ImageBuildSpec) list"

record ImageEnv =
  ie_sha :: "ustring \<Rightarrow> ustring"
  ie_json_text :: "json \<Rightarrow> ustring"
  ie_build_image :: "ImageBuildSpec \<Rightarrow> RtError + ustring"
  ie_default_image_tag :: ustring
  ie_alerts_wired :: bool
  ie_wall :: instant
  ie_mono :: instant

definition resolve_rebuild_base :: "ustring \<Rightarrow> ustring" where
  "resolve_rebuild_base tag = (if tag = [] then lit ''debian:trixie-slim'' else tag)"

definition rebuild_spec :: "ustring \<Rightarrow> ContainerConfig \<Rightarrow> ImageBuildSpec" where
  "rebuild_spec default_tag c =
     with_containment
       ((new_spec (lit ''copperclaw/session'') (resolve_rebuild_base default_tag))
          \<lparr>apt_packages := cc_packages_apt c, npm_packages := cc_packages_npm c, image_profile := cc_image_profile c\<rparr>)
       default_containment"

definition fingerprint_of :: "ImageEnv \<Rightarrow> ContainerConfig \<Rightarrow> ustring" where
  "fingerprint_of env = compute_fingerprint (ie_sha env) (ie_json_text env)"

definition rebuild_image ::
  "ImageEnv \<Rightarrow> AgentGroupId \<Rightarrow> ContainerConfig \<Rightarrow> (ImageState, ManagerError, ustring) stateful" where
  "rebuild_image env ag c =
     (\<lambda>st. let spec = rebuild_spec (ie_default_image_tag env) c
           in case assert_no_credentials spec of
                Inl name \<Rightarrow> (Inl (SpawnError (ContainerError (violation_text name))), st)
              | Inr _ \<Rightarrow>
                 (case ie_build_image env spec of
                    Inl err \<Rightarrow> (Inl (SpawnError err), st)
                  | Inr tag \<Rightarrow>
                     (let st' = st\<lparr>im_built := (tag, spec) # im_built st\<rparr>
                      in case set_image_tag_and_fingerprint (im_configs st') ag tag (fingerprint_of env c) (ie_wall env) of
                           Inl e \<Rightarrow> (Inl (ManagerDb e), st')
                         | Inr t \<Rightarrow> (Inr tag, st'\<lparr>im_configs := t\<rparr>))))"

definition note_spawn_failure ::
  "ImageEnv \<Rightarrow> SessionId \<Rightarrow> SpawnFailureReason \<Rightarrow> (ImageState, ManagerError, unit) stateful" where
  "note_spawn_failure env sess reason =
     (\<lambda>st. let (attempts, m) = record_spawn_failure sess (im_spawn_failures st);
               st' = st\<lparr>im_spawn_failures := m\<rparr>
           in (Inr (), if attempts = SPAWN_FAIL_THRESHOLD \<and> ie_alerts_wired env
                       then st'\<lparr>im_alerts := im_alerts st' @ [(sess, reason)]\<rparr> else st'))"

definition note_rebuild :: "ImageEnv \<Rightarrow> AgentGroupId \<Rightarrow> bool \<Rightarrow> (ImageState, ManagerError, unit) stateful" where
  "note_rebuild env ag ok =
     modify (\<lambda>st. st\<lparr>im_backoff := (if ok then record_rebuild_success (im_backoff st) ag
                                    else snd (record_rebuild_failure (im_backoff st) ag (ie_mono env)))\<rparr>)"

definition base_tag :: "ImageEnv \<Rightarrow> ContainerConfig \<Rightarrow> ustring" where
  "base_tag env c = (case cc_image_tag c of Some t \<Rightarrow> t | None \<Rightarrow> ie_default_image_tag env)"

definition resolve_image ::
  "ImageEnv \<Rightarrow> SessionId \<Rightarrow> AgentGroupId \<Rightarrow> ContainerConfig option \<Rightarrow> (ImageState, ManagerError, ustring) stateful" where
  "resolve_image env sess ag cfg_row =
     (case cfg_row of
        None \<Rightarrow> ret (ie_default_image_tag env)
      | Some c \<Rightarrow>
          if (case cc_config_fingerprint c of Some f \<Rightarrow> f | None \<Rightarrow> []) = fingerprint_of env c
          then ret (base_tag env c)
          else reading (\<lambda>st.
            case in_cooldown (im_backoff st) ag (ie_mono env) of
              Some _ \<Rightarrow>
                if base_tag env c = []
                then and_then (note_spawn_failure env sess ImageBuild)
                       (\<lambda>_. throw (SpawnError (ContainerError
                          (lit ''image rebuild in cooldown and no fallback tag is configured''))))
                else ret (base_tag env c)
            | None \<Rightarrow>
                with_result (rebuild_image env ag c)
                  (\<lambda>r. case r of
                         Inr tag \<Rightarrow> and_then (note_rebuild env ag True) (\<lambda>_. ret tag)
                       | Inl err \<Rightarrow>
                           and_then (note_rebuild env ag False)
                             (\<lambda>_. if base_tag env c \<noteq> [] then ret (base_tag env c)
                                  else and_then (note_spawn_failure env sess ImageBuild) (\<lambda>_. throw err)))))"

text \<open>The gate as the spawn pipeline calls it: the configuration is read first.\<close>

definition spawn_image ::
  "ImageEnv \<Rightarrow> SessionId \<Rightarrow> AgentGroupId \<Rightarrow> (ImageState, ManagerError, ustring) stateful" where
  "spawn_image env sess ag = reading (\<lambda>st. resolve_image env sess ag (get_config (im_configs st) ag))"

end
