(* ===== verification/Config_Apply.thy ===== *)
theory Config_Apply
  imports Container_Configs
begin

text \<open>
  The self-modification requests of an agent, applied to the configuration of its group: directly by the
  delivery service (\<open>apply_install_packages\<close> and \<open>apply_add_mcp_server\<close> of
  \<open>copperclaw-host-delivery/src/service.rs\<close>) and by the approval handler
  (\<open>copperclaw-host/src/handlers/approvals.rs\<close>). Both create a defaults-only row when the group has none,
  with different defaults. The state is the table; \<open>groups\<close> are the existing agent groups.
\<close>

type_synonym 'a config_op = "(ContainerConfig list, DbError, 'a) stateful"

definition on_configs :: "(ContainerConfig list \<Rightarrow> DbError + ContainerConfig list) \<Rightarrow> unit config_op" where
  "on_configs f = (\<lambda>t. case f t of Inl e \<Rightarrow> (Inl e, t) | Inr t' \<Rightarrow> (Inr (), t'))"

definition default_row :: "AgentGroupId \<Rightarrow> json \<Rightarrow> CliScope \<Rightarrow> ContainerConfig" where
  "default_row ag mounts scope =
     \<lparr>cc_agent_group_id = ag, cc_provider = None, cc_model = None, cc_effort = None, cc_image_tag = None,
      cc_assistant_name = None, cc_max_messages_per_prompt = None, cc_skills = AllSkills,
      cc_mcp_servers = JObject [], cc_packages_apt = [], cc_packages_npm = [], cc_additional_mounts = mounts,
      cc_cli_scope = scope, cc_config_fingerprint = None, cc_egress_allow = [],
      cc_resource_limits = JObject [], cc_coding_enabled = False, cc_surface_thinking = False,
      cc_tool_profile = None, cc_preview_enabled = False, cc_preview_bind = None, cc_check_command = None,
      cc_verify_gate = True, cc_image_profile = Minimal, cc_updated_at = 0\<rparr>"

definition ensure_row :: "ContainerConfig \<Rightarrow> AgentGroupId list \<Rightarrow> instant \<Rightarrow> unit config_op" where
  "ensure_row row groups now =
     reading (\<lambda>t. if get_config t (cc_agent_group_id row) \<noteq> None then ret ()
                  else on_configs (\<lambda>t. map_sum id snd (upsert_config groups t row now)))"

definition delivery_ensure_config_row :: "AgentGroupId list \<Rightarrow> AgentGroupId \<Rightarrow> instant \<Rightarrow> unit config_op" where
  "delivery_ensure_config_row groups ag = ensure_row (default_row ag (JArray []) GroupScope) groups"

definition approval_ensure_config_row :: "AgentGroupId list \<Rightarrow> AgentGroupId \<Rightarrow> instant \<Rightarrow> unit config_op" where
  "approval_ensure_config_row groups ag = ensure_row (default_row ag (JObject []) Disabled) groups"

text \<open>
  The strings of an array field that are not blank: \<open>json_str_array\<close>, and the closure \<open>str_list\<close> of the
  delivery service.
\<close>

definition json_str_array :: "json \<Rightarrow> ustring \<Rightarrow> ustring list" where
  "json_str_array payload key =
     (case json_get payload key of
        Some (JArray vs) \<Rightarrow> filter (\<lambda>s. trim s \<noteq> []) (List.map_filter json_as_str vs)
      | _ \<Rightarrow> [])"

definition merge_packages :: "AgentGroupId \<Rightarrow> ustring list \<Rightarrow> ustring list \<Rightarrow> instant \<Rightarrow> unit config_op" where
  "merge_packages ag apt npm now =
     and_then (traverse (\<lambda>p. on_configs (\<lambda>t. add_package_apt t ag p now)) apt) (\<lambda>_.
     and_then (traverse (\<lambda>p. on_configs (\<lambda>t. add_package_npm t ag p now)) npm) (\<lambda>_.
     ret ()))"

definition delivery_install_packages :: "AgentGroupId list \<Rightarrow> AgentGroupId \<Rightarrow> json \<Rightarrow> instant \<Rightarrow> unit config_op" where
  "delivery_install_packages groups ag payload now =
     (let apt = json_str_array payload (lit ''apt''); npm = json_str_array payload (lit ''npm'')
      in if apt = [] \<and> npm = [] then ret ()
         else and_then (delivery_ensure_config_row groups ag now) (\<lambda>_. merge_packages ag apt npm now))"

definition put_server :: "json \<Rightarrow> ustring \<Rightarrow> json \<Rightarrow> json" where
  "put_server current name transport =
     json_insert (if json_is_object current then current else JObject []) name transport"

definition json_or_null :: "json option \<Rightarrow> json" where
  "json_or_null v = (case v of Some x \<Rightarrow> x | None \<Rightarrow> JNull)"

definition delivery_add_mcp_server :: "AgentGroupId list \<Rightarrow> AgentGroupId \<Rightarrow> json \<Rightarrow> instant \<Rightarrow> unit config_op" where
  "delivery_add_mcp_server groups ag payload now =
     (case Option.bind (json_get payload (lit ''name'')) json_as_str of
        None \<Rightarrow> ret ()
      | Some name \<Rightarrow>
          if trim name = [] then ret ()
          else and_then (delivery_ensure_config_row groups ag now) (\<lambda>_.
            reading (\<lambda>t. case get_mcp_servers t ag of
               Inl e \<Rightarrow> throw e
             | Inr current \<Rightarrow>
                 on_configs (\<lambda>t. set_mcp_servers t ag
                   (put_server current name (json_or_null (json_get payload (lit ''transport'')))) now))))"

section \<open>Effect on the table\<close>

lemma get_config_modify:
  "modify_string_array t ag col f now = Inr t' \<Longrightarrow>
     get_config t' ag' = (if ag' = ag
       then map_option (\<lambda>c. (set_array col (f (array_of col c)) c)\<lparr>cc_updated_at := now\<rparr>) (get_config t ag)
       else get_config t ag')"
  by (auto simp: modify_string_array_def get_config_set_column split: option.splits)

lemma modify_Inr_iff:
  "(\<exists>t'. modify_string_array t ag col f now = Inr t') \<longleftrightarrow> get_config t ag \<noteq> None"
proof (cases "get_config t ag")
  case (Some c)
  then have "c \<in> set t \<and> cc_agent_group_id c = ag"
    using find_Some_in [of "\<lambda>c. cc_agent_group_id c = ag" t c] by (simp add: get_config_def)
  then have "\<exists>t'. set_config_column g t ag now = Inr t'" for g
    by (auto simp: set_config_column_Inr)
  with Some show ?thesis
    by (simp add: modify_string_array_def)
qed (simp add: modify_string_array_def)

text \<open>Adding a list of packages to one column: what a loop of \<open>add_package_...\<close> leaves behind.\<close>

definition push_all :: "ustring list \<Rightarrow> ustring list \<Rightarrow> ustring list" where
  "push_all ps v = fold push_new ps v"

definition add_package :: "ArrayColumn \<Rightarrow> AgentGroupId \<Rightarrow> instant \<Rightarrow> ustring \<Rightarrow> unit config_op" where
  "add_package col ag now p = on_configs (\<lambda>t. modify_string_array t ag col (push_new p) now)"

lemma set_push_all: "set (push_all ps v) = set ps \<union> set v"
  by (induction ps arbitrary: v) (auto simp: push_all_def)

lemma distinct_push_all: "distinct v \<Longrightarrow> distinct (push_all ps v)"
  by (induction ps arbitrary: v) (auto simp: push_all_def)

lemma push_all_known: "set ps \<subseteq> set v \<Longrightarrow> push_all ps v = v"
  by (induction ps) (auto simp: push_all_def push_new_def)

definition same_but_arrays :: "ContainerConfig \<Rightarrow> ContainerConfig \<Rightarrow> bool" where
  "same_but_arrays c d \<longleftrightarrow>
     d\<lparr>cc_packages_apt := cc_packages_apt c, cc_packages_npm := cc_packages_npm c, cc_updated_at := cc_updated_at c\<rparr> = c"

lemma same_but_arrays_refl [simp]: "same_but_arrays c c"
  by (simp add: same_but_arrays_def)

lemma same_but_arrays_trans:
  assumes "same_but_arrays c d" and "same_but_arrays d e"
  shows "same_but_arrays c e"
proof -
  have "e\<lparr>cc_packages_apt := cc_packages_apt c, cc_packages_npm := cc_packages_npm c, cc_updated_at := cc_updated_at c\<rparr> =
      (e\<lparr>cc_packages_apt := cc_packages_apt d, cc_packages_npm := cc_packages_npm d, cc_updated_at := cc_updated_at d\<rparr>)
        \<lparr>cc_packages_apt := cc_packages_apt c, cc_packages_npm := cc_packages_npm c, cc_updated_at := cc_updated_at c\<rparr>"
    by simp
  also have "\<dots> = c"
    using assms by (simp only: same_but_arrays_def)
  finally show ?thesis by (simp only: same_but_arrays_def)
qed

lemma same_but_arrays_step:
  "same_but_arrays c d \<Longrightarrow> same_but_arrays c ((set_array col v d)\<lparr>cc_updated_at := now\<rparr>)"
  by (cases col) (simp_all add: same_but_arrays_def)

lemma traverse_add_packages:
  assumes "get_config t ag = Some c"
  shows "\<exists>t' d r. traverse (add_package col ag now) ps t = (Inr r, t') \<and> get_config t' ag = Some d \<and>
    same_but_arrays c d \<and> array_of col d = push_all ps (array_of col c) \<and>
    (\<forall>col'. col' \<noteq> col \<longrightarrow> array_of col' d = array_of col' c) \<and>
    (\<forall>ag'. ag' \<noteq> ag \<longrightarrow> get_config t' ag' = get_config t ag')"
  using assms
proof (induction ps arbitrary: t c)
  case Nil
  then show ?case by (auto simp: ret_def push_all_def)
next
  case (Cons p ps)
  obtain t1 where t1: "modify_string_array t ag col (push_new p) now = Inr t1"
    using Cons.prems modify_Inr_iff by (metis option.distinct(1))
  then have step: "add_package col ag now p t = (Inr (), t1)"
    by (simp add: add_package_def on_configs_def)
  define c1 where "c1 = (set_array col (push_new p (array_of col c)) c)\<lparr>cc_updated_at := now\<rparr>"
  have c1: "get_config t1 ag = Some c1"
    using get_config_modify [OF t1] Cons.prems by (simp add: c1_def)
  obtain t' d r where IH: "traverse (add_package col ag now) ps t1 = (Inr r, t')"
    "get_config t' ag = Some d" "same_but_arrays c1 d" "array_of col d = push_all ps (array_of col c1)"
    "\<forall>col'. col' \<noteq> col \<longrightarrow> array_of col' d = array_of col' c1"
    "\<forall>ag'. ag' \<noteq> ag \<longrightarrow> get_config t' ag' = get_config t1 ag'"
    using Cons.IH [OF c1] by blast
  have arr: "array_of col' c1 = (if col' = col then push_new p (array_of col c) else array_of col' c)" for col'
    by (cases col'; cases col) (simp_all add: c1_def)
  have run: "traverse (add_package col ag now) (p # ps) t = (Inr (() # r), t')"
    using IH(1) step by (simp add: and_then_def ret_def)
  moreover have "same_but_arrays c d"
    using IH(3) same_but_arrays_step [OF same_but_arrays_refl] same_but_arrays_trans unfolding c1_def by blast
  ultimately show ?case
    using IH arr get_config_modify [OF t1] by (auto simp: push_all_def)
qed

lemma merge_packages_run:
  assumes "get_config t ag = Some c"
  shows "\<exists>t' d. merge_packages ag apt npm now t = (Inr (), t') \<and> get_config t' ag = Some d \<and>
    same_but_arrays c d \<and> cc_packages_apt d = push_all apt (cc_packages_apt c) \<and>
    cc_packages_npm d = push_all npm (cc_packages_npm c) \<and>
    (\<forall>ag'. ag' \<noteq> ag \<longrightarrow> get_config t' ag' = get_config t ag')"
proof -
  have eq: "merge_packages ag apt npm now =
      and_then (traverse (add_package PackagesApt ag now) apt) (\<lambda>_.
      and_then (traverse (add_package PackagesNpm ag now) npm) (\<lambda>_. ret ()))"
    by (simp add: merge_packages_def add_package_def [abs_def] add_package_apt_def add_package_npm_def)
  obtain t1 d1 r1 where 1: "traverse (add_package PackagesApt ag now) apt t = (Inr r1, t1)"
    "get_config t1 ag = Some d1" "same_but_arrays c d1"
    "array_of PackagesApt d1 = push_all apt (array_of PackagesApt c)"
    "\<forall>col'. col' \<noteq> PackagesApt \<longrightarrow> array_of col' d1 = array_of col' c"
    "\<forall>ag'. ag' \<noteq> ag \<longrightarrow> get_config t1 ag' = get_config t ag'"
    using traverse_add_packages [OF assms] by blast
  obtain t2 d2 r2 where 2: "traverse (add_package PackagesNpm ag now) npm t1 = (Inr r2, t2)"
    "get_config t2 ag = Some d2" "same_but_arrays d1 d2"
    "array_of PackagesNpm d2 = push_all npm (array_of PackagesNpm d1)"
    "\<forall>col'. col' \<noteq> PackagesNpm \<longrightarrow> array_of col' d2 = array_of col' d1"
    "\<forall>ag'. ag' \<noteq> ag \<longrightarrow> get_config t2 ag' = get_config t1 ag'"
    using traverse_add_packages [OF 1(2)] by blast
  have "merge_packages ag apt npm now t = (Inr (), t2)"
    by (simp add: eq and_then_def 1(1) 2(1) ret_def)
  moreover have "same_but_arrays c d2"
    using 1(3) 2(3) by (rule same_but_arrays_trans)
  moreover have "cc_packages_apt d2 = push_all apt (cc_packages_apt c)"
    using 1(4) 2(5) [rule_format, of PackagesApt] by simp
  moreover have "cc_packages_npm d2 = push_all npm (cc_packages_npm c)"
    using 2(4) 1(5) [rule_format, of PackagesNpm] by simp
  ultimately show ?thesis
    using 1(6) 2(2,6) by auto
qed

lemma ensure_row_known: "get_config t (cc_agent_group_id row) \<noteq> None \<Longrightarrow> ensure_row row groups now t = (Inr (), t)"
  by (simp add: ensure_row_def reading_def ret_def)

lemma ensure_row_new:
  assumes "get_config t (cc_agent_group_id row) = None" and "cc_agent_group_id row \<in> set groups"
  shows "\<exists>t'. ensure_row row groups now t = (Inr (), t') \<and>
    (\<forall>ag. get_config t' ag = (if ag = cc_agent_group_id row then Some (row\<lparr>cc_updated_at := now\<rparr>) else get_config t ag))"
proof -
  obtain t' where up: "upsert_config groups t row now = Inr (row\<lparr>cc_updated_at := now\<rparr>, t')"
    using assms(2) by (simp add: upsert_config_Inr)
  then have "ensure_row row groups now t = (Inr (), t')"
    using assms(1) by (simp add: ensure_row_def reading_def on_configs_def)
  then show ?thesis
    using get_config_upsert [OF up] by auto
qed

end
