(* ===== verification/Image_Facts.thy ===== *)
theory Image_Facts
  imports Image_Build Config_Apply
begin

text \<open>
  What the image build guarantees: the instructions of a Dockerfile rendered from accepted package names,
  the image a session runs on compared with the configuration of its group, and the pacing of failed builds.
\<close>

section \<open>The instructions of a Dockerfile\<close>

text \<open>
  How a builder reads the file: a line that ends with a backslash continues on the next one, and an
  instruction is the list of the words of a joined line.
\<close>

fun join_continued :: "ustring list \<Rightarrow> ustring list" where
  "join_continued [] = []"
| "join_continued (l # ls) =
     (if l \<noteq> [] \<and> last l = 92
      then (case join_continued ls of [] \<Rightarrow> [butlast l] | m # ms \<Rightarrow> (butlast l @ m) # ms)
      else l # join_continued ls)"

definition instructions :: "ustring \<Rightarrow> ustring list list" where
  "instructions df =
     filter (\<lambda>ws. ws \<noteq> []) (map split_whitespace (join_continued (split_on (\<lambda>c. c = 10) df)))"

definition plain_word :: "ustring \<Rightarrow> bool" where
  "plain_word w \<longleftrightarrow> w \<noteq> [] \<and> (\<forall>c \<in> set w. \<not> is_whitespace c \<and> c \<noteq> 92)"

lemma safe_word_plain: "safe_word {43, 45, 46} w \<or> safe_word {45, 46, 47, 64, 95} w \<Longrightarrow> plain_word w"
  by (auto simp: safe_word_def plain_word_def is_whitespace_def is_ascii_alphanumeric_def is_ascii_digit_def)

lemma newline_is_whitespace: "is_whitespace 10" "is_whitespace 32"
  by (simp_all add: is_whitespace_def)

lemma plain_word_no_newline: "plain_word w \<Longrightarrow> 10 \<notin> set w"
  using newline_is_whitespace(1) by (auto simp: plain_word_def)

lemma split_lines:
  "\<forall>l \<in> set ls. 10 \<notin> set l \<Longrightarrow>
     split_on (\<lambda>c. c = (10 :: nat)) (concat (map (\<lambda>l. l @ [10]) ls) @ r) = ls @ split_on (\<lambda>c. c = 10) r"
proof (induction ls)
  case (Cons l ls)
  then have "split_on (\<lambda>c. c = 10) l = [l]"
    by (intro split_on_single) auto
  with Cons show ?case
    by (simp add: split_on_append_sep)
qed simp

lemma join_continued_block:
  "e = [] \<or> last e \<noteq> 92 \<Longrightarrow>
     join_continued (map (\<lambda>l. l @ [92]) bs @ e # rest) = (concat bs @ e) # join_continued rest"
  by (induction bs) auto

definition indent :: "ustring \<Rightarrow> ustring" where
  "indent p = lit ''      '' @ p"

definition apt_head :: "ustring list" where
  "apt_head = [lit ''RUN apt-get update '',
     lit '' && DEBIAN_FRONTEND=noninteractive apt-get install -y --no-install-recommends '']"

definition apt_lines :: "ustring list \<Rightarrow> ustring list" where
  "apt_lines pkgs =
     (if pkgs = [] then []
      else map (\<lambda>l. l @ [92]) (apt_head @ map (\<lambda>p. indent p @ [32]) pkgs) @
        [lit '' && rm -rf /var/lib/apt/lists/*''])"

definition npm_lines :: "ustring list \<Rightarrow> ustring list" where
  "npm_lines pkgs =
     (if pkgs = [] then []
      else map (\<lambda>l. l @ [92]) (lit ''RUN npm install -g '' # map (\<lambda>p. indent p @ [32]) (butlast pkgs)) @
        [indent (last pkgs)])"

lemma apt_block_lines: "apt_block pkgs = concat (map (\<lambda>l. l @ [10]) (apt_lines pkgs))"
  by (simp add: apt_block_def apt_lines_def apt_head_def indent_def comp_def)

lemma npm_block_lines: "npm_block pkgs = concat (map (\<lambda>l. l @ [10]) (npm_lines pkgs))"
  by (simp add: npm_block_def npm_lines_def indent_def comp_def)

lemma words_of_indented:
  "list_all plain_word ps \<Longrightarrow>
     split_whitespace (concat (map (\<lambda>p. indent p @ [32]) ps) @ r) = ps @ split_whitespace r"
proof (induction ps)
  case (Cons p ps)
  have skip: "split_whitespace (lit ''      '' @ s) = split_whitespace s" for s
    by (simp add: lit_def split_whitespace_skip newline_is_whitespace)
  have "split_whitespace (indent p @ 32 # s) = p # split_whitespace s" for s
    using Cons.prems
    by (simp add: indent_def skip split_whitespace_append newline_is_whitespace split_whitespace_single plain_word_def)
  with Cons show ?case by simp
qed simp

definition apt_words :: "ustring list" where
  "apt_words = [lit ''RUN'', lit ''apt-get'', lit ''update'', lit ''&&'', lit ''DEBIAN_FRONTEND=noninteractive'',
     lit ''apt-get'', lit ''install'', lit ''-y'', lit ''--no-install-recommends'']"

definition apt_instruction :: "ustring list \<Rightarrow> ustring list" where
  "apt_instruction pkgs = apt_words @ pkgs @ [lit ''&&'', lit ''rm'', lit ''-rf'', lit ''/var/lib/apt/lists/*'']"

definition npm_instruction :: "ustring list \<Rightarrow> ustring list" where
  "npm_instruction pkgs = [lit ''RUN'', lit ''npm'', lit ''install'', lit ''-g''] @ pkgs"

lemma apt_words_split:
  "split_whitespace (lit ''RUN apt-get update '' @
     lit '' && DEBIAN_FRONTEND=noninteractive apt-get install -y --no-install-recommends '' @ s) =
   apt_words @ split_whitespace s"
proof -
  have "split_whitespace (lit ''RUN apt-get update  && DEBIAN_FRONTEND=noninteractive apt-get install -y --no-install-recommends'' @ 32 # s) =
      split_whitespace (lit ''RUN apt-get update  && DEBIAN_FRONTEND=noninteractive apt-get install -y --no-install-recommends'') @
      split_whitespace s"
    by (rule split_whitespace_append) (simp add: newline_is_whitespace)
  also have "split_whitespace (lit ''RUN apt-get update  && DEBIAN_FRONTEND=noninteractive apt-get install -y --no-install-recommends'') = apt_words"
    by (simp add: apt_words_def lit_def split_whitespace_def is_whitespace_def)
  finally show ?thesis by (simp add: lit_def)
qed

lemma apt_tail_split:
  "split_whitespace (lit '' && rm -rf /var/lib/apt/lists/*'') =
     [lit ''&&'', lit ''rm'', lit ''-rf'', lit ''/var/lib/apt/lists/*'']"
  by (simp add: lit_def split_whitespace_def is_whitespace_def)

lemma npm_words_split:
  "split_whitespace (lit ''RUN npm install -g '' @ s) =
     [lit ''RUN'', lit ''npm'', lit ''install'', lit ''-g''] @ split_whitespace s"
proof -
  have "split_whitespace (lit ''RUN npm install -g'' @ 32 # s) =
      split_whitespace (lit ''RUN npm install -g'') @ split_whitespace s"
    by (rule split_whitespace_append) (simp add: newline_is_whitespace)
  also have "split_whitespace (lit ''RUN npm install -g'') =
      [lit ''RUN'', lit ''npm'', lit ''install'', lit ''-g'']"
    by (simp add: lit_def split_whitespace_def is_whitespace_def)
  finally show ?thesis by (simp add: lit_def)
qed

lemma join_apt:
  assumes "list_all plain_word pkgs"
  shows "map split_whitespace (join_continued (apt_lines pkgs @ rest)) =
    (if pkgs = [] then [] else [apt_instruction pkgs]) @ map split_whitespace (join_continued rest)"
proof (cases "pkgs = []")
  case False
  let ?tail = "lit '' && rm -rf /var/lib/apt/lists/*''"
  have "last ?tail \<noteq> 92" by (simp add: lit_def)
  then have "join_continued (apt_lines pkgs @ rest) =
      (concat (apt_head @ map (\<lambda>p. indent p @ [32]) pkgs) @ ?tail) # join_continued rest"
    using False join_continued_block [of ?tail "apt_head @ map (\<lambda>p. indent p @ [32]) pkgs" rest]
    by (simp add: apt_lines_def)
  moreover have "split_whitespace (concat (apt_head @ map (\<lambda>p. indent p @ [32]) pkgs) @ ?tail) = apt_instruction pkgs"
    using words_of_indented [OF assms, of ?tail]
    by (simp only: apt_head_def concat_append concat.simps append_assoc append_Nil2 apt_words_split
        apt_tail_split apt_instruction_def)
  ultimately show ?thesis
    using False by simp
qed (simp add: apt_lines_def)

lemma join_npm:
  assumes "list_all plain_word pkgs"
  shows "map split_whitespace (join_continued (npm_lines pkgs @ rest)) =
    (if pkgs = [] then [] else [npm_instruction pkgs]) @ map split_whitespace (join_continued rest)"
proof (cases "pkgs = []")
  case False
  let ?bs = "map (\<lambda>p. indent p @ [32]) (butlast pkgs)"
  have plain: "plain_word (last pkgs)" "list_all plain_word (butlast pkgs)"
    using assms False by (auto simp: list_all_iff dest: in_set_butlastD)
  then have "last (indent (last pkgs)) \<noteq> 92"
    by (auto simp: indent_def plain_word_def)
  then have "join_continued (npm_lines pkgs @ rest) =
      (concat (lit ''RUN npm install -g '' # ?bs) @ indent (last pkgs)) # join_continued rest"
    using False join_continued_block [of "indent (last pkgs)" "lit ''RUN npm install -g '' # ?bs" rest]
    by (simp add: npm_lines_def)
  moreover have "split_whitespace (indent (last pkgs)) = [last pkgs]"
    using words_of_indented [of "[last pkgs]" "[]"] plain(1)
    by (simp add: split_whitespace_snoc newline_is_whitespace)
  then have "split_whitespace (concat (lit ''RUN npm install -g '' # ?bs) @ indent (last pkgs)) = npm_instruction pkgs"
    using words_of_indented [OF plain(2), of "indent (last pkgs)"] False
    by (simp only: concat.simps append_assoc npm_words_split npm_instruction_def)
      (simp add: append_butlast_last_id)
  ultimately show ?thesis
    using False by simp
qed (simp add: npm_lines_def)

lemma extra_packages_plain:
  "list_all plain_word (extra_apt_packages p)" "list_all plain_word (extra_npm_packages p)"
  by (cases p; simp add: PROTOTYPING_APT_PACKAGES_def PROTOTYPING_NPM_PACKAGES_def BACKEND_APT_PACKAGES_def
      plain_word_def lit_def is_whitespace_def)+

lemma hex_encode_plain: "c \<in> set (hex_encode bs) \<Longrightarrow> 48 \<le> c \<and> c \<le> 102"
proof -
  have digit: "d < 16 \<Longrightarrow> 48 \<le> hex_digit d \<and> hex_digit d \<le> 102" for d
    by (auto simp: hex_digit_def)
  have "unat b div 16 < 16" for b :: "8 word"
  proof -
    have "unat b < 2 ^ 8"
      using unsigned_less [of b] by simp
    then show ?thesis by (simp add: less_mult_imp_div_less)
  qed
  with digit show "c \<in> set (hex_encode bs) \<Longrightarrow> 48 \<le> c \<and> c \<le> 102"
    by (auto simp: hex_encode_def)
qed

lemma hex_char_plain: "48 \<le> c \<Longrightarrow> c \<le> 102 \<Longrightarrow> c \<noteq> 92 \<Longrightarrow> \<not> is_whitespace c \<and> c \<noteq> 10"
  by (auto simp: is_whitespace_def)

lemma hex_digit_not_backslash: "hex_digit d \<noteq> 92 \<or> d = 5"
  by (auto simp: hex_digit_def)

lemma hex_encode_no_backslash: "92 \<notin> set (hex_encode bs)"
  by (auto simp: hex_encode_def hex_digit_def)

definition fingerprint_label :: "(8 word list \<Rightarrow> 8 word list) \<Rightarrow> ImageBuildSpec \<Rightarrow> ustring" where
  "fingerprint_label sha s = lit ''copperclaw.fingerprint=\"'' @ spec_fingerprint sha s @ lit ''\"''"

lemma fingerprint_label_plain: "plain_word (fingerprint_label sha s)"
  using hex_encode_plain hex_encode_no_backslash hex_char_plain
  by (fastforce simp: fingerprint_label_def spec_fingerprint_def plain_word_def lit_def is_whitespace_def)

definition line_of :: "ustring \<Rightarrow> ustring \<Rightarrow> ustring" where
  "line_of keyword w = keyword @ 32 # w"

lemma line_of_words:
  "plain_word k \<Longrightarrow> plain_word w \<Longrightarrow> split_whitespace (line_of k w) = [k, w]"
  by (simp add: line_of_def split_whitespace_append newline_is_whitespace split_whitespace_single plain_word_def)

lemma line_of_last: "plain_word w \<Longrightarrow> last (line_of k w) \<noteq> 92"
  by (auto simp: line_of_def plain_word_def)

lemma keywords_plain: "plain_word (lit ''FROM'')" "plain_word (lit ''LABEL'')"
  by (simp_all add: plain_word_def lit_def is_whitespace_def)

definition docker_lines :: "(8 word list \<Rightarrow> 8 word list) \<Rightarrow> ImageBuildSpec \<Rightarrow> ustring list" where
  "docker_lines sha s =
     line_of (lit ''FROM'') (base_image s) # apt_lines (effective_apt_packages s) @
     npm_lines (effective_npm_packages s) @ [line_of (lit ''LABEL'') (fingerprint_label sha s)]"

lemma dockerfile_lines:
  "extra_files s = [] \<Longrightarrow> labels s = [] \<Longrightarrow>
     dockerfile sha s = concat (map (\<lambda>l. l @ [10]) (docker_lines sha s))"
  by (simp add: dockerfile_def docker_lines_def apt_block_lines npm_block_lines label_line_def line_of_def
      fingerprint_label_def lit_def)

lemma package_lines_no_newline:
  "list_all plain_word pkgs \<Longrightarrow> l \<in> set (apt_lines pkgs) \<union> set (npm_lines pkgs) \<Longrightarrow> 10 \<notin> set l"
proof -
  assume plain: "list_all plain_word pkgs" and l: "l \<in> set (apt_lines pkgs) \<union> set (npm_lines pkgs)"
  have "10 \<notin> set p" if "p \<in> set pkgs" for p
    using plain that plain_word_no_newline by (auto simp: list_all_iff)
  moreover have "last pkgs \<in> set pkgs" if "pkgs \<noteq> []"
    using that by simp
  ultimately show "10 \<notin> set l"
    using l by (auto simp: apt_lines_def npm_lines_def apt_head_def indent_def lit_def
        dest: in_set_butlastD split: if_splits)
qed

lemma docker_instructions:
  assumes "plain_word (base_image s)" and "list_all plain_word (effective_apt_packages s)"
    and "list_all plain_word (effective_npm_packages s)" and "extra_files s = []" and "labels s = []"
  shows "instructions (dockerfile sha s) =
    [[lit ''FROM'', base_image s]] @
    (if effective_apt_packages s = [] then [] else [apt_instruction (effective_apt_packages s)]) @
    (if effective_npm_packages s = [] then [] else [npm_instruction (effective_npm_packages s)]) @
    [[lit ''LABEL'', fingerprint_label sha s]]"
proof -
  have lines: "\<forall>l \<in> set (docker_lines sha s). 10 \<notin> set l"
    using package_lines_no_newline [OF assms(2)] package_lines_no_newline [OF assms(3)]
      plain_word_no_newline [OF assms(1)] plain_word_no_newline [OF fingerprint_label_plain]
      plain_word_no_newline [OF keywords_plain(1)] plain_word_no_newline [OF keywords_plain(2)]
    by (auto simp: docker_lines_def line_of_def)
  have "split_on (\<lambda>c. c = 10) (dockerfile sha s) = docker_lines sha s @ [[]]"
    using split_lines [OF lines, of "[]"] dockerfile_lines [OF assms(4,5)] by simp
  moreover have "last (line_of (lit ''FROM'') (base_image s)) \<noteq> 92"
    "last (line_of (lit ''LABEL'') (fingerprint_label sha s)) \<noteq> 92"
    using line_of_last assms(1) fingerprint_label_plain by blast+
  ultimately have "map split_whitespace (join_continued (split_on (\<lambda>c. c = 10) (dockerfile sha s))) =
      [lit ''FROM'', base_image s] #
      (if effective_apt_packages s = [] then [] else [apt_instruction (effective_apt_packages s)]) @
      (if effective_npm_packages s = [] then [] else [npm_instruction (effective_npm_packages s)]) @
      [[lit ''LABEL'', fingerprint_label sha s], []]"
    by (simp add: docker_lines_def join_apt [OF assms(2)] join_npm [OF assms(3)]
        line_of_words keywords_plain assms(1) fingerprint_label_plain)
  then show ?thesis
    by (simp add: instructions_def apt_instruction_def apt_words_def npm_instruction_def)
qed

text \<open>
  In the Dockerfile of a group whose configured package names all pass the validators, every package is
  one argument of its installer and nothing else: the instructions are the base image, at most one install
  of apt and one of npm packages, exactly the configured and profile packages, and the fingerprint label.
\<close>

theorem accepted_packages_stay_arguments:
  assumes "list_all (\<lambda>p. validate_apt_package p = Inr ()) (cc_packages_apt c)"
    and "list_all (\<lambda>p. validate_npm_package p = Inr ()) (cc_packages_npm c)"
    and "default_tag = [] \<or> plain_word default_tag"
  shows "instructions (dockerfile sha (rebuild_spec default_tag c)) =
    (let apt = cc_packages_apt c @ extra_apt_packages (cc_image_profile c);
         npm = cc_packages_npm c @ extra_npm_packages (cc_image_profile c)
     in [[lit ''FROM'', resolve_rebuild_base default_tag]] @
        (if apt = [] then [] else [apt_instruction apt]) @ (if npm = [] then [] else [npm_instruction npm]) @
        [[lit ''LABEL'', fingerprint_label sha (rebuild_spec default_tag c)]])"
proof -
  let ?s = "rebuild_spec default_tag c"
  have spec: "base_image ?s = resolve_rebuild_base default_tag" "extra_files ?s = []" "labels ?s = []"
    "effective_apt_packages ?s = cc_packages_apt c @ extra_apt_packages (cc_image_profile c)"
    "effective_npm_packages ?s = cc_packages_npm c @ extra_npm_packages (cc_image_profile c)"
    by (simp_all add: rebuild_spec_def with_containment_def new_spec_def effective_apt_packages_def
        effective_npm_packages_def)
  have "plain_word (base_image ?s)"
    using assms(3) by (auto simp: spec resolve_rebuild_base_def plain_word_def lit_def is_whitespace_def)
  moreover have "list_all plain_word (effective_apt_packages ?s)" "list_all plain_word (effective_npm_packages ?s)"
    using assms(1,2) extra_packages_plain
    by (auto simp: spec list_all_iff intro: safe_word_plain dest: validate_apt_safe validate_npm_safe)
  ultimately show ?thesis
    using docker_instructions [of ?s sha] by (simp add: spec Let_def)
qed

definition sample_container_config :: ContainerConfig where
  "sample_container_config =
     (default_row 7 (JArray []) GroupScope)\<lparr>cc_packages_apt := [lit ''jq''], cc_packages_npm := [lit ''@scope/pkg'']\<rparr>"

theorem accepted_packages_stay_arguments_witness:
  "instructions (dockerfile (\<lambda>_. []) (rebuild_spec [] sample_container_config)) =
     [[lit ''FROM'', lit ''debian:trixie-slim''], apt_instruction [lit ''jq''], npm_instruction [lit ''@scope/pkg''],
      [lit ''LABEL'', lit ''copperclaw.fingerprint=\"\"'']]"
proof -
  have "list_all (\<lambda>p. validate_apt_package p = Inr ()) (cc_packages_apt sample_container_config)"
    by (simp add: sample_container_config_def validate_apt_package_def lit_def byte_len_def as_bytes_def utf8_bytes_def
        MAX_PACKAGE_LEN_def is_ascii_alphanumeric_def is_ascii_digit_def apt_char_def)
  moreover have "list_all (\<lambda>p. validate_npm_package p = Inr ()) (cc_packages_npm sample_container_config)"
    by (simp add: sample_container_config_def validate_npm_package_def lit_def byte_len_def as_bytes_def utf8_bytes_def
        MAX_PACKAGE_LEN_def is_ascii_alphanumeric_def is_ascii_digit_def npm_char_def)
  ultimately show ?thesis
    using accepted_packages_stay_arguments [of sample_container_config "[]" "\<lambda>_. []"]
    by (simp add: sample_container_config_def default_row_def Let_def resolve_rebuild_base_def fingerprint_label_def
        spec_fingerprint_def hex_encode_def lit_def)
qed

text \<open>
  The validators are not on the path from the agent to the image: the delivery service appends any name
  that is not blank, so a name with a line break adds an instruction of its own to the Dockerfile.
\<close>

definition split_name :: ustring where
  "split_name = lit ''jq'' @ 10 # lit ''ENV A=b''"

definition split_name_config :: ContainerConfig where
  "split_name_config = (default_row 7 (JArray []) GroupScope)\<lparr>cc_packages_apt := [split_name], cc_updated_at := 5\<rparr>"

lemma split_name_is_refused: "validate_apt_package split_name \<noteq> Inr ()"
  by (simp add: validate_apt_package_def split_name_def lit_def check_chars_Inr_iff apt_char_def
      is_ascii_alphanumeric_def is_ascii_digit_def)

lemma split_name_is_installed:
  "delivery_install_packages [7] 7 (JObject [(lit ''apt'', JArray [JString split_name])]) 5 [] =
     (Inr (), [split_name_config])"
proof -
  have "trim split_name \<noteq> []"
    by (simp add: split_name_def trim_def trim_start_def trim_end_def is_whitespace_def lit_def)
  then have "json_str_array (JObject [(lit ''apt'', JArray [JString split_name])]) (lit ''apt'') = [split_name]"
    "json_str_array (JObject [(lit ''apt'', JArray [JString split_name])]) (lit ''npm'') = []"
    by (simp_all add: json_str_array_def json_get_def json_as_str_def List.map_filter_simps)
  then show ?thesis
    by (simp add: delivery_install_packages_def delivery_ensure_config_row_def ensure_row_def reading_def
        and_then_def ret_def on_configs_def get_config_def upsert_config_def merge_packages_def
        add_package_apt_def modify_string_array_def set_config_column_def sql_update_def push_new_def
        split_name_config_def default_row_def Let_def)
qed

lemma split_name_adds_instruction:
  "map hd (instructions (dockerfile (\<lambda>_. []) (rebuild_spec (lit ''base'') split_name_config))) =
     [lit ''FROM'', lit ''RUN'', lit ''ENV'', lit ''LABEL'']"
  by (simp add: instructions_def dockerfile_def rebuild_spec_def with_containment_def new_spec_def
      split_name_config_def default_row_def split_name_def effective_apt_packages_def effective_npm_packages_def
      apt_block_def npm_block_def label_line_def resolve_rebuild_base_def spec_fingerprint_def hex_encode_def
      lit_def split_whitespace_def is_whitespace_def)

section \<open>Pacing of failed builds\<close>

lemma backoff_after_bounds: "REBUILD_BACKOFF_INITIAL \<le> backoff_after n \<and> backoff_after n \<le> REBUILD_BACKOFF_CEILING"
  by (simp add: backoff_after_def REBUILD_BACKOFF_INITIAL_def REBUILD_BACKOFF_CEILING_def)

lemma backoff_after_mono: "n \<le> m \<Longrightarrow> backoff_after n \<le> backoff_after m"
proof -
  assume "n \<le> m"
  then have "unat n \<le> unat m" by (simp add: word_le_nat_alt)
  then have "(2 :: int) ^ min (unat n - 1) 8 \<le> 2 ^ min (unat m - 1) 8"
    by (intro power_increasing) auto
  then show ?thesis
    by (simp add: backoff_after_def REBUILD_BACKOFF_INITIAL_def min.coboundedI1 min_le_iff_disj)
qed

lemma failed_build_waits:
  assumes "record_rebuild_failure b ag now = (d, b')"
  shows "in_cooldown b' ag t = (if t < now + d then Some (now + d - t) else None)"
    and "ag' \<noteq> ag \<Longrightarrow> in_cooldown b' ag' t = in_cooldown b ag' t"
  using assms by (auto simp: record_rebuild_failure_def in_cooldown_def Let_def)

section \<open>The image a session runs on\<close>

text \<open>
  The two library functions behind the fingerprint: the writer of JSON text gives different texts without
  line breaks to the server definitions \<open>J\<close> the host has seen, and the digest gives different non-empty texts
  to the inputs \<open>K\<close> it has digested.
\<close>

definition digest_ok :: "ImageEnv \<Rightarrow> json set \<Rightarrow> ustring set \<Rightarrow> bool" where
  "digest_ok env J K \<longleftrightarrow>
     inj_on (ie_json_text env) J \<and> (\<forall>v \<in> J. 10 \<notin> set (ie_json_text env v)) \<and>
     inj_on (ie_sha env) K \<and> (\<forall>x. ie_sha env x \<noteq> [])"

text \<open>
  The invariant of the gate: a stored fingerprint is that of a configuration from which the image under the
  stored tag was built.
\<close>

definition built_for :: "ImageState \<Rightarrow> ustring \<Rightarrow> ContainerConfig \<Rightarrow> bool" where
  "built_for st tag c \<longleftrightarrow>
     (\<exists>spec. (tag, spec) \<in> set (im_built st) \<and> apt_packages spec = cc_packages_apt c \<and>
        npm_packages spec = cc_packages_npm c \<and> image_profile spec = cc_image_profile c)"

definition digested :: "ImageEnv \<Rightarrow> json set \<Rightarrow> ustring set \<Rightarrow> ContainerConfig \<Rightarrow> bool" where
  "digested env J K c \<longleftrightarrow> plain_config c \<and> cc_mcp_servers c \<in> J \<and> fingerprint_input (ie_json_text env) c \<in> K"

definition row_current :: "ImageEnv \<Rightarrow> json set \<Rightarrow> ustring set \<Rightarrow> ImageState \<Rightarrow> ContainerConfig \<Rightarrow> bool" where
  "row_current env J K st c \<longleftrightarrow>
     digested env J K c \<and>
     (case cc_config_fingerprint c of
        None \<Rightarrow> True
      | Some f \<Rightarrow> (\<exists>c0 tag. digested env J K c0 \<and> f = fingerprint_of env c0 \<and>
                     cc_image_tag c = Some tag \<and> built_for st tag c0))"

definition images_current :: "ImageEnv \<Rightarrow> json set \<Rightarrow> ustring set \<Rightarrow> ImageState \<Rightarrow> bool" where
  "images_current env J K st \<longleftrightarrow> (\<forall>c \<in> set (im_configs st). row_current env J K st c)"

lemma fingerprint_of_inj:
  assumes "digest_ok env J K" and "digested env J K c" and "digested env J K d"
    and "fingerprint_of env c = fingerprint_of env d"
  shows "cc_packages_apt c = cc_packages_apt d \<and> cc_packages_npm c = cc_packages_npm d \<and>
    cc_image_profile c = cc_image_profile d"
proof -
  have "fingerprint_input (ie_json_text env) c = fingerprint_input (ie_json_text env) d"
    using assms by (auto simp: digest_ok_def digested_def fingerprint_of_def compute_fingerprint_def dest: inj_onD)
  then show ?thesis
    using fingerprint_input_inj [of c d "ie_json_text env" J] assms(1,2,3)
    unfolding digest_ok_def digested_def by blast
qed

lemma built_for_rebuilt:
  "(tag, rebuild_spec d c) \<in> set (im_built st) \<Longrightarrow> built_for st tag c"
  by (force simp: built_for_def rebuild_spec_def with_containment_def new_spec_def)

lemma rebuild_spec_clean: "assert_no_credentials (rebuild_spec d c) = Inr ()"
  by (simp add: assert_no_credentials_def rebuild_spec_def with_containment_def new_spec_def)

lemma rebuild_image_Inr:
  assumes "rebuild_image env ag c st = (Inr tag, st')"
  shows "ie_build_image env (rebuild_spec (ie_default_image_tag env) c) = Inr tag"
    and "im_built st' = (tag, rebuild_spec (ie_default_image_tag env) c) # im_built st"
    and "set_image_tag_and_fingerprint (im_configs st) ag tag (fingerprint_of env c) (ie_wall env) = Inr (im_configs st')"
  using assms by (auto simp: rebuild_image_def rebuild_spec_clean Let_def split: sum.splits)

lemma note_rebuild_run: "\<exists>st'. note_rebuild env ag ok st = (Inr (), st')"
  by (simp add: note_rebuild_def modify_def)

lemma note_rebuild_frame [simp]:
  "im_configs (snd (note_rebuild env ag ok st)) = im_configs st"
  "im_built (snd (note_rebuild env ag ok st)) = im_built st"
  by (simp_all add: note_rebuild_def modify_def)

lemma note_rebuild_failed:
  "\<exists>e. im_backoff (snd (note_rebuild env ag False st)) ag = Some e"
  by (simp add: note_rebuild_def modify_def record_rebuild_failure_def Let_def)

definition image_frame :: "ImageState \<Rightarrow> ImageState \<Rightarrow> bool" where
  "image_frame st st' \<longleftrightarrow> im_configs st' = im_configs st \<and> set (im_built st) \<subseteq> set (im_built st')"

lemma image_frame_refl [simp]: "image_frame st st"
  by (simp add: image_frame_def)

lemma rebuild_image_Inl: "rebuild_image env ag c st = (Inl err, st') \<Longrightarrow> image_frame st st'"
  by (auto simp: rebuild_image_def rebuild_spec_clean image_frame_def Let_def split: sum.splits)

text \<open>The three ways a session gets a tag.\<close>

lemma resolve_image_Inr:
  assumes run: "resolve_image env sess ag (Some c) st = (Inr tag, st')"
  shows "(cc_config_fingerprint c = Some (fingerprint_of env c) \<or> fingerprint_of env c = []) \<and>
      tag = base_tag env c \<and> st' = st
    \<or> (\<exists>e. im_backoff st' ag = Some e) \<and> tag = base_tag env c \<and> image_frame st st'
    \<or> (\<exists>st1. rebuild_image env ag c st = (Inr tag, st1) \<and> im_configs st' = im_configs st1 \<and> im_built st' = im_built st1)"
proof (cases "(case cc_config_fingerprint c of Some f \<Rightarrow> f | None \<Rightarrow> []) = fingerprint_of env c")
  case True
  with run show ?thesis
    by (auto simp: resolve_image_def ret_def split: option.splits)
next
  case stale: False
  show ?thesis
  proof (cases "in_cooldown (im_backoff st) ag (ie_mono env)")
    case (Some d)
    with stale run have "tag = base_tag env c \<and> st' = st"
      by (auto simp: resolve_image_def reading_def ret_def throw_def and_then_def split: if_splits prod.splits sum.splits)
    moreover have "\<exists>e. im_backoff st ag = Some e"
      using Some by (auto simp: in_cooldown_def split: option.splits)
    ultimately show ?thesis by simp
  next
    case None
    obtain r st1 where rb: "rebuild_image env ag c st = (r, st1)"
      by (cases "rebuild_image env ag c st")
    show ?thesis
    proof (cases r)
      case (Inr t)
      obtain st2 where nr: "note_rebuild env ag True st1 = (Inr (), st2)"
        using note_rebuild_run by blast
      have "tag = t \<and> st' = st2"
        using stale None run rb nr Inr
        by (simp add: resolve_image_def reading_def with_result_def and_then_def ret_def)
      moreover have "im_configs st2 = im_configs st1" "im_built st2 = im_built st1"
        using note_rebuild_frame [of env ag True st1] nr by simp_all
      ultimately show ?thesis
        using rb Inr by blast
    next
      case (Inl err)
      obtain st2 where nr: "note_rebuild env ag False st1 = (Inr (), st2)"
        using note_rebuild_run by blast
      have "tag = base_tag env c \<and> st' = st2"
        using stale None run rb nr Inl
        by (auto simp: resolve_image_def reading_def with_result_def and_then_def ret_def throw_def
            split: if_splits prod.splits sum.splits)
      moreover have "\<exists>e. im_backoff st2 ag = Some e"
        using note_rebuild_failed [of env ag st1] nr by simp
      moreover have "image_frame st st2"
        using rebuild_image_Inl [of env ag c st err st1] rb Inl note_rebuild_frame [of env ag False st1] nr
        by (simp add: image_frame_def)
      ultimately show ?thesis by blast
    qed
  qed
qed

lemma row_current_mono:
  "row_current env J K st c \<Longrightarrow> set (im_built st) \<subseteq> set (im_built st') \<Longrightarrow> row_current env J K st' c"
  unfolding row_current_def built_for_def by (fastforce split: option.splits)

lemma images_current_frame: "images_current env J K st \<Longrightarrow> image_frame st st' \<Longrightarrow> images_current env J K st'"
  unfolding images_current_def image_frame_def using row_current_mono by metis

lemma digested_cong:
  "cc_packages_apt c = cc_packages_apt d \<Longrightarrow> cc_packages_npm c = cc_packages_npm d \<Longrightarrow>
     cc_skills c = cc_skills d \<Longrightarrow> cc_mcp_servers c = cc_mcp_servers d \<Longrightarrow>
     cc_image_profile c = cc_image_profile d \<Longrightarrow> digested env J K c = digested env J K d"
  by (simp add: digested_def plain_config_def fingerprint_input_def)

lemma images_current_rebuilt:
  assumes cur: "images_current env J K st" and c: "digested env J K c"
    and run: "rebuild_image env ag c st = (Inr tag, st')"
  shows "images_current env J K st' \<and> built_for st' tag c"
proof -
  have built: "built_for st' tag c"
    using rebuild_image_Inr(2) [OF run]
    by (intro built_for_rebuilt [of _ "ie_default_image_tag env"]) simp
  have grow: "set (im_built st) \<subseteq> set (im_built st')"
    using rebuild_image_Inr(2) [OF run] by auto
  let ?set = "\<lambda>r. (r\<lparr>cc_image_tag := Some tag, cc_config_fingerprint := Some (fingerprint_of env c)\<rparr>)
      \<lparr>cc_updated_at := ie_wall env\<rparr>"
  have rows: "im_configs st' = map (\<lambda>r. if cc_agent_group_id r = ag then ?set r else r) (im_configs st)"
    using rebuild_image_Inr(3) [OF run] by (simp add: set_image_tag_and_fingerprint_def set_config_column_Inr)
  have "row_current env J K st' (?set r)" if "r \<in> set (im_configs st)" for r
  proof -
    have "digested env J K r"
      using cur that by (simp add: images_current_def row_current_def)
    then have "digested env J K (?set r)"
      by (subst digested_cong [of _ r]) simp_all
    with built c show ?thesis
      by (auto simp: row_current_def)
  qed
  moreover have "row_current env J K st' r" if "r \<in> set (im_configs st)" for r
    using cur that row_current_mono [OF _ grow] by (auto simp: images_current_def)
  ultimately have "images_current env J K st'"
    by (auto simp: images_current_def rows)
  with built show ?thesis by simp
qed

text \<open>
  A session whose spawn got an image runs on one that was built with exactly the packages and the profile
  its group is configured with now, whether the image was rebuilt for this spawn or found current by its
  fingerprint; the only exception is the last good image after a failed build, and then the failure is on
  record and delays the next attempt. The invariant that makes the fingerprint trustworthy is kept.
\<close>

theorem session_image_matches_config:
  assumes "digest_ok env J K" and "images_current env J K st" and "get_config (im_configs st) ag = Some c"
    and "spawn_image env sess ag st = (Inr tag, st')"
  shows "images_current env J K st' \<and>
    (built_for st' tag c \<or> (\<exists>e. im_backoff st' ag = Some e) \<and> tag = base_tag env c)"
proof -
  have run: "resolve_image env sess ag (Some c) st = (Inr tag, st')"
    using assms(3,4) by (simp add: spawn_image_def reading_def)
  have "c \<in> set (im_configs st)"
    using assms(3) find_Some_in by (fastforce simp: get_config_def)
  with assms(2) have row: "row_current env J K st c"
    by (simp add: images_current_def)
  then have dig: "digested env J K c" by (simp add: row_current_def)
  from resolve_image_Inr [OF run] show ?thesis
  proof (elim disjE exE conjE)
    assume "fingerprint_of env c = []"
    then show ?thesis
      using assms(1) by (simp add: digest_ok_def fingerprint_of_def compute_fingerprint_def)
  next
    assume fp: "cc_config_fingerprint c = Some (fingerprint_of env c)" and tag: "tag = base_tag env c" and "st' = st"
    obtain c0 tag0 where c0: "digested env J K c0" "fingerprint_of env c = fingerprint_of env c0"
      "cc_image_tag c = Some tag0" "built_for st tag0 c0"
      using row fp by (auto simp: row_current_def)
    have "built_for st tag0 c"
      using c0(4) fingerprint_of_inj [OF assms(1) dig c0(1,2)] by (simp add: built_for_def)
    then show ?thesis
      using assms(2) \<open>st' = st\<close> tag c0(3) by (simp add: base_tag_def)
  next
    fix e assume "im_backoff st' ag = Some e" and "tag = base_tag env c" and "image_frame st st'"
    then show ?thesis
      using images_current_frame assms(2) by blast
  next
    fix st1 assume rb: "rebuild_image env ag c st = (Inr tag, st1)"
      and same: "im_configs st' = im_configs st1" "im_built st' = im_built st1"
    have "images_current env J K st1" and "built_for st1 tag c"
      using images_current_rebuilt [OF assms(2) dig rb] by blast+
    moreover have "image_frame st1 st'"
      using same by (simp add: image_frame_def)
    ultimately show ?thesis
      using images_current_frame same(2) by (auto simp: built_for_def)
  qed
qed

text \<open>
  A group with two packages whose image was never built; the digest is the identity with a mark in front, the
  runtime tags by the number of packages.
\<close>

definition sample_image_env :: ImageEnv where
  "sample_image_env =
     \<lparr>ie_sha = (\<lambda>s. 35 # s), ie_json_text = (\<lambda>_. lit ''{}''),
      ie_build_image = (\<lambda>s. Inr (lit ''img-'' @ show_nat (length (apt_packages s)))),
      ie_default_image_tag = lit ''base'', ie_alerts_wired = False, ie_wall = 9, ie_mono = 9\<rparr>"

definition sample_image_state :: ImageState where
  "sample_image_state =
     \<lparr>im_configs = [sample_container_config], im_backoff = Map.empty, im_spawn_failures = Map.empty,
      im_alerts = [], im_built = []\<rparr>"

theorem session_image_matches_config_witness:
  "\<exists>st'. spawn_image sample_image_env (lit ''s'') 7 sample_image_state = (Inr (lit ''img-1''), st') \<and>
     built_for st' (lit ''img-1'') sample_container_config"
proof -
  let ?J = "{JObject []}"
  let ?K = "{fingerprint_input (\<lambda>_. lit ''{}'') sample_container_config}"
  have ok: "digest_ok sample_image_env ?J ?K"
    by (simp add: digest_ok_def sample_image_env_def lit_def)
  have cur: "images_current sample_image_env ?J ?K sample_image_state"
    by (simp add: images_current_def row_current_def digested_def sample_image_state_def sample_container_config_def
        default_row_def plain_config_def plain_name_def skills_digest_text_def sample_image_env_def lit_def)
  have get: "get_config (im_configs sample_image_state) 7 = Some sample_container_config"
    by (simp add: get_config_def sample_image_state_def sample_container_config_def default_row_def)
  have fp: "cc_config_fingerprint sample_container_config = None"
    by (simp add: sample_container_config_def default_row_def)
  have build: "ie_build_image sample_image_env (rebuild_spec d sample_container_config) = Inr (lit ''img-1'')" for d
    by (simp add: sample_image_env_def rebuild_spec_def with_containment_def new_spec_def
        sample_container_config_def default_row_def show_nat.simps lit_def)
  have set: "\<exists>t. set_image_tag_and_fingerprint [sample_container_config] 7 tag f w = Inr t" for tag f w
    by (simp add: set_image_tag_and_fingerprint_def set_config_column_def sql_update_def sample_container_config_def
        default_row_def)
  have fresh: "fingerprint_of sample_image_env c \<noteq> []" for c
    by (simp add: fingerprint_of_def compute_fingerprint_def sample_image_env_def)
  obtain t where t: "set_image_tag_and_fingerprint [sample_container_config] 7 (lit ''img-1'')
      (fingerprint_of sample_image_env sample_container_config) (ie_wall sample_image_env) = Inr t"
    using set by blast
  obtain st' where run: "spawn_image sample_image_env (lit ''s'') 7 sample_image_state = (Inr (lit ''img-1''), st')"
    and clean: "im_backoff st' 7 = None"
    using get fp fresh [symmetric] t build
    by (simp add: spawn_image_def reading_def resolve_image_def in_cooldown_def with_result_def rebuild_image_def
        rebuild_spec_clean note_rebuild_def record_rebuild_success_def modify_def and_then_def ret_def
        sample_image_state_def)
  have "built_for st' (lit ''img-1'') sample_container_config"
    using session_image_matches_config [OF ok cur get run] clean by simp
  with run show ?thesis by blast
qed

end
