(* ===== verification/Users.thy ===== *)
theory Users
  imports Central_Tables
begin

text \<open>
  The trust tables of the central database: known users (\<open>copperclaw-db/src/tables/users.rs\<close>), their roles
  (\<open>user_roles.rs\<close>) and the pairing codes of unknown senders (\<open>dm_pairing_codes.rs\<close>), with the handler that
  approves a code (\<open>copperclaw-host/src/handlers/pairing.rs\<close>). The name-based UUID of a user id is the
  argument \<open>uuid5\<close>, on the text whose bytes are hashed. Of an \<open>ErrorPayload\<close> the stable code is kept; its
  message is free text that no caller reads.
\<close>

section \<open>users\<close>

record User =
  u_id :: UserId
  u_kind :: ustring
  u_display_name :: "ustring option"
  u_created_at :: instant

record UpsertUser =
  uq_kind :: ustring
  uq_identity :: ustring
  uq_display_name :: "ustring option"

definition user_key :: "ustring \<Rightarrow> ustring \<Rightarrow> ustring" where
  "user_key kind identity = kind @ 58 # identity"

definition derive_user_id :: "(ustring \<Rightarrow> UserId) \<Rightarrow> ustring \<Rightarrow> ustring \<Rightarrow> UserId" where
  "derive_user_id uuid5 kind identity = uuid5 (user_key kind identity)"

definition list_users :: "User list \<Rightarrow> User list" where
  "list_users t = order_by u_created_at t"

definition get_user :: "User list \<Rightarrow> UserId \<Rightarrow> DbError + User" where
  "get_user t i = (case find (\<lambda>u. u_id u = i) t of Some u \<Rightarrow> Inr u | None \<Rightarrow> Inl NotFound)"

definition get_by_identity :: "(ustring \<Rightarrow> UserId) \<Rightarrow> User list \<Rightarrow> ustring \<Rightarrow> ustring \<Rightarrow> User option" where
  "get_by_identity uuid5 t kind identity = find (\<lambda>u. u_id u = derive_user_id uuid5 kind identity) t"

definition upsert_user ::
  "(ustring \<Rightarrow> UserId) \<Rightarrow> User list \<Rightarrow> UpsertUser \<Rightarrow> instant \<Rightarrow> DbError + (User \<times> User list)" where
  "upsert_user uuid5 t q now =
     (let i = derive_user_id uuid5 (uq_kind q) (uq_identity q);
          t' = (if i \<in> u_id ` set t
                then map (\<lambda>u. if u_id u = i
                              then u\<lparr>u_display_name := coalesce (uq_display_name q) (u_display_name u)\<rparr> else u) t
                else t @ [\<lparr>u_id = i, u_kind = uq_kind q, u_display_name = uq_display_name q, u_created_at = now\<rparr>])
      in case get_user t' i of Inl e \<Rightarrow> Inl e | Inr u \<Rightarrow> Inr (u, t'))"

section \<open>user_roles\<close>

datatype Role = Owner | Admin

fun user_role_as_str :: "Role \<Rightarrow> ustring" where
  "user_role_as_str Owner = lit ''owner''"
| "user_role_as_str Admin = lit ''admin''"

definition user_role_parse :: "ustring \<Rightarrow> Role option" where
  "user_role_parse s =
     (if s = lit ''owner'' then Some Owner else if s = lit ''admin'' then Some Admin else None)"

interpretation user_role: wire_enum user_role_as_str user_role_parse
proof
  show "user_role_parse (user_role_as_str e) = Some e" for e
    by (cases e) (simp_all add: user_role_parse_def)
  show "user_role_as_str e = s" if "user_role_parse s = Some e" for s e
    using that by (auto simp: user_role_parse_def split: if_splits)
qed

record UserRole =
  r_user_id :: UserId
  r_role :: Role
  r_agent_group_id :: "AgentGroupId option"
  r_granted_by :: "UserId option"
  r_granted_at :: instant

definition list_for_user :: "UserRole list \<Rightarrow> UserId \<Rightarrow> UserRole list" where
  "list_for_user t u = order_by r_granted_at (filter (\<lambda>r. r_user_id r = u) t)"

definition list_for_scope :: "UserRole list \<Rightarrow> AgentGroupId option \<Rightarrow> Role \<Rightarrow> UserRole list" where
  "list_for_scope t ag role = order_by r_granted_at (filter (\<lambda>r. r_agent_group_id r = ag \<and> r_role r = role) t)"

text \<open>
  \<open>grant\<close>: the user, the granting user and the scope must exist. The primary key includes the scope, and
  SQLite does not compare absent values, so only a scoped role is refused the second time.
\<close>

definition grant_role ::
  "UserId list \<Rightarrow> AgentGroupId list \<Rightarrow> UserRole list \<Rightarrow> UserId \<Rightarrow> Role \<Rightarrow> AgentGroupId option \<Rightarrow> UserId option \<Rightarrow>
     instant \<Rightarrow> DbError + (UserRole \<times> UserRole list)" where
  "grant_role users groups t user role ag by now =
     (let r = \<lparr>r_user_id = user, r_role = role, r_agent_group_id = ag, r_granted_by = by, r_granted_at = now\<rparr>
      in if user \<notin> set users \<or> (\<exists>g \<in> set_option ag. g \<notin> set groups) \<or> (\<exists>b \<in> set_option by. b \<notin> set users)
         then Inl ConstraintViolation
         else if ag \<noteq> None \<and> list_ex (\<lambda>s. r_user_id s = user \<and> r_role s = role \<and> r_agent_group_id s = ag) t
         then Inl ConstraintViolation
         else Inr (r, t @ [r]))"

definition revoke_role :: "UserRole list \<Rightarrow> UserId \<Rightarrow> Role \<Rightarrow> AgentGroupId option \<Rightarrow> DbError + UserRole list" where
  "revoke_role t user role ag =
     (let (n, t') = sql_delete (\<lambda>r. r_user_id r = user \<and> r_role r = role \<and> r_agent_group_id r = ag) t
      in if n = 0 then Inl NotFound else Inr t')"

section \<open>dm_pairing_codes\<close>

definition CODE_LEN :: nat where "CODE_LEN = 8"
definition PAIRING_CODE_TTL :: duration where "PAIRING_CODE_TTL = 3600000"
definition MAX_ACTIVE_CODES_PER_CHANNEL :: nat where "MAX_ACTIVE_CODES_PER_CHANNEL = 3"
definition CODE_ALPHABET :: ustring where "CODE_ALPHABET = lit ''ABCDEFGHJKLMNPQRSTUVWXYZ23456789''"

datatype PairingStatus = CodeActive | CodeConsumed | CodeExpired

fun pairing_status_as_str :: "PairingStatus \<Rightarrow> ustring" where
  "pairing_status_as_str CodeActive = lit ''active''"
| "pairing_status_as_str CodeConsumed = lit ''consumed''"
| "pairing_status_as_str CodeExpired = lit ''expired''"

definition pairing_status_parse :: "ustring \<Rightarrow> PairingStatus option" where
  "pairing_status_parse s =
     (if s = lit ''active'' then Some CodeActive
      else if s = lit ''consumed'' then Some CodeConsumed
      else if s = lit ''expired'' then Some CodeExpired
      else None)"

interpretation pairing_status: wire_enum pairing_status_as_str pairing_status_parse
proof
  show "pairing_status_parse (pairing_status_as_str e) = Some e" for e
    by (cases e) (simp_all add: pairing_status_parse_def)
  show "pairing_status_as_str e = s" if "pairing_status_parse s = Some e" for s e
    using that by (auto simp: pairing_status_parse_def split: if_splits)
qed

record PairingCode =
  pc_code :: ustring
  pc_channel_type :: ChannelType
  pc_identity :: ustring
  pc_display_name :: "ustring option"
  pc_agent_group_id :: "AgentGroupId option"
  pc_messaging_group_id :: "MessagingGroupId option"
  pc_status :: PairingStatus
  pc_created_at :: instant
  pc_expires_at :: instant
  pc_consumed_at :: "instant option"

definition is_expired_at :: "PairingCode \<Rightarrow> instant \<Rightarrow> bool" where
  "is_expired_at c now \<longleftrightarrow> pc_expires_at c \<le> now"

definition is_pairable_at :: "PairingCode \<Rightarrow> instant \<Rightarrow> bool" where
  "is_pairable_at c now \<longleftrightarrow> pc_status c = CodeActive \<and> \<not> is_expired_at c now"

record MintPairingCode =
  mq_channel_type :: ChannelType
  mq_identity :: ustring
  mq_display_name :: "ustring option"
  mq_agent_group_id :: "AgentGroupId option"
  mq_messaging_group_id :: "MessagingGroupId option"

datatype MintError = RateLimited ChannelType nat | MintDb DbError

text \<open>\<open>random_code\<close>: the draws of \<open>gen_range\<close> are the argument.\<close>

definition random_code :: "(nat \<Rightarrow> nat) \<Rightarrow> ustring" where
  "random_code draw = map (\<lambda>i. CODE_ALPHABET ! draw i) [0..<CODE_LEN]"

definition active_count :: "PairingCode list \<Rightarrow> ChannelType \<Rightarrow> instant \<Rightarrow> nat" where
  "active_count t ch now =
     length (filter (\<lambda>c. pc_channel_type c = ch \<and> pc_status c = CodeActive \<and> pc_expires_at c > now) t)"

definition sweep_expired_codes :: "PairingCode list \<Rightarrow> instant \<Rightarrow> ustring list \<times> PairingCode list" where
  "sweep_expired_codes t now =
     (map pc_code (filter (\<lambda>c. pc_status c = CodeActive \<and> pc_expires_at c \<le> now) t),
      map (\<lambda>c. if pc_status c = CodeActive \<and> pc_expires_at c \<le> now then c\<lparr>pc_status := CodeExpired\<rparr> else c) t)"

definition minted :: "MintPairingCode \<Rightarrow> ustring \<Rightarrow> instant \<Rightarrow> PairingCode" where
  "minted q code now =
     \<lparr>pc_code = code, pc_channel_type = mq_channel_type q, pc_identity = mq_identity q,
      pc_display_name = mq_display_name q, pc_agent_group_id = mq_agent_group_id q,
      pc_messaging_group_id = mq_messaging_group_id q, pc_status = CodeActive, pc_created_at = now,
      pc_expires_at = now + PAIRING_CODE_TTL, pc_consumed_at = None\<rparr>"

text \<open>The eight attempts: \<open>draws k\<close> are the random numbers of the \<open>k\<close>-th one.\<close>

fun mint_attempts ::
  "nat \<Rightarrow> (nat \<Rightarrow> nat \<Rightarrow> nat) \<Rightarrow> PairingCode list \<Rightarrow> MintPairingCode \<Rightarrow> instant \<Rightarrow>
     MintError + (PairingCode \<times> PairingCode list)" where
  "mint_attempts 0 draws t q now =
     Inl (MintDb (Invariant (lit ''could not mint a unique pairing code after 8 attempts'')))"
| "mint_attempts (Suc n) draws t q now =
     (let code = random_code (draws n)
      in if code \<in> pc_code ` set t then mint_attempts n draws t q now
         else Inr (minted q code now, t @ [minted q code now]))"

definition mint_code ::
  "(nat \<Rightarrow> nat \<Rightarrow> nat) \<Rightarrow> MintPairingCode \<Rightarrow> instant \<Rightarrow> (PairingCode list, MintError, PairingCode) stateful" where
  "mint_code draws q now =
     (\<lambda>t. let t1 = snd (sweep_expired_codes t now);
              n = active_count t1 (mq_channel_type q) now
          in if n \<ge> MAX_ACTIVE_CODES_PER_CHANNEL then (Inl (RateLimited (mq_channel_type q) n), t1)
             else case mint_attempts 8 draws t1 q now of
                    Inl e \<Rightarrow> (Inl e, t1)
                  | Inr (c, t2) \<Rightarrow> (Inr c, t2))"

definition get_code :: "PairingCode list \<Rightarrow> ustring \<Rightarrow> PairingCode option" where
  "get_code t code = find (\<lambda>c. pc_code c = code) t"

definition list_codes :: "PairingCode list \<Rightarrow> PairingStatus option \<Rightarrow> PairingCode list" where
  "list_codes t st =
     order_by_desc pc_created_at (case st of Some s \<Rightarrow> filter (\<lambda>c. pc_status c = s) t | None \<Rightarrow> t)"

definition get_active_code :: "ustring \<Rightarrow> instant \<Rightarrow> PairingCode list \<Rightarrow> PairingCode option \<times> PairingCode list" where
  "get_active_code code now t =
     (let t1 = snd (sweep_expired_codes t now)
      in (case get_code t1 code of
            Some c \<Rightarrow> if is_pairable_at c now then Some c else None
          | None \<Rightarrow> None, t1))"

definition consume_code :: "ustring \<Rightarrow> instant \<Rightarrow> PairingCode list \<Rightarrow> DbError + (PairingCode \<times> PairingCode list)" where
  "consume_code code now t =
     (let (n, t') = sql_update (\<lambda>c. pc_code c = code \<and> pc_status c = CodeActive)
        (\<lambda>c. c\<lparr>pc_status := CodeConsumed, pc_consumed_at := Some now\<rparr>) t
      in if n = 0
         then (case get_code t code of None \<Rightarrow> Inl NotFound | Some _ \<Rightarrow> Inl (Invariant (lit ''pairing code is not active'')))
         else (case get_code t' code of Some c \<Rightarrow> Inr (c, t') | None \<Rightarrow> Inl NotFound))"

section \<open>The pairing handler\<close>

record ErrorPayload =
  ep_code :: ustring

definition db_err :: "DbError \<Rightarrow> ErrorPayload" where
  "db_err e =
     (case e of NotFound \<Rightarrow> \<lparr>ep_code = lit ''not_found''\<rparr> | _ \<Rightarrow> \<lparr>ep_code = lit ''db_error''\<rparr>)"

record PairingDb =
  pd_users :: "User list"
  pd_codes :: "PairingCode list"

type_synonym 'a pairing = "(PairingDb, ErrorPayload, 'a) stateful"

definition promote_sender :: "(ustring \<Rightarrow> UserId) \<Rightarrow> PairingCode \<Rightarrow> instant \<Rightarrow> User pairing" where
  "promote_sender uuid5 c now =
     (\<lambda>d. case upsert_user uuid5 (pd_users d)
             \<lparr>uq_kind = pc_channel_type c, uq_identity = pc_identity c, uq_display_name = pc_display_name c\<rparr> now of
            Inl e \<Rightarrow> (Inl (db_err e), d)
          | Inr (u, t) \<Rightarrow> (Inr u, d\<lparr>pd_users := t\<rparr>))"

definition consume_or_conflict :: "ustring \<Rightarrow> instant \<Rightarrow> PairingCode pairing" where
  "consume_or_conflict code now =
     (\<lambda>d. case consume_code code now (pd_codes d) of
            Inr (c, t) \<Rightarrow> (Inr c, d\<lparr>pd_codes := t\<rparr>)
          | Inl (Invariant _) \<Rightarrow>
              (Inl \<lparr>ep_code = lit ''conflict''\<rparr>, d)
          | Inl e \<Rightarrow> (Inl (db_err e), d))"

definition lookup_active :: "ustring \<Rightarrow> instant \<Rightarrow> PairingCode pairing" where
  "lookup_active code now =
     (\<lambda>d. let (r, t) = get_active_code code now (pd_codes d); d' = d\<lparr>pd_codes := t\<rparr>
          in case r of
               Some c \<Rightarrow> (Inr c, d')
             | None \<Rightarrow>
                 (Inl (case get_code t code of
                         None \<Rightarrow> \<lparr>ep_code = lit ''not_found''\<rparr>
                       | Some _ \<Rightarrow> \<lparr>ep_code = lit ''conflict''\<rparr>), d'))"

definition pairing_approve :: "(ustring \<Rightarrow> UserId) \<Rightarrow> ustring \<Rightarrow> instant \<Rightarrow> (UserId \<times> PairingCode) pairing" where
  "pairing_approve uuid5 code now =
     and_then (lookup_active code now) (\<lambda>c.
     and_then (promote_sender uuid5 c now) (\<lambda>u.
     and_then (consume_or_conflict code now) (\<lambda>_.
     ret (u_id u, c))))"

definition pairing_list :: "bool \<Rightarrow> instant \<Rightarrow> PairingCode list pairing" where
  "pairing_list all now =
     (\<lambda>d. let t = snd (sweep_expired_codes (pd_codes d) now)
          in (Inr (list_codes t (if all then None else Some CodeActive)), d\<lparr>pd_codes := t\<rparr>))"

end
