(* ===== verification/Pairing_Facts.thy ===== *)
theory Pairing_Facts
  imports Users
begin

text \<open>
  What the pairing of unknown senders guarantees, for any sequence of mints, approvals and listings under a
  clock that does not run backwards: few live codes per channel, one use per code, and no trusted sender
  without an approved code.
\<close>

section \<open>Sequences of operations\<close>

datatype PairingOp =
    Mint "nat \<Rightarrow> nat \<Rightarrow> nat" MintPairingCode
  | Approve ustring
  | ListCodes bool

fun pairing_op :: "(ustring \<Rightarrow> UserId) \<Rightarrow> PairingOp \<Rightarrow> instant \<Rightarrow> PairingDb \<Rightarrow> PairingDb" where
  "pairing_op uuid5 (Mint draws q) now d = d\<lparr>pd_codes := snd (mint_code draws q now (pd_codes d))\<rparr>"
| "pairing_op uuid5 (Approve code) now d = snd (pairing_approve uuid5 code now d)"
| "pairing_op uuid5 (ListCodes all) now d = snd (pairing_list all now d)"

inductive pairing_steps :: "(ustring \<Rightarrow> UserId) \<Rightarrow> PairingDb \<Rightarrow> instant \<Rightarrow> PairingDb \<Rightarrow> instant \<Rightarrow> bool"
  for uuid5 where
  refl: "pairing_steps uuid5 d t d t"
| step: "pairing_steps uuid5 d t d1 t1 \<Longrightarrow> t1 \<le> now \<Longrightarrow> pairing_steps uuid5 d t (pairing_op uuid5 p now d1) now"

section \<open>The invariant\<close>

definition derived_id :: "(ustring \<Rightarrow> UserId) \<Rightarrow> PairingCode \<Rightarrow> UserId" where
  "derived_id uuid5 c = derive_user_id uuid5 (pc_channel_type c) (pc_identity c)"

definition trusted_ids :: "PairingDb \<Rightarrow> UserId set" where
  "trusted_ids d = u_id ` set (pd_users d)"

definition consumed_ids :: "(ustring \<Rightarrow> UserId) \<Rightarrow> PairingDb \<Rightarrow> UserId set" where
  "consumed_ids uuid5 d = derived_id uuid5 ` {c \<in> set (pd_codes d). pc_status c = CodeConsumed}"

definition pairing_inv :: "(ustring \<Rightarrow> UserId) \<Rightarrow> UserId set \<Rightarrow> PairingDb \<Rightarrow> instant \<Rightarrow> bool" where
  "pairing_inv uuid5 known d now \<longleftrightarrow>
     distinct (map pc_code (pd_codes d)) \<and>
     (\<forall>ch. active_count (pd_codes d) ch now \<le> MAX_ACTIVE_CODES_PER_CHANNEL) \<and>
     trusted_ids d = known \<union> consumed_ids uuid5 d"

text \<open>A later row of a table: the same code and sender, and a settled status stays.\<close>

definition code_evolves :: "PairingCode \<Rightarrow> PairingCode \<Rightarrow> bool" where
  "code_evolves c d \<longleftrightarrow>
     pc_code d = pc_code c \<and> pc_channel_type d = pc_channel_type c \<and> pc_identity d = pc_identity c \<and>
     pc_expires_at d = pc_expires_at c \<and> (pc_status c \<noteq> CodeActive \<longrightarrow> d = c)"

lemma code_evolves_refl [simp]: "code_evolves c c"
  by (simp add: code_evolves_def)

lemma sweep_codes_rows:
  "snd (sweep_expired_codes t now) =
     map (\<lambda>c. if pc_status c = CodeActive \<and> pc_expires_at c \<le> now then c\<lparr>pc_status := CodeExpired\<rparr> else c) t"
  by (simp add: sweep_expired_codes_def)

lemma sweep_codes_keys [simp]: "map pc_code (snd (sweep_expired_codes t now)) = map pc_code t"
  by (simp add: sweep_codes_rows)

lemma sweep_codes_count [simp]: "active_count (snd (sweep_expired_codes t now)) ch now = active_count t ch now"
  by (induction t) (auto simp: sweep_codes_rows active_count_def)

lemma active_count_later: "now \<le> now' \<Longrightarrow> active_count t ch now' \<le> active_count t ch now"
  by (induction t) (auto simp: active_count_def)

lemma sweep_codes_consumed:
  "{c \<in> set (snd (sweep_expired_codes t now)). pc_status c = CodeConsumed} = {c \<in> set t. pc_status c = CodeConsumed}"
  by (auto simp: sweep_codes_rows split: if_splits)

lemma mint_attempts_Inr:
  "mint_attempts n draws t q now = Inr (c, t') \<Longrightarrow>
     \<exists>code. c = minted q code now \<and> t' = t @ [c] \<and> code \<notin> pc_code ` set t"
  by (induction n) (auto simp: Let_def split: if_splits)

lemma mint_code_cases:
  obtains "snd (mint_code draws q now t) = snd (sweep_expired_codes t now)"
  | code where "snd (mint_code draws q now t) = snd (sweep_expired_codes t now) @ [minted q code now]"
      "code \<notin> pc_code ` set t" "active_count t (mq_channel_type q) now < MAX_ACTIVE_CODES_PER_CHANNEL"
proof -
  have keys: "pc_code ` set (snd (sweep_expired_codes t now)) = pc_code ` set t"
    using sweep_codes_keys by (metis list.set_map)
  show thesis
    using that mint_attempts_Inr [of 8 draws "snd (sweep_expired_codes t now)" q now] keys
    by (fastforce simp: mint_code_def Let_def not_le split: if_splits sum.splits)
qed

lemma find_present:
  assumes "k \<in> key ` set t"
  shows "\<exists>x. find (\<lambda>x. key x = k) t = Some x \<and> key x = k"
proof -
  have "find (\<lambda>x. key x = k) t \<noteq> None"
    using assms by (auto simp: find_None_iff)
  then show ?thesis
    using find_Some_in by (metis (mono_tags, lifting) not_None_eq)
qed

lemma upsert_user_run:
  "\<exists>u t'. upsert_user uuid5 t q now = Inr (u, t') \<and> u_id u = derive_user_id uuid5 (uq_kind q) (uq_identity q) \<and>
     u_id ` set t' = insert (derive_user_id uuid5 (uq_kind q) (uq_identity q)) (u_id ` set t)"
proof -
  let ?i = "derive_user_id uuid5 (uq_kind q) (uq_identity q)"
  define t' where "t' = (if ?i \<in> u_id ` set t
      then map (\<lambda>u. if u_id u = ?i
                    then u\<lparr>u_display_name := coalesce (uq_display_name q) (u_display_name u)\<rparr> else u) t
      else t @ [\<lparr>u_id = ?i, u_kind = uq_kind q, u_display_name = uq_display_name q, u_created_at = now\<rparr>])"
  have ids: "u_id ` set t' = insert ?i (u_id ` set t)"
  proof (cases "?i \<in> u_id ` set t")
    case True
    then have "map u_id t' = map u_id t"
      by (simp add: t'_def)
    then have "u_id ` set t' = u_id ` set t"
      by (metis list.set_map)
    with True show ?thesis by (simp add: insert_absorb)
  qed (simp add: t'_def)
  then obtain u where "find (\<lambda>u. u_id u = ?i) t' = Some u" "u_id u = ?i"
    using find_present [of ?i u_id t'] by auto
  moreover from this have "upsert_user uuid5 t q now = Inr (u, t')"
    by (simp add: upsert_user_def get_user_def t'_def Let_def)
  ultimately show ?thesis using ids by blast
qed

definition codes_wf :: "PairingCode list \<Rightarrow> bool" where
  "codes_wf t \<longleftrightarrow> distinct (map pc_code t)"

interpretation codes: primary_key codes_wf pc_code
  by unfold_locales (simp add: codes_wf_def)

lemma codes_wf_sweep [simp]: "codes_wf (snd (sweep_expired_codes t now)) = codes_wf t"
  by (simp add: codes_wf_def)

lemma pairable_survives_sweep:
  "c \<in> set t \<Longrightarrow> is_pairable_at c now \<Longrightarrow> c \<in> set (snd (sweep_expired_codes t now))"
  by (auto simp: sweep_codes_rows is_pairable_at_def is_expired_at_def intro!: image_eqI [of _ _ c])

lemma pairable_before_sweep:
  "c \<in> set (snd (sweep_expired_codes t now)) \<Longrightarrow> is_pairable_at c now \<Longrightarrow> c \<in> set t"
  by (auto simp: sweep_codes_rows is_pairable_at_def split: if_splits)

lemma get_active_code_iff:
  assumes "codes_wf t"
  shows "fst (get_active_code code now t) = Some c \<longleftrightarrow> c \<in> set t \<and> pc_code c = code \<and> is_pairable_at c now"
proof
  assume "fst (get_active_code code now t) = Some c"
  then have "get_code (snd (sweep_expired_codes t now)) code = Some c" "is_pairable_at c now"
    by (auto simp: get_active_code_def Let_def split: option.splits if_splits)
  then show "c \<in> set t \<and> pc_code c = code \<and> is_pairable_at c now"
    using find_Some_in [of "\<lambda>c. pc_code c = code" "snd (sweep_expired_codes t now)" c]
      pairable_before_sweep [of c t now] by (simp add: get_code_def)
next
  assume c: "c \<in> set t \<and> pc_code c = code \<and> is_pairable_at c now"
  then have "get_code (snd (sweep_expired_codes t now)) code = Some c"
    using codes.find_key [of "snd (sweep_expired_codes t now)" c] assms pairable_survives_sweep
    by (auto simp: get_code_def)
  with c show "fst (get_active_code code now t) = Some c"
    by (simp add: get_active_code_def Let_def)
qed

lemma consume_code_run:
  assumes "codes_wf t" and "c \<in> set t" and "pc_status c = CodeActive"
  shows "\<exists>c'. consume_code (pc_code c) now t = Inr (c', map (\<lambda>r. if pc_code r = pc_code c
    then r\<lparr>pc_status := CodeConsumed, pc_consumed_at := Some now\<rparr> else r) t)"
proof -
  let ?f = "\<lambda>r. r\<lparr>pc_status := CodeConsumed, pc_consumed_at := Some now\<rparr>"
  have "pc_code r = pc_code c \<and> pc_status r = CodeActive \<longleftrightarrow> pc_code r = pc_code c" if "r \<in> set t" for r
    using assms that codes.key_inj by metis
  then have upd: "sql_update (\<lambda>r. pc_code r = pc_code c \<and> pc_status r = CodeActive) ?f t =
      (1, map (\<lambda>r. if pc_code r = pc_code c then ?f r else r) t)"
    using codes.update_one [OF assms(1,2), of ?f] by (simp add: sql_update_def cong: filter_cong map_cong)
  have "pc_code c \<in> pc_code ` set (map (\<lambda>r. if pc_code r = pc_code c then ?f r else r) t)"
  proof -
    have "map pc_code (map (\<lambda>r. if pc_code r = pc_code c then ?f r else r) t) = map pc_code t"
      by simp
    then have "pc_code ` set (map (\<lambda>r. if pc_code r = pc_code c then ?f r else r) t) = pc_code ` set t"
      by (metis list.set_map)
    with assms(2) show ?thesis by simp
  qed
  then obtain c' where "get_code (map (\<lambda>r. if pc_code r = pc_code c then ?f r else r) t) (pc_code c) = Some c'"
    using find_present [of "pc_code c" pc_code "map (\<lambda>r. if pc_code r = pc_code c then ?f r else r) t"]
    by (auto simp only: get_code_def)
  with upd show ?thesis
    by (simp add: consume_code_def)
qed

text \<open>An approval either changes nothing but lapsed codes, or trusts the sender of a live code and uses it up.\<close>

lemma pairing_approve_run:
  assumes wf: "codes_wf (pd_codes d)"
  obtains (refused) e where "pairing_approve uuid5 code now d =
      (Inl e, d\<lparr>pd_codes := snd (sweep_expired_codes (pd_codes d) now)\<rparr>)"
      "\<not> (\<exists>c \<in> set (pd_codes d). pc_code c = code \<and> is_pairable_at c now)"
      "e = (if code \<in> pc_code ` set (pd_codes d) then \<lparr>ep_code = lit ''conflict''\<rparr> else \<lparr>ep_code = lit ''not_found''\<rparr>)"
  | (paired) c us where "c \<in> set (pd_codes d)" "pc_code c = code" "is_pairable_at c now"
      "u_id ` set us = insert (derived_id uuid5 c) (u_id ` set (pd_users d))"
      "pairing_approve uuid5 code now d = (Inr (derived_id uuid5 c, c),
         \<lparr>pd_users = us, pd_codes = map (\<lambda>r. if pc_code r = code
            then r\<lparr>pc_status := CodeConsumed, pc_consumed_at := Some now\<rparr> else r)
            (snd (sweep_expired_codes (pd_codes d) now))\<rparr>)"
proof (cases "fst (get_active_code code now (pd_codes d))")
  case None
  let ?t = "snd (sweep_expired_codes (pd_codes d) now)"
  have "\<not> (\<exists>c \<in> set (pd_codes d). pc_code c = code \<and> is_pairable_at c now)"
    using get_active_code_iff [OF wf, of code now] None by auto
  moreover have "code \<in> pc_code ` set (pd_codes d) \<longleftrightarrow> get_code ?t code \<noteq> None"
  proof -
    have "code \<in> pc_code ` set (pd_codes d) \<longleftrightarrow> code \<in> pc_code ` set ?t"
      using sweep_codes_keys [of "pd_codes d" now] by (simp only: list.set_map [symmetric])
    also have "\<dots> \<longleftrightarrow> get_code ?t code \<noteq> None"
      by (auto simp: get_code_def find_None_iff)
    finally show ?thesis .
  qed
  then have "pairing_approve uuid5 code now d =
      (Inl (if code \<in> pc_code ` set (pd_codes d) then \<lparr>ep_code = lit ''conflict''\<rparr> else \<lparr>ep_code = lit ''not_found''\<rparr>),
       d\<lparr>pd_codes := ?t\<rparr>)"
    using None by (auto simp: pairing_approve_def and_then_def lookup_active_def get_active_code_def Let_def
        split: option.splits)
  ultimately show thesis using refused by blast
next
  case (Some c)
  then have c: "c \<in> set (pd_codes d)" "pc_code c = code" "is_pairable_at c now"
    using get_active_code_iff [OF wf] by blast+
  let ?t = "snd (sweep_expired_codes (pd_codes d) now)"
  let ?q = "\<lparr>uq_kind = pc_channel_type c, uq_identity = pc_identity c, uq_display_name = pc_display_name c\<rparr>"
  obtain u us where u: "upsert_user uuid5 (pd_users d) ?q now = Inr (u, us)" "u_id u = derived_id uuid5 c"
    "u_id ` set us = insert (derived_id uuid5 c) (u_id ` set (pd_users d))"
    using upsert_user_run [of uuid5 "pd_users d" ?q now] by (auto simp: derived_id_def)
  obtain c' where "consume_code code now ?t = Inr (c', map (\<lambda>r. if pc_code r = code
      then r\<lparr>pc_status := CodeConsumed, pc_consumed_at := Some now\<rparr> else r) ?t)"
    using consume_code_run [of ?t c now] wf c pairable_survives_sweep by (auto simp: is_pairable_at_def)
  with Some u(1,2) have "pairing_approve uuid5 code now d = (Inr (derived_id uuid5 c, c),
       \<lparr>pd_users = us, pd_codes = map (\<lambda>r. if pc_code r = code
          then r\<lparr>pc_status := CodeConsumed, pc_consumed_at := Some now\<rparr> else r) ?t\<rparr>)"
    by (simp add: pairing_approve_def and_then_def lookup_active_def get_active_code_def Let_def
        promote_sender_def consume_or_conflict_def ret_def)
  then show thesis using paired c u(3) by blast
qed

section \<open>What every sequence of operations keeps\<close>

definition still_settled :: "PairingDb \<Rightarrow> PairingDb \<Rightarrow> bool" where
  "still_settled d d' \<longleftrightarrow> (\<forall>c \<in> set (pd_codes d). pc_status c \<noteq> CodeActive \<longrightarrow> c \<in> set (pd_codes d'))"

lemma still_settled_sweep:
  "pc_status c \<noteq> CodeActive \<Longrightarrow> c \<in> set t \<Longrightarrow> c \<in> set (snd (sweep_expired_codes t now))"
  by (auto simp: sweep_codes_rows intro!: image_eqI [of _ _ c])

lemma active_count_append:
  "active_count (t @ [c]) ch now = active_count t ch now +
     (if pc_channel_type c = ch \<and> pc_status c = CodeActive \<and> pc_expires_at c > now then 1 else 0)"
  by (simp add: active_count_def)

lemma active_count_le:
  "(\<And>c. pc_channel_type (f c) = pc_channel_type c \<and> pc_expires_at (f c) = pc_expires_at c \<and>
      (pc_status (f c) = CodeActive \<longrightarrow> pc_status c = CodeActive)) \<Longrightarrow>
     active_count (map f t) ch now \<le> active_count t ch now"
  by (induction t) (auto simp: active_count_def)

lemma set_map_update_one:
  assumes "c \<in> set s" and "\<And>r. r \<in> set s \<Longrightarrow> P r \<longleftrightarrow> r = c"
  shows "set (map (\<lambda>r. if P r then f r else r) s) = insert (f c) (set s - {c})"
proof -
  have "map (\<lambda>r. if P r then f r else r) s = map (\<lambda>r. if r = c then f r else r) s"
    using assms(2) by simp
  then show ?thesis
    using assms(1) by auto
qed

lemma pairing_step_inv:
  assumes inv: "pairing_inv uuid5 known d t" and "t \<le> now"
  shows "pairing_inv uuid5 known (pairing_op uuid5 p now d) now \<and> still_settled d (pairing_op uuid5 p now d)"
proof -
  let ?s = "snd (sweep_expired_codes (pd_codes d) now)"
  have wf: "codes_wf (pd_codes d)"
    using inv by (simp add: pairing_inv_def codes_wf_def)
  have count: "active_count (pd_codes d) ch now \<le> MAX_ACTIVE_CODES_PER_CHANNEL" for ch
    using inv active_count_later [OF assms(2), of "pd_codes d" ch] by (auto simp: pairing_inv_def intro: order_trans)
  have swept: "pairing_inv uuid5 known (d\<lparr>pd_codes := ?s\<rparr>) now \<and> still_settled d (d\<lparr>pd_codes := ?s\<rparr>)"
    using inv count still_settled_sweep
    by (simp add: pairing_inv_def trusted_ids_def consumed_ids_def sweep_codes_consumed still_settled_def)
  show ?thesis
  proof (cases p)
    case (ListCodes all)
    then show ?thesis
      using swept by (simp add: pairing_list_def Let_def)
  next
    case (Mint draws q)
    show ?thesis
    proof (cases rule: mint_code_cases [of draws q now "pd_codes d"])
      case 1
      with swept Mint show ?thesis by simp
    next
      case (2 code)
      let ?d = "d\<lparr>pd_codes := ?s @ [minted q code now]\<rparr>"
      have op: "pairing_op uuid5 p now d = ?d"
        using Mint 2(1) by simp
      have "code \<notin> set (map pc_code ?s)"
        using 2(2) by (simp only: sweep_codes_keys list.set_map not_False_eq_True)
      then have "distinct (map pc_code (pd_codes ?d))"
        using wf by (simp add: codes_wf_def minted_def)
      moreover have "active_count (pd_codes ?d) ch now \<le> MAX_ACTIVE_CODES_PER_CHANNEL" for ch
        using 2(3) count [of ch] by (auto simp: active_count_append minted_def)
      moreover have "{c \<in> set (pd_codes ?d). pc_status c = CodeConsumed} =
          {c \<in> set ?s. pc_status c = CodeConsumed}"
        by (auto simp: minted_def)
      then have "consumed_ids uuid5 ?d = consumed_ids uuid5 d"
        by (simp only: consumed_ids_def sweep_codes_consumed)
      then have "trusted_ids ?d = known \<union> consumed_ids uuid5 ?d"
        using inv by (simp add: pairing_inv_def trusted_ids_def)
      moreover have "still_settled d ?d"
        using still_settled_sweep by (simp add: still_settled_def)
      ultimately show ?thesis
        unfolding op pairing_inv_def by blast
    qed
  next
    case (Approve code)
    show ?thesis
    proof (cases rule: pairing_approve_run [OF wf, of uuid5 code now])
      case (1 e)
      with swept Approve show ?thesis by simp
    next
      case (2 c us)
      note paired = 2
      let ?f = "\<lambda>r. if pc_code r = code then r\<lparr>pc_status := CodeConsumed, pc_consumed_at := Some now\<rparr> else r"
      have op: "pairing_op uuid5 p now d = \<lparr>pd_users = us, pd_codes = map ?f ?s\<rparr>"
        using paired(5) Approve by simp
      have only: "r = c" if "r \<in> set ?s" "pc_code r = code" for r
        using codes.key_inj [of ?s r c] wf that paired(2) pairable_survives_sweep [OF paired(1,3)] by simp
      have c: "c \<in> set ?s" "pc_status c = CodeActive"
        using pairable_survives_sweep [OF paired(1,3)] paired(3) by (simp_all add: is_pairable_at_def)
      have iff: "pc_code r = code \<longleftrightarrow> r = c" if "r \<in> set ?s" for r
        using only [OF that] paired(2) by blast
      have "set (map ?f ?s) = insert (c\<lparr>pc_status := CodeConsumed, pc_consumed_at := Some now\<rparr>) (set ?s - {c})"
        by (rule set_map_update_one [OF c(1) iff])
      then have rows: "set (map ?f ?s) = insert (?f c) (set ?s - {c})"
        by (simp only: paired(2) if_True simp_thms)
      have keys: "map pc_code (map ?f ?s) = map pc_code (pd_codes d)"
      proof -
        have "map pc_code (map ?f ?s) = map pc_code ?s"
          unfolding map_map by (rule map_cong) simp_all
        also have "\<dots> = map pc_code (pd_codes d)" by (rule sweep_codes_keys)
        finally show ?thesis .
      qed
      have "active_count (map ?f ?s) ch now \<le> MAX_ACTIVE_CODES_PER_CHANNEL" for ch
      proof -
        have "active_count (map ?f ?s) ch now \<le> active_count ?s ch now"
          by (rule active_count_le) simp
        then show ?thesis
          using count [of ch] by simp
      qed
      moreover have "consumed_ids uuid5 \<lparr>pd_users = us, pd_codes = map ?f ?s\<rparr> =
          insert (derived_id uuid5 c) (consumed_ids uuid5 d)"
      proof -
        have "{r \<in> set (map ?f ?s). pc_status r = CodeConsumed} =
            insert (?f c) {r \<in> set ?s. pc_status r = CodeConsumed}"
          unfolding rows using c(2) paired(2) by auto
        then show ?thesis
          using paired(2) by (simp add: consumed_ids_def sweep_codes_consumed derived_id_def)
      qed
      moreover have "still_settled d \<lparr>pd_users = us, pd_codes = map ?f ?s\<rparr>"
        using still_settled_sweep c(2) rows by (auto simp: still_settled_def)
      ultimately show ?thesis
        using inv keys paired(4) unfolding op
        by (auto simp: pairing_inv_def trusted_ids_def)
    qed
  qed
qed

lemma pairing_steps_inv:
  "pairing_steps uuid5 d t d' t' \<Longrightarrow> pairing_inv uuid5 known d t \<Longrightarrow>
     pairing_inv uuid5 known d' t' \<and> still_settled d d' \<and> t \<le> t'"
proof (induction rule: pairing_steps.induct)
  case (refl d t)
  then show ?case by (simp add: still_settled_def)
next
  case (step d t d1 t1 now p)
  then have "pairing_inv uuid5 known d1 t1" and set1: "still_settled d d1" and "t \<le> t1"
    by blast+
  with pairing_step_inv [of uuid5 known d1 t1 now p] step.hyps(2)
  have "pairing_inv uuid5 known (pairing_op uuid5 p now d1) now" and "still_settled d1 (pairing_op uuid5 p now d1)"
    by blast+
  with set1 \<open>t \<le> t1\<close> step.hyps(2) show ?case
    by (auto simp: still_settled_def)
qed

text \<open>
  Whatever sequence of mints, approvals and listings follows, starting from a host that knows the users
  \<open>known\<close> and has no codes: a channel never holds more than three live codes, and the users the host trusts are
  exactly the ones it knew and the senders of the codes an operator approved.
\<close>

theorem pairing_trusts_only_approved:
  assumes "pairing_steps uuid5 \<lparr>pd_users = us, pd_codes = []\<rparr> start d now"
  shows "trusted_ids d = u_id ` set us \<union> consumed_ids uuid5 d \<and>
    (\<forall>ch later. now \<le> later \<longrightarrow> active_count (pd_codes d) ch later \<le> MAX_ACTIVE_CODES_PER_CHANNEL)"
proof -
  have "pairing_inv uuid5 (u_id ` set us) \<lparr>pd_users = us, pd_codes = []\<rparr> start"
    by (simp add: pairing_inv_def trusted_ids_def consumed_ids_def active_count_def)
  then have inv: "pairing_inv uuid5 (u_id ` set us) d now"
    using pairing_steps_inv [OF assms] by blast
  then have "active_count (pd_codes d) ch later \<le> MAX_ACTIVE_CODES_PER_CHANNEL" if "now \<le> later" for ch later
    using active_count_later [OF that] by (meson order_trans pairing_inv_def)
  with inv show ?thesis by (simp add: pairing_inv_def)
qed

text \<open>A code that paired a sender never pairs again, however much later it is tried.\<close>

theorem pairing_code_is_single_use:
  assumes "pairing_steps uuid5 \<lparr>pd_users = us, pd_codes = []\<rparr> start d now"
    and "pairing_approve uuid5 code now d = (Inr r, d1)"
    and "pairing_steps uuid5 d1 now d2 later"
  shows "fst (pairing_approve uuid5 code later d2) = Inl \<lparr>ep_code = lit ''conflict''\<rparr>"
proof -
  have "pairing_inv uuid5 (u_id ` set us) \<lparr>pd_users = us, pd_codes = []\<rparr> start"
    by (simp add: pairing_inv_def trusted_ids_def consumed_ids_def active_count_def)
  then have inv: "pairing_inv uuid5 (u_id ` set us) d now"
    using pairing_steps_inv [OF assms(1)] by blast
  then have wf: "codes_wf (pd_codes d)"
    by (simp add: pairing_inv_def codes_wf_def)
  have inv1: "pairing_inv uuid5 (u_id ` set us) d1 now"
    using pairing_step_inv [OF inv order_refl, of "Approve code"] assms(2) by simp
  obtain u where u: "u \<in> set (pd_codes d1)" "pc_code u = code" "pc_status u = CodeConsumed"
  proof (cases rule: pairing_approve_run [OF wf, of uuid5 code now])
    case (2 c us)
    let ?u = "c\<lparr>pc_status := CodeConsumed, pc_consumed_at := Some now\<rparr>"
    have "?u \<in> set (pd_codes d1)"
      using 2 assms(2) pairable_survives_sweep [OF 2(1,3)] by (auto intro!: image_eqI [of _ _ c])
    then show thesis
      using that [of ?u] 2(2) by simp
  qed (use assms(2) in simp)
  have inv2: "pairing_inv uuid5 (u_id ` set us) d2 later" and "u \<in> set (pd_codes d2)"
    using pairing_steps_inv [OF assms(3) inv1] u by (auto simp: still_settled_def)
  then have wf2: "codes_wf (pd_codes d2)" and u2: "u \<in> set (pd_codes d2)"
    by (simp_all add: pairing_inv_def codes_wf_def)
  show ?thesis
  proof (cases rule: pairing_approve_run [OF wf2, of uuid5 code later])
    case (1 e)
    then show ?thesis using u2 u(2) by auto
  next
    case (2 c us)
    then have "c = u"
      using codes.key_inj [OF wf2 2(1) u2] u(2) by simp
    with 2(3) u(3) show ?thesis by (simp add: is_pairable_at_def)
  qed
qed

text \<open>A sender of one channel asks for a code and the operator approves it.\<close>

definition sample_mint :: MintPairingCode where
  "sample_mint =
     \<lparr>mq_channel_type = lit ''telegram'', mq_identity = lit ''u1'', mq_display_name = None,
      mq_agent_group_id = None, mq_messaging_group_id = None\<rparr>"

definition no_codes :: PairingDb where
  "no_codes = \<lparr>pd_users = [], pd_codes = []\<rparr>"

definition one_code :: PairingDb where
  "one_code = pairing_op length (Mint (\<lambda>_ _. 0) sample_mint) 0 no_codes"

definition one_user :: PairingDb where
  "one_user = pairing_op length (Approve (lit ''AAAAAAAA'')) 5 one_code"

lemma sample_draw: "random_code (\<lambda>_. 0) = lit ''AAAAAAAA''"
  by code_simp

lemma sample_attempts:
  "mint_attempts 8 (\<lambda>_ _. 0) [] sample_mint 0 =
     Inr (minted sample_mint (lit ''AAAAAAAA'') 0, [minted sample_mint (lit ''AAAAAAAA'') 0])"
  using mint_attempts.simps(2) [of 7 "\<lambda>_ _. 0" "[]" sample_mint 0] by (simp add: sample_draw Let_def)

lemma sample_code: "pd_codes one_code = [minted sample_mint (lit ''AAAAAAAA'') 0]"
  by (simp add: one_code_def no_codes_def mint_code_def sweep_expired_codes_def active_count_def
      MAX_ACTIVE_CODES_PER_CHANNEL_def sample_attempts)

lemma sample_approval:
  "pairing_approve length (lit ''AAAAAAAA'') 5 one_code = (Inr (11, minted sample_mint (lit ''AAAAAAAA'') 0), one_user)"
proof -
  have "pd_users one_code = []"
    by (simp add: one_code_def no_codes_def)
  then have "fst (pairing_approve length (lit ''AAAAAAAA'') 5 one_code) =
      Inr (11, minted sample_mint (lit ''AAAAAAAA'') 0)"
    using sample_code
    by (simp add: pairing_approve_def and_then_def lookup_active_def get_active_code_def sweep_expired_codes_def
        minted_def sample_mint_def PAIRING_CODE_TTL_def get_code_def is_pairable_at_def is_expired_at_def
        promote_sender_def upsert_user_def derive_user_id_def user_key_def get_user_def consume_or_conflict_def
        consume_code_def sql_update_def ret_def lit_def Let_def)
  then show ?thesis
    by (simp add: one_user_def prod_eq_iff)
qed

lemma sample_steps:
  "pairing_steps length no_codes 0 one_code 0" "pairing_steps length no_codes 0 one_user 5"
  "pairing_steps length one_user 5 one_user 5"
proof -
  show first: "pairing_steps length no_codes 0 one_code 0"
    unfolding one_code_def by (intro pairing_steps.step [OF pairing_steps.refl]) simp
  show "pairing_steps length no_codes 0 one_user 5"
    unfolding one_user_def by (intro pairing_steps.step [OF first]) simp
  show "pairing_steps length one_user 5 one_user 5"
    by (rule pairing_steps.refl)
qed

theorem pairing_trusts_only_approved_witness:
  "trusted_ids one_user = {11} \<and> active_count (pd_codes one_user) (lit ''telegram'') 5 \<le> 3"
proof -
  have codes: "pd_codes one_user =
      [(minted sample_mint (lit ''AAAAAAAA'') 0)\<lparr>pc_status := CodeConsumed, pc_consumed_at := Some 5\<rparr>]"
    using sample_code
    by (simp add: one_user_def pairing_approve_def and_then_def lookup_active_def get_active_code_def
        sweep_expired_codes_def minted_def sample_mint_def PAIRING_CODE_TTL_def get_code_def is_pairable_at_def
        is_expired_at_def promote_sender_def upsert_user_def derive_user_id_def user_key_def get_user_def
        consume_or_conflict_def consume_code_def sql_update_def ret_def lit_def Let_def one_code_def no_codes_def)
  have "trusted_ids one_user = u_id ` set [] \<union> consumed_ids length one_user"
    "active_count (pd_codes one_user) (lit ''telegram'') 5 \<le> MAX_ACTIVE_CODES_PER_CHANNEL"
    using pairing_trusts_only_approved [of length "[]" 0 one_user 5] sample_steps(2)
    unfolding no_codes_def by auto
  then show ?thesis
    by (simp add: consumed_ids_def codes derived_id_def derive_user_id_def user_key_def minted_def
        sample_mint_def MAX_ACTIVE_CODES_PER_CHANNEL_def lit_def Collect_conv_if)
qed

theorem pairing_code_is_single_use_witness:
  "fst (pairing_approve length (lit ''AAAAAAAA'') 5 one_user) = Inl \<lparr>ep_code = lit ''conflict''\<rparr>"
proof -
  have first: "pairing_steps length no_codes 0 one_code 5"
  proof -
    have "snd (sweep_expired_codes (pd_codes one_code) 5) = pd_codes one_code"
      by (simp add: sweep_expired_codes_def sample_code minted_def PAIRING_CODE_TTL_def)
    then have "pairing_op length (ListCodes True) 5 one_code = one_code"
      by (simp add: pairing_list_def)
    then show ?thesis
      using pairing_steps.step [OF sample_steps(1), of 5 "ListCodes True"] by simp
  qed
  then show ?thesis
    using pairing_code_is_single_use [of length "[]" 0 one_code 5 "lit ''AAAAAAAA''"] sample_approval sample_steps(3)
    unfolding no_codes_def by blast
qed

text \<open>
  Two concurrent approvals: the user is stored before the code is used up, so an approval that loses the race
  reports a conflict and leaves the user stored all the same.
\<close>

lemma late_conflict_keeps_the_user:
  assumes "pc_status r \<noteq> CodeActive" and "codes_wf (pd_codes d)" and "r \<in> set (pd_codes d)"
    and "derived_id uuid5 c \<notin> trusted_ids d"
  shows "\<exists>d'. and_then (promote_sender uuid5 c now) (\<lambda>_. consume_or_conflict (pc_code r) now) d =
      (Inl \<lparr>ep_code = lit ''conflict''\<rparr>, d') \<and> derived_id uuid5 c \<in> trusted_ids d'"
proof -
  let ?q = "\<lparr>uq_kind = pc_channel_type c, uq_identity = pc_identity c, uq_display_name = pc_display_name c\<rparr>"
  obtain u us where u: "upsert_user uuid5 (pd_users d) ?q now = Inr (u, us)"
    "u_id ` set us = insert (derived_id uuid5 c) (u_id ` set (pd_users d))"
    using upsert_user_run [of uuid5 "pd_users d" ?q now] by (auto simp: derived_id_def)
  have "\<not> (\<exists>s \<in> set (pd_codes d). pc_code s = pc_code r \<and> pc_status s = CodeActive)"
    using assms(1-3) codes.key_inj by metis
  then have "filter (\<lambda>s. pc_code s = pc_code r \<and> pc_status s = CodeActive) (pd_codes d) = []"
    by (auto simp: filter_empty_conv)
  moreover have "get_code (pd_codes d) (pc_code r) = Some r"
    using codes.find_key [OF assms(2,3)] by (simp add: get_code_def)
  ultimately have "consume_code (pc_code r) now (pd_codes d) = Inl (Invariant (lit ''pairing code is not active''))"
    by (simp add: consume_code_def sql_update_def)
  with u show ?thesis
    by (simp add: and_then_def promote_sender_def consume_or_conflict_def trusted_ids_def)
qed

text \<open>The key of a user id does not separate channel and identity: two different senders share one id.\<close>

lemma user_ids_collide:
  "derive_user_id uuid5 (lit ''a:b'') (lit ''c'') = derive_user_id uuid5 (lit ''a'') (lit ''b:c'')"
  by (simp add: derive_user_id_def user_key_def lit_def)

end
