(* ===== verification/Skills.thy ===== *)
theory Skills
  imports Central_Tables "HOL-Library.List_Lexorder"
begin

text \<open>
  Skills: Markdown files with a YAML header, saved by an agent after an approval, discovered at the next
  spawn (\<open>copperclaw-skills/src\<close>: \<open>name.rs\<close>, \<open>frontmatter.rs\<close>, \<open>save.rs\<close>, \<open>registry.rs\<close>, \<open>tool_names.rs\<close>).
  The YAML reader, the file system's answers (a canonical path, whether an operation succeeds, the entries of
  a directory) and the full-text ranking are fields of \<open>SkillEnv\<close>; the state is the contents of the files. A
  slice that the code takes by byte offset at the start of a line is taken here by the lines before it. An
  operation on a file that fails leaves the file as it was; the ranking gives the names in its order.
\<close>

section \<open>Names\<close>

datatype SkillError =
    FrontmatterError ustring
  | MissingSkillMd ustring
  | SkillIo ustring
  | InvalidName
  | EscapedRoot ustring

definition MAX_NAME_LEN :: nat where "MAX_NAME_LEN = 64"

definition is_alnum_lower :: "uchar \<Rightarrow> bool" where
  "is_alnum_lower c \<longleftrightarrow> is_ascii_digit c \<or> (97 \<le> c \<and> c \<le> 122)"

definition validate_skill_name :: "ustring \<Rightarrow> SkillError + unit" where
  "validate_skill_name name =
     (if name = [] then Inl InvalidName
      else if byte_len name > MAX_NAME_LEN then Inl InvalidName
      else if \<not> is_alnum_lower (hd name) then Inl InvalidName
      else if list_all (\<lambda>c. is_alnum_lower c \<or> c = 45) (tl name) then Inr ()
      else Inl InvalidName)"

section \<open>Lines\<close>

text \<open>\<open>str::split_inclusive('\n')\<close> and \<open>trim_end_matches\<close> with the two line-end characters.\<close>

fun split_inclusive :: "ustring \<Rightarrow> ustring list" where
  "split_inclusive [] = []"
| "split_inclusive (c # s) =
     (if c = 10 then [c] # split_inclusive s
      else case split_inclusive s of [] \<Rightarrow> [[c]] | l # ls \<Rightarrow> (c # l) # ls)"

definition is_line_end :: "uchar \<Rightarrow> bool" where
  "is_line_end c \<longleftrightarrow> c = 10 \<or> c = 13"

definition trim_line_end :: "ustring \<Rightarrow> ustring" where
  "trim_line_end l = rev (dropWhile is_line_end (rev l))"

definition is_delimiter :: "ustring \<Rightarrow> bool" where
  "is_delimiter l \<longleftrightarrow> trim_line_end l = lit ''---''"

text \<open>\<open>find_closing_delimiter\<close>: the lines before the first delimiter line and those from it on.\<close>

definition find_closing_delimiter :: "ustring \<Rightarrow> (ustring list \<times> ustring list) option" where
  "find_closing_delimiter s =
     (let ls = split_inclusive s; before = takeWhile (\<lambda>l. \<not> is_delimiter l) ls; from = dropWhile (\<lambda>l. \<not> is_delimiter l) ls
      in if from = [] then None else Some (before, from))"

definition strip_bom :: "ustring \<Rightarrow> ustring" where
  "strip_bom s = (case strip_prefix s [65279] of Some r \<Rightarrow> r | None \<Rightarrow> s)"

definition opening_lf :: ustring where "opening_lf = lit ''---'' @ [10]"
definition opening_crlf :: ustring where "opening_crlf = lit ''---'' @ [13, 10]"

definition after_opening :: "ustring \<Rightarrow> ustring option" where
  "after_opening s = (case strip_prefix s opening_lf of Some r \<Rightarrow> Some r | None \<Rightarrow> strip_prefix s opening_crlf)"

section \<open>The header\<close>

record Frontmatter =
  fm_name :: ustring
  fm_description :: ustring
  fm_allowed_tools :: "ustring list option"
  fm_tools :: "ustring list option"
  fm_version :: "32 word option"

definition effective_version :: "Frontmatter \<Rightarrow> 32 word" where
  "effective_version fm = (case fm_version fm of Some v \<Rightarrow> v | None \<Rightarrow> 1)"

definition push_unseen :: "ustring list \<Rightarrow> ustring list \<Rightarrow> ustring list" where
  "push_unseen new out = fold (\<lambda>t acc. if t \<in> set acc then acc else acc @ [t]) new out"

definition or_empty :: "'a list option \<Rightarrow> 'a list" where
  "or_empty x = (case x of Some ys \<Rightarrow> ys | None \<Rightarrow> [])"

definition declared_tools :: "Frontmatter \<Rightarrow> ustring list option" where
  "declared_tools fm =
     (if fm_allowed_tools fm = None \<and> fm_tools fm = None then None
      else Some (push_unseen (or_empty (fm_tools fm)) (push_unseen (or_empty (fm_allowed_tools fm)) [])))"

record SkillEnv =
  se_yaml :: "ustring \<Rightarrow> ustring + Frontmatter"
  se_canonical :: "ustring \<Rightarrow> ustring option"
  se_mkdir_ok :: "ustring \<Rightarrow> bool"
  se_read_ok :: "ustring \<Rightarrow> bool"
  se_write_ok :: "ustring \<Rightarrow> bool"
  se_exists :: "ustring \<Rightarrow> bool"
  se_entries :: "ustring \<Rightarrow> (ustring \<times> bool) list option"
  se_rank :: "(ustring \<times> ustring) list \<Rightarrow> ustring \<Rightarrow> ustring list option"

text \<open>\<open>frontmatter::parse\<close>: the \<open>tools\<close> list is folded into the allowed tools before the two fields are checked.\<close>

definition fold_tools :: "Frontmatter \<Rightarrow> Frontmatter" where
  "fold_tools fm =
     (case fm_tools fm of
        None \<Rightarrow> fm
      | Some ts \<Rightarrow> fm\<lparr>fm_allowed_tools := Some (push_unseen ts (or_empty (fm_allowed_tools fm)))\<rparr>)"

definition parse_frontmatter :: "SkillEnv \<Rightarrow> ustring \<Rightarrow> SkillError + Frontmatter" where
  "parse_frontmatter env input =
     (case after_opening (strip_bom input) of
        None \<Rightarrow> Inl (FrontmatterError (lit ''missing opening `---` delimiter''))
      | Some rest \<Rightarrow>
         (case find_closing_delimiter rest of
            None \<Rightarrow> Inl (FrontmatterError (lit ''missing closing `---` delimiter''))
          | Some (header, _) \<Rightarrow>
             (case se_yaml env (concat header) of
                Inl e \<Rightarrow> Inl (FrontmatterError (lit ''invalid YAML: '' @ e))
              | Inr fm0 \<Rightarrow>
                 (let fm = fold_tools fm0
                  in if trim (fm_name fm) = [] then Inl (FrontmatterError (lit ''`name` is required''))
                     else if trim (fm_description fm) = [] then Inl (FrontmatterError (lit ''`description` is required''))
                     else Inr fm))))"

definition skip_frontmatter :: "ustring \<Rightarrow> ustring" where
  "skip_frontmatter input =
     (case after_opening (strip_bom input) of
        None \<Rightarrow> input
      | Some rest \<Rightarrow>
         (case find_closing_delimiter rest of
            None \<Rightarrow> input
          | Some (_, from) \<Rightarrow>
             (let after = concat from
              in dropWhile is_line_end (case after_opening after of Some r \<Rightarrow> r | None \<Rightarrow> after))))"

definition validate_skill_content :: "SkillEnv \<Rightarrow> ustring \<Rightarrow> ustring \<Rightarrow> SkillError + Frontmatter" where
  "validate_skill_content env name content =
     (case parse_frontmatter env content of
        Inl e \<Rightarrow> Inl e
      | Inr fm \<Rightarrow>
         (case validate_skill_name name of
            Inl e \<Rightarrow> Inl e
          | Inr _ \<Rightarrow> if fm_name fm \<noteq> name then Inl InvalidName else Inr fm))"

section \<open>Saving a skill\<close>

text \<open>
  \<open>set_frontmatter_version\<close>: a top-level version line is dropped, the new one goes before the closing
  delimiter, everything else stays.
\<close>

definition version_key :: ustring where "version_key = lit ''version:''"

definition version_line :: "32 word \<Rightarrow> ustring \<Rightarrow> ustring" where
  "version_line v nl = lit ''version: '' @ show_nat (unat v) @ nl"

definition set_frontmatter_version :: "ustring \<Rightarrow> 32 word \<Rightarrow> ustring" where
  "set_frontmatter_version content v =
     (let had_bom = starts_with content [65279];
          work = strip_bom content;
          crlf = starts_with work opening_crlf
      in if \<not> crlf \<and> \<not> starts_with work opening_lf then content
         else (let nl = (if crlf then [13, 10] else [10]); ls = split_inclusive work;
                   header = takeWhile (\<lambda>l. \<not> is_delimiter l) (tl ls); from = dropWhile (\<lambda>l. \<not> is_delimiter l) (tl ls)
               in if from = [] then content
                  else (if had_bom then [65279] else []) @ hd ls @
                    concat (filter (\<lambda>l. \<not> starts_with l version_key) header) @ version_line v nl @ concat from))"

text \<open>\<open>Path::join\<close> and \<open>Path::starts_with\<close>, the latter by components.\<close>

definition path_join :: "ustring \<Rightarrow> ustring \<Rightarrow> ustring" where
  "path_join a b =
     (if starts_with b [47] then b
      else if a = [] \<or> last a = 47 then a @ b else a @ 47 # b)"

definition path_components :: "ustring \<Rightarrow> ustring list" where
  "path_components p =
     (if starts_with p [47] then [[47]] else []) @ filter (\<lambda>c. c \<noteq> [] \<and> c \<noteq> [46]) (split_on (\<lambda>c. c = 47) p)"

definition path_starts_with :: "ustring \<Rightarrow> ustring \<Rightarrow> bool" where
  "path_starts_with p root = starts_with (path_components p) (path_components root)"

definition is_under_any :: "ustring \<Rightarrow> ustring list \<Rightarrow> bool" where
  "is_under_any p roots = list_ex (path_starts_with p) roots"

definition skill_md :: "ustring \<Rightarrow> ustring" where
  "skill_md dir = path_join dir (lit ''SKILL.md'')"

type_synonym skill_files = "ustring \<Rightarrow> ustring option"

definition escapes_roots :: "SkillEnv \<Rightarrow> ustring \<Rightarrow> ustring list \<Rightarrow> SkillError option" where
  "escapes_roots env dir roots =
     (if roots = [] then None
      else (let canonical_roots = map (\<lambda>r. case se_canonical env r of Some c \<Rightarrow> c | None \<Rightarrow> r) roots
            in case se_canonical env dir of
                 None \<Rightarrow> Some (SkillIo dir)
               | Some dest \<Rightarrow> if is_under_any dest canonical_roots then None else Some (EscapedRoot dest)))"

text \<open>
  The version to write: one more than the version on disk (an unreadable header counts as version 1), or the
  declared one on a first save.
\<close>

definition target_version :: "SkillEnv \<Rightarrow> Frontmatter \<Rightarrow> ustring \<Rightarrow> skill_files \<Rightarrow> SkillError + 32 word" where
  "target_version env fm path fs =
     (case fs path of
        None \<Rightarrow> Inr (effective_version fm)
      | Some existing \<Rightarrow>
          if \<not> se_read_ok env path then Inl (SkillIo path)
          else Inr (saturating_succ32
                 (case parse_frontmatter env existing of Inl _ \<Rightarrow> 1 | Inr f \<Rightarrow> effective_version f)))"

definition save_group_skill ::
  "SkillEnv \<Rightarrow> ustring \<Rightarrow> ustring list \<Rightarrow> ustring \<Rightarrow> ustring \<Rightarrow> (skill_files, SkillError, ustring) stateful" where
  "save_group_skill env dir roots name content =
     (\<lambda>fs. case validate_skill_content env name content of
        Inl e \<Rightarrow> (Inl e, fs)
      | Inr fm \<Rightarrow>
          if \<not> se_mkdir_ok env dir then (Inl (SkillIo dir), fs)
          else
            (case escapes_roots env dir roots of
               Some e \<Rightarrow> (Inl e, fs)
             | None \<Rightarrow>
                (let skill_dir = path_join dir name; path = skill_md skill_dir
                 in case target_version env fm path fs of
                      Inl e \<Rightarrow> (Inl e, fs)
                    | Inr v \<Rightarrow>
                        if \<not> se_mkdir_ok env skill_dir then (Inl (SkillIo skill_dir), fs)
                        else if \<not> se_write_ok env path then (Inl (SkillIo path), fs)
                        else (Inr skill_dir, fs(path \<mapsto> set_frontmatter_version content v)))))"

section \<open>Discovery\<close>

record SkillListing =
  sl_name :: ustring
  sl_version :: "32 word"
  sl_description :: ustring

datatype SkillSource = GlobalSkill | GroupSkill AgentGroupId

record Skill =
  sk_name :: ustring
  sk_description :: ustring
  sk_dir :: ustring
  sk_allowed_tools :: "ustring list option"
  sk_source :: SkillSource

definition readable_file :: "SkillEnv \<Rightarrow> skill_files \<Rightarrow> ustring \<Rightarrow> ustring option" where
  "readable_file env fs path = (if se_read_ok env path then fs path else None)"

definition listing_of :: "SkillEnv \<Rightarrow> skill_files \<Rightarrow> ustring \<Rightarrow> ustring \<times> bool \<Rightarrow> SkillListing option" where
  "listing_of env fs dir entry =
     (let (slug, is_dir) = entry
      in if \<not> is_dir then None
         else case readable_file env fs (skill_md (path_join dir slug)) of
                None \<Rightarrow> None
              | Some content \<Rightarrow>
                 (case parse_frontmatter env content of
                    Inl _ \<Rightarrow> None
                  | Inr fm \<Rightarrow>
                      if fm_name fm \<noteq> slug then None
                      else Some \<lparr>sl_name = fm_name fm, sl_version = effective_version fm, sl_description = fm_description fm\<rparr>))"

definition list_group_skills :: "SkillEnv \<Rightarrow> ustring \<Rightarrow> skill_files \<Rightarrow> SkillError + SkillListing list" where
  "list_group_skills env dir fs =
     (if \<not> se_exists env dir then Inr []
      else case se_entries env dir of
             None \<Rightarrow> Inl (SkillIo dir)
           | Some es \<Rightarrow> Inr (sort_key sl_name (List.map_filter (listing_of env fs dir) es)))"

text \<open>\<open>scan_dir\<close> gives the subdirectories in the order of their names.\<close>

definition scan_dir :: "SkillEnv \<Rightarrow> ustring \<Rightarrow> SkillError + ustring list" where
  "scan_dir env dir =
     (if \<not> se_exists env dir then Inr []
      else case se_entries env dir of
             None \<Rightarrow> Inl (SkillIo dir)
           | Some es \<Rightarrow> Inr (sort (map fst (filter snd es))))"

definition load_skill :: "SkillEnv \<Rightarrow> skill_files \<Rightarrow> SkillSource \<Rightarrow> ustring \<Rightarrow> ustring \<Rightarrow> SkillError + Skill" where
  "load_skill env fs source dir slug =
     (let skill_dir = path_join dir slug; path = skill_md skill_dir
      in case fs path of
           None \<Rightarrow> Inl (MissingSkillMd skill_dir)
         | Some body \<Rightarrow>
             if \<not> se_read_ok env path then Inl (SkillIo path)
             else
               (case parse_frontmatter env body of
                  Inl e \<Rightarrow> Inl e
                | Inr fm \<Rightarrow>
                   (case validate_skill_name (fm_name fm) of
                      Inl e \<Rightarrow> Inl e
                    | Inr _ \<Rightarrow>
                        if slug \<noteq> fm_name fm then Inl InvalidName
                        else Inr \<lparr>sk_name = fm_name fm, sk_description = fm_description fm, sk_dir = skill_dir,
                               sk_allowed_tools = fm_allowed_tools fm, sk_source = source\<rparr>)))"

text \<open>\<open>BTreeMap::insert\<close> on the entries in key order.\<close>

type_synonym registry = "(ustring \<times> Skill) list"

fun btree_insert :: "ustring \<Rightarrow> Skill \<Rightarrow> registry \<Rightarrow> registry" where
  "btree_insert k v [] = [(k, v)]"
| "btree_insert k v ((k', v') # r) =
     (if k < k' then (k, v) # (k', v') # r
      else if k = k' then (k, v) # r
      else (k', v') # btree_insert k v r)"

fun load_all :: "SkillEnv \<Rightarrow> skill_files \<Rightarrow> SkillSource \<Rightarrow> ustring \<Rightarrow> ustring list \<Rightarrow> registry \<Rightarrow> SkillError + registry" where
  "load_all env fs source dir [] r = Inr r"
| "load_all env fs source dir (slug # slugs) r =
     (case load_skill env fs source dir slug of
        Inl e \<Rightarrow> Inl e
      | Inr sk \<Rightarrow> load_all env fs source dir slugs (btree_insert (sk_name sk) sk r))"

definition scan_into :: "SkillEnv \<Rightarrow> skill_files \<Rightarrow> SkillSource \<Rightarrow> ustring \<Rightarrow> registry \<Rightarrow> SkillError + registry" where
  "scan_into env fs source dir r =
     (case scan_dir env dir of Inl e \<Rightarrow> Inl e | Inr slugs \<Rightarrow> load_all env fs source dir slugs r)"

definition scan_registry ::
  "SkillEnv \<Rightarrow> skill_files \<Rightarrow> ustring \<Rightarrow> (AgentGroupId \<times> ustring) option \<Rightarrow> SkillError + registry" where
  "scan_registry env fs global_dir overrides =
     (case scan_into env fs GlobalSkill global_dir [] of
        Inl e \<Rightarrow> Inl e
      | Inr r \<Rightarrow>
         (case overrides of
            None \<Rightarrow> Inr r
          | Some (ag, dir) \<Rightarrow> scan_into env fs (GroupSkill ag) dir r))"

definition select_relevant :: "SkillEnv \<Rightarrow> registry \<Rightarrow> ustring \<Rightarrow> nat \<Rightarrow> Skill list" where
  "select_relevant env r query limit =
     (if trim query = [] then map snd r
      else case se_rank env (map (\<lambda>(k, s). (sk_name s, sk_description s)) r) query of
             Some names \<Rightarrow> List.map_filter (map_of r) (take limit names)
           | None \<Rightarrow> map snd r)"

datatype SkillsSelection = SelectAll | SelectExplicit "ustring list" | SelectRelevant ustring nat

fun list_for_group :: "SkillEnv \<Rightarrow> registry \<Rightarrow> SkillsSelection \<Rightarrow> Skill list" where
  "list_for_group env r SelectAll = map snd r"
| "list_for_group env r (SelectExplicit names) = List.map_filter (map_of r) names"
| "list_for_group env r (SelectRelevant query limit) = select_relevant env r query limit"

definition read_skill_body :: "SkillEnv \<Rightarrow> skill_files \<Rightarrow> Skill \<Rightarrow> SkillError + ustring" where
  "read_skill_body env fs sk =
     (case readable_file env fs (skill_md (sk_dir sk)) of
        None \<Rightarrow> Inl (SkillIo (skill_md (sk_dir sk)))
      | Some raw \<Rightarrow> Inr (skip_frontmatter raw))"

section \<open>The tools a skill allows\<close>

definition TOOL_ALIASES :: "(string list \<times> string list) list" where
  "TOOL_ALIASES =
     [([''read'', ''read_file'', ''readfile''], [''read_file'']),
      ([''view'', ''view_image'', ''viewimage''], [''view_image'']),
      ([''write'', ''write_file'', ''writefile''], [''write_file'']),
      ([''edit'', ''edit_file'', ''str_replace'', ''stredit''], [''edit_file'', ''multi_edit'', ''apply_patch'']),
      ([''multiedit'', ''multi_edit''], [''multi_edit'']),
      ([''applypatch'', ''apply_patch''], [''apply_patch'']),
      ([''copy'', ''copy_file'', ''copyfile''], [''copy_file'']),
      ([''bash'', ''shell'', ''sh'', ''exec''], [''shell'']),
      ([''glob''], [''glob'']),
      ([''grep'', ''search''], [''grep'']),
      ([''websearch'', ''web_search''], [''web_search'']),
      ([''webfetch'', ''web_fetch'', ''fetch''], [''web_fetch'']),
      ([''gitblame'', ''git_blame''], [''git_blame'']),
      ([''gitdiff'', ''git_diff''], [''git_diff'']),
      ([''gitlog'', ''git_log''], [''git_log'']),
      ([''gitstatus'', ''git_status''], [''git_status'']),
      ([''task'', ''explore''], [''explore'']),
      ([''create_agent'', ''createagent''], [''create_agent'']),
      ([''send_message'', ''sendmessage''], [''send_message'']),
      ([''send_file'', ''sendfile''], [''send_file''])]"

definition aliases_for :: "ustring \<Rightarrow> ustring list" where
  "aliases_for raw =
     (let lower = map ascii_lower (trim raw)
      in case find (\<lambda>(names, _). lower \<in> lit ` set names) TOOL_ALIASES of
           Some (_, tools) \<Rightarrow> map lit tools
         | None \<Rightarrow> [])"

definition normalized :: "ustring \<Rightarrow> ustring list" where
  "normalized name =
     (if aliases_for name = [] then (let lc = map ascii_lower (trim name) in if lc = [] then [] else [lc])
      else aliases_for name)"

definition normalize_tools :: "ustring list \<Rightarrow> ustring list" where
  "normalize_tools raw = fold (\<lambda>name out. push_unseen (normalized name) out) raw []"

definition allowed_tool_names :: "Skill \<Rightarrow> ustring list option" where
  "allowed_tool_names sk = map_option normalize_tools (sk_allowed_tools sk)"

end
