(* ===== verification/Approvals.thy ===== *)
theory Approvals
  imports Users Config_Apply Autonomy_Gate Skills
begin

text \<open>
  Requests that need a human: the table of pending approvals with its append-only log of decisions
  (\<open>copperclaw-db/src/tables/pending_approvals.rs\<close>), and the state of the host that resolving a request
  changes. An approval id is a number. Outside the model are the clock, fresh ids, the ids of the referenced
  tables, the parsing of ids and timestamps, the canonical form of a path and the outcome of a file write:
  fields of \<open>ApproveEnv\<close>.
\<close>

type_synonym ApprovalId = nat

section \<open>pending_approvals\<close>

definition DEFAULT_APPROVAL_TTL :: duration where "DEFAULT_APPROVAL_TTL = 3600000"

datatype ApprovalStatus = ApPending | ApApproved | ApDenied | ApExpired | ApRevoked

fun approval_status_as_str :: "ApprovalStatus \<Rightarrow> ustring" where
  "approval_status_as_str ApPending = lit ''pending''"
| "approval_status_as_str ApApproved = lit ''approved''"
| "approval_status_as_str ApDenied = lit ''denied''"
| "approval_status_as_str ApExpired = lit ''expired''"
| "approval_status_as_str ApRevoked = lit ''revoked''"

definition approval_status_parse :: "ustring \<Rightarrow> ApprovalStatus option" where
  "approval_status_parse s =
     (if s = lit ''pending'' then Some ApPending
      else if s = lit ''approved'' then Some ApApproved
      else if s = lit ''denied'' then Some ApDenied
      else if s = lit ''expired'' then Some ApExpired
      else if s = lit ''revoked'' then Some ApRevoked
      else None)"

interpretation approval_status: wire_enum approval_status_as_str approval_status_parse
proof
  show "approval_status_parse (approval_status_as_str e) = Some e" for e
    by (cases e) (simp_all add: approval_status_parse_def)
  show "approval_status_as_str e = s" if "approval_status_parse s = Some e" for s e
    using that by (auto simp: approval_status_parse_def split: if_splits)
qed

definition approval_is_terminal :: "ApprovalStatus \<Rightarrow> bool" where
  "approval_is_terminal s \<longleftrightarrow> s \<noteq> ApPending"

datatype DecisionOutcome = DecApprove | DecDeny | DecExpire | DecRevoke

fun decision_outcome_as_str :: "DecisionOutcome \<Rightarrow> ustring" where
  "decision_outcome_as_str DecApprove = lit ''approve''"
| "decision_outcome_as_str DecDeny = lit ''deny''"
| "decision_outcome_as_str DecExpire = lit ''expire''"
| "decision_outcome_as_str DecRevoke = lit ''revoke''"

record PendingApproval =
  pa_id :: ApprovalId
  pa_session_id :: "SessionId option"
  pa_request_id :: ustring
  pa_action :: ustring
  pa_payload :: json
  pa_created_at :: instant
  pa_agent_group_id :: "AgentGroupId option"
  pa_channel_type :: "ChannelType option"
  pa_platform_id :: "ustring option"
  pa_platform_message_id :: "ustring option"
  pa_expires_at :: "instant option"
  pa_status :: ApprovalStatus
  pa_title :: ustring
  pa_options :: "ustring list"

definition approval_is_expired_at :: "PendingApproval \<Rightarrow> instant \<Rightarrow> bool" where
  "approval_is_expired_at a now \<longleftrightarrow> (case pa_expires_at a of Some e \<Rightarrow> e \<le> now | None \<Rightarrow> False)"

definition is_actionable_at :: "PendingApproval \<Rightarrow> instant \<Rightarrow> bool" where
  "is_actionable_at a now \<longleftrightarrow> pa_status a = ApPending \<and> \<not> approval_is_expired_at a now"

record ApprovalDecision =
  de_id :: int
  de_approval_id :: ApprovalId
  de_action :: ustring
  de_outcome :: DecisionOutcome
  de_decided_by :: ustring
  de_reason :: "ustring option"
  de_decided_at :: instant

record UpsertPendingApproval =
  ua_session_id :: "SessionId option"
  ua_request_id :: ustring
  ua_action :: ustring
  ua_payload :: json
  ua_agent_group_id :: "AgentGroupId option"
  ua_channel_type :: "ChannelType option"
  ua_platform_id :: "ustring option"
  ua_platform_message_id :: "ustring option"
  ua_expires_at :: "instant option"
  ua_title :: ustring
  ua_options :: "ustring list"

section \<open>The state of the host\<close>

record ApprovalHost =
  ah_approvals :: "PendingApproval list"
  ah_decisions :: "ApprovalDecision list"
  ah_next_decision :: int
  ah_users :: "User list"
  ah_roles :: "UserRole list"
  ah_messaging_groups :: "MessagingGroup list"
  ah_configs :: "ContainerConfig list"
  ah_grants :: "TaskGrant list"
  ah_dirs :: "ustring \<Rightarrow> SessionDir"
  ah_skills :: skill_files

record ApproveEnv =
  ae_now :: instant
  ae_uuid5 :: "ustring \<Rightarrow> UserId"
  ae_uuid :: "ustring \<Rightarrow> ApprovalId option"
  ae_agent_groups :: "AgentGroupId list"
  ae_sessions :: "SessionId list"
  ae_tasks :: "ustring list"
  ae_fresh_mg :: MessagingGroupId
  ae_fresh_grant :: ustring
  ae_parse_time :: "ustring \<Rightarrow> instant option"
  ae_canonicalize :: "ustring \<Rightarrow> ustring option"
  ae_write_ok :: bool
  ae_skill_env :: SkillEnv

type_synonym 'a approving = "(ApprovalHost, ErrorPayload, 'a) stateful"

definition bad_request :: ErrorPayload where "bad_request = \<lparr>ep_code = lit ''bad_request''\<rparr>"
definition conflict :: ErrorPayload where "conflict = \<lparr>ep_code = lit ''conflict''\<rparr>"
definition internal_error :: ErrorPayload where "internal_error = \<lparr>ep_code = lit ''internal''\<rparr>"

section \<open>Table operations\<close>

definition get_approval :: "PendingApproval list \<Rightarrow> ApprovalId \<Rightarrow> DbError + PendingApproval" where
  "get_approval t i = (case find (\<lambda>a. pa_id a = i) t of Some a \<Rightarrow> Inr a | None \<Rightarrow> Inl NotFound)"

definition list_approvals :: "PendingApproval list \<Rightarrow> ustring option \<Rightarrow> ApprovalStatus option \<Rightarrow> PendingApproval list" where
  "list_approvals t action status =
     order_by pa_created_at (filter (\<lambda>a. (case action of Some x \<Rightarrow> pa_action a = x | None \<Rightarrow> True) \<and>
       (case status of Some s \<Rightarrow> pa_status a = s | None \<Rightarrow> True)) t)"

text \<open>
  \<open>upsert\<close>: the partial unique index covers pending rows only, so a settled row is never touched. The
  referenced session and agent group must exist.
\<close>

definition pending_key :: "UpsertPendingApproval \<Rightarrow> PendingApproval \<Rightarrow> bool" where
  "pending_key q a \<longleftrightarrow> pa_request_id a = ua_request_id q \<and> pa_action a = ua_action q \<and> pa_status a = ApPending"

definition set_approval_cols :: "UpsertPendingApproval \<Rightarrow> instant \<Rightarrow> PendingApproval \<Rightarrow> PendingApproval" where
  "set_approval_cols q expires a =
     a\<lparr>pa_session_id := ua_session_id q, pa_payload := ua_payload q, pa_agent_group_id := ua_agent_group_id q,
       pa_channel_type := ua_channel_type q, pa_platform_id := ua_platform_id q,
       pa_platform_message_id := ua_platform_message_id q, pa_expires_at := Some expires,
       pa_title := ua_title q, pa_options := ua_options q\<rparr>"

definition new_approval :: "UpsertPendingApproval \<Rightarrow> ApprovalId \<Rightarrow> instant \<Rightarrow> instant \<Rightarrow> PendingApproval" where
  "new_approval q i now expires =
     \<lparr>pa_id = i, pa_session_id = ua_session_id q, pa_request_id = ua_request_id q, pa_action = ua_action q,
      pa_payload = ua_payload q, pa_created_at = now, pa_agent_group_id = ua_agent_group_id q,
      pa_channel_type = ua_channel_type q, pa_platform_id = ua_platform_id q,
      pa_platform_message_id = ua_platform_message_id q, pa_expires_at = Some expires, pa_status = ApPending,
      pa_title = ua_title q, pa_options = ua_options q\<rparr>"

definition upsert_approval ::
  "SessionId list \<Rightarrow> AgentGroupId list \<Rightarrow> PendingApproval list \<Rightarrow> UpsertPendingApproval \<Rightarrow> ApprovalId \<Rightarrow> instant \<Rightarrow>
     DbError + (PendingApproval \<times> PendingApproval list)" where
  "upsert_approval sessions groups t q fresh now =
     (let expires = (case ua_expires_at q of Some e \<Rightarrow> e | None \<Rightarrow> now + DEFAULT_APPROVAL_TTL)
      in if (\<exists>s \<in> set_option (ua_session_id q). s \<notin> set sessions) \<or>
            (\<exists>g \<in> set_option (ua_agent_group_id q). g \<notin> set groups) then Inl ConstraintViolation
         else (let known = list_ex (pending_key q) t;
                   t' = (if known then map (\<lambda>a. if pending_key q a then set_approval_cols q expires a else a) t
                         else t @ [new_approval q fresh now expires])
               in if \<not> known \<and> fresh \<in> pa_id ` set t then Inl ConstraintViolation
                  else case find (pending_key q) t' of
                         None \<Rightarrow> Inl NotFound
                       | Some a \<Rightarrow> (case get_approval t' (pa_id a) of Inl e \<Rightarrow> Inl e | Inr b \<Rightarrow> Inr (b, t'))))"

definition update_approval_status ::
  "PendingApproval list \<Rightarrow> ApprovalId \<Rightarrow> ApprovalStatus \<Rightarrow> DbError + PendingApproval list" where
  "update_approval_status t i s =
     (let (n, t') = sql_update (\<lambda>a. pa_id a = i) (\<lambda>a. a\<lparr>pa_status := s\<rparr>) t
      in if n = 0 then Inl NotFound else Inr t')"

definition set_platform_message_id ::
  "PendingApproval list \<Rightarrow> ApprovalId \<Rightarrow> ustring \<Rightarrow> DbError + PendingApproval list" where
  "set_platform_message_id t i m =
     (let (n, t') = sql_update (\<lambda>a. pa_id a = i) (\<lambda>a. a\<lparr>pa_platform_message_id := Some m\<rparr>) t
      in if n = 0 then Inl NotFound else Inr t')"

text \<open>\<open>delete\<close>: the decisions of the row go with it.\<close>

definition delete_approval :: "ApprovalId \<Rightarrow> ApprovalHost \<Rightarrow> DbError + ApprovalHost" where
  "delete_approval i st =
     (let (n, t') = sql_delete (\<lambda>a. pa_id a = i) (ah_approvals st)
      in if n = 0 then Inl NotFound
         else Inr (st\<lparr>ah_approvals := t', ah_decisions := filter (\<lambda>d. de_approval_id d \<noteq> i) (ah_decisions st)\<rparr>))"

definition append_decision ::
  "ApprovalId \<Rightarrow> ustring \<Rightarrow> DecisionOutcome \<Rightarrow> ustring \<Rightarrow> ustring option \<Rightarrow> instant \<Rightarrow> ApprovalHost \<Rightarrow> ApprovalHost" where
  "append_decision i action outcome by reason now st =
     st\<lparr>ah_decisions := ah_decisions st @ [\<lparr>de_id = ah_next_decision st, de_approval_id = i, de_action = action,
          de_outcome = outcome, de_decided_by = by, de_reason = reason, de_decided_at = now\<rparr>],
        ah_next_decision := ah_next_decision st + 1\<rparr>"

definition record_decision ::
  "ApprovalId \<Rightarrow> ustring \<Rightarrow> DecisionOutcome \<Rightarrow> ustring \<Rightarrow> ustring option \<Rightarrow> instant \<Rightarrow> ApprovalHost \<Rightarrow>
     DbError + ApprovalHost" where
  "record_decision i action outcome by reason now st =
     (if i \<in> pa_id ` set (ah_approvals st) then Inr (append_decision i action outcome by reason now st)
      else Inl ConstraintViolation)"

definition list_decisions :: "ApprovalDecision list \<Rightarrow> ApprovalId option \<Rightarrow> int \<Rightarrow> ApprovalDecision list" where
  "list_decisions t approval limit =
     sql_limit limit (order_by_desc de_decided_at (order_by_desc de_id
       (case approval of Some i \<Rightarrow> filter (\<lambda>d. de_approval_id d = i) t | None \<Rightarrow> t)))"

text \<open>
  \<open>sweep_expired\<close>: the candidates are read first; each is flipped by an update guarded by its status, and the
  decision is logged when that update changed a row.
\<close>

definition sweep_candidates :: "PendingApproval list \<Rightarrow> instant \<Rightarrow> (ApprovalId \<times> ustring) list" where
  "sweep_candidates t now =
     map (\<lambda>a. (pa_id a, pa_action a)) (filter (\<lambda>a. pa_status a = ApPending \<and> approval_is_expired_at a now) t)"

definition expire_one :: "instant \<Rightarrow> ApprovalId \<times> ustring \<Rightarrow> ApprovalId list \<times> ApprovalHost \<Rightarrow> ApprovalId list \<times> ApprovalHost" where
  "expire_one now c acc =
     (let (swept, st) = acc;
          (n, t') = sql_update (\<lambda>a. pa_id a = fst c \<and> pa_status a = ApPending) (\<lambda>a. a\<lparr>pa_status := ApExpired\<rparr>) (ah_approvals st);
          st' = st\<lparr>ah_approvals := t'\<rparr>
      in if n = 1 then (swept @ [fst c], append_decision (fst c) (snd c) DecExpire (lit ''system:expiry'') None now st')
         else (swept, st'))"

definition sweep_expired_approvals :: "instant \<Rightarrow> ApprovalHost \<Rightarrow> ApprovalId list \<times> ApprovalHost" where
  "sweep_expired_approvals now st = fold (expire_one now) (sweep_candidates (ah_approvals st) now) ([], st)"

end
