(* ===== verification/Spec2Isabelle.thy ===== *)
theory Spec2Isabelle
  imports Tool_Dispatch Failover Router_Facts Dead_Letters Sweep_Claims Sweep_Tasks Sweep_Pass
    Image_Facts Pairing_Facts Approvals
begin

text \<open>
  A verification development of copperclaw, a host that connects chat channels to agents running in
  containers. All paths below are under \<open>src/crates\<close>.

  \<^bold>\<open>The program.\<close> The host receives messages from channel adapters, stores them in the inbound database of
  the session they belong to, and starts a container. In it the runner polls the inbound database, drives
  model turns, executes the tools the model calls, and writes its replies and system rows to the
  outbound database, which the host's delivery service reads, delivers, and records. The container is
  not trusted with credentials: external tools are executed by the host on the runner's request, a turn
  nobody is watching (a scheduled or heartbeat turn) takes an external action only under a grant an
  operator approved, and a turn whose context holds untrusted content needs a fresh approval.

  \<^bold>\<open>The theories.\<close>
  \<^item> \<open>Prelude\<close>: strings as lists of Unicode scalar values, the string functions of the Rust standard
    library the code uses, JSON values, wire enumerations (locale \<open>wire_enum\<close>); stateful code as functions
    to a result and a state (\<open>and_then\<close>, \<open>with_result\<close>) with the predicate \<open>always\<close> and the locale
    \<open>run_relation\<close>, which carries a relation between the states before and after through a composition.
  \<^item> \<open>Sql\<close>: the SQL statements the tables use, on lists of rows; the contracts \<open>primary_key\<close>,
    \<open>parity_sequence\<close> and \<open>upsert_by_key\<close>.
  \<^item> \<open>Message\<close>: \<open>copperclaw-types/src/message.rs\<close>, message kinds and rows, the base64 codec of attached files.
  \<^item> \<open>Policy\<close>: \<open>copperclaw-runner/src/policy.rs\<close>, the layered tool policy; its declarative
    specification \<open>policy_permits\<close> and the refinement.
  \<^item> \<open>Session_Db\<close>: \<open>copperclaw-db/src/tables/messages_in.rs\<close> and \<open>messages_out.rs\<close>, the two queues of a
    session. Each operation maps a table to a table and a result, or a \<open>DbError\<close> and no change.
  \<^item> \<open>Session_Acks\<close>: \<open>delivered.rs\<close> and \<open>processing_ack.rs\<close>, the delivery ledger (locale
    \<open>delivery_ledger\<close>) and the claims.
  \<^item> \<open>Task_Grants\<close>: \<open>task_grants.rs\<close>, capability grants, their budgets (locale \<open>allowance\<close>) and the read
    contract \<open>effective_grant\<close>.
  \<^item> \<open>Mcp_Relay\<close>: \<open>mcp_calls.rs\<close>, the runner's \<open>run/external_mcp.rs\<close> and \<open>run/preview.rs\<close>, and
    \<open>drain_mcp_calls\<close> of \<open>copperclaw-host-delivery/src/service.rs\<close>: the tables, the dispatch with its
    bounded poll, and the interleaving of both processes as the step relation \<open>relay_step\<close>.
  \<^item> \<open>Self_Mod\<close>: \<open>copperclaw-modules/src/self_mod.rs\<close>, validation of install requests.
  \<^item> \<open>Autonomy_Gate\<close>: the gate half of \<open>run/tool_dispatch.rs\<close>, the turn start of \<open>run/mod.rs\<close>, and the
    host's snapshot writer \<open>copperclaw-host/src/container_manager/tasks_snapshot.rs\<close>. The session
    directory is a record of the two files that carry authority into the container.
  \<^item> \<open>Tool_Dispatch\<close>: the rest of \<open>run/tool_dispatch.rs\<close>: \<open>invoke_tool\<close> on the runner's state, every
    branch, with tool handlers as a parameter (locale \<open>once_per_turn\<close> for the latched emissions).
  \<^item> \<open>Failover\<close>: \<open>copperclaw-providers/src/failover.rs\<close> and \<open>error.rs\<close>, fallback chains and provider
    health (locale \<open>circuit_breaker\<close>).
  \<^item> \<open>Fence\<close> and \<open>Splitter\<close>: \<open>copperclaw-channels/core/src/markdown/fence.rs\<close> and \<open>split.rs\<close>, the
    splitting of long replies (locale \<open>fence_scanner\<close>).
  \<^item> \<open>Slash_Commands\<close>, \<open>Inbound_Files\<close>, \<open>Central_Tables\<close>, \<open>Route_Gates\<close>, \<open>Router\<close>, \<open>Router_Facts\<close>:
    \<open>copperclaw-host-router/src\<close> and the central tables it reads and writes: the slash commands, the
    receipt of attached files, users, chats, wirings and sessions, the gates an event passes (size,
    rate, sender, engagement), and \<open>Router::route\<close> with its fan out to the wired agents.
  \<^item> \<open>Error_Card\<close>, \<open>Delivery\<close>, \<open>Delivery_Facts\<close>, \<open>Delivery_Resume\<close>, \<open>Dead_Letters\<close>:
    \<open>copperclaw-host-delivery/src\<close>: one delivery pass over a session's due rows, with its dispatch by
    kind, its splitting into parts, its retries with back-off, its resumption after a restart and the
    table of dropped messages. Adapters, the system actions, the checklist messages and the agent to
    agent handler are fields of \<open>DeliveryConfig\<close>; what is assumed of them is \<open>arms_contract\<close>.

  \<^bold>\<open>What is shown.\<close> Authority: a dispatched tool call is permitted by the policy, and on an autonomous
  turn by a live approved grant of the turn's own task, from the central table through the snapshot to the
  call; a refused call has no effect; a turn spends at most one fire; authority that ended never returns.
  Queues: ids and sequence numbers stay unique, a finished message is never served again, steering reads
  exactly the new rows, retries and redeliveries are absorbed. Relay: under the stated conditions each
  external call is executed once and its answer kept until it is read, and traces show that the
  conditions are needed. Failover: selection never goes dark and follows the documented preference.
  Replies: splitting returns for every positive cap, respects it and loses no visible character.
  Attachments survive encoding. Router: an event reaches an agent only through every gate, each event is
  accounted for once, and a wake is sent only for a session that holds a message to answer. Delivery: a
  pass accounts for every due row and sends only open ones, the attempt budget holds across restarts, a
  part the channel accepted is not sent again and the parts keep their order, the delay stays within its
  bounds, and a row that is given up leaves a dead letter or a receipt. Where the code departs from its documentation, a lemma with a
  concrete input says so.

  \<^bold>\<open>Modelling choices.\<close> Instants and durations are integers in the unit the code compares; the clock, fresh
  ids and the outcome of file and network operations are arguments. \<open>i64\<close> sequence numbers are
  \<open>int\<close>: the counters grow by two per message and cannot reach the bound in practice. Saturating and
  wrapping arithmetic on 32 bits is written out where the code relies on it (\<open>saturating_succ32\<close>, the
  base64 words). Loops are structural or have a termination proof; the splitter's main loop, which does
  not return for a cap of zero, is a partial function and is proved to return for every positive cap;
  the re-splitting by bytes carries the code's own depth bound. Logging is left out; metric increments
  are kept as labels.

  \<^bold>\<open>Not modelled.\<close> Channel adapters, provider clients, container runtimes, the command line, setup and
  tool bodies, which are input and output around external systems. The sweep, the system
  actions of the delivery service, compaction and the remaining tables are left to extensions, in that order.
\<close>

end
